(* ===== verification/Prelude.thy ===== *)
theory Prelude
  imports Main "HOL-Library.Multiset" "HOL-Library.Sublist"
begin

text \<open>
  Generic lemmas and interfaces shared by the components of the frontend model: the two
  fact collections \<open>model_defs\<close> (definitions a proof may unfold) and \<open>list_facts\<close>
  (facts about the list idioms of the source), runs of a component over a list of events
  and the interface \<open>state_machine\<close> that lifts a step invariant to runs, and the
  interface \<open>membership_toggle\<close> of the "add it if absent, drop it if present" idiom that
  several stores and widgets share.
\<close>

named_theorems model_defs "definitions of the model that component proofs unfold"
named_theorems list_facts "facts on find, map and filter as the source uses them"

subsection \<open>List idioms\<close>

text \<open>JavaScript's \<open>Array.prototype.find\<close> is \<^const>\<open>List.find\<close>; \<open>some\<close> and
  \<open>every\<close> are \<^const>\<open>list_ex\<close> and \<^const>\<open>list_all\<close>; \<open>slice(a, b)\<close> with
  \<open>0 \<le> a \<le> b\<close> is \<open>take (b - a) (drop a xs)\<close>.\<close>

lemma find_None_filter [list_facts]: "List.find P xs = None \<longleftrightarrow> filter P xs = []"
  by (induction xs) auto

lemma find_Some_mem [list_facts]: "List.find P xs = Some x \<Longrightarrow> x \<in> set xs \<and> P x"
  by (induction xs) (auto split: if_splits)

lemma find_unique [list_facts]:
  "distinct (map f xs) \<Longrightarrow> x \<in> set xs \<Longrightarrow> List.find (\<lambda>y. f y = f x) xs = Some x"
  by (induction xs) auto

lemma distinct_map_filter_key [list_facts, intro]:
  "distinct (map f xs) \<Longrightarrow> distinct (map f (filter P xs))"
  by (rule distinct_map_filter)

lemma map_cond_key [list_facts]:
  "(\<And>x. f (g x) = f x) \<Longrightarrow> map f (map (\<lambda>x. if P x then g x else x) xs) = map f xs"
  by (induction xs) auto

lemma filter_neq_id [list_facts, simp]: "a \<notin> set xs \<Longrightarrow> filter (\<lambda>x. x \<noteq> a) xs = xs"
  by (induction xs) auto

lemma length_drop_key [list_facts]:
  "distinct (map f xs) \<Longrightarrow> a \<in> f ` set xs \<Longrightarrow> length (filter (\<lambda>x. f x \<noteq> a) xs) + 1 = length xs"
proof (induction xs)
  case (Cons x xs)
  show ?case
  proof (cases "f x = a")
    case True
    with Cons.prems(1) have "filter (\<lambda>y. f y \<noteq> a) xs = xs" by (auto simp: filter_id_conv image_iff)
    with True show ?thesis by simp
  qed (use Cons in auto)
qed simp

subsection \<open>Runs of a component\<close>

text \<open>A component reacts to events one at a time (the browser's event loop runs every
  handler to its end), so an execution is the fold of its step over a list of events.\<close>

definition run :: "('s \<Rightarrow> 'e \<Rightarrow> 's) \<Rightarrow> 's \<Rightarrow> 'e list \<Rightarrow> 's" where
  "run step s es = foldl step s es"

lemma run_Nil [simp]: "run step s [] = s"
  by (simp add: run_def)

lemma run_Cons [simp]: "run step s (e # es) = run step (step s e) es"
  by (simp add: run_def)

lemma run_append [simp]: "run step s (es @ fs) = run step (run step s es) fs"
  by (simp add: run_def)

locale state_machine =
  fixes init :: "'s" and step :: "'s \<Rightarrow> 'e \<Rightarrow> 's" and inv :: "'s \<Rightarrow> bool"
  assumes inv_init: "inv init"
    and inv_step: "inv s \<Longrightarrow> inv (step s e)"
begin

lemma inv_run_from: "inv s \<Longrightarrow> inv (run step s es)"
  by (induction es arbitrary: s) (auto intro: inv_step)

lemma inv_run: "inv (run step init es)"
  by (rule inv_run_from [OF inv_init])

end

subsection \<open>Toggling membership\<close>

locale membership_toggle =
  fixes member :: "'s \<Rightarrow> 'a \<Rightarrow> bool" and toggle :: "'a \<Rightarrow> 's \<Rightarrow> 's"
  assumes member_toggle: "member (toggle a s) b = (if b = a then \<not> member s a else member s b)"
begin

lemma toggle_flips: "member (toggle a s) a \<longleftrightarrow> \<not> member s a"
  by (simp add: member_toggle)

lemma toggle_twice: "member (toggle a (toggle a s)) b = member s b"
  by (simp add: member_toggle)

lemma toggle_commute: "member (toggle a (toggle b s)) c = member (toggle b (toggle a s)) c"
  by (auto simp: member_toggle)

lemma toggle_run:
  "member (foldl (\<lambda>s a. toggle a s) s as) b = (member s b \<noteq> odd (count_list as b))"
  by (induction as arbitrary: s) (auto simp: member_toggle)

end

end
