(* ===== verification/Js_Number.thy ===== *)
theory Js_Number
  imports Complex_Main Prelude "HOL-Library.Log_Nat"
begin

text \<open>
  JavaScript numbers. A finite number is modelled by the rational it denotes, and each
  arithmetic operation by the exact rational operation followed by \<open>fl\<close>, the IEEE 754
  rounding to nearest with ties to even at 53 bits of precision (the exponent range is
  not bounded: the model has no overflow to infinity and no subnormal numbers, which the
  prices, quantities and scores of the frontend do not reach). \<open>fl\<close> is computed exactly,
  so a whole calculation evaluates to the same number as the code. The interfaces
  \<open>rounding\<close> and \<open>symmetric_rounding\<close> are the laws the components rely on;
  \<open>fl\<close> satisfies them.

  \<open>toFixed2\<close> is \<open>parseFloat(x.toFixed(2))\<close>: the multiple of one cent nearest to the
  exact value of the number (the larger one on a tie), read back as a number.
\<close>

subsection \<open>Rounding to a double\<close>

definition pow2 :: "int \<Rightarrow> rat" where
  "pow2 e = (if 0 \<le> e then 2 ^ nat e else 1 / 2 ^ nat (- e))"

definition ilog2 :: "rat \<Rightarrow> int" where
  "ilog2 x = (if 1 \<le> x then bitlen \<lfloor>x\<rfloor> - 1 else - bitlen (\<lceil>1 / x\<rceil> - 1))"

definition round_half_even :: "rat \<Rightarrow> int" where
  "round_half_even x =
     (let f = \<lfloor>x\<rfloor>; r = x - of_int f
      in if r < 1 / 2 then f else if r > 1 / 2 then f + 1 else if even f then f else f + 1)"

definition fl_pos :: "rat \<Rightarrow> rat" where
  "fl_pos x = (let e = ilog2 x - 52 in of_int (round_half_even (x / pow2 e)) * pow2 e)"

definition fl :: "rat \<Rightarrow> rat" where
  "fl x = (if x = 0 then 0 else if 0 < x then fl_pos x else - fl_pos (- x))"

lemma pow2_pos [simp]: "0 < pow2 e"
  by (simp add: pow2_def)

lemma pow2_nonneg [simp]: "0 \<le> pow2 e" and pow2_neq0 [simp]: "pow2 e \<noteq> 0"
  using pow2_pos [of e] by linarith+

lemma pow2_Suc: "pow2 (e + 1) = 2 * pow2 e"
proof (cases "0 \<le> e")
  case True
  then show ?thesis by (simp add: pow2_def nat_add_distrib)
next
  case False
  then have "nat (- e) = Suc (nat (- (e + 1)))" by simp
  then show ?thesis using False by (cases "e = -1") (simp_all add: pow2_def)
qed

lemma pow2_add_nat: "pow2 (e + int n) = 2 ^ n * pow2 e"
proof (induction n)
  case (Suc n)
  have "e + int (Suc n) = (e + int n) + 1" by simp
  then have "pow2 (e + int (Suc n)) = pow2 ((e + int n) + 1)" by (simp only:)
  then show ?case using Suc by (simp add: pow2_Suc)
qed simp

lemma pow2_le: "a \<le> b \<Longrightarrow> pow2 a \<le> pow2 b"
proof -
  assume "a \<le> b"
  then obtain n where "b = a + int n" using zle_iff_zadd by blast
  moreover have "(1::rat) \<le> 2 ^ n" by simp
  ultimately show ?thesis using pow2_add_nat [of a n] pow2_pos [of a] by simp
qed

lemma pow2_0 [simp]: "pow2 0 = 1" by (simp add: pow2_def)

lemma bitlen_gt_0: "1 \<le> n \<Longrightarrow> 0 < bitlen n"
  using compute_bitlen [of n] bitlen_nonneg [of "n div 2"] by simp

lemma ilog2_bounds:
  assumes "0 < x"
  shows "pow2 (ilog2 x) \<le> x \<and> x < pow2 (ilog2 x + 1)"
proof (cases "1 \<le> x")
  case True
  then have f: "1 \<le> \<lfloor>x\<rfloor>" by simp
  have b: "0 < bitlen \<lfloor>x\<rfloor>" by (rule bitlen_gt_0) (use f in simp)
  have "2 ^ nat (bitlen \<lfloor>x\<rfloor> - 1) \<le> \<lfloor>x\<rfloor>" and u: "\<lfloor>x\<rfloor> < 2 ^ nat (bitlen \<lfloor>x\<rfloor>)"
    using bitlen_bounds [of "\<lfloor>x\<rfloor>"] f by auto
  then have "(2::rat) ^ nat (bitlen \<lfloor>x\<rfloor> - 1) \<le> x"
    by (simp add: le_floor_iff)
  moreover have "x < 2 ^ nat (bitlen \<lfloor>x\<rfloor>)"
    using u by (simp add: floor_less_iff)
  ultimately show ?thesis using True b by (simp add: ilog2_def pow2_def)
next
  case False
  define y where "y = 1 / x"
  define c where "c = \<lceil>y\<rceil> - 1"
  have y: "1 < y" using False assms by (simp add: y_def)
  then have c: "1 \<le> c" by (simp add: c_def)
  have b: "0 < bitlen c" by (rule bitlen_gt_0) (use c in simp)
  define k where "k = nat (bitlen c)"
  have "2 ^ nat (bitlen c - 1) \<le> c" and u: "c < 2 ^ k"
    using bitlen_bounds [of c] c unfolding k_def by auto
  then have "2 ^ nat (bitlen c - 1) < \<lceil>y\<rceil>" by (simp add: c_def)
  then have lo: "(2::rat) ^ nat (bitlen c - 1) < y" by (simp add: less_ceiling_iff)
  have "\<lceil>y\<rceil> \<le> 2 ^ k" using u by (simp add: c_def)
  then have hi: "y \<le> 2 ^ k" by (simp add: ceiling_le_iff)
  have il: "ilog2 x = - bitlen c" using False by (simp add: ilog2_def c_def y_def)
  have 1: "pow2 (ilog2 x) \<le> x"
    using hi assms b by (simp add: il pow2_def k_def y_def field_simps)
  have "pow2 (ilog2 x + 1) = 1 / 2 ^ nat (bitlen c - 1)"
    using b by (cases "bitlen c = 1") (simp_all add: il pow2_def)
  moreover have "x < 1 / 2 ^ nat (bitlen c - 1)"
    using lo assms by (simp add: y_def field_simps)
  ultimately show ?thesis using 1 by simp
qed

lemma ilog2_mono: "0 < x \<Longrightarrow> x \<le> y \<Longrightarrow> ilog2 x \<le> ilog2 y"
proof (rule ccontr)
  assume "0 < x" "x \<le> y" and n: "\<not> ilog2 x \<le> ilog2 y"
  then have "pow2 (ilog2 y + 1) \<le> pow2 (ilog2 x)" by (intro pow2_le) simp
  then show False
    using ilog2_bounds [of x] ilog2_bounds [of y] \<open>0 < x\<close> \<open>x \<le> y\<close> by linarith
qed

lemma round_half_even_int [simp]: "round_half_even (of_int n) = n"
  by (simp add: round_half_even_def)

lemma round_half_even_near: "of_int (round_half_even x) \<le> x + 1/2 \<and> x - 1/2 \<le> of_int (round_half_even x)"
proof -
  have "of_int \<lfloor>x\<rfloor> \<le> x" "x < of_int \<lfloor>x\<rfloor> + 1" by linarith+
  then show ?thesis unfolding round_half_even_def Let_def
    by (simp split: if_split) linarith
qed

lemma round_half_even_mono:
  assumes "x \<le> y" shows "round_half_even x \<le> round_half_even y"
proof (cases "\<lfloor>x\<rfloor> = \<lfloor>y\<rfloor>")
  case True
  with assms show ?thesis by (auto simp: round_half_even_def Let_def)
next
  case False
  with assms have "\<lfloor>x\<rfloor> + 1 \<le> \<lfloor>y\<rfloor>" using floor_mono [OF assms] by simp
  then show ?thesis by (auto simp: round_half_even_def Let_def)
qed

lemma fl_pos_bounds:
  assumes "0 < x"
  shows "pow2 (ilog2 x) \<le> fl_pos x \<and> fl_pos x \<le> pow2 (ilog2 x + 1)"
proof -
  define e where "e = ilog2 x - 52"
  have lo: "pow2 (ilog2 x) = of_int (2 ^ 52) * pow2 e"
    using pow2_add_nat [of e 52] by (simp add: e_def)
  have hi: "pow2 (ilog2 x + 1) = of_int (2 ^ 53) * pow2 e"
    using pow2_add_nat [of e 53] by (simp add: e_def add.commute [of 1])
  have "of_int (2 ^ 52) * pow2 e \<le> x" and "x \<le> of_int (2 ^ 53) * pow2 e"
    using ilog2_bounds [OF assms] unfolding lo hi by simp_all
  then have "of_int (2 ^ 52) \<le> x / pow2 e" and "x / pow2 e \<le> of_int (2 ^ 53)"
    by (simp_all only: pos_le_divide_eq [OF pow2_pos] pos_divide_le_eq [OF pow2_pos])
  then have "2 ^ 52 \<le> round_half_even (x / pow2 e)" and "round_half_even (x / pow2 e) \<le> 2 ^ 53"
    using round_half_even_mono round_half_even_int by metis+
  then have "of_int (2 ^ 52) \<le> (of_int (round_half_even (x / pow2 e)) :: rat)"
    and "(of_int (round_half_even (x / pow2 e)) :: rat) \<le> of_int (2 ^ 53)"
    by (simp_all only: of_int_le_iff)
  then show ?thesis
    unfolding lo hi fl_pos_def Let_def e_def [symmetric]
    by (auto intro: mult_right_mono)
qed

lemma fl_pos_mono:
  assumes "0 < x" "x \<le> y" shows "fl_pos x \<le> fl_pos y"
proof (cases "ilog2 x = ilog2 y")
  case True
  have "x / pow2 (ilog2 y - 52) \<le> y / pow2 (ilog2 y - 52)"
    using assms by (simp add: divide_right_mono)
  then have "round_half_even (x / pow2 (ilog2 y - 52)) \<le> round_half_even (y / pow2 (ilog2 y - 52))"
    by (rule round_half_even_mono)
  then show ?thesis by (simp add: fl_pos_def Let_def True)
next
  case False
  with ilog2_mono [OF assms] have "pow2 (ilog2 x + 1) \<le> pow2 (ilog2 y)"
    by (intro pow2_le) simp
  then show ?thesis using fl_pos_bounds [of x] fl_pos_bounds [of y] assms by linarith
qed

lemma fl_pos_pos: "0 < x \<Longrightarrow> 0 < fl_pos x"
  using fl_pos_bounds [of x] pow2_pos [of "ilog2 x"] by linarith

lemma fl_0 [simp]: "fl 0 = 0" by (simp add: fl_def)

lemma fl_minus: "fl (- x) = - fl x"
  by (auto simp: fl_def)

lemma fl_mono: assumes "x \<le> y" shows "fl x \<le> fl y"
proof -
  consider "x < 0" "y < 0" | "x \<le> 0" "0 \<le> y" | "0 < x" "0 < y" using assms by linarith
  then show ?thesis
  proof cases
    case 1
    then have "fl_pos (- y) \<le> fl_pos (- x)" using assms by (intro fl_pos_mono) auto
    then show ?thesis using 1 by (simp add: fl_def)
  next
    case 2
    then show ?thesis using fl_pos_pos [of "- x"] fl_pos_pos [of y] by (auto simp: fl_def)
  next
    case 3
    then show ?thesis using assms by (simp add: fl_def fl_pos_mono)
  qed
qed

lemma fl_pos_idem: assumes "0 < x" shows "fl_pos (fl_pos x) = fl_pos x"
proof (cases "fl_pos x = pow2 (ilog2 x + 1)")
  case False
  define e where "e = ilog2 x - 52"
  have b: "pow2 (ilog2 x) \<le> fl_pos x" "fl_pos x < pow2 (ilog2 x + 1)"
    using fl_pos_bounds [OF assms] False by auto
  have p: "0 < fl_pos x" by (rule fl_pos_pos [OF assms])
  have "ilog2 (fl_pos x) = ilog2 x"
  proof (rule antisym)
    show "ilog2 (fl_pos x) \<le> ilog2 x"
    proof (rule ccontr)
      assume "\<not> ?thesis"
      then have "pow2 (ilog2 x + 1) \<le> pow2 (ilog2 (fl_pos x))" by (intro pow2_le) simp
      then show False using b ilog2_bounds [OF p] by linarith
    qed
    show "ilog2 x \<le> ilog2 (fl_pos x)"
    proof (rule ccontr)
      assume "\<not> ?thesis"
      then have "pow2 (ilog2 (fl_pos x) + 1) \<le> pow2 (ilog2 x)" by (intro pow2_le) simp
      then show False using b ilog2_bounds [OF p] by linarith
    qed
  qed
  then show ?thesis by (simp add: fl_pos_def Let_def)
next
  case True
  define k where "k = ilog2 x + 1"
  have "ilog2 (pow2 k) = k"
  proof (rule antisym)
    show "ilog2 (pow2 k) \<le> k"
    proof (rule ccontr)
      assume "\<not> ?thesis"
      then have "pow2 (k + 1) \<le> pow2 (ilog2 (pow2 k))" by (intro pow2_le) simp
      then show False using ilog2_bounds [of "pow2 k"] pow2_pos [of k] by (simp add: pow2_Suc)
    qed
    show "k \<le> ilog2 (pow2 k)"
    proof (rule ccontr)
      assume "\<not> ?thesis"
      then have "pow2 (ilog2 (pow2 k) + 1) \<le> pow2 k" by (intro pow2_le) simp
      then show False using ilog2_bounds [of "pow2 k"] by simp
    qed
  qed
  moreover have "pow2 k / pow2 (k - 52) = of_int (2 ^ 52)"
    using pow2_add_nat [of "k - 52" 52] by (simp add: field_simps)
  ultimately have "fl_pos (pow2 k) = of_int (round_half_even (of_int (2 ^ 52))) * pow2 (k - 52)"
    unfolding fl_pos_def Let_def by simp
  also have "\<dots> = pow2 k"
    unfolding round_half_even_int using pow2_add_nat [of "k - 52" 52] by simp
  finally show ?thesis using True by (simp add: k_def)
qed

lemma fl_idem [simp]: "fl (fl x) = fl x"
  using fl_pos_pos [of x] fl_pos_pos [of "- x"] fl_pos_idem [of x] fl_pos_idem [of "- x"]
  by (auto simp: fl_def)


subsection \<open>The laws of rounding\<close>

locale rounding =
  fixes rnd :: "rat \<Rightarrow> rat"
  assumes rnd_mono: "x \<le> y \<Longrightarrow> rnd x \<le> rnd y"
    and rnd_zero: "rnd 0 = 0"
    and rnd_idem: "rnd (rnd x) = rnd x"
begin

lemma rnd_nonneg: "0 \<le> x \<Longrightarrow> 0 \<le> rnd x"
  using rnd_mono [of 0 x] by (simp add: rnd_zero)

lemma rnd_nonpos: "x \<le> 0 \<Longrightarrow> rnd x \<le> 0"
  using rnd_mono [of x 0] by (simp add: rnd_zero)

lemma rnd_below: "rnd y = y \<Longrightarrow> x \<le> y \<Longrightarrow> rnd x \<le> y"
  using rnd_mono [of x y] by simp

lemma rnd_above: "rnd y = y \<Longrightarrow> y \<le> x \<Longrightarrow> y \<le> rnd x"
  using rnd_mono [of y x] by simp

end

locale symmetric_rounding = rounding +
  assumes rnd_minus: "rnd (- x) = - rnd x"
begin

lemma rnd_abs: "rnd \<bar>x\<bar> = \<bar>rnd x\<bar>"
  using rnd_nonneg [of x] rnd_nonpos [of x] by (cases "0 \<le> x") (auto simp: rnd_minus)

end

interpretation dbl: symmetric_rounding fl
  by unfold_locales (auto simp: fl_mono fl_minus)

subsection \<open>An executable form\<close>

text \<open>The same rounding on the numerator and the denominator, for evaluation.\<close>

definition round_div :: "int \<Rightarrow> int \<Rightarrow> int" where
  "round_div n d = (let f = n div d; r = 2 * (n - d * f) in if r < d then f else if r > d then f + 1 else if even f then f else f + 1)"

lemma round_half_even_frac: "0 < d \<Longrightarrow> round_half_even (of_int n / of_int d) = round_div n d"
proof -
  assume d: "0 < d"
  have f: "\<lfloor>of_int n / of_int d :: rat\<rfloor> = n div d" by (rule floor_divide_of_int_eq)
  have r: "of_int n / of_int d - of_int (n div d) = (of_int (n mod d) / of_int d :: rat)"
    using d by (simp add: field_simps flip: of_int_mult of_int_add)
  have m: "n - d * (n div d) = n mod d" by (simp add: minus_mult_div_eq_mod)
  show ?thesis unfolding round_half_even_def f r round_div_def m Let_def
    using d by (simp add: field_simps flip: of_int_mult)
qed

lemma ceiling_frac: "0 < a \<Longrightarrow> \<lceil>of_int b / of_int a :: rat\<rceil> - 1 = (b - 1) div a"
proof -
  assume a: "0 < a"
  define q r where "q = (b - 1) div a" and "r = (b - 1) mod a"
  have b: "b - 1 = a * q + r" "0 \<le> r" "r < a" using a by (simp_all add: q_def r_def)
  have "- b = a * (- q - 1) + (a - 1 - r)" using b(1) by (simp add: right_diff_distrib)
  then have m: "(- b) div a = - q - 1" by (rule int_div_pos_eq) (use b in simp_all)
  have "\<lceil>of_int b / of_int a :: rat\<rceil> = - \<lfloor>of_int (- b) / of_int a :: rat\<rfloor>"
    by (simp add: ceiling_def)
  also have "\<dots> = - ((- b) div a)" by (simp only: floor_divide_of_int_eq)
  finally show ?thesis using m by (simp add: q_def)
qed

lemma ilog2_frac: "0 < a \<Longrightarrow> 0 < b \<Longrightarrow>
  ilog2 (of_int a / of_int b) = (if b \<le> a then bitlen (a div b) - 1 else - bitlen ((b - 1) div a))"
  by (simp add: ilog2_def floor_divide_of_int_eq ceiling_frac)

definition fl_frac :: "int \<Rightarrow> int \<Rightarrow> rat" where
  "fl_frac a b =
     (let e = (if b \<le> a then bitlen (a div b) - 1 else - bitlen ((b - 1) div a)) - 52
      in if 0 \<le> e then of_int (round_div a (b * 2 ^ nat e) * 2 ^ nat e)
         else of_int (round_div (a * 2 ^ nat (- e)) b) / of_int (2 ^ nat (- e)))"

lemma fl_pos_frac: "0 < a \<Longrightarrow> 0 < b \<Longrightarrow> fl_pos (of_int a / of_int b) = fl_frac a b"
proof -
  assume p: "0 < a" "0 < b"
  define e where "e = ilog2 (of_int a / of_int b) - 52"
  have "0 \<le> e \<Longrightarrow> (of_int a / of_int b) / pow2 e = (of_int a / of_int (b * 2 ^ nat e) :: rat)"
    by (simp add: pow2_def field_simps)
  moreover have "\<not> 0 \<le> e \<Longrightarrow> (of_int a / of_int b) / pow2 e = (of_int (a * 2 ^ nat (- e)) / of_int b :: rat)"
    by (simp add: pow2_def field_simps)
  moreover have "round_half_even (of_int a / of_int (b * 2 ^ nat e)) = round_div a (b * 2 ^ nat e)"
    "round_half_even (of_int (a * 2 ^ nat (- e)) / of_int b) = round_div (a * 2 ^ nat (- e)) b"
    using p by (simp_all only: round_half_even_frac zero_less_mult_iff zero_less_power zero_less_numeral simp_thms)
  ultimately show ?thesis
    unfolding fl_pos_def fl_frac_def ilog2_frac [OF p, symmetric] e_def [symmetric] Let_def by (simp add: pow2_def)
qed

lemma fl_code [code]:
  "fl x = (case quotient_of x of (a, b) \<Rightarrow> if a = 0 then 0 else if 0 < a then fl_frac a b else - fl_frac (- a) b)"
proof -
  obtain a b where q: "quotient_of x = (a, b)" by (cases "quotient_of x")
  have b: "0 < b" using quotient_of_denom_pos [OF q] .
  have x: "x = of_int a / of_int b" using quotient_of_div [OF q] .
  then have m: "- x = of_int (- a) / of_int b" by simp
  have s: "x = 0 \<longleftrightarrow> a = 0" "0 < x \<longleftrightarrow> 0 < a" using b by (simp_all add: x zero_less_divide_iff)
  consider "a = 0" | "0 < a" | "a < 0" by linarith
  then show ?thesis
  proof cases
    case 1
    then show ?thesis using s by (simp add: q fl_def)
  next
    case 2
    then show ?thesis using s fl_pos_frac [OF 2 b] unfolding x [symmetric] by (simp add: q fl_def)
  next
    case 3
    then show ?thesis using s fl_pos_frac [of "- a" b] b unfolding m [symmetric] by (simp add: q fl_def)
  qed
qed
subsection \<open>Arithmetic\<close>

definition nplus :: "rat \<Rightarrow> rat \<Rightarrow> rat" where
  "nplus x y = fl (x + y)"

definition nminus :: "rat \<Rightarrow> rat \<Rightarrow> rat" where
  "nminus x y = fl (x - y)"

definition ntimes :: "rat \<Rightarrow> rat \<Rightarrow> rat" where
  "ntimes x y = fl (x * y)"

definition ndiv :: "rat \<Rightarrow> rat \<Rightarrow> rat" where
  "ndiv x y = fl (x / y)"

definition toFixed2_pos :: "rat \<Rightarrow> rat" where
  "toFixed2_pos x = (if 10 ^ 21 \<le> x then x else fl (of_int \<lfloor>100 * x + 1 / 2\<rfloor> / 100))"

definition toFixed2 :: "rat \<Rightarrow> rat" where
  "toFixed2 x = (if x < 0 then - toFixed2_pos (- x) else toFixed2_pos x)"

lemmas js_arith = nplus_def nminus_def ntimes_def ndiv_def

lemma fl_1 [simp]: "fl 1 = 1"
  by code_simp

lemma nplus_double [simp]: "fl (nplus x y) = nplus x y"
  and nminus_double [simp]: "fl (nminus x y) = nminus x y"
  and ntimes_double [simp]: "fl (ntimes x y) = ntimes x y"
  and ndiv_double [simp]: "fl (ndiv x y) = ndiv x y"
  by (simp_all add: js_arith)

lemma nplus_0 [simp]: "fl x = x \<Longrightarrow> nplus x 0 = x" "fl x = x \<Longrightarrow> nplus 0 x = x"
  and nminus_0 [simp]: "fl x = x \<Longrightarrow> nminus x 0 = x"
  and ntimes_0 [simp]: "ntimes 0 x = 0" "ntimes x 0 = 0"
  and ntimes_1 [simp]: "fl x = x \<Longrightarrow> ntimes 1 x = x" "fl x = x \<Longrightarrow> ntimes x 1 = x"
  by (simp_all add: js_arith)

lemma nplus_nonneg: "0 \<le> x \<Longrightarrow> 0 \<le> y \<Longrightarrow> 0 \<le> nplus x y"
  by (simp add: nplus_def dbl.rnd_nonneg)

lemma ntimes_nonneg: "0 \<le> x \<Longrightarrow> 0 \<le> y \<Longrightarrow> 0 \<le> ntimes x y"
  by (simp add: ntimes_def dbl.rnd_nonneg)

lemma nminus_nonneg: "y \<le> x \<Longrightarrow> 0 \<le> nminus x y"
  by (simp add: nminus_def dbl.rnd_nonneg)

lemma nplus_mono: "a \<le> b \<Longrightarrow> c \<le> d \<Longrightarrow> nplus a c \<le> nplus b d"
  by (simp add: nplus_def dbl.rnd_mono)

lemma ntimes_mono: "0 \<le> c \<Longrightarrow> a \<le> b \<Longrightarrow> ntimes a c \<le> ntimes b c"
  by (simp add: ntimes_def dbl.rnd_mono mult_right_mono)

lemma ntimes_le: "0 \<le> x \<Longrightarrow> fl x = x \<Longrightarrow> 0 \<le> r \<Longrightarrow> r \<le> 1 \<Longrightarrow> ntimes x r \<le> x"
  unfolding ntimes_def by (rule dbl.rnd_below) (simp_all add: mult_left_le)

lemma nminus_le: "fl x = x \<Longrightarrow> 0 \<le> y \<Longrightarrow> nminus x y \<le> x"
  unfolding nminus_def by (rule dbl.rnd_below) simp_all

lemma fl_e21: "fl (10 ^ 21) = 10 ^ 21"
  by code_simp

lemma toFixed2_pos_nonneg: "0 \<le> x \<Longrightarrow> 0 \<le> toFixed2_pos x"
  by (auto simp: toFixed2_pos_def intro!: dbl.rnd_nonneg)

lemma toFixed2_pos_mono:
  assumes "x \<le> y" shows "toFixed2_pos x \<le> toFixed2_pos y"
proof (cases "10 ^ 21 \<le> x")
  case True
  with assms show ?thesis by (simp add: toFixed2_pos_def)
next
  case False
  show ?thesis
  proof (cases "10 ^ 21 \<le> y")
    case True
    have "100 * x + 1 / 2 < of_int (10 ^ 23 + 1)" using False by simp
    then have "\<lfloor>100 * x + 1 / 2\<rfloor> \<le> 10 ^ 23" by (simp add: floor_less_iff)
    then have "(of_int \<lfloor>100 * x + 1 / 2\<rfloor> :: rat) \<le> of_int (10 ^ 23)"
      by (simp only: of_int_le_iff)
    then have "of_int \<lfloor>100 * x + 1 / 2\<rfloor> / 100 \<le> (10 ^ 21 :: rat)" by simp
    then have "fl (of_int \<lfloor>100 * x + 1 / 2\<rfloor> / 100) \<le> 10 ^ 21"
      by (rule dbl.rnd_below [OF fl_e21])
    then show ?thesis using False True by (simp add: toFixed2_pos_def)
  next
    case False': False
    have "\<lfloor>100 * x + 1 / 2\<rfloor> \<le> \<lfloor>100 * y + 1 / 2\<rfloor>" using assms by (intro floor_mono) simp
    then have "of_int \<lfloor>100 * x + 1 / 2\<rfloor> / 100 \<le> (of_int \<lfloor>100 * y + 1 / 2\<rfloor> / 100 :: rat)"
      by (simp add: divide_right_mono)
    then show ?thesis using False False' by (simp add: toFixed2_pos_def dbl.rnd_mono)
  qed
qed

lemma toFixed2_mono: "x \<le> y \<Longrightarrow> toFixed2 x \<le> toFixed2 y"
  using toFixed2_pos_mono [of x y] toFixed2_pos_mono [of "- y" "- x"]
    toFixed2_pos_nonneg [of "- x"] toFixed2_pos_nonneg [of y]
  by (auto simp: toFixed2_def)

lemma toFixed2_0 [simp]: "toFixed2 0 = 0"
  by code_simp

lemma toFixed2_nonneg: "0 \<le> x \<Longrightarrow> 0 \<le> toFixed2 x"
  using toFixed2_mono [of 0 x] by simp


subsection \<open>Signs and whole numbers\<close>

lemma fl_pos_iff [simp]: "0 < fl x \<longleftrightarrow> 0 < x"
  using fl_pos_pos [of x] fl_pos_pos [of "- x"] by (auto simp: fl_def)

lemma fl_neg_iff [simp]: "fl x < 0 \<longleftrightarrow> x < 0"
  using fl_pos_iff [of "- x"] by (simp add: fl_minus)

lemma nminus_sign [simp]:
  "0 < nminus x y \<longleftrightarrow> y < x" "nminus x y < 0 \<longleftrightarrow> x < y" "nminus x y \<le> 0 \<longleftrightarrow> x \<le> y" "nminus x x = 0"
  unfolding nminus_def by (simp_all flip: not_less)

lemma nminus_eq_0 [simp]: "nminus x y = 0 \<longleftrightarrow> x = y"
  using nminus_sign(1,2) [of x y] nminus_sign(4) [of x] by (metis less_irrefl linorder_neqE)

lemma fl_pos_int:
  assumes "0 < n" "n < 2 ^ 53"
  shows "fl_pos (of_int n) = of_int n"
proof -
  have "ilog2 (of_int n) < 53"
  proof (rule ccontr)
    assume "\<not> ?thesis"
    then have "pow2 53 \<le> pow2 (ilog2 (of_int n))" by (intro pow2_le) simp
    also have "\<dots> \<le> of_int n" using ilog2_bounds [of "of_int n"] assms(1) by simp
    finally have "of_int (2 ^ 53) \<le> (of_int n :: rat)" by (simp add: pow2_def)
    then show False using assms(2) by (simp only: of_int_le_iff)
  qed
  then have e: "ilog2 (of_int n) - 52 \<le> 0" by simp
  define k where "k = nat (- (ilog2 (of_int n) - 52))"
  have p: "pow2 (ilog2 (of_int n) - 52) = 1 / 2 ^ k"
    using e by (cases "ilog2 (of_int n) = 52") (simp_all add: pow2_def k_def)
  have "(of_int n :: rat) / (1 / 2 ^ k) = of_int (n * 2 ^ k)" by simp
  then have "round_half_even ((of_int n :: rat) / (1 / 2 ^ k)) = n * 2 ^ k"
    by (simp only: round_half_even_int)
  then show ?thesis by (simp add: fl_pos_def p)
qed

lemma fl_int: "\<bar>n\<bar> < 2 ^ 53 \<Longrightarrow> fl (of_int n) = of_int n"
  using fl_pos_int [of n] fl_pos_int [of "- n"] by (auto simp: fl_def)

lemma fl_nat: "n < 2 ^ 53 \<Longrightarrow> fl (of_nat n) = of_nat n"
  using fl_int [of "int n"] by (simp add: nat_less_iff)

end
