(* ===== verification/Js_String.thy ===== *)
theory Js_String
  imports Prelude
begin

text \<open>
  The string operations of the standard library that the frontend calls:
  \<open>toLowerCase\<close>, \<open>toUpperCase\<close>, \<open>trim\<close>, \<open>includes\<close>, \<open>startsWith\<close>,
  \<open>slice\<close>, and the decimal rendering of a whole number by \<open>String(n)\<close>.

  A JavaScript string is a sequence of code units. The model's type \<^typ>\<open>string\<close> holds
  code units below 256 (Latin-1); within it the operations are the ones of the
  language: the case mappings move the letters of ASCII and of the Latin-1 supplement,
  \<open>toUpperCase\<close> turns sharp s into two letters, and the white space \<open>trim\<close> removes
  includes the no-break space. (The upper case of code units 181 and 255 lies outside
  Latin-1; the model leaves these two in place, which is equally unequal to any ASCII
  letter.)
\<close>

type_synonym jsstring = string

definition code_unit :: "char \<Rightarrow> nat" where
  "code_unit c = of_char c"

definition lower_char :: "char \<Rightarrow> char" where
  "lower_char c =
     (let n = code_unit c
      in if 65 \<le> n \<and> n \<le> 90 \<or> 192 \<le> n \<and> n \<le> 222 \<and> n \<noteq> 215 then char_of (n + 32) else c)"

definition upper_char :: "char \<Rightarrow> jsstring" where
  "upper_char c =
     (let n = code_unit c
      in if n = 223 then ''SS''
         else if 97 \<le> n \<and> n \<le> 122 \<or> 224 \<le> n \<and> n \<le> 254 \<and> n \<noteq> 247 then [char_of (n - 32)]
         else [c])"

definition toLowerCase :: "jsstring \<Rightarrow> jsstring" where
  "toLowerCase s = map lower_char s"

definition toUpperCase :: "jsstring \<Rightarrow> jsstring" where
  "toUpperCase s = concat (map upper_char s)"

definition is_white :: "char \<Rightarrow> bool" where
  "is_white c = (let n = code_unit c in 9 \<le> n \<and> n \<le> 13 \<or> n = 32 \<or> n = 160)"

definition trim :: "jsstring \<Rightarrow> jsstring" where
  "trim s = rev (dropWhile is_white (rev (dropWhile is_white s)))"

fun starts_with :: "jsstring \<Rightarrow> jsstring \<Rightarrow> bool" where
  "starts_with s [] = True"
| "starts_with [] (q # qs) = False"
| "starts_with (c # cs) (q # qs) = (c = q \<and> starts_with cs qs)"

fun str_includes :: "jsstring \<Rightarrow> jsstring \<Rightarrow> bool" where
  "str_includes [] q = (q = [])"
| "str_includes (c # cs) q = (starts_with (c # cs) q \<or> str_includes cs q)"

subsection \<open>Case mapping and white space\<close>

lemma of_char_lower: "code_unit (lower_char c) =
    (let n = code_unit c in if 65 \<le> n \<and> n \<le> 90 \<or> 192 \<le> n \<and> n \<le> 222 \<and> n \<noteq> 215 then n + 32 else n)"
proof -
  have "code_unit c < 256" by (simp add: code_unit_def)
  then show ?thesis by (auto simp: lower_char_def code_unit_def Let_def)
qed

lemma code_unit_inj [simp]: "code_unit c = code_unit d \<longleftrightarrow> c = d"
  by (simp add: code_unit_def)

lemma lower_char_idem [simp]: "lower_char (lower_char c) = lower_char c"
proof -
  have "code_unit (lower_char (lower_char c)) = code_unit (lower_char c)"
    by (auto simp: of_char_lower Let_def)
  then show ?thesis by simp
qed

lemma toLowerCase_idem [simp]: "toLowerCase (toLowerCase s) = toLowerCase s"
  by (simp add: toLowerCase_def)

lemma toLowerCase_Nil [simp]: "toLowerCase [] = []"
  by (simp add: toLowerCase_def)

lemma toLowerCase_Nil_iff [simp]: "toLowerCase s = [] \<longleftrightarrow> s = []"
  by (simp add: toLowerCase_def)

lemma length_toLowerCase [simp]: "length (toLowerCase s) = length s"
  by (simp add: toLowerCase_def)

lemma dropWhile_idem_hd: "\<not> P (hd xs) \<Longrightarrow> dropWhile P xs = xs"
  by (cases xs) auto

lemma trim_ends: "trim s \<noteq> [] \<Longrightarrow> \<not> is_white (hd (trim s)) \<and> \<not> is_white (last (trim s))"
proof -
  let ?a = "dropWhile is_white s"
  let ?b = "dropWhile is_white (rev ?a)"
  assume n: "trim s \<noteq> []"
  then have b: "?b \<noteq> []" by (simp add: trim_def)
  then have l: "\<not> is_white (last (trim s))" by (simp add: trim_def last_rev hd_dropWhile)
  have a: "?a \<noteq> []" using b by (metis dropWhile.simps(1) rev.simps(1))
  then have "\<not> is_white (hd ?a)" by (rule hd_dropWhile)
  moreover have "hd (trim s) = hd ?a"
  proof -
    have "suffix ?b (rev ?a)" by (rule suffix_dropWhile)
    then obtain zs where "rev ?a = zs @ ?b" by (auto simp: suffix_def)
    then have "?a = rev ?b @ rev zs" by (metis rev_append rev_rev_ident)
    then show ?thesis using b by (metis trim_def hd_append2 rev_is_Nil_conv)
  qed
  ultimately show ?thesis using l by simp
qed

lemma trim_idem [simp]: "trim (trim s) = trim s"
proof (cases "trim s = []")
  case True
  then show ?thesis by (metis dropWhile.simps(1) rev.simps(1) trim_def)
next
  case False
  note e = trim_ends [OF False]
  then have "dropWhile is_white (trim s) = trim s" by (simp add: dropWhile_idem_hd)
  moreover have "dropWhile is_white (rev (trim s)) = rev (trim s)"
    using e False by (simp add: dropWhile_idem_hd hd_rev)
  ultimately show ?thesis by (simp add: trim_def [of "trim s"])
qed

subsection \<open>Substrings\<close>

lemma starts_with_prefix: "starts_with s q \<longleftrightarrow> prefix q s"
  by (induction s q rule: starts_with.induct) auto

lemma str_includes_sublist: "str_includes s q \<longleftrightarrow> sublist q s"
proof (induction s)
  case (Cons c s)
  then show ?case by (auto simp: starts_with_prefix sublist_Cons_right)
qed simp

lemma str_includes_Nil [simp]: "str_includes s []"
  by (simp add: str_includes_sublist)

lemma str_includes_refl [simp]: "str_includes s s"
  by (simp add: str_includes_sublist)

lemma str_includes_length: "str_includes s q \<Longrightarrow> length q \<le> length s"
  by (simp add: str_includes_sublist sublist_length_le)

subsection \<open>Whole numbers as text\<close>

fun show_nat :: "nat \<Rightarrow> jsstring" where
  "show_nat n = (if n < 10 then [char_of (48 + n)] else show_nat (n div 10) @ [char_of (48 + n mod 10)])"

declare show_nat.simps [simp del]

definition read_nat :: "jsstring \<Rightarrow> nat" where
  "read_nat s = foldl (\<lambda>a c. 10 * a + (code_unit c - 48)) 0 s"

lemma read_show_nat: "read_nat (show_nat n) = n"
proof (induction n rule: show_nat.induct)
  case (1 n)
  show ?case
  proof (cases "n < 10")
    case True
    then show ?thesis by (simp add: show_nat.simps [of n] read_nat_def code_unit_def)
  next
    case False
    then have "read_nat (show_nat (n div 10)) = n div 10" by (rule "1.IH")
    then show ?thesis using False
      by (simp add: show_nat.simps [of n] read_nat_def code_unit_def)
  qed
qed

lemma show_nat_inj: "show_nat a = show_nat b \<longleftrightarrow> a = b"
  by (metis read_show_nat)

end
