(* ===== verification/Cart_Store.thy ===== *)
theory Cart_Store
  imports Js_Number Js_String
begin

text \<open>
  The shopping cart store, \<open>frontend/src/stores/cartStore.ts\<close>: its state, its five
  operations and \<open>getCartTotals\<close>. The Zustand \<open>set\<close> merges the given fields into the
  state, which is a record update; \<open>persist\<close> mirrors the state to local storage and
  does not change it. Prices, quantities and totals are JavaScript numbers
  (theory \<open>Js_Number\<close>), so the totals are the ones the code computes, rounding included.

  Lemmas: the store's invariant over every run of operations; the refinement of the item
  list to a map from product ids to quantities; bounds on the totals; the effect of a
  coupon on the total.
\<close>

record new_item =
  product_id :: jsstring
  sku :: jsstring
  item_name :: jsstring
  price :: rat

record cart_item = new_item +
  quantity :: rat

record cart_state =
  items :: "cart_item list"
  shippingCost :: rat
  taxRate :: rat
  couponCode :: "jsstring option"
  discountValue :: rat

record cart_totals =
  subtotal :: rat
  discount :: rat
  tax :: rat
  total :: rat

definition initial_cart :: cart_state where
  "initial_cart = \<lparr>items = [], shippingCost = fl (999 / 100), taxRate = fl (8 / 100),
     couponCode = None, discountValue = 0\<rparr>"

definition addItem :: "new_item \<Rightarrow> cart_state \<Rightarrow> cart_state" where
  "addItem newItem s =
     (let currentItems = items s;
          existingItem = List.find (\<lambda>item. product_id item = product_id newItem) currentItems
      in case existingItem of
           Some _ \<Rightarrow>
             s\<lparr>items := map (\<lambda>item. if product_id item = product_id newItem
                                    then item\<lparr>quantity := nplus (quantity item) 1\<rparr>
                                    else item) currentItems\<rparr>
         | None \<Rightarrow>
             s\<lparr>items := currentItems @ [new_item.extend newItem (cart_item.fields 1)]\<rparr>)"

definition removeItem :: "jsstring \<Rightarrow> cart_state \<Rightarrow> cart_state" where
  "removeItem pid s = s\<lparr>items := filter (\<lambda>item. product_id item \<noteq> pid) (items s)\<rparr>"

definition updateQuantity :: "jsstring \<Rightarrow> rat \<Rightarrow> cart_state \<Rightarrow> cart_state" where
  "updateQuantity pid q s =
     (if q \<le> 0 then removeItem pid s
      else s\<lparr>items := map (\<lambda>item. if product_id item = pid then item\<lparr>quantity := q\<rparr> else item) (items s)\<rparr>)"

definition applyCoupon :: "jsstring \<Rightarrow> cart_state \<Rightarrow> cart_state" where
  "applyCoupon c s =
     (if toUpperCase c = ''CLOUDSCALE10''
      then s\<lparr>couponCode := Some c, discountValue := fl (1 / 10)\<rparr>
      else s\<lparr>couponCode := None, discountValue := 0\<rparr>)"

definition clearCart :: "cart_state \<Rightarrow> cart_state" where
  "clearCart s = s\<lparr>items := [], couponCode := None, discountValue := 0\<rparr>"

definition cart_subtotal :: "cart_item list \<Rightarrow> rat" where
  "cart_subtotal its = foldl (\<lambda>acc item. nplus acc (ntimes (price item) (quantity item))) 0 its"

definition getCartTotals :: "cart_state \<Rightarrow> cart_totals" where
  "getCartTotals s =
     (let sub = cart_subtotal (items s);
          disc = ntimes sub (discountValue s);
          taxableAmount = nminus sub disc;
          tx = ntimes taxableAmount (taxRate s);
          tot = (if sub > 0 then nplus (nplus taxableAmount tx) (shippingCost s) else 0)
      in \<lparr>subtotal = toFixed2 sub, discount = toFixed2 disc, tax = toFixed2 tx, total = toFixed2 tot\<rparr>)"

datatype cart_event =
    AddItem new_item
  | RemoveItem jsstring
  | UpdateQuantity jsstring rat
  | ApplyCoupon jsstring
  | ClearCart

fun cart_step :: "cart_state \<Rightarrow> cart_event \<Rightarrow> cart_state" where
  "cart_step s (AddItem n) = addItem n s"
| "cart_step s (RemoveItem p) = removeItem p s"
| "cart_step s (UpdateQuantity p q) = updateQuantity p q s"
| "cart_step s (ApplyCoupon c) = applyCoupon c s"
| "cart_step s ClearCart = clearCart s"

lemmas cart_defs [model_defs] =
  addItem_def removeItem_def updateQuantity_def applyCoupon_def clearCart_def

subsection \<open>The invariant of the store\<close>

definition valid_coupon :: "cart_state \<Rightarrow> bool" where
  "valid_coupon s = (case couponCode s of
       None \<Rightarrow> discountValue s = 0
     | Some c \<Rightarrow> toUpperCase c = ''CLOUDSCALE10'' \<and> discountValue s = fl (1 / 10))"

definition cart_inv :: "cart_state \<Rightarrow> bool" where
  "cart_inv s \<longleftrightarrow> distinct (map product_id (items s)) \<and> list_all (\<lambda>i. 0 < quantity i) (items s) \<and>
     valid_coupon s \<and> shippingCost s = fl (999 / 100) \<and> taxRate s = fl (8 / 100)"

lemma product_id_extend [simp]:
  "product_id (new_item.extend n (cart_item.fields q)) = product_id n"
  "price (new_item.extend n (cart_item.fields q)) = price n"
  "quantity (new_item.extend n (cart_item.fields q)) = q"
  by (simp_all add: new_item.defs cart_item.defs)

lemma nplus_1_pos: "0 < q \<Longrightarrow> 0 < nplus q 1"
  unfolding nplus_def using dbl.rnd_above [OF fl_1, of "q + 1"] by simp

lemma ids_addItem:
  "map product_id (items (addItem n s)) =
     (if product_id n \<in> set (map product_id (items s)) then map product_id (items s)
      else map product_id (items s) @ [product_id n])"
proof (cases "List.find (\<lambda>item. product_id item = product_id n) (items s)")
  case None
  then have "product_id n \<notin> set (map product_id (items s))"
    by (auto simp: find_None_iff)
  with None show ?thesis by (simp add: addItem_def)
next
  case (Some x)
  then have "product_id n \<in> set (map product_id (items s))"
    using find_Some_mem [OF Some] by force
  with Some show ?thesis by (simp add: addItem_def)
qed

lemma ids_updateQuantity:
  "0 < q \<Longrightarrow> map product_id (items (updateQuantity p q s)) = map product_id (items s)"
  by (simp add: updateQuantity_def)

lemma quantities_addItem:
  "list_all (\<lambda>i. 0 < quantity i) (items s) \<Longrightarrow> list_all (\<lambda>i. 0 < quantity i) (items (addItem n s))"
  by (auto simp: addItem_def Let_def list_all_iff nplus_1_pos split: option.splits)

lemma quantities_updateQuantity:
  "list_all (\<lambda>i. 0 < quantity i) (items s) \<Longrightarrow>
   list_all (\<lambda>i. 0 < quantity i) (items (updateQuantity p q s))"
  by (auto simp: updateQuantity_def removeItem_def list_all_iff)

lemma addItem_frame [simp]:
  "couponCode (addItem n s) = couponCode s" "discountValue (addItem n s) = discountValue s"
  "shippingCost (addItem n s) = shippingCost s" "taxRate (addItem n s) = taxRate s"
  by (simp_all add: addItem_def Let_def split: option.splits)

lemma updateQuantity_frame [simp]:
  "couponCode (updateQuantity p q s) = couponCode s"
  "discountValue (updateQuantity p q s) = discountValue s"
  "shippingCost (updateQuantity p q s) = shippingCost s" "taxRate (updateQuantity p q s) = taxRate s"
  by (simp_all add: updateQuantity_def removeItem_def)

lemma removeItem_inv: "cart_inv s \<Longrightarrow> cart_inv (removeItem p s)"
  by (auto simp: cart_inv_def removeItem_def valid_coupon_def list_all_iff intro: distinct_map_filter_key
        split: option.splits)

lemma cart_step_inv: "cart_inv s \<Longrightarrow> cart_inv (cart_step s e)"
proof (cases e)
  case (AddItem n)
  assume "cart_inv s"
  then show ?thesis
    using AddItem ids_addItem [of n s] quantities_addItem [of s n]
    by (simp add: cart_inv_def valid_coupon_def split: option.splits if_splits)
next
  case (UpdateQuantity p q)
  assume i: "cart_inv s"
  show ?thesis
  proof (cases "q \<le> 0")
    case True
    then show ?thesis using UpdateQuantity i removeItem_inv by (simp add: updateQuantity_def)
  next
    case False
    then show ?thesis
      using UpdateQuantity i ids_updateQuantity [of q p s] quantities_updateQuantity [of s p q]
      by (simp add: cart_inv_def valid_coupon_def split: option.splits)
  qed
next
  case (RemoveItem p)
  then show "cart_inv s \<Longrightarrow> ?thesis" by (simp add: removeItem_inv)
qed (auto simp: cart_inv_def valid_coupon_def applyCoupon_def clearCart_def)

interpretation cart: state_machine initial_cart cart_step cart_inv
  by unfold_locales (auto simp: cart_step_inv, simp add: cart_inv_def initial_cart_def valid_coupon_def)

subsection \<open>The item list as a map\<close>

definition qty_map :: "cart_state \<Rightarrow> jsstring \<Rightarrow> rat option" where
  "qty_map s p = map_option quantity (List.find (\<lambda>i. product_id i = p) (items s))"

lemma find_append: "List.find P (xs @ ys) = (case List.find P xs of None \<Rightarrow> List.find P ys | Some x \<Rightarrow> Some x)"
  by (induction xs) auto

lemma find_map_key:
  "(\<And>x. P (g x) = P x) \<Longrightarrow> List.find P (map g xs) = map_option g (List.find P xs)"
  by (induction xs) auto

lemma find_filter_other: "(\<And>x. P x \<Longrightarrow> Q x) \<Longrightarrow> List.find P (filter Q xs) = List.find P xs"
  by (induction xs) auto

lemma find_filter_none: "(\<And>x. P x \<Longrightarrow> \<not> Q x) \<Longrightarrow> List.find P (filter Q xs) = None"
  by (induction xs) auto

lemma qty_map_removeItem: "qty_map (removeItem p s) = (qty_map s)(p := None)"
  by (auto simp: qty_map_def removeItem_def fun_eq_iff find_filter_other find_filter_none)

lemma qty_map_set:
  "map_option quantity (List.find (\<lambda>i. product_id i = k)
     (map (\<lambda>i. if product_id i = p then i\<lparr>quantity := f i\<rparr> else i) its)) =
   (if k = p then map_option f (List.find (\<lambda>i. product_id i = p) its)
    else map_option quantity (List.find (\<lambda>i. product_id i = k) its))"
  by (induction its) auto

lemma qty_map_addItem:
  "qty_map (addItem n s) = (qty_map s)(product_id n \<mapsto>
     (case qty_map s (product_id n) of None \<Rightarrow> 1 | Some q \<Rightarrow> nplus q 1))"
proof
  fix k
  show "qty_map (addItem n s) k = ((qty_map s)(product_id n \<mapsto>
     (case qty_map s (product_id n) of None \<Rightarrow> 1 | Some q \<Rightarrow> nplus q 1))) k"
  proof (cases "List.find (\<lambda>item. product_id item = product_id n) (items s)")
    case None
    then show ?thesis by (simp add: qty_map_def addItem_def find_append split: option.split)
  next
    case (Some x)
    then have "items (addItem n s) = map (\<lambda>i. if product_id i = product_id n
        then i\<lparr>quantity := nplus (quantity i) 1\<rparr> else i) (items s)"
      by (simp add: addItem_def)
    then show ?thesis using Some by (simp add: qty_map_def qty_map_set del: map_option_eq_Some)
  qed
qed

lemma qty_map_updateQuantity:
  "qty_map (updateQuantity p q s) =
     (if q \<le> 0 then (qty_map s)(p := None)
      else if qty_map s p = None then qty_map s else (qty_map s)(p \<mapsto> q))"
proof (cases "q \<le> 0")
  case True
  then show ?thesis by (simp add: updateQuantity_def qty_map_removeItem)
next
  case False
  then show ?thesis
    by (auto simp: qty_map_def updateQuantity_def fun_eq_iff qty_map_set)
qed

lemma qty_map_clearCart: "qty_map (clearCart s) = Map.empty"
  by (simp add: qty_map_def clearCart_def fun_eq_iff)

subsection \<open>Bounds on the totals\<close>

definition prices_ok :: "cart_state \<Rightarrow> bool" where
  "prices_ok s \<longleftrightarrow> list_all (\<lambda>i. 0 \<le> price i) (items s)"

lemma cart_subtotal_double: "fl (cart_subtotal its) = cart_subtotal its"
proof -
  have "fl acc = acc \<Longrightarrow> fl (foldl (\<lambda>acc item. nplus acc (ntimes (price item) (quantity item))) acc its) =
      foldl (\<lambda>acc item. nplus acc (ntimes (price item) (quantity item))) acc its" for acc
    by (induction its arbitrary: acc) auto
  then show ?thesis by (simp add: cart_subtotal_def)
qed

lemma cart_subtotal_nonneg:
  "list_all (\<lambda>i. 0 \<le> price i) its \<Longrightarrow> list_all (\<lambda>i. 0 < quantity i) its \<Longrightarrow> 0 \<le> cart_subtotal its"
proof -
  assume "list_all (\<lambda>i. 0 \<le> price i) its" "list_all (\<lambda>i. 0 < quantity i) its"
  then have "0 \<le> acc \<Longrightarrow> 0 \<le> foldl (\<lambda>acc item. nplus acc (ntimes (price item) (quantity item))) acc its" for acc
    by (induction its arbitrary: acc) (auto simp: nplus_nonneg ntimes_nonneg)
  then show ?thesis by (simp add: cart_subtotal_def)
qed

lemma rate_bounds: "0 \<le> fl (1 / 10)" "fl (1 / 10) \<le> 1" "0 \<le> fl (8 / 100)" "fl (8 / 100) \<le> 1"
    "0 \<le> fl (999 / 100)"
  using dbl.rnd_below [OF fl_1, of "1 / 10"] dbl.rnd_below [OF fl_1, of "8 / 100"]
  by (auto intro: dbl.rnd_nonneg)

lemma discount_bounds: "valid_coupon s \<Longrightarrow> 0 \<le> discountValue s \<and> discountValue s \<le> 1"
  using rate_bounds by (auto simp: valid_coupon_def split: option.splits)


text \<open>The unrounded figures of \<open>getCartTotals\<close>, named for the proofs.\<close>

definition taxable :: "cart_state \<Rightarrow> rat" where
  "taxable s = nminus (cart_subtotal (items s)) (ntimes (cart_subtotal (items s)) (discountValue s))"

definition raw_total :: "cart_state \<Rightarrow> rat" where
  "raw_total s = (if cart_subtotal (items s) > 0
     then nplus (nplus (taxable s) (ntimes (taxable s) (taxRate s))) (shippingCost s) else 0)"

lemma getCartTotals_eq:
  "getCartTotals s = \<lparr>subtotal = toFixed2 (cart_subtotal (items s)),
     discount = toFixed2 (ntimes (cart_subtotal (items s)) (discountValue s)),
     tax = toFixed2 (ntimes (taxable s) (taxRate s)), total = toFixed2 (raw_total s)\<rparr>"
  by (simp add: getCartTotals_def Let_def taxable_def raw_total_def)

lemma inv_subtotal_nonneg: "cart_inv s \<Longrightarrow> prices_ok s \<Longrightarrow> 0 \<le> cart_subtotal (items s)"
  by (simp add: cart_inv_def prices_ok_def cart_subtotal_nonneg)

lemma raw_discount_bounds:
  assumes "cart_inv s" "prices_ok s"
  shows "0 \<le> ntimes (cart_subtotal (items s)) (discountValue s) \<and>
    ntimes (cart_subtotal (items s)) (discountValue s) \<le> cart_subtotal (items s)"
proof -
  have "0 \<le> discountValue s \<and> discountValue s \<le> 1"
    using assms(1) by (intro discount_bounds) (simp add: cart_inv_def)
  then show ?thesis
    using inv_subtotal_nonneg [OF assms] by (auto intro: ntimes_nonneg ntimes_le cart_subtotal_double)
qed

lemma taxable_bounds:
  assumes "cart_inv s" "prices_ok s"
  shows "0 \<le> taxable s \<and> taxable s \<le> cart_subtotal (items s)"
  unfolding taxable_def
  using raw_discount_bounds [OF assms] by (auto intro: nminus_nonneg nminus_le cart_subtotal_double)

lemma raw_tax_bounds:
  assumes "cart_inv s" "prices_ok s"
  shows "0 \<le> ntimes (taxable s) (taxRate s) \<and> ntimes (taxable s) (taxRate s) \<le> taxable s"
proof -
  have "taxRate s = fl (8 / 100)" using assms(1) by (simp add: cart_inv_def)
  moreover have "fl (taxable s) = taxable s" by (simp add: taxable_def)
  ultimately show ?thesis
    using taxable_bounds [OF assms] rate_bounds by (auto intro: ntimes_nonneg ntimes_le)
qed

lemma raw_total_bounds:
  assumes "cart_inv s" "prices_ok s"
  shows "0 \<le> raw_total s \<and> (0 < cart_subtotal (items s) \<longrightarrow> fl (999 / 100) \<le> raw_total s)"
proof -
  let ?x = "nplus (taxable s) (ntimes (taxable s) (taxRate s))"
  have sh: "shippingCost s = fl (999 / 100)" using assms(1) by (simp add: cart_inv_def)
  have "0 \<le> ?x" using taxable_bounds [OF assms] raw_tax_bounds [OF assms] by (simp add: nplus_nonneg)
  then have "nplus 0 (shippingCost s) \<le> nplus ?x (shippingCost s)" by (intro nplus_mono) auto
  then have "fl (999 / 100) \<le> nplus ?x (shippingCost s)" by (simp add: sh)
  moreover have "0 \<le> fl (999 / 100)" by (rule rate_bounds)
  ultimately show ?thesis by (auto simp: raw_total_def)
qed

lemma raw_total_mono:
  assumes "items s = items t" "taxRate s = taxRate t" "shippingCost s = shippingCost t"
    and "0 \<le> taxRate t" "taxable s \<le> taxable t"
  shows "raw_total s \<le> raw_total t"
proof -
  have "ntimes (taxable s) (taxRate t) \<le> ntimes (taxable t) (taxRate t)"
    using assms(4,5) by (rule ntimes_mono)
  then have "nplus (taxable s) (ntimes (taxable s) (taxRate t)) \<le>
      nplus (taxable t) (ntimes (taxable t) (taxRate t))"
    using assms(5) by (intro nplus_mono)
  then show ?thesis by (simp add: raw_total_def assms(1,2,3) nplus_mono)
qed

lemma applyCoupon_inv: "cart_inv s \<Longrightarrow> cart_inv (applyCoupon c s)"
  using cart_step_inv [of s "ApplyCoupon c"] by simp

lemma applyCoupon_frame [simp]:
  "items (applyCoupon c s) = items s" "taxRate (applyCoupon c s) = taxRate s"
  "shippingCost (applyCoupon c s) = shippingCost s"
  by (simp_all add: applyCoupon_def)

subsection \<open>Properties\<close>

text \<open>C1. Whatever sequence of operations the pages perform, starting from the initial
  store: product ids in the cart stay distinct, every quantity stays positive, a discount
  is in force exactly when a valid coupon code is recorded (and it is then ten percent),
  and the shipping cost and tax rate keep their initial values.\<close>

theorem cart_invariant_run: "cart_inv (run cart_step initial_cart es)"
  by (rule cart.inv_run)

text \<open>C3. The item list refines a map from product ids to quantities: each operation of
  the store has exactly the effect of the corresponding map operation, on every branch.\<close>

theorem cart_refines_map:
  "qty_map (addItem n s) = (qty_map s)(product_id n \<mapsto>
     (case qty_map s (product_id n) of None \<Rightarrow> 1 | Some q \<Rightarrow> nplus q 1)) \<and>
   qty_map (removeItem p s) = (qty_map s)(p := None) \<and>
   qty_map (updateQuantity p q s) =
     (if q \<le> 0 then (qty_map s)(p := None)
      else if qty_map s p = None then qty_map s else (qty_map s)(p \<mapsto> q)) \<and>
   qty_map (applyCoupon c s) = qty_map s \<and>
   qty_map (clearCart s) = Map.empty"
  by (simp add: qty_map_addItem qty_map_removeItem qty_map_updateQuantity qty_map_clearCart)
    (simp add: qty_map_def fun_eq_iff)

text \<open>C2. The totals shown to the customer, for any reachable cart whose prices are not
  negative: no figure is negative, the discount never exceeds the subtotal, the tax never
  exceeds the subtotal, and a cart with a positive subtotal costs at least the shipping
  fee. The bounds hold for the rounded figures the code returns.\<close>

theorem cart_totals_bounds:
  assumes "cart_inv s" and "prices_ok s"
  shows "0 \<le> discount (getCartTotals s) \<and> discount (getCartTotals s) \<le> subtotal (getCartTotals s) \<and>
    0 \<le> tax (getCartTotals s) \<and> tax (getCartTotals s) \<le> subtotal (getCartTotals s) \<and>
    0 \<le> total (getCartTotals s) \<and>
    (0 < cart_subtotal (items s) \<longrightarrow> toFixed2 (fl (999 / 100)) \<le> total (getCartTotals s))"
proof -
  have "ntimes (taxable s) (taxRate s) \<le> cart_subtotal (items s)"
    using raw_tax_bounds [OF assms] taxable_bounds [OF assms] by linarith
  then show ?thesis
    using raw_discount_bounds [OF assms] raw_tax_bounds [OF assms] raw_total_bounds [OF assms]
    by (simp add: getCartTotals_eq toFixed2_nonneg toFixed2_mono)
qed

definition sample_item :: new_item where
  "sample_item = \<lparr>product_id = ''p1'', sku = ''SKU123'', item_name = ''Product 1'', price = 100\<rparr>"

lemma sample_cart_ok:
  "cart_inv (run cart_step initial_cart (AddItem sample_item # es))"
  "prices_ok (addItem sample_item (addItem sample_item initial_cart))"
  by (rule cart.inv_run) code_simp

lemma sample_totals:
  "getCartTotals (addItem sample_item (addItem sample_item initial_cart)) =
     \<lparr>subtotal = 200, discount = 0, tax = 16, total = fl (22599 / 100)\<rparr>"
  by code_simp

theorem cart_totals_bounds_witness:
  "getCartTotals (addItem sample_item (addItem sample_item initial_cart)) =
     \<lparr>subtotal = 200, discount = 0, tax = 16, total = fl (22599 / 100)\<rparr> \<and>
   toFixed2 (fl (999 / 100)) \<le> total (getCartTotals (addItem sample_item (addItem sample_item initial_cart)))"
proof -
  let ?s = "addItem sample_item (addItem sample_item initial_cart)"
  have i: "cart_inv ?s" using sample_cart_ok(1) [of "[AddItem sample_item]"] by simp
  have p: "0 < cart_subtotal (items ?s)" by code_simp
  show ?thesis using sample_totals cart_totals_bounds [OF i sample_cart_ok(2)] p by blast
qed

text \<open>Applying a coupon code, valid or not, never makes the cart more expensive than
  it is without a coupon, rounding included.\<close>

theorem coupon_never_raises_total:
  assumes "cart_inv s" and "prices_ok s" and "toUpperCase bad \<noteq> ''CLOUDSCALE10''"
  shows "total (getCartTotals (applyCoupon c s)) \<le> total (getCartTotals (applyCoupon bad s))"
proof -
  let ?s = "applyCoupon c s" and ?t = "applyCoupon bad s"
  have ok: "cart_inv ?s" "prices_ok ?s"
    using assms applyCoupon_inv by (simp_all add: prices_ok_def)
  have "taxable ?t = cart_subtotal (items s)"
    using assms(3) by (simp add: taxable_def applyCoupon_def cart_subtotal_double)
  then have "taxable ?s \<le> taxable ?t" using taxable_bounds [OF ok] by simp
  moreover have "0 \<le> taxRate ?t" using assms(1) rate_bounds by (simp add: cart_inv_def)
  ultimately have "raw_total ?s \<le> raw_total ?t" by (intro raw_total_mono) simp_all
  then show ?thesis by (simp add: getCartTotals_eq toFixed2_mono)
qed

lemma sample_coupon:
  "(let t = getCartTotals (applyCoupon ''CLOUDSCALE10'' (addItem sample_item initial_cart))
    in discount t = 10 \<and> total t = nplus (nplus (nminus 100 10) (fl (72 / 10))) (fl (999 / 100)))"
  by code_simp

theorem coupon_never_raises_total_witness:
  "total (getCartTotals (applyCoupon ''CLOUDSCALE10'' (addItem sample_item initial_cart))) \<le>
     total (getCartTotals (applyCoupon ''nope'' (addItem sample_item initial_cart))) \<and>
   total (getCartTotals (applyCoupon ''CLOUDSCALE10'' (addItem sample_item initial_cart))) =
     nplus (nplus (nminus 100 10) (fl (72 / 10))) (fl (999 / 100))"
proof -
  let ?s = "addItem sample_item initial_cart"
  have i: "cart_inv ?s" using sample_cart_ok(1) [of "[]"] by simp
  have p: "prices_ok ?s" by code_simp
  have b: "toUpperCase ''nope'' \<noteq> ''CLOUDSCALE10''" by code_simp
  show ?thesis
    using coupon_never_raises_total [OF i p b, of "''CLOUDSCALE10''"] conjunct2 [OF sample_coupon [unfolded Let_def]]
    by (rule conjI)
qed

end
