(* ===== verification/Jsx.thy ===== *)
theory Jsx
  imports Complex_Main Prelude
begin

text \<open>
  What a component renders. A rendered tree has elements with attributes and children,
  text, rendered numbers (\<open>Num\<close>, the text of \<open>String(n)\<close>) and icons. An event handler
  of the source is a closure over the component's state; the model names what the
  handler does by a value of the component's own action type, as \<open>On event action\<close>, or
  \<open>OnText event f\<close> where the handler uses the text of the event's target. The component's
  step function says what each action does to the state.

  Kept: element names, the attributes that carry behaviour or accessibility (\<open>role\<close>,
  \<open>aria-*\<close>, \<open>disabled\<close>, \<open>checked\<close>, \<open>value\<close>, \<open>type\<close>, \<open>to\<close>, ...), texts, icons,
  conditional rendering and the order of children. Left out: class names, inline styles
  and React keys, which do not affect behaviour. An \<open>aria\<close> attribute whose value is
  \<open>undefined\<close> is absent. The ellipsis, dash, arrow, middle dot and bullet characters of the
  source, most of which are not in Latin-1, are written with ASCII characters.

  \<open>actions\<close> lists the actions a user can trigger in a tree: a disabled control dispatches
  no events, nor do the elements inside it.
\<close>

datatype 'a attr =
    Attr string string
  | Flag string bool
  | NumAttr string rat
  | On string 'a
  | OnText string "string \<Rightarrow> 'a"

datatype 'a node =
    El string "'a attr list" "'a node list"
  | Txt string
  | Num rat
  | Icon string

definition show_if :: "bool \<Rightarrow> 'b list \<Rightarrow> 'b list" where
  "show_if b xs = (if b then xs else [])"

definition show_some :: "'c option \<Rightarrow> ('c \<Rightarrow> 'b list) \<Rightarrow> 'b list" where
  "show_some x f = (case x of None \<Rightarrow> [] | Some y \<Rightarrow> f y)"

definition str_or :: "string option \<Rightarrow> string \<Rightarrow> string" where
  \<comment> \<open>\<open>s || d\<close> for a string that may be undefined: the empty string is falsy too\<close>
  "str_or s d = (case s of None \<Rightarrow> d | Some t \<Rightarrow> if t = [] then d else t)"

definition truthy :: "string option \<Rightarrow> bool" where
  "truthy s = (case s of None \<Rightarrow> False | Some t \<Rightarrow> t \<noteq> [])"

fun is_disabled :: "'a attr list \<Rightarrow> bool" where
  "is_disabled [] = False"
| "is_disabled (Flag n b # as) = (n = ''disabled'' \<and> b \<or> is_disabled as)"
| "is_disabled (_ # as) = is_disabled as"

fun attr_actions :: "'a attr list \<Rightarrow> 'a list" where
  "attr_actions [] = []"
| "attr_actions (On e a # as) = a # attr_actions as"
| "attr_actions (_ # as) = attr_actions as"

fun attr_inputs :: "'a attr list \<Rightarrow> (string \<Rightarrow> 'a) list" where
  "attr_inputs [] = []"
| "attr_inputs (OnText e f # as) = f # attr_inputs as"
| "attr_inputs (_ # as) = attr_inputs as"

fun actions :: "'a node \<Rightarrow> 'a list" where
  "actions (El t as cs) = (if is_disabled as then [] else attr_actions as @ concat (map actions cs))"
| "actions (Txt s) = []"
| "actions (Num n) = []"
| "actions (Icon i) = []"

fun inputs :: "'a node \<Rightarrow> (string \<Rightarrow> 'a) list" where
  "inputs (El t as cs) = (if is_disabled as then [] else attr_inputs as @ concat (map inputs cs))"
| "inputs (Txt s) = []"
| "inputs (Num n) = []"
| "inputs (Icon i) = []"

fun texts :: "'a node \<Rightarrow> string list" where
  "texts (El t as cs) = concat (map texts cs)"
| "texts (Txt s) = [s]"
| "texts (Num n) = []"
| "texts (Icon i) = []"

fun numbers :: "'a node \<Rightarrow> rat list" where
  "numbers (El t as cs) = concat (map numbers cs)"
| "numbers (Txt s) = []"
| "numbers (Num n) = [n]"
| "numbers (Icon i) = []"

definition forest_actions :: "'a node list \<Rightarrow> 'a list" where
  "forest_actions ns = concat (map actions ns)"

definition forest_inputs :: "'a node list \<Rightarrow> (string \<Rightarrow> 'a) list" where
  "forest_inputs ns = concat (map inputs ns)"

text \<open>Embedding a child component whose actions are of another type is \<^const>\<open>map_node\<close>.\<close>

lemma show_if_simps [simp]: "show_if True xs = xs" "show_if False xs = []"
  by (simp_all add: show_if_def)

lemma show_some_simps [simp]: "show_some None f = []" "show_some (Some y) f = f y"
  by (simp_all add: show_some_def)

lemma set_show_if [simp]: "x \<in> set (show_if b xs) \<longleftrightarrow> b \<and> x \<in> set xs"
  by (simp add: show_if_def)

lemma map_show_if [simp]: "map f (show_if b xs) = show_if b (map f xs)"
  by (simp add: show_if_def)

lemma concat_show_if [simp]: "concat (show_if b xss) = show_if b (concat xss)"
  by (simp add: show_if_def)

lemma map_show_some [simp]: "map g (show_some x f) = show_some x (\<lambda>y. map g (f y))"
  by (cases x) simp_all

lemma concat_show_some [simp]: "concat (show_some x f) = show_some x (\<lambda>y. concat (f y))"
  by (cases x) simp_all

lemma show_Nil [simp]: "show_some x (\<lambda>y. []) = []" "show_if b [] = []"
  by (cases x) (simp_all add: show_if_def)

lemma set_show_some [simp]: "z \<in> set (show_some x f) \<longleftrightarrow> (\<exists>y. x = Some y \<and> z \<in> set (f y))"
  by (cases x) simp_all

lemma forest_actions_simps [simp]:
  "forest_actions [] = []"
  "forest_actions (n # ns) = actions n @ forest_actions ns"
  "forest_actions (ms @ ns) = forest_actions ms @ forest_actions ns"
  "forest_actions (show_if b ns) = show_if b (forest_actions ns)"
  by (simp_all add: forest_actions_def show_if_def)

lemma is_disabled_map_attr [simp]: "is_disabled (map (map_attr f) as) = is_disabled as"
  by (induction as rule: is_disabled.induct) auto

lemma attr_actions_map_attr [simp]: "attr_actions (map (map_attr f) as) = map f (attr_actions as)"
  by (induction as rule: attr_actions.induct) auto

lemma attr_inputs_map_attr [simp]:
  "attr_inputs (map (map_attr f) as) = map (\<lambda>h x. f (h x)) (attr_inputs as)"
  by (induction as rule: attr_inputs.induct) (auto simp: comp_def)

lemma actions_map_node [simp]: "actions (map_node f n) = map f (actions n)"
proof (induction n)
  case (El t as cs)
  then have "map (\<lambda>c. actions (map_node f c)) cs = map (\<lambda>c. map f (actions c)) cs" by simp
  then show ?case by (simp add: map_concat comp_def del: map_eq_conv)
qed simp_all

lemma inputs_map_node [simp]: "inputs (map_node f n) = map (\<lambda>h x. f (h x)) (inputs n)"
proof (induction n)
  case (El t as cs)
  then have "map (\<lambda>c. inputs (map_node f c)) cs = map (\<lambda>c. map (\<lambda>h x. f (h x)) (inputs c)) cs"
    by (rule map_cong [OF refl])
  then show ?case by (simp add: map_concat comp_def del: map_eq_conv)
qed simp_all

lemma attr_actions_append [simp]: "attr_actions (as @ bs) = attr_actions as @ attr_actions bs"
  by (induction as rule: attr_actions.induct) auto

lemma is_disabled_append [simp]: "is_disabled (as @ bs) \<longleftrightarrow> is_disabled as \<or> is_disabled bs"
  by (induction as rule: is_disabled.induct) auto

end
