(* ===== verification/Cart_Page.thy ===== *)
theory Cart_Page
  imports Cart_Store Jsx
begin

text \<open>
  The cart page, \<open>frontend/src/pages/Cart.tsx\<close>: its local state (the text of the coupon
  field), what it renders for a given store, and what each of its handlers does. The
  lemmas relate the rendered controls to the store's operations.
\<close>

record cart_page =
  cart :: cart_state
  couponInput :: jsstring

datatype cart_action =
    SetQuantity jsstring rat
  | RemoveFromCart jsstring
  | TypeCoupon jsstring
  | SubmitCoupon

fun cart_page_step :: "cart_page \<Rightarrow> cart_action \<Rightarrow> cart_page" where
  "cart_page_step p (SetQuantity i q) = p\<lparr>cart := updateQuantity i q (cart p)\<rparr>"
| "cart_page_step p (RemoveFromCart i) = p\<lparr>cart := removeItem i (cart p)\<rparr>"
| "cart_page_step p (TypeCoupon t) = p\<lparr>couponInput := t\<rparr>"
| "cart_page_step p SubmitCoupon = p\<lparr>cart := applyCoupon (couponInput p) (cart p)\<rparr>"

definition cart_row :: "cart_item \<Rightarrow> cart_action node" where
  "cart_row item =
     El ''div'' []
       [El ''div'' []
          [El ''span'' [] [Txt (sku item)],
           El ''h3'' [] [Txt (item_name item)],
           El ''p'' [] [Txt ''$'', Num (price item)]],
        El ''div'' []
          [El ''button'' [On ''click'' (SetQuantity (product_id item) (nminus (quantity item) 1))] [Txt ''-''],
           El ''span'' [] [Num (quantity item)],
           El ''button'' [On ''click'' (SetQuantity (product_id item) (nplus (quantity item) 1))] [Txt ''+'']],
        El ''button'' [On ''click'' (RemoveFromCart (product_id item))] [Icon ''Trash2'']]"

definition empty_cart_view :: "cart_action node" where
  "empty_cart_view =
     El ''div'' []
       [El ''div'' [] [Icon ''ShoppingBag''],
        El ''h1'' [] [Txt ''Your Cart is Empty''],
        El ''p'' [] [Txt ''You haven't added any products to your shopping cart yet.''],
        El ''Link'' [Attr ''to'' ''/products''] [Txt ''Start Shopping'']]"

definition summary_view :: "cart_page \<Rightarrow> cart_action node" where
  "summary_view p =
     (let t = getCartTotals (cart p) in
      El ''div'' []
        [El ''div'' []
          ([El ''h3'' [] [Txt ''Summary''],
            El ''form'' [On ''submit'' SubmitCoupon]
              [El ''input'' [Attr ''type'' ''text'', Attr ''placeholder'' ''Promo Code'',
                 Attr ''value'' (couponInput p), OnText ''change'' TypeCoupon] [],
               El ''button'' [Attr ''type'' ''submit''] [Txt ''Apply'']],
            El ''div'' []
              ([El ''div'' [] [El ''span'' [] [Txt ''Subtotal''], El ''span'' [] [Txt ''$'', Num (subtotal t)]]]
               @ show_if (discount t > 0)
                   [El ''div'' []
                      [El ''span'' [] ([Txt ''Discount (''] @ show_some (couponCode (cart p)) (\<lambda>c. [Txt c])
                          @ [Txt '')'']),
                       El ''span'' [] [Txt ''-$'', Num (discount t)]]]
               @ [El ''div'' [] [El ''span'' [] [Txt ''Estimated Tax''], El ''span'' [] [Txt ''$'', Num (tax t)]],
                  El ''div'' [] [El ''span'' [] [Txt ''Shipping''], El ''span'' [] [Txt ''$9.99'']]]),
            El ''div'' [] [El ''span'' [] [Txt ''Total''], El ''span'' [] [Txt ''$'', Num (total t)]],
            El ''Link'' [Attr ''to'' ''/checkout''] [Txt ''Checkout '', Icon ''ArrowRight'']])])"

definition cart_view :: "cart_page \<Rightarrow> cart_action node" where
  "cart_view p =
     (if items (cart p) = [] then empty_cart_view
      else El ''div'' []
        [El ''h1'' [] [Txt ''Shopping Cart''],
         El ''div'' []
           [El ''div'' [] (map cart_row (items (cart p))), summary_view p]])"

subsection \<open>The controls of the page\<close>

lemma actions_cart_row:
  "actions (cart_row i) = [SetQuantity (product_id i) (nminus (quantity i) 1),
     SetQuantity (product_id i) (nplus (quantity i) 1), RemoveFromCart (product_id i)]"
  by (simp add: cart_row_def)

lemma actions_summary: "actions (summary_view p) = [SubmitCoupon]"
  by (simp add: summary_view_def Let_def comp_def)

lemma actions_cart_view:
  "actions (cart_view p) =
     (if items (cart p) = [] then []
      else concat (map (\<lambda>i. actions (cart_row i)) (items (cart p))) @ [SubmitCoupon])"
  by (simp add: cart_view_def empty_cart_view_def actions_summary comp_def)

lemma cart_page_step_inv: "cart_inv (cart p) \<Longrightarrow> cart_inv (cart (cart_page_step p a))"
  using cart_step_inv [of "cart p" "UpdateQuantity i q" for i q]
    cart_step_inv [of "cart p" "RemoveItem i" for i] cart_step_inv [of "cart p" "ApplyCoupon c" for c]
  by (cases a) simp_all

lemma qty_map_item: "cart_inv s \<Longrightarrow> i \<in> set (items s) \<Longrightarrow> qty_map s (product_id i) = Some (quantity i)"
  using find_unique [of product_id "items s" i] by (auto simp: qty_map_def cart_inv_def)

text \<open>Every control the cart page offers keeps the store's invariant, refers to a
  product in the cart, and does what its label says: a quantity button moves that
  product's quantity by one step, or takes the product out when the step reaches zero,
  and the bin takes it out; no other product's quantity changes. An empty cart offers no
  control at all.\<close>

theorem cart_page_controls:
  assumes "cart_inv (cart p)" and "a \<in> set (actions (cart_view p))"
  shows "cart_inv (cart (cart_page_step p a)) \<and> items (cart p) \<noteq> [] \<and>
    (\<forall>k q. a = SetQuantity k q \<longrightarrow>
      (\<exists>i \<in> set (items (cart p)). product_id i = k \<and>
         (q = nminus (quantity i) 1 \<or> q = nplus (quantity i) 1) \<and>
         qty_map (cart (cart_page_step p a)) =
           (qty_map (cart p))(k := if q \<le> 0 then None else Some q))) \<and>
    (\<forall>k. a = RemoveFromCart k \<longrightarrow>
      k \<in> product_id ` set (items (cart p)) \<and>
      qty_map (cart (cart_page_step p a)) = (qty_map (cart p))(k := None))"
proof -
  have "\<exists>i \<in> set (items (cart p)). product_id i = k \<and>
         (q = nminus (quantity i) 1 \<or> q = nplus (quantity i) 1) \<and>
         qty_map (cart (cart_page_step p a)) = (qty_map (cart p))(k := if q \<le> 0 then None else Some q)"
    if a: "a = SetQuantity k q" for k q
  proof -
    obtain i where i: "i \<in> set (items (cart p))" "product_id i = k"
        "q = nminus (quantity i) 1 \<or> q = nplus (quantity i) 1"
      using assms(2) unfolding a by (auto simp: actions_cart_view actions_cart_row split: if_splits)
    moreover have "qty_map (cart p) k = Some (quantity i)"
      using qty_map_item [OF assms(1) i(1)] i(2) by simp
    ultimately show ?thesis using a
      by (intro bexI [of _ i]) (auto simp: qty_map_updateQuantity)
  qed
  moreover have "items (cart p) \<noteq> []"
    using assms(2) by (auto simp: actions_cart_view)
  moreover have "k \<in> product_id ` set (items (cart p)) \<and>
      qty_map (cart (cart_page_step p a)) = (qty_map (cart p))(k := None)"
    if "a = RemoveFromCart k" for k
    using assms(2) unfolding that
    by (auto simp: actions_cart_view actions_cart_row qty_map_removeItem split: if_splits)
  ultimately show ?thesis using cart_page_step_inv [OF assms(1)] by blast
qed

theorem cart_page_controls_witness:
  "qty_map (cart (cart_page_step \<lparr>cart = addItem sample_item initial_cart, couponInput = ''''\<rparr>
     (RemoveFromCart ''p1''))) = Map.empty"
proof -
  let ?p = "\<lparr>cart = addItem sample_item initial_cart, couponInput = ''''\<rparr>"
  have i: "cart_inv (cart ?p)" using sample_cart_ok(1) [of "[]"] by simp
  have m: "RemoveFromCart ''p1'' \<in> set (actions (cart_view ?p))"
    by (simp add: actions_cart_view actions_cart_row addItem_def initial_cart_def sample_item_def
        new_item.defs cart_item.defs)
  have "qty_map (cart (cart_page_step ?p (RemoveFromCart ''p1''))) = (qty_map (cart ?p))(''p1'' := None)"
    using cart_page_controls [OF i m] by blast
  moreover have "qty_map (cart ?p) = [''p1'' \<mapsto> 1]"
    by (simp add: qty_map_addItem sample_item_def) (simp add: qty_map_def initial_cart_def fun_eq_iff)
  ultimately show ?thesis by simp
qed

end
