(* ===== verification/Notifications.thy ===== *)
theory Notifications
  imports Js_String Jsx
begin

text \<open>
  The toasts of \<open>frontend/src/components/ui/Toast.tsx\<close> and the notification store of
  \<open>frontend/src/stores/notificationStore.ts\<close>, with the listener that feeds the store from
  the socket. Identifiers made by \<open>crypto.randomUUID\<close> and the time stamps are arguments.

  A toast is removed by the timer its \<open>ToastItem\<close> starts in an effect. The effect depends
  on \<open>onRemove\<close>, which the container makes anew on every render, so every change of the
  toast store clears and restarts the timers of all the toasts on screen: the timers run
  from \<open>rendered_at\<close>, the time of the last change. \<open>advance now\<close> lets the clock reach
  \<open>now\<close>: the earliest timer fires, its toast goes, the others restart.
\<close>

subsection \<open>Toasts\<close>

datatype toast_variant = Success | Error | Warning | Info

record toast =
  toast_id :: jsstring
  toast_title :: jsstring
  description :: "jsstring option"
  variant :: toast_variant
  duration :: "int option"

record toast_store =
  toasts :: "toast list"
  rendered_at :: int

definition initial_toasts :: toast_store where
  "initial_toasts = \<lparr>toasts = [], rendered_at = 0\<rparr>"

definition add_toast :: "int \<Rightarrow> toast \<Rightarrow> toast_store \<Rightarrow> toast_store" where
  "add_toast now t s = s\<lparr>toasts := toasts s @ [t], rendered_at := now\<rparr>"

definition remove_toast :: "int \<Rightarrow> jsstring \<Rightarrow> toast_store \<Rightarrow> toast_store" where
  "remove_toast now i s = s\<lparr>toasts := filter (\<lambda>t. toast_id t \<noteq> i) (toasts s), rendered_at := now\<rparr>"

record toast_opts =
  opt_description :: "jsstring option"
  opt_variant :: "toast_variant option"
  opt_duration :: "int option"

definition num_or :: "int option \<Rightarrow> int \<Rightarrow> int" where
  \<comment> \<open>\<open>n || d\<close>: zero is falsy\<close>
  "num_or n d = (case n of None \<Rightarrow> d | Some k \<Rightarrow> if k = 0 then d else k)"

definition show_toast :: "int \<Rightarrow> jsstring \<Rightarrow> jsstring \<Rightarrow> toast_opts \<Rightarrow> toast_store \<Rightarrow> toast_store" where
  "show_toast now uuid title opts =
     add_toast now
       \<lparr>toast_id = uuid, toast_title = title, description = opt_description opts,
        variant = (case opt_variant opts of None \<Rightarrow> Info | Some v \<Rightarrow> v),
        duration = Some (num_or (opt_duration opts) 5000)\<rparr>"

definition timeout :: "toast \<Rightarrow> int" where
  "timeout t = num_or (duration t) 5000"

fun earliest :: "toast list \<Rightarrow> toast option" where
  "earliest [] = None"
| "earliest (t # ts) =
     (case earliest ts of None \<Rightarrow> Some t | Some u \<Rightarrow> if timeout t \<le> timeout u then Some t else Some u)"

lemma earliest_mem: "earliest ts = Some t \<Longrightarrow> t \<in> set ts"
  by (induction ts arbitrary: t) (auto split: option.splits if_splits)

function advance :: "int \<Rightarrow> toast_store \<Rightarrow> toast_store" where
  "advance now s =
     (case earliest (toasts s) of
        None \<Rightarrow> s
      | Some t \<Rightarrow>
          if rendered_at s + timeout t \<le> now
          then advance now (remove_toast (rendered_at s + timeout t) (toast_id t) s)
          else s)"
  by pat_completeness auto
termination
proof (relation "measure (\<lambda>(now, s). length (toasts s))")
  show "((now, remove_toast (rendered_at s + timeout t) (toast_id t) s), now, s)
      \<in> measure (\<lambda>(now, s). length (toasts s))"
    if "earliest (toasts s) = Some t" for now s t
    using earliest_mem [OF that] by (auto simp: remove_toast_def intro!: length_filter_less)
qed simp

declare advance.simps [simp del]

datatype toast_action = Dismiss jsstring

fun toast_icon :: "toast_variant \<Rightarrow> string" where
  "toast_icon Success = ''CheckCircle''"
| "toast_icon Error = ''AlertCircle''"
| "toast_icon Warning = ''AlertTriangle''"
| "toast_icon Info = ''Info''"

definition toast_item :: "toast \<Rightarrow> toast_action node" where
  "toast_item t =
     El ''div'' [Attr ''role'' ''alert'']
       [El ''span'' [] [Icon (toast_icon (variant t))],
        El ''div'' []
          (El ''p'' [] [Txt (toast_title t)]
           # show_if (truthy (description t)) [El ''p'' [] [Txt (str_or (description t) '''')]]),
        El ''button'' [On ''click'' (Dismiss (toast_id t)), Attr ''aria-label'' ''Dismiss''] [Icon ''X'']]"

definition toast_container :: "toast_store \<Rightarrow> toast_action node list" where
  "toast_container s =
     (if toasts s = [] then []
      else [El ''div'' [Attr ''aria-live'' ''polite''] (map toast_item (toasts s))])"

subsection \<open>Notifications\<close>

record notification =
  notif_id :: jsstring
  notif_title :: jsstring
  message :: jsstring
  category :: jsstring
  read :: bool
  timestamp :: jsstring

record notification_preferences =
  pref_order :: bool
  pref_inventory :: bool
  pref_system :: bool

datatype preference_key = OrderKey | InventoryKey | SystemKey

record notification_state =
  notifications :: "notification list"
  preferences :: notification_preferences
  toast_store :: toast_store

definition initial_notifications :: "jsstring \<Rightarrow> jsstring \<Rightarrow> notification_state" where
  "initial_notifications now hour_ago =
     \<lparr>notifications =
        [\<lparr>notif_id = ''1'', notif_title = ''Stock Alert'',
          message = ''SKU-TEST-001 has dropped below threshold level.'',
          category = ''inventory'', read = False, timestamp = now\<rparr>,
         \<lparr>notif_id = ''2'', notif_title = ''System Update'',
          message = ''Database failover recovery drill complete.'',
          category = ''system'', read = True, timestamp = hour_ago\<rparr>],
      preferences = \<lparr>pref_order = True, pref_inventory = True, pref_system = True\<rparr>,
      toast_store = initial_toasts\<rparr>"

text \<open>\<open>preferences[category]\<close> for a string from the socket: the three keys, and whatever the
  object inherits from \<open>Object.prototype\<close>, all of it truthy.\<close>

definition object_prototype_keys :: "jsstring list" where
  "object_prototype_keys = [''constructor'', ''toString'', ''toLocaleString'', ''valueOf'', ''hasOwnProperty'',
     ''isPrototypeOf'', ''propertyIsEnumerable'', ''__proto__'', ''__defineGetter__'',
     ''__defineSetter__'', ''__lookupGetter__'', ''__lookupSetter__'']"

definition preference :: "notification_preferences \<Rightarrow> jsstring \<Rightarrow> bool" where
  "preference p c =
     (if c = ''order'' then pref_order p
      else if c = ''inventory'' then pref_inventory p
      else if c = ''system'' then pref_system p
      else List.member object_prototype_keys c)"

definition category_variant :: "jsstring \<Rightarrow> toast_variant" where
  "category_variant c = (if c = ''inventory'' then Warning else if c = ''order'' then Success else Info)"

text \<open>The clock, the time stamp it renders to, and the two identifiers a notification and its
  toast take.\<close>

record env =
  clock :: int
  stamp :: jsstring
  uuid1 :: jsstring
  uuid2 :: jsstring

definition addNotification ::
    "env \<Rightarrow> jsstring \<Rightarrow> jsstring \<Rightarrow> jsstring \<Rightarrow> notification_state \<Rightarrow> notification_state" where
  "addNotification e title msg c s =
     (if \<not> preference (preferences s) c then s
      else
        let n = \<lparr>notif_id = uuid1 e, notif_title = title, message = msg, category = c,
                 read = False, timestamp = stamp e\<rparr>;
            s1 = s\<lparr>notifications := n # notifications s\<rparr>
        in s1\<lparr>toast_store := show_toast (clock e) (uuid2 e) title
               \<lparr>opt_description = Some msg, opt_variant = Some (category_variant c), opt_duration = None\<rparr>
               (toast_store s1)\<rparr>)"

definition markAsRead :: "jsstring \<Rightarrow> notification_state \<Rightarrow> notification_state" where
  "markAsRead i s =
     s\<lparr>notifications := map (\<lambda>n. if notif_id n = i then n\<lparr>read := True\<rparr> else n) (notifications s)\<rparr>"

definition markAllAsRead :: "notification_state \<Rightarrow> notification_state" where
  "markAllAsRead s = s\<lparr>notifications := map (\<lambda>n. n\<lparr>read := True\<rparr>) (notifications s)\<rparr>"

definition clearAll :: "notification_state \<Rightarrow> notification_state" where
  "clearAll s = s\<lparr>notifications := []\<rparr>"

fun set_preference :: "preference_key \<Rightarrow> bool \<Rightarrow> notification_preferences \<Rightarrow> notification_preferences" where
  "set_preference OrderKey v p = p\<lparr>pref_order := v\<rparr>"
| "set_preference InventoryKey v p = p\<lparr>pref_inventory := v\<rparr>"
| "set_preference SystemKey v p = p\<lparr>pref_system := v\<rparr>"

definition updatePreference :: "preference_key \<Rightarrow> bool \<Rightarrow> notification_state \<Rightarrow> notification_state" where
  "updatePreference c v s = s\<lparr>preferences := set_preference c v (preferences s)\<rparr>"

subsection \<open>The socket's listener\<close>

text \<open>A message of the socket, as far as the listener reads it. A field that is absent, or not
  a string, is \<open>None\<close>.\<close>

datatype ws_status = Connecting | Open | Closed

record ws_message =
  msg_type :: "jsstring option"
  payload_title :: "jsstring option"
  payload_message :: "jsstring option"
  payload_category :: "jsstring option"

definition notification_listener ::
    "env \<Rightarrow> ws_status \<Rightarrow> ws_message option \<Rightarrow> notification_state \<Rightarrow> notification_state" where
  "notification_listener e status msg s =
     (case msg of
        None \<Rightarrow> s
      | Some m \<Rightarrow>
          if status = Open \<and> msg_type m = Some ''notification'' then
            if truthy (payload_title m) \<and> truthy (payload_message m) \<and> truthy (payload_category m)
            then addNotification e (the (payload_title m)) (the (payload_message m)) (the (payload_category m)) s
            else s
          else s)"

datatype notification_event =
    FromSocket env ws_status "ws_message option"
  | MarkAsRead jsstring
  | MarkAllAsRead
  | ClearAll
  | UpdatePreference preference_key bool
  | DismissToast int jsstring
  | TimePasses int

fun notification_step :: "notification_state \<Rightarrow> notification_event \<Rightarrow> notification_state" where
  "notification_step s (FromSocket e st m) = notification_listener e st m s"
| "notification_step s (MarkAsRead i) = markAsRead i s"
| "notification_step s MarkAllAsRead = markAllAsRead s"
| "notification_step s ClearAll = clearAll s"
| "notification_step s (UpdatePreference c v) = updatePreference c v s"
| "notification_step s (DismissToast now i) = s\<lparr>toast_store := remove_toast now i (toast_store s)\<rparr>"
| "notification_step s (TimePasses now) = s\<lparr>toast_store := advance now (toast_store s)\<rparr>"

definition unread :: "notification_state \<Rightarrow> nat" where
  "unread s = length (filter (\<lambda>n. \<not> read n) (notifications s))"

lemmas notification_defs [model_defs] =
  addNotification_def markAsRead_def markAllAsRead_def clearAll_def updatePreference_def
  notification_listener_def show_toast_def add_toast_def remove_toast_def

subsection \<open>Toasts leave one at a time\<close>

lemma earliest_uniform: "\<forall>t \<in> set ts. timeout t = d \<Longrightarrow> earliest ts = (case ts of [] \<Rightarrow> None | t # _ \<Rightarrow> Some t)"
  by (induction ts) (auto split: option.splits list.splits)

lemma remove_first:
  "distinct (map toast_id (t # ts)) \<Longrightarrow> filter (\<lambda>u. toast_id u \<noteq> toast_id t) (t # ts) = ts"
  by (auto simp: filter_id_conv image_iff)

lemma advance_early:
  "\<forall>t \<in> set (toasts s). timeout t = d \<Longrightarrow> now < rendered_at s + d \<Longrightarrow> advance now s = s"
  by (subst advance.simps) (auto dest: earliest_mem split: option.split)

lemma advance_due:
  assumes "\<forall>t \<in> set (toasts s). timeout t = d" "distinct (map toast_id (toasts s))"
    "toasts s = t # ts" "rendered_at s + d \<le> now"
  shows "advance now s = advance now (s\<lparr>toasts := ts, rendered_at := rendered_at s + d\<rparr>)"
proof -
  have "earliest (toasts s) = Some t" using earliest_uniform [OF assms(1)] assms(3) by simp
  moreover have "timeout t = d" using assms(1,3) by simp
  moreover have "filter (\<lambda>u. toast_id u \<noteq> toast_id t) (toasts s) = ts"
    using remove_first [of t ts] assms(2,3) by simp
  ultimately show ?thesis using assms(4)
    by (subst advance.simps) (simp add: remove_toast_def)
qed

lemma advance_empty: "toasts s = [] \<Longrightarrow> advance now s = s"
  by (subst advance.simps) simp

text \<open>Toasts on screen together that have the same display time \<open>d\<close> (five seconds, unless
  the caller asks for another) leave one at a time, \<open>d\<close> apart, the oldest first: after \<open>k\<close>
  periods exactly the first \<open>k\<close> are gone, so the last of \<open>n\<close> toasts stays for \<open>n\<close> periods.\<close>

theorem toasts_leave_one_by_one:
  assumes "\<forall>t \<in> set (toasts s). timeout t = d" "distinct (map toast_id (toasts s))"
    and "0 < d" "rendered_at s + int k * d \<le> now" "now < rendered_at s + (int k + 1) * d"
  shows "toasts (advance now s) = drop k (toasts s)"
  using assms
proof (induction k arbitrary: s)
  case 0
  then show ?case using advance_early [of s d now] by simp
next
  case (Suc k)
  show ?case
  proof (cases "toasts s")
    case Nil
    then show ?thesis by (simp add: advance_empty)
  next
    case (Cons t ts)
    have "0 \<le> int k * d" using Suc.prems(3) by simp
    then have "rendered_at s + d \<le> now" using Suc.prems(4) by (simp add: algebra_simps)
    from advance_due [OF Suc.prems(1,2) Cons this]
    show ?thesis using Suc.IH [of "s\<lparr>toasts := ts, rendered_at := rendered_at s + d\<rparr>"] Suc.prems Cons
      by (simp add: algebra_simps)
  qed
qed

theorem toasts_leave_one_by_one_witness:
  "toasts (advance 12000
     (foldl (\<lambda>s i. show_toast 0 i ''t'' \<lparr>opt_description = None, opt_variant = None, opt_duration = None\<rparr> s)
        initial_toasts [''a'', ''b'', ''c''])) =
   [\<lparr>toast_id = ''c'', toast_title = ''t'', description = None, variant = Info, duration = Some 5000\<rparr>]"
proof -
  define s where "s = foldl (\<lambda>s i. show_toast 0 i ''t'' \<lparr>opt_description = None, opt_variant = None, opt_duration = None\<rparr> s)
        initial_toasts [''a'', ''b'', ''c'']"
  have ts: "toasts s = map (\<lambda>i. \<lparr>toast_id = i, toast_title = ''t'', description = None, variant = Info,
      duration = Some 5000\<rparr>) [''a'', ''b'', ''c'']" and r: "rendered_at s = 0"
    by (simp_all add: s_def show_toast_def add_toast_def initial_toasts_def num_or_def)
  have 1: "\<forall>t \<in> set (toasts s). timeout t = 5000" by (simp add: ts timeout_def num_or_def)
  have 2: "distinct (map toast_id (toasts s))" by (simp add: ts)
  have "toasts (advance 12000 s) = drop 2 (toasts s)"
    by (rule toasts_leave_one_by_one [OF 1 2]) (simp_all add: r)
  then show ?thesis unfolding s_def [symmetric] by (simp add: ts)
qed

subsection \<open>Notifications from the socket\<close>

definition well_formed :: "ws_message \<Rightarrow> bool" where
  "well_formed m \<longleftrightarrow> msg_type m = Some ''notification'' \<and> truthy (payload_title m) \<and>
     truthy (payload_message m) \<and> truthy (payload_category m)"

lemma listener_ignores:
  "st \<noteq> Open \<or> m = None \<or> (\<exists>w. m = Some w \<and> \<not> well_formed w) \<Longrightarrow> notification_listener e st m s = s"
  by (auto simp: notification_listener_def well_formed_def split: option.split)

lemma listener_adds:
  "well_formed m \<Longrightarrow> notification_listener e Open (Some m) s =
     addNotification e (the (payload_title m)) (the (payload_message m)) (the (payload_category m)) s"
  by (simp add: notification_listener_def well_formed_def)

lemma addNotification_muted: "\<not> preference (preferences s) c \<Longrightarrow> addNotification e t m c s = s"
  by (simp add: addNotification_def)

lemma addNotification_enabled:
  assumes "preference (preferences s) c"
  shows "notifications (addNotification e t m c s) =
      \<lparr>notif_id = uuid1 e, notif_title = t, message = m, category = c, read = False, timestamp = stamp e\<rparr>
        # notifications s"
    and "unread (addNotification e t m c s) = Suc (unread s)"
    and "toasts (toast_store (addNotification e t m c s)) = toasts (toast_store s) @
      [\<lparr>toast_id = uuid2 e, toast_title = t, description = Some m, variant = category_variant c, duration = Some 5000\<rparr>]"
    and "preferences (addNotification e t m c s) = preferences s"
  using assms by (simp_all add: addNotification_def show_toast_def add_toast_def unread_def num_or_def Let_def)

text \<open>A message from the socket has an effect only when the connection is open, the message
  is a notification with a title, a text and a category, and the preference of its
  category is on; then it adds exactly one unread notification in front of the others and
  one toast with the variant of its category, and changes no preference.\<close>

theorem socket_notification:
  "(let s' = notification_listener e st (Some m) s; c = the (payload_category m) in
    if st = Open \<and> well_formed m \<and> preference (preferences s) c
    then tl (notifications s') = notifications s \<and> unread s' = Suc (unread s) \<and>
         message (hd (notifications s')) = the (payload_message m) \<and> category (hd (notifications s')) = c \<and>
         (\<exists>t. toasts (toast_store s') = toasts (toast_store s) @ [t] \<and>
            toast_title t = the (payload_title m) \<and> variant t = category_variant c) \<and>
         preferences s' = preferences s
    else s' = s)"
proof (cases "st = Open \<and> well_formed m")
  case True
  then show ?thesis
    by (auto simp: Let_def listener_adds addNotification_enabled addNotification_muted)
qed (auto simp: Let_def intro: listener_ignores)

fun key_name :: "preference_key \<Rightarrow> jsstring" where
  "key_name OrderKey = ''order''"
| "key_name InventoryKey = ''inventory''"
| "key_name SystemKey = ''system''"

lemma preference_set [simp]:
  "preference (set_preference k v p) (key_name k') = (if k = k' then v else preference p (key_name k'))"
  by (cases k; cases k') (simp_all add: preference_def)

lemma preference_step:
  assumes "\<not> preference (preferences s) (key_name k)" "e \<noteq> UpdatePreference k True"
  shows "\<not> preference (preferences (notification_step s e)) (key_name k)"
proof (cases e)
  case (FromSocket env st m)
  have "preferences (notification_step s e) = preferences s"
    using FromSocket by (auto simp: notification_listener_def addNotification_def Let_def split: option.split)
  then show ?thesis using assms by simp
qed (use assms in \<open>auto simp: markAsRead_def markAllAsRead_def clearAll_def updatePreference_def\<close>)

definition of_category :: "jsstring \<Rightarrow> notification_state \<Rightarrow> jsstring list" where
  "of_category c s = map notif_id (filter (\<lambda>n. category n = c) (notifications s))"

lemma of_category_step:
  assumes "\<not> preference (preferences s) (key_name k)"
  shows "of_category (key_name k) (notification_step s e) \<in> {of_category (key_name k) s, []}"
proof (cases e)
  case (FromSocket env st m)
  then show ?thesis using assms
    by (auto simp: of_category_def notification_listener_def addNotification_def Let_def split: option.split)
qed (auto simp: of_category_def markAsRead_def markAllAsRead_def clearAll_def updatePreference_def
    filter_map comp_def if_distrib [of category] if_distrib [of notif_id] cong: if_cong)

text \<open>While the preference of a category is off, no notification of that category appears,
  whatever the server sends and the user does: the ones that were there stay in place, or
  all are cleared.\<close>

theorem muted_category_stays_silent:
  assumes "\<not> preference (preferences s) (key_name k)" "UpdatePreference k True \<notin> set es"
  shows "of_category (key_name k) (run notification_step s es) \<in> {of_category (key_name k) s, []}"
  using assms
proof (induction es arbitrary: s)
  case (Cons e es)
  have "\<not> preference (preferences (notification_step s e)) (key_name k)"
    using Cons.prems by (intro preference_step) auto
  from Cons.IH [OF this] Cons.prems of_category_step [OF Cons.prems(1), of e] show ?case by auto
qed simp

definition sample_message :: "jsstring \<Rightarrow> ws_message" where
  "sample_message c = \<lparr>msg_type = Some ''notification'', payload_title = Some ''t'',
     payload_message = Some ''m'', payload_category = Some c\<rparr>"

definition sample_env :: env where
  "sample_env = \<lparr>clock = 0, stamp = ''now'', uuid1 = ''u'', uuid2 = ''v''\<rparr>"

theorem muted_category_stays_silent_witness:
  "of_category ''order'' (run notification_step
     (updatePreference OrderKey False (initial_notifications ''now'' ''ago''))
     [FromSocket sample_env Open (Some (sample_message ''order''))]) = []"
proof -
  let ?s = "updatePreference OrderKey False (initial_notifications ''now'' ''ago'')"
  have p: "\<not> preference (preferences ?s) (key_name OrderKey)"
    by (simp add: updatePreference_def preference_def)
  have "of_category (key_name OrderKey) ?s = []"
    by (simp add: of_category_def updatePreference_def initial_notifications_def)
  then show ?thesis
    using muted_category_stays_silent [OF p, of "[FromSocket sample_env Open (Some (sample_message ''order''))]"] by simp
qed

text \<open>Switching every category off does not silence the socket: the preferences are looked
  up by a name the server chose, and a name every object inherits (\<open>constructor\<close>,
  \<open>toString\<close>, ...) is always found. Exactly these messages still get through.\<close>

theorem all_muted_still_notifies:
  assumes "well_formed m"
    and "preferences s = \<lparr>pref_order = False, pref_inventory = False, pref_system = False\<rparr>"
  shows "notification_listener e Open (Some m) s = s \<longleftrightarrow>
    the (payload_category m) \<notin> set object_prototype_keys"
proof -
  let ?c = "the (payload_category m)"
  have pref: "preference (preferences s) ?c \<longleftrightarrow> ?c \<in> set object_prototype_keys"
    by (auto simp: assms(2) preference_def object_prototype_keys_def)
  show ?thesis
  proof (cases "?c \<in> set object_prototype_keys")
    case True
    then have "unread (notification_listener e Open (Some m) s) = Suc (unread s)"
      using pref assms(1) by (simp add: listener_adds addNotification_enabled)
    then show ?thesis using True by (metis n_not_Suc_n)
  qed (use pref assms(1) in \<open>simp add: listener_adds addNotification_muted\<close>)
qed

theorem all_muted_still_notifies_witness:
  "notification_listener sample_env Open (Some (sample_message ''constructor''))
     \<lparr>notifications = [], preferences = \<lparr>pref_order = False, pref_inventory = False, pref_system = False\<rparr>,
      toast_store = initial_toasts\<rparr>
   \<noteq> \<lparr>notifications = [], preferences = \<lparr>pref_order = False, pref_inventory = False, pref_system = False\<rparr>,
      toast_store = initial_toasts\<rparr>"
proof -
  have w: "well_formed (sample_message ''constructor'')"
    by (simp add: well_formed_def sample_message_def truthy_def)
  have c: "the (payload_category (sample_message ''constructor'')) \<in> set object_prototype_keys"
    by (simp add: sample_message_def object_prototype_keys_def)
  show ?thesis
    using all_muted_still_notifies [OF w, of "\<lparr>notifications = [],
        preferences = \<lparr>pref_order = False, pref_inventory = False, pref_system = False\<rparr>,
        toast_store = initial_toasts\<rparr>" sample_env] c by simp
qed

subsection \<open>Reading\<close>

lemma unread_markAllAsRead [simp]: "unread (markAllAsRead s) = 0"
  by (simp add: unread_def markAllAsRead_def filter_empty_conv)

lemma markAsRead_twice [simp]: "markAsRead i (markAsRead i s) = markAsRead i s"
  by (auto simp: markAsRead_def)

lemma unread_markAsRead:
  assumes "distinct (map notif_id (notifications s))"
  shows "unread (markAsRead i s) =
    (if \<exists>n \<in> set (notifications s). notif_id n = i \<and> \<not> read n then unread s - 1 else unread s)"
proof -
  let ?m = "\<lambda>n. if notif_id n = i then n\<lparr>read := True\<rparr> else n"
  have "length (filter (\<lambda>n. \<not> read n) (map ?m ns)) =
      (if \<exists>n \<in> set ns. notif_id n = i \<and> \<not> read n then length (filter (\<lambda>n. \<not> read n) ns) - 1
       else length (filter (\<lambda>n. \<not> read n) ns)) \<and>
      ((\<exists>n \<in> set ns. notif_id n = i \<and> \<not> read n) \<longrightarrow> 0 < length (filter (\<lambda>n. \<not> read n) ns))"
    if "distinct (map notif_id ns)" for ns
    using that by (induction ns) (auto simp: image_iff)
  from this [OF assms] show ?thesis by (simp only: unread_def markAsRead_def) simp
qed

end
