(* ===== verification/Web_Socket.thy ===== *)
theory Web_Socket
  imports Notifications
begin

text \<open>
  The reconnecting socket, \<open>frontend/src/lib/websocket.ts\<close> (class
  \<open>ResilientWebSocket\<close>). Each \<open>new WebSocket\<close> gets a number; \<open>sockets\<close> holds the ready
  state of every socket made so far, and \<open>ws\<close> the number of the one the object refers to.
  The handlers of an old socket stay attached, so an event of any socket runs them.
  \<open>reconnects\<close> counts the reconnect timers that have been set and have not fired, and
  \<open>emitted\<close> is what the listeners have been told, oldest first.

  The browser's side is the order of the events: a socket that is connecting may open; a
  socket that fails becomes closed and fires \<open>error\<close> and then \<open>close\<close>, with no other event
  between them (\<open>SocketFail\<close>); \<open>close()\<close>, or the other end (\<open>SocketClosing\<close>), starts the
  closing handshake, which ends with a \<open>close\<close> event. The socket's address is valid, so the constructor does not throw (its
  \<open>catch\<close> branch would run the same \<open>handleCloseOrFailure\<close>; it is the flag \<open>ctor_ok\<close>).
\<close>

datatype ready_state = CONNECTING | OPEN | CLOSING | CLOSED

record web_socket =
  ws :: "nat option"
  sockets :: "ready_state list"
  status :: ws_status
  reconnectAttempts :: nat
  heartbeat :: bool
  reconnects :: nat
  pings :: nat
  emitted :: "(ws_status \<times> ws_message option) list"

definition maxReconnectAttempts :: nat where
  "maxReconnectAttempts = 5"

definition initial_socket :: web_socket where
  "initial_socket = \<lparr>ws = None, sockets = [], status = Closed, reconnectAttempts = 0,
     heartbeat = False, reconnects = 0, pings = 0, emitted = []\<rparr>"

definition triggerListeners :: "ws_status \<Rightarrow> ws_message option \<Rightarrow> web_socket \<Rightarrow> web_socket" where
  "triggerListeners st msg s = s\<lparr>emitted := emitted s @ [(st, msg)]\<rparr>"

definition setStatus :: "ws_status \<Rightarrow> web_socket \<Rightarrow> web_socket" where
  "setStatus st s = triggerListeners st None (s\<lparr>status := st\<rparr>)"

definition stopHeartbeat :: "web_socket \<Rightarrow> web_socket" where
  "stopHeartbeat s = (if heartbeat s then s\<lparr>heartbeat := False\<rparr> else s)"

definition startHeartbeat :: "web_socket \<Rightarrow> web_socket" where
  "startHeartbeat s = (stopHeartbeat s)\<lparr>heartbeat := True\<rparr>"

definition handleCloseOrFailure :: "web_socket \<Rightarrow> web_socket" where
  "handleCloseOrFailure s =
     (let s1 = (stopHeartbeat (setStatus Closed s))\<lparr>ws := None\<rparr>
      in if reconnectAttempts s1 < maxReconnectAttempts
         then s1\<lparr>reconnectAttempts := reconnectAttempts s1 + 1, reconnects := reconnects s1 + 1\<rparr>
         else s1)"

definition live :: "web_socket \<Rightarrow> bool" where
  "live s = (case ws s of None \<Rightarrow> False | Some n \<Rightarrow> n < length (sockets s) \<and> sockets s ! n \<in> {OPEN, CONNECTING})"

definition connect :: "bool \<Rightarrow> web_socket \<Rightarrow> web_socket" where
  "connect ctor_ok s =
     (if live s then s
      else
        let s1 = setStatus Connecting s
        in if ctor_ok then s1\<lparr>ws := Some (length (sockets s1)), sockets := sockets s1 @ [CONNECTING]\<rparr>
           else handleCloseOrFailure s1)"

definition on_open :: "web_socket \<Rightarrow> web_socket" where
  "on_open s = startHeartbeat ((setStatus Open s)\<lparr>reconnectAttempts := 0\<rparr>)"

definition on_message :: "ws_message option \<Rightarrow> web_socket \<Rightarrow> web_socket" where
  "on_message data s = (case data of None \<Rightarrow> s | Some m \<Rightarrow> triggerListeners Open (Some m) s)"

definition heartbeat_tick :: "web_socket \<Rightarrow> web_socket" where
  "heartbeat_tick s =
     (case ws s of None \<Rightarrow> s
      | Some n \<Rightarrow> if n < length (sockets s) \<and> sockets s ! n = OPEN then s\<lparr>pings := pings s + 1\<rparr> else s)"

definition close_socket :: "nat \<Rightarrow> web_socket \<Rightarrow> web_socket" where
  \<comment> \<open>\<open>WebSocket.close()\<close>\<close>
  "close_socket n s =
     (if n < length (sockets s) \<and> sockets s ! n \<in> {OPEN, CONNECTING}
      then s\<lparr>sockets := (sockets s)[n := CLOSING]\<rparr> else s)"

definition disconnect :: "web_socket \<Rightarrow> web_socket" where
  "disconnect s =
     (let s1 = stopHeartbeat s;
          s2 = (case ws s1 of None \<Rightarrow> s1 | Some n \<Rightarrow> (close_socket n s1)\<lparr>ws := None\<rparr>)
      in setStatus Closed s2)"

subsection \<open>Events\<close>

text \<open>\<open>SocketMessage n None\<close> is a text that is not JSON. An event the browser cannot fire in
  the socket's ready state has no effect.\<close>

datatype socket_event =
    Connect bool
  | Disconnect
  | ReconnectTimer bool
  | HeartbeatTick
  | SocketOpen nat
  | SocketMessage nat "ws_message option"
  | SocketClosing nat
  | SocketFail nat
  | SocketClose nat

definition state_of :: "web_socket \<Rightarrow> nat \<Rightarrow> ready_state" where
  "state_of s n = (if n < length (sockets s) then sockets s ! n else CLOSED)"

fun socket_step :: "web_socket \<Rightarrow> socket_event \<Rightarrow> web_socket" where
  "socket_step s (Connect ok) = connect ok s"
| "socket_step s Disconnect = disconnect s"
| "socket_step s (ReconnectTimer ok) =
     (if reconnects s = 0 then s else connect ok (s\<lparr>reconnects := reconnects s - 1\<rparr>))"
| "socket_step s HeartbeatTick = (if heartbeat s then heartbeat_tick s else s)"
| "socket_step s (SocketOpen n) =
     (if state_of s n = CONNECTING then on_open (s\<lparr>sockets := (sockets s)[n := OPEN]\<rparr>) else s)"
| "socket_step s (SocketMessage n d) = (if state_of s n = OPEN then on_message d s else s)"
| "socket_step s (SocketClosing n) =
     (if state_of s n = OPEN then s\<lparr>sockets := (sockets s)[n := CLOSING]\<rparr> else s)"
| "socket_step s (SocketFail n) =
     (if state_of s n = CLOSED then s
      else handleCloseOrFailure (handleCloseOrFailure (s\<lparr>sockets := (sockets s)[n := CLOSED]\<rparr>)))"
| "socket_step s (SocketClose n) =
     (if state_of s n = CLOSED then s
      else handleCloseOrFailure (s\<lparr>sockets := (sockets s)[n := CLOSED]\<rparr>))"

lemmas socket_defs [model_defs] =
  triggerListeners_def setStatus_def stopHeartbeat_def startHeartbeat_def handleCloseOrFailure_def
  connect_def on_open_def on_message_def heartbeat_tick_def close_socket_def disconnect_def

lemma handleCloseOrFailure_simps [simp]:
  "ws (handleCloseOrFailure s) = None" "status (handleCloseOrFailure s) = Closed"
  "heartbeat (handleCloseOrFailure s) = False" "sockets (handleCloseOrFailure s) = sockets s"
  "reconnectAttempts (handleCloseOrFailure s) = (if reconnectAttempts s < maxReconnectAttempts
     then Suc (reconnectAttempts s) else reconnectAttempts s)"
  "reconnects (handleCloseOrFailure s) = (if reconnectAttempts s < maxReconnectAttempts
     then Suc (reconnects s) else reconnects s)"
  "emitted (handleCloseOrFailure s) = emitted s @ [(Closed, None)]"
  by (simp_all add: handleCloseOrFailure_def setStatus_def triggerListeners_def stopHeartbeat_def Let_def)

subsection \<open>Invariant of every run\<close>

definition status_seen :: "(ws_status \<times> ws_message option) list \<Rightarrow> ws_status" where
  "status_seen es = foldl (\<lambda>st (s, m). if m = None then s else st) Closed es"

lemma status_seen_append [simp]:
  "status_seen [] = Closed"
  "status_seen (es @ fs) = foldl (\<lambda>st (s, m). if m = None then s else st) (status_seen es) fs"
  by (simp_all add: status_seen_def)

definition socket_inv :: "web_socket \<Rightarrow> bool" where
  "socket_inv s \<longleftrightarrow> reconnectAttempts s \<le> maxReconnectAttempts \<and>
     (\<forall>n. ws s = Some n \<longrightarrow> n < length (sockets s)) \<and>
     (heartbeat s \<longrightarrow> status s \<noteq> Closed) \<and>
     status_seen (emitted s) = status s \<and>
     list_all (\<lambda>(st, m). m \<noteq> None \<longrightarrow> st = Open) (emitted s)"

lemma connect_inv: "socket_inv s \<Longrightarrow> socket_inv (connect ok s)"
  by (auto simp: connect_def socket_inv_def setStatus_def triggerListeners_def Let_def maxReconnectAttempts_def)

interpretation socket: state_machine initial_socket socket_step socket_inv
proof unfold_locales
  show "socket_inv initial_socket"
    by (simp add: socket_inv_def initial_socket_def)
  show "socket_inv (socket_step s e)" if i: "socket_inv s" for s e
  proof (cases e)
    case (ReconnectTimer ok)
    have "socket_inv (s\<lparr>reconnects := reconnects s - 1\<rparr>)" using i by (simp add: socket_inv_def)
    then show ?thesis using i ReconnectTimer by (simp add: connect_inv)
  next
    case (SocketOpen n)
    then show ?thesis using i
      by (auto simp: on_open_def socket_inv_def startHeartbeat_def stopHeartbeat_def setStatus_def triggerListeners_def)
  next
    case Disconnect
    then show ?thesis using i
      by (auto simp: disconnect_def socket_inv_def stopHeartbeat_def close_socket_def setStatus_def
          triggerListeners_def Let_def split: option.splits)
  next
    case (SocketMessage n d)
    then show ?thesis using i
      by (auto simp: on_message_def socket_inv_def triggerListeners_def split: option.splits)
  next
    case HeartbeatTick
    then show ?thesis using i by (auto simp: heartbeat_tick_def socket_inv_def split: option.splits)
  next
    case (SocketClosing n)
    then show ?thesis using i by (simp add: socket_inv_def)
  next
    case (Connect ok)
    then show ?thesis using i by (simp add: connect_inv)
  qed (use i in \<open>auto simp: socket_inv_def\<close>)
qed

text \<open>After any sequence of calls, timers and socket events: there have been at most five
  attempts since the last opening, the object refers to a socket it made, the heartbeat
  runs only while the connection is not reported closed, the status is the one the
  listeners were told last, and they get messages only as coming from an open connection.\<close>

theorem socket_inv_run: "socket_inv (run socket_step initial_socket es)"
  by (rule socket.inv_run)

subsection \<open>How many sockets a dead server costs\<close>

definition is_connect :: "socket_event \<Rightarrow> bool" where
  "is_connect e = (case e of Connect ok \<Rightarrow> True | _ \<Rightarrow> False)"

definition is_open :: "socket_event \<Rightarrow> bool" where
  "is_open e = (case e of SocketOpen n \<Rightarrow> True | _ \<Rightarrow> False)"

definition budget :: "nat \<Rightarrow> web_socket \<Rightarrow> bool" where
  "budget k s \<longleftrightarrow> length (sockets s) + reconnects s \<le> k + reconnectAttempts s"

lemma budget_handleClose: "budget k s \<Longrightarrow> budget k (handleCloseOrFailure s)"
  by (auto simp: budget_def)

lemma budget_connect:
  "length (sockets s) + reconnects s < k + reconnectAttempts s \<Longrightarrow> budget k (connect ok s)"
  by (auto simp: connect_def Let_def setStatus_def triggerListeners_def budget_def)

lemma budget_step:
  assumes "budget k s" "\<not> is_open e"
  shows "budget (if is_connect e then Suc k else k) (socket_step s e)"
proof (cases e)
  case (ReconnectTimer ok)
  have "0 < reconnects s \<Longrightarrow> budget k (connect ok (s\<lparr>reconnects := reconnects s - 1\<rparr>))"
    using assms(1) by (intro budget_connect) (simp add: budget_def)
  then show ?thesis using ReconnectTimer assms(1) by (simp add: is_connect_def)
next
  case (Connect ok)
  have "budget (Suc k) (connect ok s)"
    using assms(1) by (intro budget_connect) (simp add: budget_def)
  then show ?thesis using Connect by (simp add: is_connect_def)
next
  case (SocketFail n)
  then show ?thesis using assms(1) by (auto simp: budget_def is_connect_def)
next
  case (SocketClose n)
  then show ?thesis using assms(1) by (auto simp: budget_def is_connect_def)
qed (use assms in \<open>auto simp: is_connect_def is_open_def budget_def disconnect_def
    stopHeartbeat_def close_socket_def setStatus_def triggerListeners_def on_message_def heartbeat_tick_def Let_def
    split: option.splits\<close>)

lemma budget_run:
  "budget k s \<Longrightarrow> list_all (\<lambda>e. \<not> is_open e) es \<Longrightarrow>
   budget (k + length (filter is_connect es)) (run socket_step s es)"
proof (induction es arbitrary: k s)
  case (Cons e es)
  have "budget (if is_connect e then Suc k else k) (socket_step s e)"
    using Cons.prems by (intro budget_step) auto
  from Cons.IH [OF this] Cons.prems show ?case by (simp split: if_splits)
qed simp

text \<open>As long as no connection opens, all retries together make at most five sockets beyond
  the one each call of \<open>connect\<close> may make, however often they fail.\<close>

theorem retries_bounded:
  assumes "list_all (\<lambda>e. \<not> is_open e) es"
  shows "length (sockets (run socket_step initial_socket es)) \<le> length (filter is_connect es) + 5"
proof -
  have "budget 0 initial_socket" by (simp add: budget_def initial_socket_def)
  from budget_run [OF this assms] have "length (sockets (run socket_step initial_socket es)) \<le>
      length (filter is_connect es) + reconnectAttempts (run socket_step initial_socket es)"
    by (simp add: budget_def)
  moreover have "reconnectAttempts (run socket_step initial_socket es) \<le> 5"
    using socket.inv_run [of es] by (simp add: socket_inv_def maxReconnectAttempts_def)
  ultimately show ?thesis by simp
qed

theorem retries_bounded_witness:
  "length (sockets (run socket_step initial_socket [Connect True, SocketFail 0, ReconnectTimer True])) \<le> 6"
proof -
  have "list_all (\<lambda>e. \<not> is_open e) [Connect True, SocketFail 0, ReconnectTimer True]"
    by (simp add: is_open_def)
  from retries_bounded [OF this] show ?thesis by (simp add: is_connect_def del: socket_step.simps)
qed

text \<open>A round of retrying: the newest socket fails, which sets two timers, and both fire.\<close>

definition retry_round :: "nat \<Rightarrow> socket_event list" where
  "retry_round n = [SocketFail n, ReconnectTimer True, ReconnectTimer True]"

definition failing_run :: "nat \<Rightarrow> web_socket" where
  "failing_run k = run socket_step initial_socket (Connect True # concat (map retry_round [0..<k]))"

lemma failing_run_Suc: "failing_run (Suc k) = run socket_step (failing_run k) (retry_round k)"
  by (simp add: failing_run_def)

definition given_up :: "web_socket \<Rightarrow> bool" where
  "given_up s \<longleftrightarrow> sockets s = [CLOSED, CLOSED, CLOSED, CLOSED] \<and> reconnects s = 0 \<and> status s = Closed"

lemma given_up_round: "given_up s \<Longrightarrow> run socket_step s (retry_round n) = s"
  by (auto simp: given_up_def retry_round_def state_of_def nth_Cons split: nat.splits)

lemma failing_run_4: "given_up (failing_run (4 + k))"
proof (induction k)
  case 0
  show ?case by code_simp
next
  case (Suc k)
  then show ?case by (simp only: add_Suc_right failing_run_Suc given_up_round)
qed

text \<open>With a server that never answers the client gives up after four sockets, the first
  and three retries, not after the five retries the constant announces: a socket that
  fails fires both \<open>error\<close> and \<open>close\<close>, each counts as an attempt and sets a timer, and
  the second timer finds the socket of the first one connecting and does nothing.\<close>

theorem dead_server_four_sockets:
  "length (sockets (failing_run k)) = min (k + 1) 4 \<and> (4 \<le> k \<longrightarrow> given_up (failing_run k))"
proof (cases "4 \<le> k")
  case True
  then have "given_up (failing_run k)" using failing_run_4 [of "k - 4"] by simp
  then show ?thesis using True by (simp add: given_up_def)
next
  case False
  then consider "k = 0" | "k = 1" | "k = 2" | "k = 3" by linarith
  then show ?thesis by cases (simp_all, code_simp+)
qed

theorem dead_server_four_sockets_witness: "given_up (failing_run 7)"
  using dead_server_four_sockets [of 7] by simp

subsection \<open>Disconnecting\<close>

text \<open>\<open>disconnect\<close> does not last: the closing of the socket it closed is handled like a
  failure, so the timer it sets connects again.\<close>

theorem disconnect_reconnects:
  assumes "ws s = Some n" "state_of s n = OPEN" "reconnectAttempts s < 5" "socket_inv s"
  shows "(let s' = run socket_step s [Disconnect, SocketClose n, ReconnectTimer True] in
    status s' = Connecting \<and> ws s' = Some (length (sockets s)) \<and>
    sockets s' = (sockets s)[n := CLOSED] @ [CONNECTING])"
  using assms
  by (auto simp: state_of_def disconnect_def stopHeartbeat_def close_socket_def setStatus_def
      triggerListeners_def maxReconnectAttempts_def connect_def live_def Let_def split: if_splits)

theorem disconnect_reconnects_witness:
  "status (run socket_step initial_socket
     [Connect True, SocketOpen 0, Disconnect, SocketClose 0, ReconnectTimer True]) = Connecting"
proof -
  let ?s = "run socket_step initial_socket [Connect True, SocketOpen 0]"
  have 1: "ws ?s = Some 0" "state_of ?s 0 = OPEN" "reconnectAttempts ?s < 5" by code_simp+
  have 2: "socket_inv ?s" by (rule socket.inv_run)
  show ?thesis using disconnect_reconnects [OF 1 2] by (simp add: Let_def del: socket_step.simps)
qed

end
