(* ===== verification/Js_Sort.thy ===== *)
theory Js_Sort
  imports Complex_Main Prelude
begin

text \<open>
  \<open>Array.prototype.sort\<close> with a comparison function. The language requires the sort to
  be stable; for a consistent comparator (reflexive, antisymmetric up to sign,
  transitive) that fixes the result. \<open>js_sort\<close> is the stable insertion sort; the
  interface \<open>consistent_comparator\<close> states the law on the comparator, and inside it
  \<open>js_sort\<close> is proved to be a permutation, sorted, stable, and the only such list.
\<close>

fun insert_before :: "('a \<Rightarrow> 'a \<Rightarrow> rat) \<Rightarrow> 'a \<Rightarrow> 'a list \<Rightarrow> 'a list" where
  "insert_before cmp x [] = [x]"
| "insert_before cmp x (y # ys) =
     (if cmp x y \<le> 0 then x # y # ys else y # insert_before cmp x ys)"

fun js_sort :: "('a \<Rightarrow> 'a \<Rightarrow> rat) \<Rightarrow> 'a list \<Rightarrow> 'a list" where
  "js_sort cmp [] = []"
| "js_sort cmp (x # xs) = insert_before cmp x (js_sort cmp xs)"

lemma mset_insert_before: "mset (insert_before cmp x xs) = add_mset x (mset xs)"
  by (induction xs) auto

lemma mset_js_sort [simp]: "mset (js_sort cmp xs) = mset xs"
  by (induction xs) (auto simp: mset_insert_before)

lemma set_js_sort [simp]: "set (js_sort cmp xs) = set xs"
  by (metis mset_js_sort set_mset_mset)

lemma length_js_sort [simp]: "length (js_sort cmp xs) = length xs"
  by (metis mset_js_sort size_mset)

lemma distinct_map_js_sort [simp]: "distinct (map f (js_sort cmp xs)) = distinct (map f xs)"
  by (metis mset_js_sort mset_map mset_eq_imp_distinct_iff)

locale consistent_comparator =
  fixes cmp :: "'a \<Rightarrow> 'a \<Rightarrow> rat"
  assumes cmp_refl: "cmp a a = 0"
    and cmp_antisym: "cmp a b < 0 \<longleftrightarrow> 0 < cmp b a"
    and cmp_trans: "cmp a b \<le> 0 \<Longrightarrow> cmp b c \<le> 0 \<Longrightarrow> cmp a c \<le> 0"
begin

lemma cmp_zero_sym: "cmp a b = 0 \<Longrightarrow> cmp b a = 0"
  using cmp_antisym [of a b] cmp_antisym [of b a] by linarith

lemma cmp_linear: "\<not> cmp a b \<le> 0 \<Longrightarrow> cmp b a \<le> 0"
  using cmp_antisym [of b a] by linarith

lemma cmp_both: "cmp a b \<le> 0 \<Longrightarrow> cmp b a \<le> 0 \<Longrightarrow> cmp a b = 0"
  using cmp_antisym [of a b] by linarith

lemma insert_before_sorted:
  "sorted_wrt (\<lambda>a b. cmp a b \<le> 0) xs \<Longrightarrow> sorted_wrt (\<lambda>a b. cmp a b \<le> 0) (insert_before cmp x xs)"
proof (induction xs)
  case (Cons y ys)
  have set_ins: "set (insert_before cmp x ys) = insert x (set ys)"
    by (metis mset_insert_before set_mset_add_mset_insert set_mset_mset)
  show ?case
    using Cons set_ins by (auto intro: cmp_trans dest: cmp_linear)
qed simp

lemma sorted_js_sort: "sorted_wrt (\<lambda>a b. cmp a b \<le> 0) (js_sort cmp xs)"
  by (induction xs) (auto intro: insert_before_sorted)

lemma filter_insert_before:
  "filter (\<lambda>y. cmp a y = 0) (insert_before cmp x xs) = filter (\<lambda>y. cmp a y = 0) (x # xs)"
proof (induction xs)
  case (Cons y ys)
  have "\<not> (cmp a x = 0 \<and> cmp a y = 0)" if "\<not> cmp x y \<le> 0"
    using that cmp_trans [of x a y] cmp_zero_sym [of a x] by auto
  then show ?case using Cons by auto
qed simp

lemma stable_js_sort: "filter (\<lambda>y. cmp a y = 0) (js_sort cmp xs) = filter (\<lambda>y. cmp a y = 0) xs"
  by (induction xs) (auto simp: filter_insert_before)

lemma sorted_stable_eq:
  assumes "sorted_wrt (\<lambda>a b. cmp a b \<le> 0) xs" and "sorted_wrt (\<lambda>a b. cmp a b \<le> 0) ys"
    and "\<And>a. filter (\<lambda>y. cmp a y = 0) xs = filter (\<lambda>y. cmp a y = 0) ys"
  shows "xs = ys"
  using assms
proof (induction xs arbitrary: ys)
  case Nil
  show ?case
  proof (cases ys)
    case (Cons y ys')
    then show ?thesis using Nil.prems(3) [of y] by (simp add: cmp_refl)
  qed simp
next
  case (Cons x xs)
  have "x \<in> set (filter (\<lambda>y. cmp x y = 0) (x # xs))" by (simp add: cmp_refl)
  then have x: "x \<in> set ys" using Cons.prems(3) [of x] by simp
  then obtain y ys' where ys: "ys = y # ys'" by (cases ys) auto
  have "y \<in> set (filter (\<lambda>z. cmp y z = 0) ys)" by (simp add: cmp_refl ys)
  then have y: "y \<in> set (x # xs)" using Cons.prems(3) [of y] by (metis filter_is_subset subsetD)
  have "cmp x y \<le> 0" using y Cons.prems(1) by (auto simp: cmp_refl)
  moreover have "cmp y x \<le> 0" using x Cons.prems(2) ys by (auto simp: cmp_refl)
  ultimately have "cmp x y = 0" by (rule cmp_both)
  then have "x = y" using Cons.prems(3) [of x] by (simp add: ys cmp_refl)
  have "xs = ys'"
  proof (rule Cons.IH)
    show "filter (\<lambda>z. cmp a z = 0) xs = filter (\<lambda>z. cmp a z = 0) ys'" for a
      using Cons.prems(3) [of a] by (auto simp: ys \<open>x = y\<close> split: if_splits)
  qed (use Cons.prems ys in auto)
  then show ?case by (simp add: ys \<open>x = y\<close>)
qed

lemma js_sort_unique:
  assumes "sorted_wrt (\<lambda>a b. cmp a b \<le> 0) ys"
    and "\<And>a. filter (\<lambda>y. cmp a y = 0) ys = filter (\<lambda>y. cmp a y = 0) xs"
  shows "ys = js_sort cmp xs"
  by (rule sorted_stable_eq [OF assms(1) sorted_js_sort]) (simp only: stable_js_sort assms(2))

lemma js_sort_sorted_id: "sorted_wrt (\<lambda>a b. cmp a b \<le> 0) xs \<Longrightarrow> js_sort cmp xs = xs"
  using js_sort_unique [of xs xs] by simp

lemma js_sort_idem: "js_sort cmp (js_sort cmp xs) = js_sort cmp xs"
  by (rule js_sort_sorted_id) (rule sorted_js_sort)

end

subsection \<open>Comparators by a numeric key\<close>

lemma key_asc_consistent: "consistent_comparator (\<lambda>a b. key a - key b)"
  by unfold_locales auto

lemma key_desc_consistent: "consistent_comparator (\<lambda>a b. key b - key a)"
  by unfold_locales auto

end
