(* ===== verification/Fuzzy_Search.thy ===== *)
theory Fuzzy_Search
  imports Js_Number Js_String Js_Sort
begin

text \<open>
  The fuzzy search of the command palette, \<open>frontend/src/lib/fuzzySearch.ts\<close>: the score of a
  query against a text, its matching loop, and the ranking of a list of items. The
  literals of the source are the doubles nearest to them.
\<close>

fun match_loop :: "jsstring \<Rightarrow> jsstring \<Rightarrow> nat \<Rightarrow> nat \<Rightarrow> nat \<times> nat" where
  "match_loop [] t matches gaps = (matches, gaps)"
| "match_loop (c # q) [] matches gaps = (matches, gaps)"
| "match_loop (c # q) (d # t) matches gaps =
     (if c = d then match_loop q t (matches + 1) gaps else match_loop (c # q) t matches (gaps + 1))"

definition substring_score :: "nat \<Rightarrow> nat \<Rightarrow> rat" where
  "substring_score ql n = nplus (fl (4/5)) (ntimes (ndiv (of_nat ql) (of_nat n)) (fl (1/5)))"

definition scattered_score :: "nat \<Rightarrow> nat \<Rightarrow> nat \<Rightarrow> rat" where
  "scattered_score matches gaps n =
     (let penalty = ntimes (of_nat gaps) (fl (1/100));
          score = nminus (nplus (fl (1/2)) (ntimes (ndiv (of_nat matches) (of_nat n)) (fl (3/10)))) penalty
      in max (fl (1/10)) (min (fl (9/10)) score))"

definition fuzzyMatchScore :: "jsstring \<Rightarrow> jsstring \<Rightarrow> rat" where
  "fuzzyMatchScore query target =
     (let q = trim (toLowerCase query); t = trim (toLowerCase target)
      in if q = [] then 1
         else if t = [] then 0
         else if q = t then 1
         else if str_includes t q then substring_score (length q) (length t)
         else let (matches, gaps) = match_loop q t 0 0
              in if matches \<noteq> length q then 0 else scattered_score matches gaps (length t))"

record 'a search_result =
  result_item :: 'a
  score :: rat

definition max_score :: "rat list \<Rightarrow> rat" where
  \<comment> \<open>\<open>Math.max(...scores, 0)\<close>\<close>
  "max_score scores = foldr max scores 0"

definition fuzzySearch :: "'a list \<Rightarrow> jsstring \<Rightarrow> ('a \<Rightarrow> jsstring list) \<Rightarrow> 'a search_result list" where
  "fuzzySearch items query getStrings =
     (if query = [] then map (\<lambda>item. \<lparr>result_item = item, score = 1\<rparr>) items
      else js_sort (\<lambda>a b. nminus (score b) (score a))
        (filter (\<lambda>res. score res > 0)
          (map (\<lambda>item. \<lparr>result_item = item,
              score = max_score (map (\<lambda>s. fuzzyMatchScore query s) (getStrings item))\<rparr>) items)))"

subsection \<open>The matching loop\<close>

lemma match_loop_matches:
  "fst (match_loop q t m g) \<le> m + length q \<and> (fst (match_loop q t m g) = m + length q \<longleftrightarrow> subseq q t)"
proof (induction q t m g rule: match_loop.induct)
  case (3 c q d t m g)
  then show ?case by (auto simp: subseq_Cons2_iff)
qed auto

lemma match_loop_gaps:
  "g \<le> snd (match_loop q t m g) \<and> (snd (match_loop q t m g) = g \<and> subseq q t \<longrightarrow> prefix q t)"
proof (induction q t m g rule: match_loop.induct)
  case (3 c q d t m g)
  then show ?case by (cases "c = d") (auto simp: subseq_Cons2_iff)
qed auto

lemma match_loop_total:
  "subseq q t \<Longrightarrow> snd (match_loop q t m g) + length q \<le> g + length t"
proof (induction q t m g rule: match_loop.induct)
  case (3 c q d t m g)
  then show ?case by (auto simp: subseq_Cons2_iff)
qed auto

subsection \<open>Bounds of the score\<close>

lemma ratio_bounds:
  assumes "a \<le> b" "0 < b"
  shows "0 \<le> ndiv (of_nat a) (of_nat b)" and "ndiv (of_nat a) (of_nat b) \<le> 1"
proof -
  have "(of_nat a :: rat) / of_nat b \<le> 1" using assms by simp
  then show "ndiv (of_nat a) (of_nat b) \<le> 1" unfolding ndiv_def by (rule dbl.rnd_below [OF fl_1])
qed (simp add: ndiv_def dbl.rnd_nonneg)

lemma literal_facts:
  "nplus (fl (4/5)) (fl (1/5)) = 1" "nplus (fl (1/2)) (fl (3/10)) = fl (4/5)"
  "nminus (fl (4/5)) (fl (1/100)) < fl (4/5)" "0 < fl (1/100)" "0 < fl (1/10)" "fl (9/10) \<le> 1"
  "fl (1/10) < fl (4/5)" "0 \<le> fl (1/5)" "0 \<le> fl (3/10)" "0 < fl (4/5)"
  by code_simp+

lemma substring_score_bounds:
  assumes "a \<le> b" "0 < b"
  shows "fl (4/5) \<le> substring_score a b" and "substring_score a b \<le> 1"
proof -
  let ?r = "ndiv (of_nat a) (of_nat b)"
  note r = ratio_bounds [OF assms]
  have n: "0 \<le> ntimes ?r (fl (1/5))" by (rule ntimes_nonneg [OF r(1) literal_facts(8)])
  have "ntimes ?r (fl (1/5)) \<le> ntimes 1 (fl (1/5))"
    by (rule ntimes_mono [OF literal_facts(8) r(2)])
  then have "ntimes ?r (fl (1/5)) \<le> fl (1/5)" by simp
  then have "substring_score a b \<le> nplus (fl (4/5)) (fl (1/5))"
    unfolding substring_score_def by (rule nplus_mono [OF order_refl])
  then show "substring_score a b \<le> 1" by (simp add: literal_facts)
  have "nplus (fl (4/5)) 0 \<le> substring_score a b"
    unfolding substring_score_def by (rule nplus_mono [OF order_refl n])
  then show "fl (4/5) \<le> substring_score a b" by simp
qed

lemma nminus_mono: "a \<le> b \<Longrightarrow> d \<le> c \<Longrightarrow> nminus a c \<le> nminus b d"
  by (simp add: nminus_def dbl.rnd_mono)

lemma scattered_score_bounds:
  assumes "m \<le> n" "0 < n" "0 < gaps"
  shows "0 < scattered_score m gaps n" and "scattered_score m gaps n < fl (4/5)"
proof -
  let ?r = "ndiv (of_nat m) (of_nat n)"
  note r = ratio_bounds [OF assms(1,2)]
  have "ntimes ?r (fl (3/10)) \<le> ntimes 1 (fl (3/10))"
    by (rule ntimes_mono [OF literal_facts(9) r(2)])
  then have "nplus (fl (1/2)) (ntimes ?r (fl (3/10))) \<le> nplus (fl (1/2)) (fl (3/10))"
    by (intro nplus_mono) simp_all
  moreover have "ntimes 1 (fl (1/100)) \<le> ntimes (of_nat gaps) (fl (1/100))"
    using assms(3) literal_facts(4) by (intro ntimes_mono) (simp_all del: fl_pos_iff)
  ultimately have "nminus (nplus (fl (1/2)) (ntimes ?r (fl (3/10)))) (ntimes (of_nat gaps) (fl (1/100)))
      \<le> nminus (fl (4/5)) (fl (1/100))"
    unfolding literal_facts by (intro nminus_mono) simp_all
  then show "scattered_score m gaps n < fl (4/5)"
    using literal_facts(3,7) unfolding scattered_score_def Let_def by linarith
  show "0 < scattered_score m gaps n"
    using literal_facts(5) by (simp add: scattered_score_def Let_def less_max_iff_disj)
qed

subsection \<open>What a score means\<close>

abbreviation normal :: "jsstring \<Rightarrow> jsstring" where
  "normal s \<equiv> trim (toLowerCase s)"

lemma match_loop_cases:
  assumes "subseq q t"
  obtains g where "match_loop q t 0 0 = (length q, g)" "\<not> str_includes t q \<longrightarrow> 0 < g"
proof -
  obtain m g where mg: "match_loop q t 0 0 = (m, g)" by fastforce
  have "m = length q" using match_loop_matches [of q t 0 0] assms mg by simp
  moreover have "0 < g" if "\<not> str_includes t q"
    using match_loop_gaps [where q = q and t = t and m = 0 and g = 0] assms that mg
    by (auto simp: str_includes_sublist)
  ultimately show thesis using mg that by blast
qed

lemma match_loop_fails:
  "\<not> subseq q t \<Longrightarrow> fst (match_loop q t 0 0) \<noteq> length q"
  using match_loop_matches [of q t 0 0] by simp

lemma score_of_substring:
  assumes "str_includes (normal t) (normal q)" "normal q \<noteq> []"
  shows "fl (4/5) \<le> fuzzyMatchScore q t \<and> fuzzyMatchScore q t \<le> 1"
proof -
  have t: "normal t \<noteq> []" and l: "length (normal q) \<le> length (normal t)"
    using assms by (auto simp: str_includes_sublist dest: sublist_length_le)
  then have "fl (4/5) \<le> substring_score (length (normal q)) (length (normal t))"
    "substring_score (length (normal q)) (length (normal t)) \<le> 1"
    by (auto intro!: substring_score_bounds)
  moreover have "fl (4/5) \<le> (1::rat)" by code_simp
  ultimately show ?thesis using assms t by (simp add: fuzzyMatchScore_def Let_def)
qed

lemma score_of_scattered:
  assumes "subseq (normal q) (normal t)" "\<not> str_includes (normal t) (normal q)"
  shows "0 < fuzzyMatchScore q t \<and> fuzzyMatchScore q t < fl (4/5)"
proof -
  obtain g where g: "match_loop (normal q) (normal t) 0 0 = (length (normal q), g)" "0 < g"
    using match_loop_cases [OF assms(1)] assms(2) by blast
  have n: "normal q \<noteq> []" "normal t \<noteq> []" "normal q \<noteq> normal t"
    using assms by (auto simp: str_includes_sublist)
  have l: "length (normal q) \<le> length (normal t)" using assms(1) by (rule list_emb_length)
  have "0 < scattered_score (length (normal q)) g (length (normal t))"
    "scattered_score (length (normal q)) g (length (normal t)) < fl (4/5)"
    using l n g(2) by (auto intro!: scattered_score_bounds)
  then show ?thesis using n assms(2) g by (simp add: fuzzyMatchScore_def Let_def)
qed

lemma score_of_mismatch:
  assumes "\<not> subseq (normal q) (normal t)"
  shows "fuzzyMatchScore q t = 0"
proof -
  have "\<not> str_includes (normal t) (normal q)" "normal q \<noteq> []" "normal q \<noteq> normal t"
    using assms sublist_imp_subseq by (auto simp: str_includes_sublist)
  moreover obtain m g where "match_loop (normal q) (normal t) 0 0 = (m, g)" "m \<noteq> length (normal q)"
    using match_loop_fails [OF assms] by (metis fst_conv surj_pair)
  ultimately show ?thesis by (simp add: fuzzyMatchScore_def Let_def)
qed

lemma score_of_blank: "normal q = [] \<Longrightarrow> fuzzyMatchScore q t = 1"
  by (simp add: fuzzyMatchScore_def)

lemma score_range: "0 \<le> fuzzyMatchScore q t \<and> fuzzyMatchScore q t \<le> 1"
proof -
  have l: "fl (4/5) \<le> (1::rat)" "0 \<le> fl (4/5)" by code_simp+
  consider "normal q = []" | "\<not> subseq (normal q) (normal t)"
    | "normal q \<noteq> []" "str_includes (normal t) (normal q)"
    | "subseq (normal q) (normal t)" "\<not> str_includes (normal t) (normal q)" by blast
  then show ?thesis
    by cases (use l score_of_blank score_of_mismatch score_of_substring score_of_scattered in
        \<open>fastforce+\<close>)
qed

lemma score_pos_iff: "0 < fuzzyMatchScore q t \<longleftrightarrow> subseq (normal q) (normal t)"
proof -
  have p: "0 < fl (4/5)" by (simp only: fl_pos_iff)
  consider "normal q = []" | "\<not> subseq (normal q) (normal t)"
    | "normal q \<noteq> []" "str_includes (normal t) (normal q)" "subseq (normal q) (normal t)"
    | "subseq (normal q) (normal t)" "\<not> str_includes (normal t) (normal q)" by blast
  then show ?thesis
  proof cases
    case 3
    then have "0 < fuzzyMatchScore q t" using score_of_substring [of t q] p by (meson less_le_trans)
    then show ?thesis using 3 by simp
  qed (simp_all add: score_of_blank score_of_mismatch score_of_scattered)
qed

lemma substring_beats_scattered:
  assumes "str_includes (normal t) (normal q)" "\<not> str_includes (normal u) (normal q)"
  shows "fuzzyMatchScore q u < fuzzyMatchScore q t"
proof -
  have "normal q \<noteq> []" using assms by auto
  then have t: "fl (4/5) \<le> fuzzyMatchScore q t" using assms score_of_substring by blast
  have p: "0 < fl (4/5)" by (simp only: fl_pos_iff)
  have "fuzzyMatchScore q u < fl (4/5)"
  proof (cases "subseq (normal q) (normal u)")
    case True
    then show ?thesis using assms(2) score_of_scattered by blast
  next
    case False
    show ?thesis unfolding score_of_mismatch [OF False] by (rule p)
  qed
  then show ?thesis using t by simp
qed

text \<open>A score lies between 0 and 1, rounding included. It is positive exactly when the
  letters of the query occur in the text in order, without regard to case and outer
  blanks; and a text that contains the query as a contiguous piece always scores strictly
  higher than a text that has its letters only scattered.\<close>

theorem fuzzy_score_meaning:
  "0 \<le> fuzzyMatchScore q t \<and> fuzzyMatchScore q t \<le> 1 \<and>
   (0 < fuzzyMatchScore q t \<longleftrightarrow> subseq (normal q) (normal t)) \<and>
   (str_includes (normal t) (normal q) \<and> \<not> str_includes (normal u) (normal q) \<longrightarrow>
      fuzzyMatchScore q u < fuzzyMatchScore q t)"
  using score_range score_pos_iff substring_beats_scattered by blast

theorem fuzzy_score_meaning_witness:
  "fuzzyMatchScore ''ord'' ''old road'' < fuzzyMatchScore ''ord'' '' My Orders''"
proof -
  have "str_includes (normal '' My Orders'') (normal ''ord'') \<and> \<not> str_includes (normal ''old road'') (normal ''ord'')"
    by code_simp
  then show ?thesis using fuzzy_score_meaning by blast
qed

subsection \<open>Ranking\<close>

interpretation by_score: consistent_comparator "\<lambda>a b. nminus (score b) (score a)"
  for a :: "'a search_result"
  by unfold_locales auto

lemma max_score_pos: "0 < max_score xs \<longleftrightarrow> (\<exists>x \<in> set xs. 0 < x)"
  unfolding max_score_def by (induction xs) (auto simp: less_max_iff_disj)

definition item_score :: "jsstring \<Rightarrow> ('a \<Rightarrow> jsstring list) \<Rightarrow> 'a \<Rightarrow> rat" where
  "item_score query getStrings item = max_score (map (\<lambda>s. fuzzyMatchScore query s) (getStrings item))"

lemma item_score_pos:
  "0 < item_score query getStrings i \<longleftrightarrow> (\<exists>s \<in> set (getStrings i). subseq (normal query) (normal s))"
  by (simp add: item_score_def max_score_pos score_pos_iff)

lemma fuzzySearch_items:
  assumes "query \<noteq> []"
  shows "mset (map result_item (fuzzySearch items query getStrings)) =
    mset (filter (\<lambda>i. \<exists>s \<in> set (getStrings i). subseq (normal query) (normal s)) items)"
proof -
  let ?hits = "filter (\<lambda>r. score r > 0) (map (\<lambda>i. \<lparr>result_item = i, score = item_score query getStrings i\<rparr>) items)"
  have "fuzzySearch items query getStrings = js_sort (\<lambda>a b. nminus (score b) (score a)) ?hits"
    using assms by (simp add: fuzzySearch_def item_score_def)
  then have "mset (map result_item (fuzzySearch items query getStrings)) = mset (map result_item ?hits)"
    by (simp only: mset_map mset_js_sort)
  also have "map result_item ?hits = filter (\<lambda>i. 0 < item_score query getStrings i) items"
    by (simp add: filter_map comp_def)
  finally show ?thesis by (simp only: item_score_pos)
qed

text \<open>C37. A search with a query returns exactly the items one of whose texts contains the
  query's letters in order, each as often as it is in the list, the best score first, and
  items of equal score in the order of the list; with an empty query it returns all items
  in order.\<close>

theorem fuzzySearch_ranking:
  "(let rs = fuzzySearch items query getStrings in
     mset (map result_item rs) = mset (filter (\<lambda>i. query = [] \<or>
        (\<exists>s \<in> set (getStrings i). subseq (normal query) (normal s))) items) \<and>
     sorted_wrt (\<lambda>a b. score b \<le> score a) rs \<and>
     (\<forall>x. map result_item (filter (\<lambda>r. score r = x) rs) =
        map result_item (filter (\<lambda>r. score r = x)
          (filter (\<lambda>r. score r > 0) (map (\<lambda>i. \<lparr>result_item = i,
             score = (if query = [] then 1 else item_score query getStrings i)\<rparr>) items)))))"
proof (cases "query = []")
  case True
  then show ?thesis
    by (simp add: fuzzySearch_def Let_def comp_def sorted_wrt_map filter_map image_mset.compositionality)
next
  case False
  let ?res = "map (\<lambda>i. \<lparr>result_item = i, score = item_score query getStrings i\<rparr>) items"
  let ?hits = "filter (\<lambda>r. score r > 0) ?res"
  have rs: "fuzzySearch items query getStrings = js_sort (\<lambda>a b. nminus (score b) (score a)) ?hits"
    using False by (simp add: fuzzySearch_def item_score_def)
  have 1: "mset (map result_item (fuzzySearch items query getStrings)) =
      mset (filter (\<lambda>i. query = [] \<or> (\<exists>s \<in> set (getStrings i). subseq (normal query) (normal s))) items)"
    using False fuzzySearch_items [OF False, of items getStrings] by simp
  have 2: "sorted_wrt (\<lambda>a b. score b \<le> score a) (fuzzySearch items query getStrings)"
    using by_score.sorted_js_sort [of ?hits] by (simp add: rs)
  have 3: "filter (\<lambda>r. score r = x) (fuzzySearch items query getStrings) = filter (\<lambda>r. score r = x) ?hits" for x
    using by_score.stable_js_sort [of "\<lparr>result_item = undefined, score = x\<rparr>" ?hits] by (simp add: rs)
  show ?thesis using 1 2 3 False by (simp add: Let_def)
qed

end
