(* ===== verification/Text_Security.thy ===== *)
theory Text_Security
  imports Js_String
begin

text \<open>
  Text functions of \<open>frontend/src/lib/security.ts\<close>: escaping of HTML (\<open>sanitizeHTML\<close>), and the language's
  \<open>btoa\<close> and \<open>atob\<close> on Latin-1 text with the UTF-8 form of such text. The storage that uses them is in
  \<open>Secure_Storage\<close>.
\<close>

subsection \<open>Escaping\<close>

definition replace_all :: "char \<Rightarrow> jsstring \<Rightarrow> jsstring \<Rightarrow> jsstring" where
  \<comment> \<open>\<open>s.replace(/c/g, r)\<close> for a character \<open>c\<close> and a text \<open>r\<close> without dollar signs\<close>
  "replace_all c r s = concat (map (\<lambda>x. if x = c then r else [x]) s)"

abbreviation quote_char :: char where
  "quote_char \<equiv> CHR 0x27"

definition sanitizeHTML :: "jsstring \<Rightarrow> jsstring" where
  "sanitizeHTML s =
     (if s = [] then []
      else replace_all CHR ''/'' ''&#x2F;''
            (replace_all quote_char ''&#x27;''
              (replace_all CHR 0x22 ''&quot;''
                (replace_all CHR ''>'' ''&gt;''
                  (replace_all CHR ''<'' ''&lt;''
                    (replace_all CHR ''&'' ''&amp;'' s))))))"

text \<open>The reference: one pass over the text.\<close>

definition escape_char :: "char \<Rightarrow> jsstring" where
  "escape_char c =
     (if c = CHR ''&'' then ''&amp;'' else if c = CHR ''<'' then ''&lt;''
      else if c = CHR ''>'' then ''&gt;'' else if c = CHR 0x22 then ''&quot;''
      else if c = quote_char then ''&#x27;'' else if c = CHR ''/'' then ''&#x2F;'' else [c])"

definition escape_text :: "jsstring \<Rightarrow> jsstring" where
  "escape_text s = concat (map escape_char s)"

lemma replace_all_Nil [simp]: "replace_all c r [] = []"
  by (simp add: replace_all_def)

lemma replace_all_append [simp]: "replace_all c r (s @ t) = replace_all c r s @ replace_all c r t"
  by (simp add: replace_all_def)

lemma replace_all_Cons: "replace_all c r (x # s) = (if x = c then r else [x]) @ replace_all c r s"
  by (simp add: replace_all_def)

lemma sanitize_eq_escape: "sanitizeHTML s = escape_text s"
proof (induction s)
  case (Cons c s)
  then have "sanitizeHTML (c # s) = sanitizeHTML [c] @ escape_text s"
    by (cases s) (simp_all add: sanitizeHTML_def replace_all_Cons escape_text_def)
  moreover have "sanitizeHTML [c] = escape_char c"
    by (simp add: sanitizeHTML_def escape_char_def replace_all_Cons)
  ultimately show ?case by (simp add: escape_text_def)
qed (simp add: sanitizeHTML_def escape_text_def)

text \<open>A browser's reading of escaped text.\<close>

fun unescape_text :: "jsstring \<Rightarrow> jsstring" where
  "unescape_text [] = []"
| "unescape_text (c # s) =
     (if c \<noteq> CHR ''&'' then c # unescape_text s
      else if take 4 s = ''amp;'' then CHR ''&'' # unescape_text (drop 4 s)
      else if take 3 s = ''lt;'' then CHR ''<'' # unescape_text (drop 3 s)
      else if take 3 s = ''gt;'' then CHR ''>'' # unescape_text (drop 3 s)
      else if take 5 s = ''quot;'' then CHR 0x22 # unescape_text (drop 5 s)
      else if take 5 s = ''#x27;'' then quote_char # unescape_text (drop 5 s)
      else if take 5 s = ''#x2F;'' then CHR ''/'' # unescape_text (drop 5 s)
      else c # unescape_text s)"

lemma unescape_escape_char: "unescape_text (escape_char c @ s) = c # unescape_text s"
  by (simp add: escape_char_def)

lemma unescape_escape: "unescape_text (escape_text s) = s"
  by (induction s) (simp_all add: escape_text_def unescape_escape_char)

lemma escape_char_safe: "set (escape_char c) \<inter> {CHR ''<'', CHR ''>'', CHR 0x22, quote_char, CHR ''/''} = {}"
  by (auto simp: escape_char_def)

text \<open>C39. Escaped text contains no character that opens or closes a tag, an attribute or an
  end tag, whatever the input; the six passes together are one pass that escapes each
  character by itself, so nothing is escaped twice; and a reader of the entities gets back
  exactly the original text, so different texts stay different.\<close>

theorem sanitize_safe_and_lossless:
  "set (sanitizeHTML s) \<inter> {CHR ''<'', CHR ''>'', CHR 0x22, quote_char, CHR ''/''} = {} \<and>
   sanitizeHTML s = escape_text s \<and> unescape_text (sanitizeHTML s) = s"
proof -
  have "set (escape_text s) \<inter> {CHR ''<'', CHR ''>'', CHR 0x22, quote_char, CHR ''/''} = {}"
    using escape_char_safe by (fastforce simp: escape_text_def)
  then show ?thesis by (simp add: sanitize_eq_escape unescape_escape)
qed

subsection \<open>UTF-8 and base64\<close>

definition utf8_char :: "char \<Rightarrow> jsstring" where
  "utf8_char c =
     (let n = code_unit c
      in if n < 128 then [c] else [char_of (192 + n div 64), char_of (128 + n mod 64)])"

definition utf8_encode :: "jsstring \<Rightarrow> jsstring" where
  "utf8_encode s = concat (map utf8_char s)"

fun utf8_decode :: "jsstring \<Rightarrow> jsstring option" where
  "utf8_decode [] = Some []"
| "utf8_decode (b # s) =
     (if code_unit b < 128 then map_option (Cons b) (utf8_decode s)
      else if code_unit b = 194 \<or> code_unit b = 195 then
        (case s of
           [] \<Rightarrow> None
         | d # r \<Rightarrow> if 128 \<le> code_unit d \<and> code_unit d < 192
                 then map_option (Cons (char_of (64 * (code_unit b - 192) + (code_unit d - 128)))) (utf8_decode r)
                 else None)
      else None)"

lemma code_unit_char_of: "n < 256 \<Longrightarrow> code_unit (char_of n) = n"
  by (simp add: code_unit_def)

lemma char_of_code_unit [simp]: "char_of (code_unit c) = c"
  by (simp add: code_unit_def)

lemma code_unit_less: "code_unit c < 256"
  by (simp add: code_unit_def)

lemma utf8_decode_char: "utf8_decode (utf8_char c @ s) = map_option (Cons c) (utf8_decode s)"
proof (cases "code_unit c < 128")
  case False
  define n where "n = code_unit c"
  have n: "128 \<le> n" "n < 256" using False code_unit_less [of c] by (simp_all add: n_def)
  then have d: "n div 64 = 2 \<or> n div 64 = 3" by linarith
  have "64 * (192 + n div 64 - 192) + (128 + n mod 64 - 128) = n" by simp
  moreover have "code_unit (char_of (192 + n div 64)) = 192 + n div 64"
    "code_unit (char_of (128 + n mod 64)) = 128 + n mod 64"
    using d by (auto intro!: code_unit_char_of)
  ultimately show ?thesis using n d by (auto simp: utf8_char_def Let_def n_def)
qed (simp add: utf8_char_def)

lemma utf8_round_trip: "utf8_decode (utf8_encode s) = Some s"
  by (induction s) (simp_all add: utf8_encode_def utf8_decode_char)

definition b64_char :: "nat \<Rightarrow> char" where
  "b64_char n = char_of (if n < 26 then 65 + n else if n < 52 then 71 + n else if n < 62 then n - 4
     else if n = 62 then 43 else 47)"

definition b64_value :: "char \<Rightarrow> nat option" where
  "b64_value c =
     (let n = code_unit c
      in if 65 \<le> n \<and> n \<le> 90 then Some (n - 65) else if 97 \<le> n \<and> n \<le> 122 then Some (n - 71)
         else if 48 \<le> n \<and> n \<le> 57 then Some (n + 4) else if n = 43 then Some 62
         else if n = 47 then Some 63 else None)"

fun sextets :: "jsstring \<Rightarrow> nat list" where
  "sextets [] = []"
| "sextets [a] = [code_unit a div 4, code_unit a mod 4 * 16]"
| "sextets [a, b] = [code_unit a div 4, code_unit a mod 4 * 16 + code_unit b div 16, code_unit b mod 16 * 4]"
| "sextets (a # b # c # s) =
     [code_unit a div 4, code_unit a mod 4 * 16 + code_unit b div 16,
      code_unit b mod 16 * 4 + code_unit c div 64, code_unit c mod 64] @ sextets s"

fun octets :: "nat list \<Rightarrow> jsstring option" where
  "octets [] = Some []"
| "octets [v] = None"
| "octets [v, w] = Some [char_of (v * 4 + w div 16)]"
| "octets [v, w, x] = Some [char_of (v * 4 + w div 16), char_of (w mod 16 * 16 + x div 4)]"
| "octets (v # w # x # y # r) =
     map_option (\<lambda>t. [char_of (v * 4 + w div 16), char_of (w mod 16 * 16 + x div 4), char_of (x mod 4 * 64 + y)] @ t)
       (octets r)"

definition btoa :: "jsstring \<Rightarrow> jsstring" where
  "btoa s = (let v = sextets s in map b64_char v @ replicate ((4 - length v mod 4) mod 4) CHR ''='')"

definition strip_one :: "jsstring \<Rightarrow> jsstring" where
  "strip_one s = (if s \<noteq> [] \<and> last s = CHR ''='' then butlast s else s)"

definition atob_white :: "char \<Rightarrow> bool" where
  "atob_white c = List.member [9, 10, 12, 13, 32] (code_unit c)"

definition atob :: "jsstring \<Rightarrow> jsstring option" where
  "atob s =
     (let t = filter (\<lambda>c. \<not> atob_white c) s;
          u = (if length t mod 4 = 0 then strip_one (strip_one t) else t);
          vs = map b64_value u
      in if list_ex (\<lambda>v. v = None) vs then None else octets (map the vs))"

lemma sextets_bound: "\<forall>v \<in> set (sextets s). v < 64"
proof (induction s rule: sextets.induct)
  case (4 a b c s)
  then show ?case using code_unit_less [of a] code_unit_less [of b] code_unit_less [of c] by auto
next
  case (3 a b)
  then show ?case using code_unit_less [of a] code_unit_less [of b] by auto
next
  case (2 a)
  then show ?case using code_unit_less [of a] by auto
qed simp

lemma b64_value_char: "v < 64 \<Longrightarrow> b64_value (b64_char v) = Some v"
proof -
  assume v: "v < 64"
  have unit: "n < 256 \<Longrightarrow> code_unit (char_of n) = n" for n :: nat by (simp add: code_unit_def)
  consider "v < 26" | "26 \<le> v" "v < 52" | "52 \<le> v" "v < 62" | "v = 62" | "v = 63" using v by linarith
  then show ?thesis by cases (auto simp: b64_char_def b64_value_def unit Let_def)
qed

lemma b64_char_plain: "v < 64 \<Longrightarrow> b64_char v \<noteq> CHR ''='' \<and> \<not> atob_white (b64_char v)"
proof -
  assume "v < 64"
  then have "b64_value (b64_char v) = Some v" by (rule b64_value_char)
  moreover have "b64_value c = None" if "atob_white c \<or> c = CHR ''=''" for c
    using that by (auto simp: b64_value_def atob_white_def Let_def code_unit_def)
  ultimately show ?thesis by force
qed

lemma octets_sextets: "octets (sextets s) = Some s"
proof (induction s rule: sextets.induct)
  case (2 a)
  then show ?case using code_unit_less [of a] by simp
next
  case (3 a b)
  then show ?case using code_unit_less [of a] code_unit_less [of b]
    by (simp add: mult.commute [of _ 4] mult.commute [of _ 16])
next
  case (4 a b c s)
  then show ?case using code_unit_less [of a] code_unit_less [of b] code_unit_less [of c]
    by (simp add: mult.commute [of _ 4] mult.commute [of _ 16] mult.commute [of _ 64])
qed simp

lemma sextets_length: "length (sextets s) mod 4 \<noteq> 1"
  by (induction s rule: sextets.induct) simp_all

lemma strip_padding:
  assumes "k \<le> 2" "xs = [] \<or> last xs \<noteq> CHR ''=''"
  shows "strip_one (strip_one (xs @ replicate k CHR ''='')) = xs"
proof -
  consider "k = 0" | "k = 1" | "k = 2" using assms(1) by linarith
  then show ?thesis
    by cases (use assms(2) in \<open>auto simp: strip_one_def numeral_2_eq_2 butlast_append\<close>)
qed

lemma atob_btoa: "atob (btoa s) = Some s"
proof -
  define v where "v = sextets s"
  define k where "k = (4 - length v mod 4) mod 4"
  have b: "\<forall>x \<in> set v. x < 64" using sextets_bound by (simp add: v_def)
  have m: "length v mod 4 = 0 \<or> length v mod 4 = 2 \<or> length v mod 4 = 3"
    using sextets_length [of s] mod_less_divisor [of 4 "length v"] unfolding v_def [symmetric] by linarith
  then have k: "k \<le> 2" "(length v + k) mod 4 = 0"
    by (auto simp: k_def mod_add_left_eq [of "length v" 4, symmetric])
  have bt: "btoa s = map b64_char v @ replicate k CHR ''=''" by (simp add: btoa_def v_def k_def Let_def)
  have "filter (\<lambda>c. \<not> atob_white c) (btoa s) = btoa s"
    using b b64_char_plain by (auto simp: bt filter_id_conv atob_white_def code_unit_def)
  moreover have "strip_one (strip_one (btoa s)) = map b64_char v"
  proof -
    have "map b64_char v = [] \<or> last (map b64_char v) \<noteq> CHR ''=''"
      using b b64_char_plain by (auto simp: last_map)
    then show ?thesis unfolding bt by (rule strip_padding [OF k(1)])
  qed
  moreover have "map b64_value (map b64_char v) = map Some v"
    using b b64_value_char by simp
  moreover have "length (btoa s) mod 4 = 0" using k(2) by (simp add: bt)
  ultimately have "atob (btoa s) =
      (if list_ex (\<lambda>v. v = None) (map Some v) then None else octets (map the (map Some v)))"
    by (simp only: atob_def Let_def if_True refl)
  then show ?thesis by (simp add: list_ex_iff comp_def octets_sextets v_def)
qed

end
