(* ===== verification/Pagination.thy ===== *)
theory Pagination
  imports Jsx
begin

text \<open>
  The pager, \<open>frontend/src/components/ui/Pagination.tsx\<close>: the list of page numbers and
  dots (\<open>getPages\<close>) and the rendered control. Page numbers are whole numbers. \<open>GoTo p\<close>
  is the call \<open>onPageChange(p)\<close>.
\<close>

datatype page_item = Page int | Dots

definition getPages :: "int \<Rightarrow> int \<Rightarrow> int \<Rightarrow> page_item list" where
  "getPages current n_pages siblings =
     (let left = max 2 (current - siblings); right = min (n_pages - 1) (current + siblings)
      in [Page 1] @ (if left > 2 then [Dots] else []) @ map Page [left..right]
         @ (if right < n_pages - 1 then [Dots] else []) @ (if n_pages > 1 then [Page n_pages] else []))"

datatype page_action = GoTo int

definition page_button :: "int \<Rightarrow> page_item \<Rightarrow> page_action node" where
  "page_button page p =
     (case p of
        Dots \<Rightarrow> El ''span'' [] [Txt ''...'']
      | Page n \<Rightarrow> El ''button''
          ([On ''click'' (GoTo n)] @ (if n = page then [Attr ''aria-current'' ''page''] else []))
          [Num (of_int n)])"

definition pagination_view :: "int \<Rightarrow> int \<Rightarrow> int \<Rightarrow> bool \<Rightarrow> page_action node list" where
  "pagination_view page totalPages siblingsCount showEdges =
     (if totalPages \<le> 1 then []
      else [El ''nav'' [Attr ''aria-label'' ''Pagination'']
        (show_if showEdges
           [El ''button'' [On ''click'' (GoTo 1), Flag ''disabled'' (page = 1), Attr ''aria-label'' ''First page'']
              [Icon ''ChevronsLeft'']]
         @ [El ''button'' [On ''click'' (GoTo (page - 1)), Flag ''disabled'' (page = 1),
              Attr ''aria-label'' ''Previous page''] [Icon ''ChevronLeft'']]
         @ map (page_button page) (getPages page totalPages siblingsCount)
         @ [El ''button'' [On ''click'' (GoTo (page + 1)), Flag ''disabled'' (page = totalPages),
              Attr ''aria-label'' ''Next page''] [Icon ''ChevronRight'']]
         @ show_if showEdges
             [El ''button'' [On ''click'' (GoTo totalPages), Flag ''disabled'' (page = totalPages),
                Attr ''aria-label'' ''Last page''] [Icon ''ChevronsRight'']])])"

subsection \<open>The list of pages\<close>

text \<open>Consecutive numbers, and dots exactly where at least one page is left out.\<close>

fun well_spaced :: "page_item list \<Rightarrow> bool" where
  "well_spaced [Page a] = True"
| "well_spaced (Page a # Page b # r) = (b = a + 1 \<and> well_spaced (Page b # r))"
| "well_spaced (Page a # Dots # Page b # r) = (a + 1 < b \<and> well_spaced (Page b # r))"
| "well_spaced _ = False"

lemma well_spaced_upto:
  "a \<le> r \<Longrightarrow> well_spaced (Page a # map Page [a + 1..r] @ rest) = well_spaced (Page r # rest)"
proof (induction "nat (r - a)" arbitrary: a)
  case 0
  then show ?case by simp
next
  case (Suc n)
  then have "a + 1 \<le> r" by linarith
  then show ?case using Suc.hyps(1) [of "a + 1"] Suc.hyps(2) by (simp add: upto_rec1 [of "a + 1"])
qed

lemma well_spaced_run:
  "l \<le> r \<Longrightarrow> well_spaced (map Page [l..r] @ rest) = well_spaced (Page r # rest)"
  using well_spaced_upto [of l r rest] by (simp add: upto_rec1 [of l])

lemma well_spaced_dots:
  "l \<le> r \<Longrightarrow> well_spaced (Page a # Dots # map Page [l..r] @ rest) = (a + 1 < l \<and> well_spaced (Page r # rest))"
  using well_spaced_upto [of l r rest] by (simp add: upto_rec1 [of l])

lemma getPages_spaced:
  assumes "1 \<le> current" "current \<le> n_pages" "0 \<le> siblings"
  shows "well_spaced (getPages current n_pages siblings)"
proof (cases "max 2 (current - siblings) \<le> min (n_pages - 1) (current + siblings)")
  case True
  then show ?thesis
    using assms well_spaced_upto [of 1 "min (n_pages - 1) (current + siblings)"]
      well_spaced_dots [OF True, of 1]
    by (auto simp: getPages_def Let_def max_def min_def split: if_splits)
next
  case False
  then show ?thesis using assms
    by (auto simp: getPages_def Let_def max_def min_def split: if_splits)
qed

lemma set_getPages:
  "Page n \<in> set (getPages current n_pages siblings) \<longleftrightarrow>
     n = 1 \<or> (n = n_pages \<and> 1 < n_pages) \<or> (2 \<le> n \<and> n < n_pages \<and> \<bar>n - current\<bar> \<le> siblings)"
  by (auto simp: getPages_def Let_def image_iff)

text \<open>For a page in range the pager lists the first page, the last one, the current one and
  its neighbours, and no others; the numbers rise, consecutive ones follow each other
  directly, and dots stand exactly where pages are left out; and the list never has more
  than twice the neighbours plus five entries.\<close>

theorem getPages_correct:
  assumes "1 \<le> current" "current \<le> n_pages" "0 \<le> siblings"
  shows "well_spaced (getPages current n_pages siblings) \<and>
    (\<forall>n. Page n \<in> set (getPages current n_pages siblings) \<longleftrightarrow>
       1 \<le> n \<and> n \<le> n_pages \<and> (n = 1 \<or> n = n_pages \<or> \<bar>n - current\<bar> \<le> siblings)) \<and>
    int (length (getPages current n_pages siblings)) \<le> 2 * siblings + 5"
proof (intro conjI)
  show "well_spaced (getPages current n_pages siblings)" by (rule getPages_spaced [OF assms])
  show "\<forall>n. Page n \<in> set (getPages current n_pages siblings) \<longleftrightarrow>
       1 \<le> n \<and> n \<le> n_pages \<and> (n = 1 \<or> n = n_pages \<or> \<bar>n - current\<bar> \<le> siblings)"
    using assms by (auto simp: set_getPages)
  show "int (length (getPages current n_pages siblings)) \<le> 2 * siblings + 5"
    using assms by (simp add: getPages_def Let_def) linarith
qed

theorem getPages_correct_witness:
  "well_spaced (getPages 5 9 1) \<and> Page 5 \<in> set (getPages 5 9 1)"
  using getPages_correct [of 5 9 1] by simp

subsection \<open>The control\<close>

lemma actions_page_button: "actions (page_button page p) = (case p of Dots \<Rightarrow> [] | Page n \<Rightarrow> [GoTo n])"
  by (simp add: page_button_def split: page_item.split)

lemma pagination_actions:
  "set (forest_actions (pagination_view page n_pages siblings edges)) =
     (if n_pages \<le> 1 then {}
      else {GoTo n |n. Page n \<in> set (getPages page n_pages siblings)} \<union>
        (if page = 1 then {} else {GoTo (page - 1)}) \<union> (if edges \<and> page \<noteq> 1 then {GoTo 1} else {}) \<union>
        (if page = n_pages then {} else {GoTo (page + 1)}) \<union> (if edges \<and> page \<noteq> n_pages then {GoTo n_pages} else {}))"
proof -
  have "set (concat (map (\<lambda>p. actions (page_button page p)) ps)) = {GoTo n |n. Page n \<in> set ps}" for ps
    by (induction ps) (auto simp: actions_page_button split: page_item.split)
  then show ?thesis by (auto simp: pagination_view_def forest_actions_def comp_def)
qed

text \<open>From a page in range every enabled button of the pager leads to a page in range; the
  buttons for the previous and the next page move by one and are the only relative ones;
  and a single page needs no pager.\<close>

theorem pager_stays_in_range:
  assumes "1 \<le> page" "page \<le> n_pages" "0 \<le> siblings"
    and "GoTo n \<in> set (forest_actions (pagination_view page n_pages siblings edges))"
  shows "1 \<le> n \<and> n \<le> n_pages \<and> 1 < n_pages \<and>
    (n = 1 \<or> n = n_pages \<or> \<bar>n - page\<bar> \<le> max 1 siblings)"
  using assms by (auto simp: pagination_actions set_getPages split: if_splits)

theorem pager_stays_in_range_witness:
  "GoTo 4 \<in> set (forest_actions (pagination_view 3 9 1 True)) \<and> (4::int) \<le> 9"
proof -
  have "GoTo 4 \<in> set (forest_actions (pagination_view 3 9 1 True))"
    by (auto simp: pagination_actions set_getPages)
  then show ?thesis using pager_stays_in_range [of 3 9 1 4 True] by simp
qed

end
