(* ===== verification/Virtualizer.thy ===== *)
theory Virtualizer
  imports Js_Number
begin

text \<open>
  The window of a virtual list, \<open>frontend/src/hooks/useVirtualizer.ts\<close>: the state the hook
  keeps (scroll position and height of the container), its event handlers, and the rows
  it renders. Positions are numbers of the browser (doubles), counts are whole numbers.
\<close>

record virtualizer =
  scrollTop :: rat
  containerHeight :: rat

definition initial_virtualizer :: virtualizer where
  "initial_virtualizer = \<lparr>scrollTop = 0, containerHeight = 0\<rparr>"

datatype virtualizer_event =
    Mount rat rat
  | Scroll rat
  | Resize rat

fun virtualizer_step :: "virtualizer \<Rightarrow> virtualizer_event \<Rightarrow> virtualizer" where
  "virtualizer_step s (Mount y height) = s\<lparr>scrollTop := y, containerHeight := height\<rparr>"
| "virtualizer_step s (Scroll y) = s\<lparr>scrollTop := y\<rparr>"
| "virtualizer_step s (Resize height) = s\<lparr>containerHeight := height\<rparr>"

record virtual_item =
  item_index :: int
  offsetTop :: rat
  item_height :: rat

definition start_row :: "int \<Rightarrow> rat \<Rightarrow> virtualizer \<Rightarrow> int" where
  "start_row overscan itemHeight s = max 0 (\<lfloor>ndiv (scrollTop s) itemHeight\<rfloor> - overscan)"

definition end_row :: "int \<Rightarrow> int \<Rightarrow> rat \<Rightarrow> virtualizer \<Rightarrow> int" where
  "end_row itemCount overscan itemHeight s =
     min (itemCount - 1) (\<lfloor>ndiv (nplus (scrollTop s) (containerHeight s)) itemHeight\<rfloor> + overscan)"

definition virtualItems :: "int \<Rightarrow> int \<Rightarrow> rat \<Rightarrow> virtualizer \<Rightarrow> virtual_item list" where
  "virtualItems itemCount overscan itemHeight s =
     map (\<lambda>i. \<lparr>item_index = i, offsetTop = ntimes (of_int i) itemHeight, item_height = itemHeight\<rparr>)
       [start_row overscan itemHeight s..end_row itemCount overscan itemHeight s]"

definition totalHeight :: "int \<Rightarrow> rat \<Rightarrow> rat" where
  "totalHeight itemCount itemHeight = ntimes (of_int itemCount) itemHeight"

definition first_index :: "virtual_item list \<Rightarrow> int" where
  "first_index vs = (case vs of [] \<Rightarrow> 0 | v # _ \<Rightarrow> item_index v)"

definition last_index :: "virtual_item list \<Rightarrow> int" where
  "last_index vs = (if vs = [] then 0 else item_index (last vs))"

subsection \<open>The window\<close>

lemma indices_virtualItems:
  "map item_index (virtualItems n os h s) = [start_row os h s..end_row n os h s]"
  by (simp add: virtualItems_def comp_def)

lemma start_row_le:
  assumes "0 < h" "scrollTop s < of_int (i + 1) * h" "0 \<le> i" "i + 1 < 2 ^ 53" "1 \<le> os"
  shows "start_row os h s \<le> i"
proof -
  have "scrollTop s / h \<le> of_int (i + 1)" using assms(1,2) by (simp add: pos_divide_le_eq)
  then have "ndiv (scrollTop s) h \<le> of_int (i + 1)"
    unfolding ndiv_def using assms(3,4) by (intro dbl.rnd_below fl_int) auto
  then have "\<lfloor>ndiv (scrollTop s) h\<rfloor> \<le> i + 1" by (metis floor_mono floor_of_int)
  then show ?thesis using assms(3,5) by (simp add: start_row_def)
qed

lemma le_end_row:
  assumes "0 < h" "of_int i * h \<le> scrollTop s + containerHeight s" "fl (of_int i * h) = of_int i * h"
    and "0 \<le> i" "i < n" "i < 2 ^ 53" "0 \<le> os"
  shows "i \<le> end_row n os h s"
proof -
  have "of_int i * h \<le> nplus (scrollTop s) (containerHeight s)"
    unfolding nplus_def by (rule dbl.rnd_above [OF assms(3,2)])
  then have "of_int i \<le> nplus (scrollTop s) (containerHeight s) / h"
    using assms(1) by (simp add: pos_le_divide_eq)
  then have "of_int i \<le> ndiv (nplus (scrollTop s) (containerHeight s)) h"
    unfolding ndiv_def using assms(4,6) by (intro dbl.rnd_above fl_int) auto
  then have "i \<le> \<lfloor>ndiv (nplus (scrollTop s) (containerHeight s)) h\<rfloor>" by (simp add: le_floor_iff)
  then show ?thesis using assms(5,7) by (simp add: end_row_def)
qed

text \<open>With at least one row of overscan the window misses nothing: every row of the list
  whose band meets the visible part of the container is rendered, rounding of the
  positions included (row positions up to 2^53 that are representable, as whole pixel
  heights are). Rendered rows exist, appear once and in order, and each stands at its own
  offset.\<close>

theorem window_covers_viewport:
  assumes "0 < h" "1 \<le> os" "n < 2 ^ 53" "0 \<le> i" "i < n"
    and "fl (of_int i * h) = of_int i * h"
    and "scrollTop s < of_int (i + 1) * h" "of_int i * h \<le> scrollTop s + containerHeight s"
  shows "\<lparr>item_index = i, offsetTop = of_int i * h, item_height = h\<rparr> \<in> set (virtualItems n os h s) \<and>
    (\<forall>v \<in> set (virtualItems n os h s). 0 \<le> item_index v \<and> item_index v < n) \<and>
    sorted_wrt (<) (map item_index (virtualItems n os h s))"
proof (intro conjI)
  have "start_row os h s \<le> i" "i \<le> end_row n os h s"
    using assms by (auto intro: start_row_le le_end_row)
  then show "\<lparr>item_index = i, offsetTop = of_int i * h, item_height = h\<rparr> \<in> set (virtualItems n os h s)"
    using assms(6) by (simp add: virtualItems_def ntimes_def image_iff)
  show "\<forall>v \<in> set (virtualItems n os h s). 0 \<le> item_index v \<and> item_index v < n"
    by (auto simp: virtualItems_def start_row_def end_row_def)
  show "sorted_wrt (<) (map item_index (virtualItems n os h s))"
    by (simp add: indices_virtualItems)
qed

theorem window_covers_viewport_witness:
  "\<lparr>item_index = 20, offsetTop = 960, item_height = 48\<rparr> \<in>
     set (virtualItems 1000 5 48 (run virtualizer_step initial_virtualizer [Mount 0 400, Scroll 1000]))"
proof -
  let ?s = "run virtualizer_step initial_virtualizer [Mount 0 400, Scroll 1000]"
  have "fl (of_int 20 * 48) = (of_int 20 * 48 :: rat)" by code_simp
  then show ?thesis
    using window_covers_viewport [of 48 5 1000 20 ?s] by (simp add: initial_virtualizer_def)
qed

text \<open>The number of rows rendered does not depend on the length of the list.\<close>

lemma window_size:
  assumes "0 < h" "fl (scrollTop s) = scrollTop s" "0 \<le> containerHeight s" "0 \<le> os"
  shows "int (length (virtualItems n os h s)) \<le>
    \<lfloor>ndiv (nplus (scrollTop s) (containerHeight s)) h\<rfloor> - \<lfloor>ndiv (scrollTop s) h\<rfloor> + 2 * os + 1"
proof -
  have "scrollTop s \<le> nplus (scrollTop s) (containerHeight s)"
    unfolding nplus_def using assms(2,3) by (intro dbl.rnd_above) simp_all
  then have "ndiv (scrollTop s) h \<le> ndiv (nplus (scrollTop s) (containerHeight s)) h"
    unfolding ndiv_def using assms(1) by (intro dbl.rnd_mono divide_right_mono) simp_all
  then have "\<lfloor>ndiv (scrollTop s) h\<rfloor> \<le> \<lfloor>ndiv (nplus (scrollTop s) (containerHeight s)) h\<rfloor>"
    by (rule floor_mono)
  then show ?thesis using assms(4)
    by (simp add: virtualItems_def start_row_def end_row_def) linarith
qed

end
