(* ===== verification/App_Config.thy ===== *)
theory App_Config
  imports Js_String
begin

text \<open>
  Runtime configuration, \<open>frontend/src/lib/config.ts\<close>: the feature flags and the kill
  switches with their defaults, the values loaded at run time, and the loading itself.
  What a loading meets (no address configured, a failing request, an answer that is not
  \<open>ok\<close>, a body) is its argument; a body is the flags it sets.
\<close>

datatype feature_flag =
    EnableWebSocket
  | EnablePWA
  | EnableOnboarding
  | EnableSearchHistory
  | EnableNotificationPreferences
  | EnableVirtualizedTables
  | EnableOfflineBanner
  | EnableObservability
  | EnableCSRFProtection

datatype kill_switch =
    DisableCheckout
  | DisableRegistration
  | DisableAdminPanel
  | MaintenanceMode

record app_config =
  runtimeFlags :: "feature_flag \<rightharpoonup> bool"
  runtimeKillSwitches :: "kill_switch \<rightharpoonup> bool"

definition initial_config :: app_config where
  "initial_config = \<lparr>runtimeFlags = Map.empty, runtimeKillSwitches = Map.empty\<rparr>"

definition defaultFlags :: "feature_flag \<rightharpoonup> bool" where
  "defaultFlags = (\<lambda>f. Some True)"

definition defaultKillSwitches :: "kill_switch \<rightharpoonup> bool" where
  "defaultKillSwitches = (\<lambda>k. Some False)"

definition getFeatureFlags :: "app_config \<Rightarrow> feature_flag \<rightharpoonup> bool" where
  "getFeatureFlags c = defaultFlags ++ runtimeFlags c"

definition isFeatureEnabled :: "app_config \<Rightarrow> feature_flag \<Rightarrow> bool" where
  "isFeatureEnabled c f = (getFeatureFlags c f = Some True)"

definition getKillSwitches :: "app_config \<Rightarrow> kill_switch \<rightharpoonup> bool" where
  "getKillSwitches c = defaultKillSwitches ++ runtimeKillSwitches c"

definition isMaintenanceMode :: "app_config \<Rightarrow> bool" where
  "isMaintenanceMode c = (getKillSwitches c MaintenanceMode = Some True)"

datatype 'k fetched =
    No_url
  | Unreachable
  | Not_ok
  | Bad_body
  | Body "'k \<rightharpoonup> bool"

definition loadFeatureFlags :: "feature_flag fetched \<Rightarrow> app_config \<Rightarrow> app_config" where
  "loadFeatureFlags r c = (case r of Body m \<Rightarrow> c\<lparr>runtimeFlags := m\<rparr> | _ \<Rightarrow> c)"

definition loadKillSwitches :: "kill_switch fetched \<Rightarrow> app_config \<Rightarrow> app_config" where
  "loadKillSwitches r c = (case r of Body m \<Rightarrow> c\<lparr>runtimeKillSwitches := m\<rparr> | _ \<Rightarrow> c)"

definition initializeConfig :: "feature_flag fetched \<Rightarrow> kill_switch fetched \<Rightarrow> app_config \<Rightarrow> app_config" where
  "initializeConfig f k c = loadKillSwitches k (loadFeatureFlags f c)"

definition is_environment :: "jsstring \<Rightarrow> jsstring option \<Rightarrow> bool" where
  \<comment> \<open>\<open>isDevelopment\<close>, \<open>isProduction\<close> and \<open>isStaging\<close> for the configured environment\<close>
  "is_environment e configured =
     ((case configured of None \<Rightarrow> ''development'' | Some v \<Rightarrow> if v = [] then ''development'' else v) = e)"

lemma loads_commute:
  "loadKillSwitches k (loadFeatureFlags f c) = loadFeatureFlags f (loadKillSwitches k c)"
  by (simp add: loadKillSwitches_def loadFeatureFlags_def split: fetched.split)

text \<open>The flags the last successful loading of a list of loadings set.\<close>

fun last_body :: "('k \<rightharpoonup> bool) \<Rightarrow> 'k fetched list \<Rightarrow> ('k \<rightharpoonup> bool)" where
  "last_body m [] = m"
| "last_body m (r # rs) = last_body (case r of Body m' \<Rightarrow> m' | _ \<Rightarrow> m) rs"

lemma runtime_after_loads:
  "runtimeFlags (foldl (\<lambda>c (f, k). initializeConfig f k c) c ls) = last_body (runtimeFlags c) (map fst ls)"
  "runtimeKillSwitches (foldl (\<lambda>c (f, k). initializeConfig f k c) c ls) =
     last_body (runtimeKillSwitches c) (map snd ls)"
  by (induction ls arbitrary: c)
    (auto simp: initializeConfig_def loadFeatureFlags_def loadKillSwitches_def split: fetched.split)

text \<open>However often the configuration is loaded, and whatever fails, a feature is on unless
  the last body that arrived switches it off, maintenance mode is off unless the last body
  that arrived switches it on, and a failed loading keeps what an earlier one brought.\<close>

theorem config_after_loads:
  "(let c = foldl (\<lambda>c (f, k). initializeConfig f k c) initial_config ls in
     isFeatureEnabled c flag = (last_body Map.empty (map fst ls) flag \<noteq> Some False) \<and>
     isMaintenanceMode c = (last_body Map.empty (map snd ls) MaintenanceMode = Some True))"
  by (auto simp: Let_def isFeatureEnabled_def isMaintenanceMode_def getFeatureFlags_def getKillSwitches_def
      runtime_after_loads initial_config_def defaultFlags_def defaultKillSwitches_def map_add_def
      split: option.splits)

end
