(* ===== verification/I18n.thy ===== *)
theory I18n
  imports Js_String
begin

text \<open>
  Translations, \<open>frontend/src/i18n/index.tsx\<close> with the two tables
  \<open>locales/en.json\<close> and \<open>locales/es.json\<close>: looking a dotted key up in the nested table,
  filling in parameters, and the locale state with what it writes to \<open>localStorage\<close> and
  to the document element. (The ellipsis in the tables is written as three dots.)

  A name that is not an entry of a table may still be one every object inherits
  (\<open>constructor\<close>, ...); no chain of those leads to a string, so for \<open>getNestedValue\<close>
  they are the same as missing.
\<close>

subsection \<open>Tables\<close>

datatype translation =
    Str jsstring
  | Obj "(jsstring \<times> translation) list"

definition en_translations :: translation where
  "en_translations = Obj [
    (''app'', Obj [
      (''name'', Str (''CloudScale Commerce'')),
      (''tagline'', Str (''Enterprise Cloud-Native Commerce Platform''))]),
    (''nav'', Obj [
      (''dashboard'', Str (''Dashboard'')),
      (''catalog'', Str (''Catalog'')),
      (''cart'', Str (''Cart'')),
      (''orders'', Str (''Orders'')),
      (''inventory'', Str (''Inventory'')),
      (''users'', Str (''Users'')),
      (''admin'', Str (''Admin KPIs'')),
      (''settings'', Str (''Settings'')),
      (''logout'', Str (''Logout'')),
      (''search'', Str (''Search''))]),
    (''auth'', Obj [
      (''login'', Str (''Sign In'')),
      (''logout'', Str (''Sign Out'')),
      (''email'', Str (''Email address'')),
      (''password'', Str (''Password'')),
      (''forgotPassword'', Str (''Forgot password?'')),
      (''signInTitle'', Str (''Welcome back'')),
      (''signInSubtitle'', Str (''Sign in to your account to continue'')),
      (''invalidCredentials'', Str (''Invalid email or password''))]),
    (''dashboard'', Obj [
      (''welcome'', Str (''Welcome back'')),
      (''totalSpent'', Str (''Total Spent'')),
      (''totalOrders'', Str (''Total Orders'')),
      (''growth'', Str (''Growth'')),
      (''recentActivity'', Str (''Recent Activity'')),
      (''spendingTrends'', Str (''Spending Trends''))]),
    (''catalog'', Obj [
      (''title'', Str (''Product Catalog'')),
      (''search'', Str (''Search products...'')),
      (''addToCart'', Str (''Add to Cart'')),
      (''viewDetails'', Str (''View Details'')),
      (''inStock'', Str (''In Stock'')),
      (''outOfStock'', Str (''Out of Stock'')),
      (''filters'', Str (''Filters'')),
      (''sortBy'', Str (''Sort by'')),
      (''price'', Str (''Price'')),
      (''name'', Str (''Name'')),
      (''category'', Str (''Category'')),
      (''noProducts'', Str (''No products found''))]),
    (''cart'', Obj [
      (''title'', Str (''Shopping Cart'')),
      (''empty'', Str (''Your cart is empty'')),
      (''emptyDescription'', Str (''Browse our catalog and add items to your cart.'')),
      (''subtotal'', Str (''Subtotal'')),
      (''shipping'', Str (''Shipping'')),
      (''tax'', Str (''Tax'')),
      (''total'', Str (''Total'')),
      (''checkout'', Str (''Proceed to Checkout'')),
      (''remove'', Str (''Remove'')),
      (''coupon'', Str (''Coupon code'')),
      (''applyCoupon'', Str (''Apply''))]),
    (''checkout'', Obj [
      (''title'', Str (''Checkout'')),
      (''shipping'', Str (''Shipping Address'')),
      (''payment'', Str (''Payment Method'')),
      (''review'', Str (''Review Order'')),
      (''placeOrder'', Str (''Place Order'')),
      (''street'', Str (''Street Address'')),
      (''city'', Str (''City'')),
      (''zip'', Str (''ZIP Code'')),
      (''country'', Str (''Country'')),
      (''creditCard'', Str (''Credit Card'')),
      (''bankTransfer'', Str (''Bank Transfer'')),
      (''success'', Str (''Order placed successfully!'')),
      (''successDescription'', Str (''Your order has been confirmed and is being processed.''))]),
    (''orders'', Obj [
      (''title'', Str (''Order History'')),
      (''orderId'', Str (''Order ID'')),
      (''date'', Str (''Date'')),
      (''status'', Str (''Status'')),
      (''amount'', Str (''Amount'')),
      (''pending'', Str (''Pending'')),
      (''completed'', Str (''Completed'')),
      (''failed'', Str (''Failed'')),
      (''processing'', Str (''Processing'')),
      (''noOrders'', Str (''No orders yet''))]),
    (''inventory'', Obj [
      (''title'', Str (''Inventory Management'')),
      (''sku'', Str (''SKU'')),
      (''product'', Str (''Product'')),
      (''quantity'', Str (''Quantity'')),
      (''status'', Str (''Status'')),
      (''restock'', Str (''Restock'')),
      (''lowStock'', Str (''Low Stock'')),
      (''inStock'', Str (''In Stock'')),
      (''outOfStock'', Str (''Out of Stock''))]),
    (''users'', Obj [
      (''title'', Str (''User Management'')),
      (''name'', Str (''Name'')),
      (''email'', Str (''Email'')),
      (''role'', Str (''Role'')),
      (''status'', Str (''Status'')),
      (''active'', Str (''Active'')),
      (''inactive'', Str (''Inactive'')),
      (''admin'', Str (''Admin'')),
      (''user'', Str (''User''))]),
    (''common'', Obj [
      (''loading'', Str (''Loading...'')),
      (''error'', Str (''An error occurred'')),
      (''retry'', Str (''Try again'')),
      (''save'', Str (''Save'')),
      (''cancel'', Str (''Cancel'')),
      (''delete'', Str (''Delete'')),
      (''edit'', Str (''Edit'')),
      (''create'', Str (''Create'')),
      (''close'', Str (''Close'')),
      (''confirm'', Str (''Confirm'')),
      (''back'', Str (''Back'')),
      (''next'', Str (''Next'')),
      (''previous'', Str (''Previous'')),
      (''showing'', Str (''Showing'')),
      (''of'', Str (''of'')),
      (''results'', Str (''results'')),
      (''noData'', Str (''No data available'')),
      (''actions'', Str (''Actions''))])]"

definition es_translations :: translation where
  "es_translations = Obj [
    (''app'', Obj [
      (''name'', Str (''CloudScale Commerce'')),
      (''tagline'', Str (''Plataforma de Comercio Cloud-Native Empresarial''))]),
    (''nav'', Obj [
      (''dashboard'', Str (''Panel'')),
      (''catalog'', Str (''Cat'' @ [CHR 0xE1] @ ''logo'')),
      (''cart'', Str (''Carrito'')),
      (''orders'', Str (''Pedidos'')),
      (''inventory'', Str (''Inventario'')),
      (''users'', Str (''Usuarios'')),
      (''admin'', Str (''KPIs Admin'')),
      (''settings'', Str (''Configuraci'' @ [CHR 0xF3] @ ''n'')),
      (''logout'', Str (''Cerrar sesi'' @ [CHR 0xF3] @ ''n'')),
      (''search'', Str (''Buscar''))]),
    (''auth'', Obj [
      (''login'', Str (''Iniciar sesi'' @ [CHR 0xF3] @ ''n'')),
      (''logout'', Str (''Cerrar sesi'' @ [CHR 0xF3] @ ''n'')),
      (''email'', Str (''Correo electr'' @ [CHR 0xF3] @ ''nico'')),
      (''password'', Str (''Contrase'' @ [CHR 0xF1] @ ''a'')),
      (''forgotPassword'', Str ([CHR 0xBF] @ ''Olvidaste tu contrase'' @ [CHR 0xF1] @ ''a?'')),
      (''signInTitle'', Str (''Bienvenido de nuevo'')),
      (''signInSubtitle'', Str (''Inicia sesi'' @ [CHR 0xF3] @ ''n en tu cuenta para continuar'')),
      (''invalidCredentials'', Str (''Correo o contrase'' @ [CHR 0xF1] @ ''a inv'' @ [CHR 0xE1] @ ''lidos''))]),
    (''dashboard'', Obj [
      (''welcome'', Str (''Bienvenido de nuevo'')),
      (''totalSpent'', Str (''Total Gastado'')),
      (''totalOrders'', Str (''Total Pedidos'')),
      (''growth'', Str (''Crecimiento'')),
      (''recentActivity'', Str (''Actividad Reciente'')),
      (''spendingTrends'', Str (''Tendencias de Gasto''))]),
    (''catalog'', Obj [
      (''title'', Str (''Cat'' @ [CHR 0xE1] @ ''logo de Productos'')),
      (''search'', Str (''Buscar productos...'')),
      (''addToCart'', Str (''Agregar al Carrito'')),
      (''viewDetails'', Str (''Ver Detalles'')),
      (''inStock'', Str (''En Stock'')),
      (''outOfStock'', Str (''Sin Stock'')),
      (''filters'', Str (''Filtros'')),
      (''sortBy'', Str (''Ordenar por'')),
      (''price'', Str (''Precio'')),
      (''name'', Str (''Nombre'')),
      (''category'', Str (''Categor'' @ [CHR 0xED] @ ''a'')),
      (''noProducts'', Str (''No se encontraron productos''))]),
    (''cart'', Obj [
      (''title'', Str (''Carrito de Compras'')),
      (''empty'', Str (''Tu carrito est'' @ [CHR 0xE1] @ '' vac'' @ [CHR 0xED] @ ''o'')),
      (''emptyDescription'', Str (''Explora nuestro cat'' @ [CHR 0xE1] @ ''logo y agrega productos a tu carrito.'')),
      (''subtotal'', Str (''Subtotal'')),
      (''shipping'', Str (''Env'' @ [CHR 0xED] @ ''o'')),
      (''tax'', Str (''Impuesto'')),
      (''total'', Str (''Total'')),
      (''checkout'', Str (''Proceder al Pago'')),
      (''remove'', Str (''Eliminar'')),
      (''coupon'', Str (''C'' @ [CHR 0xF3] @ ''digo de cup'' @ [CHR 0xF3] @ ''n'')),
      (''applyCoupon'', Str (''Aplicar''))]),
    (''checkout'', Obj [
      (''title'', Str (''Pago'')),
      (''shipping'', Str (''Direcci'' @ [CHR 0xF3] @ ''n de Env'' @ [CHR 0xED] @ ''o'')),
      (''payment'', Str (''M'' @ [CHR 0xE9] @ ''todo de Pago'')),
      (''review'', Str (''Revisar Pedido'')),
      (''placeOrder'', Str (''Realizar Pedido'')),
      (''street'', Str (''Direcci'' @ [CHR 0xF3] @ ''n'')),
      (''city'', Str (''Ciudad'')),
      (''zip'', Str (''C'' @ [CHR 0xF3] @ ''digo Postal'')),
      (''country'', Str (''Pa'' @ [CHR 0xED] @ ''s'')),
      (''creditCard'', Str (''Tarjeta de Cr'' @ [CHR 0xE9] @ ''dito'')),
      (''bankTransfer'', Str (''Transferencia Bancaria'')),
      (''success'', Str ([CHR 0xA1] @ ''Pedido realizado exitosamente!'')),
      (''successDescription'', Str (''Tu pedido ha sido confirmado y est'' @ [CHR 0xE1] @ '' siendo procesado.''))]),
    (''orders'', Obj [
      (''title'', Str (''Historial de Pedidos'')),
      (''orderId'', Str (''ID de Pedido'')),
      (''date'', Str (''Fecha'')),
      (''status'', Str (''Estado'')),
      (''amount'', Str (''Monto'')),
      (''pending'', Str (''Pendiente'')),
      (''completed'', Str (''Completado'')),
      (''failed'', Str (''Fallido'')),
      (''processing'', Str (''Procesando'')),
      (''noOrders'', Str (''A'' @ [CHR 0xFA] @ ''n no hay pedidos''))]),
    (''inventory'', Obj [
      (''title'', Str (''Gesti'' @ [CHR 0xF3] @ ''n de Inventario'')),
      (''sku'', Str (''SKU'')),
      (''product'', Str (''Producto'')),
      (''quantity'', Str (''Cantidad'')),
      (''status'', Str (''Estado'')),
      (''restock'', Str (''Reabastecer'')),
      (''lowStock'', Str (''Stock Bajo'')),
      (''inStock'', Str (''En Stock'')),
      (''outOfStock'', Str (''Sin Stock''))]),
    (''users'', Obj [
      (''title'', Str (''Gesti'' @ [CHR 0xF3] @ ''n de Usuarios'')),
      (''name'', Str (''Nombre'')),
      (''email'', Str (''Correo'')),
      (''role'', Str (''Rol'')),
      (''status'', Str (''Estado'')),
      (''active'', Str (''Activo'')),
      (''inactive'', Str (''Inactivo'')),
      (''admin'', Str (''Administrador'')),
      (''user'', Str (''Usuario''))]),
    (''common'', Obj [
      (''loading'', Str (''Cargando...'')),
      (''error'', Str (''Ocurri'' @ [CHR 0xF3] @ '' un error'')),
      (''retry'', Str (''Intentar de nuevo'')),
      (''save'', Str (''Guardar'')),
      (''cancel'', Str (''Cancelar'')),
      (''delete'', Str (''Eliminar'')),
      (''edit'', Str (''Editar'')),
      (''create'', Str (''Crear'')),
      (''close'', Str (''Cerrar'')),
      (''confirm'', Str (''Confirmar'')),
      (''back'', Str (''Atr'' @ [CHR 0xE1] @ ''s'')),
      (''next'', Str (''Siguiente'')),
      (''previous'', Str (''Anterior'')),
      (''showing'', Str (''Mostrando'')),
      (''of'', Str (''de'')),
      (''results'', Str (''resultados'')),
      (''noData'', Str (''No hay datos disponibles'')),
      (''actions'', Str (''Acciones''))])]"

fun split_dots :: "jsstring \<Rightarrow> jsstring list" where
  "split_dots [] = [[]]"
| "split_dots (c # s) =
     (if c = CHR ''.'' then [] # split_dots s
      else case split_dots s of [] \<Rightarrow> [[c]] | p # ps \<Rightarrow> (c # p) # ps)"

fun walk :: "translation \<Rightarrow> jsstring list \<Rightarrow> translation option" where
  "walk t [] = Some t"
| "walk (Str s) (p # ps) = None"
| "walk (Obj es) (p # ps) = (case map_of es p of None \<Rightarrow> None | Some u \<Rightarrow> walk u ps)"

definition getNestedValue :: "translation \<Rightarrow> jsstring \<Rightarrow> jsstring" where
  "getNestedValue obj key =
     (case walk obj (split_dots key) of Some (Str s) \<Rightarrow> s | _ \<Rightarrow> key)"

subsection \<open>Parameters\<close>

text \<open>\<open>value.replace(pattern, replacement)\<close> with a string pattern replaces the first
  occurrence; in the replacement \<open>$$\<close>, \<open>$&\<close>, \<open>$`\<close> and \<open>$'\<close> stand for a dollar sign, the
  match, and the text before and after it.\<close>

fun expand :: "jsstring \<Rightarrow> jsstring \<Rightarrow> jsstring \<Rightarrow> jsstring \<Rightarrow> jsstring" where
  "expand before match after [] = []"
| "expand before match after [c] = [c]"
| "expand before match after (c # d # r) =
     (if c \<noteq> CHR ''$'' then c # expand before match after (d # r)
      else if d = CHR ''$'' then CHR ''$'' # expand before match after r
      else if d = CHR ''&'' then match @ expand before match after r
      else if d = CHR 0x60 then before @ expand before match after r
      else if d = CHR 0x27 then after @ expand before match after r
      else c # expand before match after (d # r))"

fun replace_from :: "jsstring \<Rightarrow> jsstring \<Rightarrow> jsstring \<Rightarrow> jsstring \<Rightarrow> jsstring" where
  "replace_from pat v before [] =
     (if pat = [] then before @ expand before pat [] v else before)"
| "replace_from pat v before (c # s) =
     (if starts_with (c # s) pat
      then before @ expand before pat (drop (length pat) (c # s)) v @ drop (length pat) (c # s)
      else replace_from pat v (before @ [c]) s)"

definition replace_first :: "jsstring \<Rightarrow> jsstring \<Rightarrow> jsstring \<Rightarrow> jsstring" where
  "replace_first pat v s = replace_from pat v [] s"

definition placeholder :: "jsstring \<Rightarrow> jsstring" where
  "placeholder k = ''{{'' @ k @ ''}}''"

subsection \<open>The provider\<close>

datatype locale_code = En | Es

fun table :: "locale_code \<Rightarrow> translation" where
  "table En = en_translations"
| "table Es = es_translations"

fun locale_name :: "locale_code \<Rightarrow> jsstring" where
  "locale_name En = ''en''"
| "locale_name Es = ''es''"

record i18n_state =
  current_locale :: locale_code
  stored_locale :: "jsstring option"
  document_lang :: "jsstring option"
  document_dir :: "jsstring option"

definition locale_of :: "jsstring \<Rightarrow> locale_code option" where
  "locale_of s = (if s = ''en'' then Some En else if s = ''es'' then Some Es else None)"

definition RTL_LOCALES :: "locale_code list" where
  "RTL_LOCALES = []"

definition locale_dir :: "locale_code \<Rightarrow> jsstring" where
  "locale_dir l = (if List.member RTL_LOCALES l then ''rtl'' else ''ltr'')"

definition initial_i18n :: "jsstring option \<Rightarrow> i18n_state" where
  \<comment> \<open>for stored texts other than names inherited by every object\<close>
  "initial_i18n stored =
     \<lparr>current_locale = (case stored of None \<Rightarrow> En
        | Some s \<Rightarrow> (case locale_of s of None \<Rightarrow> En | Some l \<Rightarrow> l)),
      stored_locale = stored, document_lang = None, document_dir = None\<rparr>"

definition setLocale :: "locale_code \<Rightarrow> i18n_state \<Rightarrow> i18n_state" where
  "setLocale l s = s\<lparr>current_locale := l, stored_locale := Some (locale_name l),
     document_lang := Some (locale_name l), document_dir := Some (locale_dir l)\<rparr>"

definition translate :: "i18n_state \<Rightarrow> jsstring \<Rightarrow> (jsstring \<times> jsstring) list \<Rightarrow> jsstring" where
  "translate s key params =
     foldl (\<lambda>value (k, v). replace_first (placeholder k) v value)
       (getNestedValue (table (current_locale s)) key) params"

definition availableLocales :: "(locale_code \<times> jsstring) list" where
  "availableLocales = [(En, ''English''), (Es, ''Espa'' @ [CHR 0xF1] @ ''ol'')]"

subsection \<open>Every key in every locale\<close>

text \<open>The keys under which a table has a string.\<close>

fun table_keys :: "translation \<Rightarrow> jsstring list" where
  "table_keys (Str s) = []"
| "table_keys (Obj es) =
     concat (map (\<lambda>(k, t). case t of Str s \<Rightarrow> [k] | Obj fs \<Rightarrow> map (\<lambda>(k', t'). k @ ''.'' @ k') fs) es)"

definition has_string :: "translation \<Rightarrow> jsstring \<Rightarrow> bool" where
  "has_string t key = (case walk t (split_dots key) of Some (Str s) \<Rightarrow> s \<noteq> [] | _ \<Rightarrow> False)"

lemma tables_agree:
  "table_keys es_translations = table_keys en_translations"
  by code_simp

text \<open>The keys of a table lead to its texts when, as here, no key of a level occurs twice or has a dot.\<close>

lemma split_plain: "CHR ''.'' \<notin> set k \<Longrightarrow> split_dots k = [k]"
  by (induction k) auto

lemma split_pair: "CHR ''.'' \<notin> set k \<Longrightarrow> CHR ''.'' \<notin> set k' \<Longrightarrow> split_dots (k @ ''.'' @ k') = [k, k']"
  by (induction k) (auto simp: split_plain)

definition text_entries :: "(jsstring \<times> translation) list \<Rightarrow> bool" where
  "text_entries fs \<longleftrightarrow> distinct (map fst fs) \<and>
     list_all (\<lambda>(k, v). CHR ''.'' \<notin> set k \<and> (case v of Str s \<Rightarrow> s \<noteq> [] | Obj _ \<Rightarrow> False)) fs"

definition two_levels :: "translation \<Rightarrow> bool" where
  "two_levels t \<longleftrightarrow> (case t of Str s \<Rightarrow> False
     | Obj es \<Rightarrow> distinct (map fst es) \<and>
        list_all (\<lambda>(k, u). CHR ''.'' \<notin> set k \<and> (case u of Str s \<Rightarrow> s \<noteq> [] | Obj fs \<Rightarrow> text_entries fs)) es)"

lemma two_levels_have_strings: "two_levels t \<Longrightarrow> list_all (has_string t) (table_keys t)"
proof (cases t)
  case (Obj es)
  assume t: "two_levels t"
  have one: "map_of xs k = Some u" if "distinct (map fst xs)" "(k, u) \<in> set xs" for xs :: "(jsstring \<times> translation) list" and k u
    using that by simp
  have "has_string t k" if "(k, Str s) \<in> set es" for k s
    using t that by (force simp: Obj two_levels_def has_string_def list_all_iff split_plain)
  moreover have "has_string t (k @ ''.'' @ k')" if e: "(k, Obj fs) \<in> set es" and f: "(k', u) \<in> set fs" for k fs k' u
  proof -
    have x: "CHR ''.'' \<notin> set k" "text_entries fs" "map_of es k = Some (Obj fs)"
      using t e by (auto simp: Obj two_levels_def list_all_iff)
    then have "CHR ''.'' \<notin> set k' \<and> (case u of Str s \<Rightarrow> s \<noteq> [] | Obj _ \<Rightarrow> False)" and m: "map_of fs k' = Some u"
      using f unfolding text_entries_def list_all_iff by auto
    then have "CHR ''.'' \<notin> set k'" "\<exists>s. u = Str s \<and> s \<noteq> []" by (auto split: translation.splits)
    then show ?thesis using x m by (auto simp: has_string_def split_pair Obj simp del: append.simps)
  qed
  ultimately have "has_string t x" if "(k, u) \<in> set es"
      "x \<in> set (case u of Str s \<Rightarrow> [k] | Obj fs \<Rightarrow> map (\<lambda>(k', t'). k @ ''.'' @ k') fs)" for k u x
    using that by (cases u) auto
  then show ?thesis unfolding Obj list_all_iff table_keys.simps set_concat set_map by fastforce
qed (simp add: two_levels_def)

lemma tables_two_levels: "two_levels en_translations" "two_levels es_translations"
  by code_simp+

lemma keys_have_strings:
  "list_all (has_string en_translations) (table_keys en_translations)"
  "list_all (has_string es_translations) (table_keys en_translations)"
  using tables_two_levels [THEN two_levels_have_strings] by (simp_all only: tables_agree)

lemma has_string_value:
  "has_string t key \<Longrightarrow> \<exists>s. s \<noteq> [] \<and> walk t (split_dots key) = Some (Str s) \<and> getNestedValue t key = s"
  by (auto simp: has_string_def getNestedValue_def split: option.splits translation.splits)

lemma table_complete: "table_keys (table l) = table_keys en_translations \<and>
    list_all (has_string (table l)) (table_keys en_translations)"
  by (cases l) (simp_all add: tables_agree keys_have_strings del: table_keys.simps)

text \<open>C40. The tables of the two languages have the same keys, and every key has a text that is
  not empty in each, so no page shows a raw key after the language is switched; a chosen
  language is the one the next visit starts with; and a key no table has is shown as it
  is.\<close>

theorem locales_complete:
  "table_keys (table l) = table_keys (table l') \<and>
   list_all (\<lambda>key. \<exists>s. s \<noteq> [] \<and> walk (table l) (split_dots key) = Some (Str s) \<and>
      translate (setLocale l st) key [] = s) (table_keys (table l')) \<and>
   current_locale (initial_i18n (stored_locale (setLocale l st))) = l \<and>
   translate st ''no.such.key'' [] = ''no.such.key''"
proof (intro conjI)
  show "table_keys (table l) = table_keys (table l')" using table_complete by metis
  have "list_all (has_string (table l)) (table_keys (table l'))" using table_complete by metis
  then show "list_all (\<lambda>key. \<exists>s. s \<noteq> [] \<and> walk (table l) (split_dots key) = Some (Str s) \<and>
      translate (setLocale l st) key [] = s) (table_keys (table l'))"
    by (auto simp: list_all_iff translate_def setLocale_def dest!: has_string_value)
  show "current_locale (initial_i18n (stored_locale (setLocale l st))) = l"
    by (cases l) (simp_all add: initial_i18n_def setLocale_def locale_of_def)
  have "getNestedValue (table k) ''no.such.key'' = ''no.such.key''" for k
    by (cases k) (simp_all only: table.simps, code_simp+)
  then show "translate st ''no.such.key'' [] = ''no.such.key''" by (simp add: translate_def)
qed

subsection \<open>Inserting a parameter\<close>

lemma expand_plain: "CHR ''$'' \<notin> set v \<Longrightarrow> expand b m a v = v"
  by (induction b m a v rule: expand.induct) auto

lemma replace_from_first:
  assumes "\<forall>k < length before. \<not> starts_with (drop k (before @ pat @ after)) pat" "pat \<noteq> []"
  shows "replace_from pat v pre (before @ pat @ after) =
    pre @ before @ expand (pre @ before) pat after v @ after"
  using assms
proof (induction before arbitrary: pre)
  case Nil
  obtain c q where p: "pat = c # q" using assms(2) by (cases pat) auto
  have "starts_with (c # q @ after) (c # q)" by (simp add: starts_with_prefix)
  then show ?case using p by simp
next
  case (Cons c before)
  have n: "\<not> starts_with (c # before @ pat @ after) pat" using Cons.prems(1) by force
  have "replace_from pat v (pre @ [c]) (before @ pat @ after) =
      (pre @ [c]) @ before @ expand ((pre @ [c]) @ before) pat after v @ after"
  proof (rule Cons.IH [OF _ Cons.prems(2)])
    show "\<forall>k < length before. \<not> starts_with (drop k (before @ pat @ after)) pat"
      using Cons.prems(1) by (auto dest: spec [of _ "Suc _"])
  qed
  then show ?case using n by simp
qed

text \<open>A parameter without a dollar sign replaces the first occurrence of its placeholder by
  its text, and nothing else changes, a second occurrence included; dollar signs are
  interpreted: the text \<open>$&\<close> leaves the placeholder where it is.\<close>

theorem parameter_inserted:
  assumes "\<forall>i < length before. \<not> starts_with (drop i (before @ placeholder k @ after)) (placeholder k)"
    and "getNestedValue (table (current_locale s)) key = before @ placeholder k @ after"
  shows "(CHR ''$'' \<notin> set v \<longrightarrow> translate s key [(k, v)] = before @ v @ after) \<and>
    translate s key [(k, ''$&'')] = before @ placeholder k @ after"
proof -
  have "placeholder k \<noteq> []" by (simp add: placeholder_def)
  from replace_from_first [OF assms(1) this, of _ "[]"]
  have "translate s key [(k, w)] = before @ expand before (placeholder k) after w @ after" for w
    by (simp add: translate_def assms(2) replace_first_def)
  then show ?thesis by (simp add: expand_plain)
qed

text \<open>A key no table has is its own text, so it can carry the placeholder.\<close>

theorem parameter_inserted_witness:
  "translate (initial_i18n None) ''Hi {{name}}!'' [(''name'', ''Ana'')] = ''Hi Ana!''"
proof -
  have b: "\<forall>i < length ''Hi ''. \<not> starts_with (drop i (''Hi '' @ placeholder ''name'' @ ''!'')) (placeholder ''name'')"
    by (auto simp: placeholder_def less_Suc_eq)
  have "getNestedValue en_translations ''Hi {{name}}!'' = ''Hi '' @ placeholder ''name'' @ ''!''" by code_simp
  then have g: "getNestedValue (table (current_locale (initial_i18n None))) ''Hi {{name}}!'' =
      ''Hi '' @ placeholder ''name'' @ ''!''"
    by (simp add: initial_i18n_def)
  show ?thesis using parameter_inserted [OF b g, of "''Ana''"] by simp
qed

end
