(* ===== verification/Ui_Fields.thy ===== *)
theory Ui_Fields
  imports Js_String Js_Number Jsx
begin

text \<open>
  The form controls of \<open>frontend/src/components/ui\<close>: \<open>Button\<close>, \<open>Input\<close>, \<open>Textarea\<close>,
  \<open>Select\<close>, \<open>DatePicker\<close>, \<open>Checkbox\<close>, \<open>Switch\<close>, \<open>RadioGroup\<close>, \<open>SearchBox\<close>, and the
  display elements \<open>Alert\<close>, \<open>Badge\<close>, \<open>Chip\<close>, \<open>EmptyState\<close>, \<open>Progress\<close>,
  \<open>MetricCard\<close>. A view is a function of its properties; attributes a component passes
  through (\<open>...props\<close>) are a list of attributes. Properties that only choose class names
  (variants, sizes) are left out where nothing else depends on them.
\<close>

subsection \<open>Identifiers and labels\<close>

fun dash_from :: "bool \<Rightarrow> jsstring \<Rightarrow> jsstring" where
  \<comment> \<open>\<open>replace(/\s+/g, "-")\<close>; the flag says that the previous character was white\<close>
  "dash_from w [] = []"
| "dash_from w (c # s) =
     (if is_white c then (if w then dash_from True s else CHR ''-'' # dash_from True s)
      else c # dash_from False s)"

definition input_id :: "jsstring option \<Rightarrow> jsstring option \<Rightarrow> jsstring option" where
  "input_id i label =
     (if truthy i then i else map_option (\<lambda>l. dash_from False (toLowerCase l)) label)"

definition id_text :: "jsstring option \<Rightarrow> jsstring" where
  \<comment> \<open>the identifier inside a template string\<close>
  "id_text i = (case i of None \<Rightarrow> ''undefined'' | Some s \<Rightarrow> s)"

definition opt_attr :: "string \<Rightarrow> jsstring option \<Rightarrow> 'a attr list" where
  "opt_attr name v = (case v of None \<Rightarrow> [] | Some s \<Rightarrow> [Attr name s])"

definition described_by :: "jsstring option \<Rightarrow> jsstring option \<Rightarrow> jsstring option \<Rightarrow> 'a attr list" where
  "described_by i err hint =
     (if truthy err then [Attr ''aria-describedby'' (id_text i @ ''-error'')]
      else if truthy hint then [Attr ''aria-describedby'' (id_text i @ ''-hint'')] else [])"

definition field_label :: "jsstring option \<Rightarrow> jsstring option \<Rightarrow> bool \<Rightarrow> 'a node list" where
  "field_label i label required =
     show_if (truthy label)
       [El ''label'' (opt_attr ''for'' i)
         (Txt (str_or label '''') # show_if required [El ''span'' [] [Txt ''*'']])]"

definition error_line :: "jsstring option \<Rightarrow> jsstring option \<Rightarrow> 'a node list" where
  "error_line i err =
     show_if (truthy err)
       [El ''p'' [Attr ''id'' (id_text i @ ''-error''), Attr ''role'' ''alert''] [Txt (str_or err '''')]]"

definition hint_line :: "jsstring option \<Rightarrow> jsstring option \<Rightarrow> jsstring option \<Rightarrow> 'a node list" where
  "hint_line i err hint =
     show_if (truthy hint \<and> \<not> truthy err)
       [El ''p'' [Attr ''id'' (id_text i @ ''-hint'')] [Txt (str_or hint '''')]]"

subsection \<open>Button and Input\<close>

definition button_view :: "bool \<Rightarrow> bool \<Rightarrow> 'a node option \<Rightarrow> 'a attr list \<Rightarrow> 'a node list \<Rightarrow> 'a node" where
  "button_view loading disabled icon props children =
     El ''button'' (Flag ''disabled'' (disabled \<or> loading) # props)
       ((if loading then [Icon ''Loader2'']
         else case icon of Some i \<Rightarrow> [El ''span'' [] [i]] | None \<Rightarrow> []) @ children)"

record 'a field =
  fld_id :: "jsstring option"
  fld_label :: "jsstring option"
  fld_error :: "jsstring option"
  fld_hint :: "jsstring option"
  fld_required :: bool
  fld_props :: "'a attr list"

record 'a input_field = "'a field" +
  fld_type :: "jsstring option"
  fld_success :: "jsstring option"
  fld_icon :: "'a node option"
  fld_right_icon :: "'a node option"

definition is_some :: "'b option \<Rightarrow> bool" where
  "is_some x = (x \<noteq> None)"

definition input_view :: "bool \<Rightarrow> 'a \<Rightarrow> 'a input_field \<Rightarrow> 'a node" where
  \<comment> \<open>\<open>toggle\<close> is the action of the button that shows the password\<close>
  "input_view showPassword toggle f =
     (let i = input_id (fld_id f) (fld_label f);
          isPassword = (fld_type f = Some ''password'');
          resolvedType = (if isPassword \<and> showPassword then Some ''text'' else fld_type f)
      in El ''div'' []
        (field_label i (fld_label f) (fld_required f)
         @ [El ''div'' []
             (show_some (fld_icon f) (\<lambda>x. [El ''span'' [] [x]])
              @ [El ''input'' (opt_attr ''id'' i @ opt_attr ''type'' resolvedType
                    @ [Flag ''aria-invalid'' (truthy (fld_error f))]
                    @ described_by i (fld_error f) (fld_hint f)
                    @ show_if (fld_required f) [Flag ''required'' True] @ fld_props f) []]
              @ show_if isPassword
                  [El ''button'' [Attr ''type'' ''button'', On ''click'' toggle,
                     Attr ''aria-label'' (if showPassword then ''Hide password'' else ''Show password'')]
                    [Icon (if showPassword then ''EyeOff'' else ''Eye'')]]
              @ show_if (\<not> isPassword) (show_some (fld_right_icon f) (\<lambda>x. [El ''span'' [] [x]])))]
         @ show_if (truthy (fld_error f))
             [El ''p'' [Attr ''id'' (id_text i @ ''-error''), Attr ''role'' ''alert'']
                [Icon ''AlertCircle'', Txt '' '', Txt (str_or (fld_error f) '''')]]
         @ show_if (truthy (fld_success f) \<and> \<not> truthy (fld_error f))
             [El ''p'' [] [Icon ''Check'', Txt '' '', Txt (str_or (fld_success f) '''')]]
         @ show_if (truthy (fld_hint f) \<and> \<not> truthy (fld_error f) \<and> \<not> truthy (fld_success f))
             [El ''p'' [Attr ''id'' (id_text i @ ''-hint'')] [Txt (str_or (fld_hint f) '''')]]))"

subsection \<open>Textarea, Select, DatePicker\<close>

definition textarea_view :: "jsstring option \<Rightarrow> int option \<Rightarrow> bool \<Rightarrow> 'a field \<Rightarrow> 'a node" where
  "textarea_view val maxLength charCount f =
     (let i = input_id (fld_id f) (fld_label f);
          currentLength = (case val of None \<Rightarrow> 0 | Some v \<Rightarrow> length v)
      in El ''div'' []
        (field_label i (fld_label f) (fld_required f)
         @ [El ''textarea'' (opt_attr ''id'' i @ opt_attr ''value'' val
              @ show_some maxLength (\<lambda>m. [NumAttr ''maxLength'' (of_int m)])
              @ [Flag ''aria-invalid'' (truthy (fld_error f))]
              @ described_by i (fld_error f) (fld_hint f)
              @ show_if (fld_required f) [Flag ''required'' True] @ fld_props f) [],
            El ''div'' []
              (error_line i (fld_error f) @ hint_line i (fld_error f) (fld_hint f)
               @ (case maxLength of
                    None \<Rightarrow> []
                  | Some m \<Rightarrow> if charCount \<and> m \<noteq> 0
                      then [El ''p'' [] [Num (of_nat currentLength), Txt ''/'', Num (of_int m)]]
                      \<comment> \<open>\<open>charCount && maxLength\<close> is the number 0 when the limit is 0, and React renders it\<close>
                      else if charCount then [Num 0] else []))]))"

record select_option =
  opt_value :: jsstring
  opt_label :: jsstring
  opt_disabled :: bool

definition option_view :: "select_option \<Rightarrow> 'a node" where
  "option_view opt = El ''option'' [Attr ''value'' (opt_value opt), Flag ''disabled'' (opt_disabled opt)]
     [Txt (opt_label opt)]"

definition select_view :: "select_option list \<Rightarrow> jsstring option \<Rightarrow> 'a field \<Rightarrow> 'a node" where
  "select_view options placeholder f =
     (let i = input_id (fld_id f) (fld_label f)
      in El ''div'' []
        (field_label i (fld_label f) (fld_required f)
         @ [El ''div'' []
             [El ''select'' (opt_attr ''id'' i @ [Flag ''aria-invalid'' (truthy (fld_error f))]
                @ described_by i (fld_error f) (fld_hint f)
                @ show_if (fld_required f) [Flag ''required'' True] @ fld_props f)
               (show_if (truthy placeholder) [El ''option'' [Attr ''value'' ''''] [Txt (str_or placeholder '''')]]
                @ map option_view options),
              Icon ''ChevronDown'']]
         @ error_line i (fld_error f) @ hint_line i (fld_error f) (fld_hint f)))"

definition date_picker_view :: "jsstring option \<Rightarrow> (jsstring \<Rightarrow> 'a) option \<Rightarrow> 'a field \<Rightarrow> 'a node" where
  "date_picker_view val onChange f =
     (let i = input_id (fld_id f) (fld_label f)
      in El ''div'' []
        (field_label i (fld_label f) (fld_required f)
         @ [El ''div'' []
             [Icon ''Calendar'',
              El ''input'' (opt_attr ''id'' i
                @ [Attr ''type'' ''date'', Attr ''value'' (case val of None \<Rightarrow> '''' | Some v \<Rightarrow> v)]
                @ show_some onChange (\<lambda>h. [OnText ''change'' h])
                @ [Flag ''aria-invalid'' (truthy (fld_error f))]
                @ described_by i (fld_error f) (fld_hint f)
                @ show_if (fld_required f) [Flag ''required'' True] @ fld_props f) []]]
         @ error_line i (fld_error f) @ hint_line i (fld_error f) (fld_hint f)))"

subsection \<open>Checkbox, Switch, RadioGroup\<close>

definition checkbox_view :: "jsstring option \<Rightarrow> 'a field \<Rightarrow> 'a node" where
  "checkbox_view descr f =
     (let i = input_id (fld_id f) (fld_label f)
      in El ''div'' []
        (El ''div'' []
           [El ''input'' (opt_attr ''id'' i @ [Attr ''type'' ''checkbox'', Flag ''aria-invalid'' (truthy (fld_error f))]
              @ show_if (fld_required f) [Flag ''required'' True] @ fld_props f) [],
            El ''label'' (opt_attr ''for'' i) [Icon ''Check'']]
         # show_if (truthy (fld_label f) \<or> truthy descr)
             [El ''div'' []
               (show_if (truthy (fld_label f)) [El ''label'' (opt_attr ''for'' i) [Txt (str_or (fld_label f) '''')]]
                @ show_if (truthy descr) [El ''p'' [] [Txt (str_or descr '''')]]
                @ show_if (truthy (fld_error f)) [El ''p'' [Attr ''role'' ''alert''] [Txt (str_or (fld_error f) '''')]])]))"

definition switch_view ::
    "bool option \<Rightarrow> (bool \<Rightarrow> 'a) option \<Rightarrow> jsstring option \<Rightarrow> jsstring option \<Rightarrow> bool \<Rightarrow> jsstring option \<Rightarrow> 'a node" where
  "switch_view checked onChange label descr disabled i0 =
     (let i = input_id i0 label; c = (checked = Some True)
      in El ''div'' []
        (show_if (truthy label \<or> truthy descr)
           [El ''div'' []
             (show_if (truthy label) [El ''label'' (opt_attr ''for'' i) [Txt (str_or label '''')]]
              @ show_if (truthy descr) [El ''p'' [] [Txt (str_or descr '''')]])]
         @ [El ''button''
              (opt_attr ''id'' i @ [Attr ''type'' ''button'', Attr ''role'' ''switch'']
               @ show_some checked (\<lambda>b. [Flag ''aria-checked'' b])
               @ [Flag ''disabled'' disabled]
               @ show_some onChange (\<lambda>h. [On ''click'' (h (\<not> c))]))
              [El ''span'' [] []]]))"

record radio_option = select_option +
  opt_description :: "jsstring option"

definition radio_view :: "jsstring \<Rightarrow> jsstring option \<Rightarrow> (jsstring \<Rightarrow> 'a) option \<Rightarrow> radio_option \<Rightarrow> 'a node" where
  "radio_view name val onChange opt =
     El ''label'' []
       [El ''input''
          ([Attr ''type'' ''radio'', Attr ''name'' name, Attr ''value'' (opt_value opt),
            Flag ''checked'' (val = Some (opt_value opt)), Flag ''disabled'' (opt_disabled opt)]
           @ show_some onChange (\<lambda>h. [On ''change'' (h (opt_value opt))])) [],
        El ''span'' [] (show_if (val = Some (opt_value opt)) [El ''span'' [] []]),
        El ''div'' []
          (El ''span'' [] [Txt (opt_label opt)]
           # show_if (truthy (opt_description opt)) [El ''p'' [] [Txt (str_or (opt_description opt) '''')]])]"

definition radio_group_view ::
    "jsstring \<Rightarrow> jsstring option \<Rightarrow> radio_option list \<Rightarrow> jsstring option \<Rightarrow> (jsstring \<Rightarrow> 'a) option \<Rightarrow>
     jsstring option \<Rightarrow> 'a node" where
  "radio_group_view name label options val onChange err =
     El ''fieldset'' (Attr ''role'' ''radiogroup'' # opt_attr ''aria-label'' label)
       (show_if (truthy label) [El ''legend'' [] [Txt (str_or label '''')]]
        @ [El ''div'' [] (map (radio_view name val onChange) options)]
        @ show_if (truthy err) [El ''p'' [Attr ''role'' ''alert''] [Txt (str_or err '''')]])"

subsection \<open>Display elements\<close>

datatype alert_variant = AlertInfo | AlertSuccess | AlertWarning | AlertError

fun alert_icon :: "alert_variant \<Rightarrow> string" where
  "alert_icon AlertInfo = ''Info''"
| "alert_icon AlertSuccess = ''CheckCircle''"
| "alert_icon AlertWarning = ''AlertTriangle''"
| "alert_icon AlertError = ''AlertCircle''"

definition alert_view ::
    "alert_variant \<Rightarrow> jsstring option \<Rightarrow> 'a node option \<Rightarrow> bool \<Rightarrow> 'a option \<Rightarrow> 'a node list \<Rightarrow> 'a node" where
  "alert_view v title icon dismissible onDismiss children =
     El ''div'' [Attr ''role'' ''alert'']
       ([El ''span'' [] [case icon of Some i \<Rightarrow> i | None \<Rightarrow> Icon (alert_icon v)],
         El ''div'' []
           (show_if (truthy title) [El ''p'' [] [Txt (str_or title '''')]] @ [El ''div'' [] children])]
        @ show_if dismissible
            [El ''button'' (show_some onDismiss (\<lambda>a. [On ''click'' a]) @ [Attr ''aria-label'' ''Dismiss''])
               [Icon ''X'']])"

definition badge_view :: "bool \<Rightarrow> 'a node option \<Rightarrow> bool \<Rightarrow> 'a option \<Rightarrow> 'a attr list \<Rightarrow> 'a node list \<Rightarrow> 'a node" where
  "badge_view dot icon removable onRemove props children =
     El ''span'' props
       (show_if dot [El ''span'' [] []]
        @ show_some icon (\<lambda>i. [El ''span'' [] [i]])
        @ children
        @ show_if removable
            [El ''button'' ([Attr ''type'' ''button''] @ show_some onRemove (\<lambda>a. [On ''click'' a])
               @ [Attr ''aria-label'' ''Remove'']) [Txt [CHR 0xD7]]])"

definition chip_view :: "'a option \<Rightarrow> 'a option \<Rightarrow> 'a node option \<Rightarrow> bool \<Rightarrow> 'a attr list \<Rightarrow> 'a node list \<Rightarrow> 'a node" where
  "chip_view onSelect onRemove icon disabled props children =
     El ''span'' (show_if (\<not> disabled) (show_some onSelect (\<lambda>a. [On ''click'' a])) @ props)
       (show_some icon (\<lambda>i. [El ''span'' [] [i]])
        @ [El ''span'' [] children]
        @ show_some onRemove (\<lambda>a.
            [El ''button'' [Attr ''type'' ''button'', Flag ''disabled'' disabled, On ''click'' a,
               Attr ''aria-label'' ''Remove filter''] [Icon ''X'']]))"

datatype empty_variant = EmptyDefault | EmptySearch | EmptyError | EmptyOffline | EmptyNotFound

fun empty_icon :: "empty_variant \<Rightarrow> string" where
  "empty_icon EmptyDefault = ''Inbox''"
| "empty_icon EmptySearch = ''Search''"
| "empty_icon EmptyError = ''AlertTriangle''"
| "empty_icon EmptyOffline = ''WifiOff''"
| "empty_icon EmptyNotFound = ''FileQuestion''"

fun empty_title :: "empty_variant \<Rightarrow> jsstring" where
  "empty_title EmptyDefault = ''No data yet''"
| "empty_title EmptySearch = ''No results found''"
| "empty_title EmptyError = ''Something went wrong''"
| "empty_title EmptyOffline = ''You're offline''"
| "empty_title EmptyNotFound = ''Not found''"

fun empty_description :: "empty_variant \<Rightarrow> jsstring" where
  "empty_description EmptyDefault = ''There's nothing here at the moment. Try adding some items.''"
| "empty_description EmptySearch = ''Try adjusting your search or filters to find what you're looking for.''"
| "empty_description EmptyError = ''We encountered an error. Please try again later.''"
| "empty_description EmptyOffline = ''Check your internet connection and try again.''"
| "empty_description EmptyNotFound = ''The resource you're looking for doesn't exist.''"

definition empty_state_view ::
    "empty_variant \<Rightarrow> jsstring option \<Rightarrow> jsstring option \<Rightarrow> 'a node option \<Rightarrow> 'a node list \<Rightarrow> 'a node" where
  "empty_state_view v title descr icon action =
     El ''div'' []
       ([El ''div'' [] [case icon of Some i \<Rightarrow> i | None \<Rightarrow> Icon (empty_icon v)],
         El ''h3'' [] [Txt (str_or title (empty_title v))],
         El ''p'' [] [Txt (str_or descr (empty_description v))]] @ action)"

definition progress_pct :: "rat \<Rightarrow> rat \<Rightarrow> rat" where
  "progress_pct val maximum = min 100 (max 0 (ntimes (ndiv val maximum) 100))"

definition js_round :: "rat \<Rightarrow> int" where
  \<comment> \<open>\<open>Math.round\<close>\<close>
  "js_round x = \<lfloor>x + 1 / 2\<rfloor>"

definition progress_view :: "rat \<Rightarrow> rat \<Rightarrow> bool \<Rightarrow> jsstring option \<Rightarrow> 'a node" where
  "progress_view val maximum showLabel label =
     (let pct = progress_pct val maximum
      in El ''div'' []
        (show_if (showLabel \<or> truthy label)
           [El ''div'' []
             [El ''span'' [] [Txt (str_or label ''Progress'')],
              El ''span'' [] [Num (of_int (js_round pct)), Txt ''%'']]]
         @ [El ''div'' [Attr ''role'' ''progressbar'', NumAttr ''aria-valuenow'' val,
              NumAttr ''aria-valuemin'' 0, NumAttr ''aria-valuemax'' maximum]
             [El ''div'' [NumAttr ''style.width%'' pct] []]]))"

record 'a metric_card =
  mc_title :: jsstring
  mc_value :: "'a node"
  mc_subtitle :: "jsstring option"
  mc_icon :: "'a node option"
  mc_badge :: "jsstring option"
  mc_trend :: "jsstring option"
  mc_click :: "'a option"
  mc_loading :: bool

definition metric_card_view :: "'a metric_card \<Rightarrow> 'a node" where
  "metric_card_view m =
     El ''div'' (show_some (mc_click m) (\<lambda>a. [On ''click'' a]))
       [El ''div'' []
          (show_some (mc_icon m) (\<lambda>i. [El ''div'' [] [i]])
           @ show_if (truthy (mc_badge m)) [badge_view False None False None [] [Txt (str_or (mc_badge m) '''')]]),
        El ''div'' []
          ([El ''p'' [] [Txt (mc_title m)],
            if mc_loading m then El ''div'' [] [] else El ''h3'' [] [mc_value m]]
           @ show_if (truthy (mc_subtitle m) \<or> truthy (mc_trend m))
               [El ''p'' []
                 (show_if (truthy (mc_trend m)) [El ''span'' [] [Txt (str_or (mc_trend m) '''')]]
                  @ show_if (truthy (mc_subtitle m)) [Txt (str_or (mc_subtitle m) '''')])])]"

subsection \<open>Descriptions refer to elements that are there\<close>

fun attr_values :: "string \<Rightarrow> 'a attr list \<Rightarrow> jsstring list" where
  "attr_values n [] = []"
| "attr_values n (Attr m v # as) = (if m = n then [v] else []) @ attr_values n as"
| "attr_values n (_ # as) = attr_values n as"

fun node_attr_values :: "string \<Rightarrow> 'a node \<Rightarrow> jsstring list" where
  "node_attr_values n (El t as cs) = attr_values n as @ concat (map (node_attr_values n) cs)"
| "node_attr_values n _ = []"

definition references_resolve :: "'a node \<Rightarrow> bool" where
  "references_resolve v \<longleftrightarrow> set (node_attr_values ''aria-describedby'' v) \<subseteq> set (node_attr_values ''id'' v)"

lemma attr_values_append [simp]: "attr_values n (as @ bs) = attr_values n as @ attr_values n bs"
  by (induction n as rule: attr_values.induct) auto

lemma attr_values_show [simp]:
  "attr_values n (show_if b as) = show_if b (attr_values n as)"
  "attr_values n (show_some x f) = show_some x (\<lambda>y. attr_values n (f y))"
  "attr_values n (opt_attr m v) = (if m = n then show_some v (\<lambda>s. [s]) else [])"
  by (auto simp: show_if_def show_some_def opt_attr_def split: option.split)

lemma described_by_value [simp]:
  "attr_values n (described_by i err hint) =
     (if n = ''aria-describedby'' then
        (if truthy err then [id_text i @ ''-error''] else if truthy hint then [id_text i @ ''-hint''] else [])
      else [])"
  by (simp add: described_by_def)

lemma option_view_values [simp]:
  "node_attr_values ''aria-describedby'' (option_view opt) = []" "node_attr_values ''id'' (option_view opt) = []"
  by (simp_all add: option_view_def)

lemma concat_map_nil [simp]: "(\<And>x. f x = []) \<Longrightarrow> concat (map f xs) = []"
  by (induction xs) simp_all

lemma id_not_hint [simp]: "i \<noteq> Some (id_text i @ ''-hint'')"
  by (cases i) (simp_all add: id_text_def)

lemmas field_views = field_label_def error_line_def hint_line_def

text \<open>A text area, a selection and a date field that point a screen reader at a description
  render the element they point at, whichever of error and hint is set; a text input does so
  exactly unless it has a hint and a success message and no error: then it points at its
  hint, which it does not render.\<close>

theorem descriptions_resolve:
  assumes "attr_values ''aria-describedby'' (fld_props f) = []"
    and "attr_values ''aria-describedby'' (fld_props g) = []" "attr_values ''id'' (fld_props g) = []"
    and "fld_icon g = None" "fld_right_icon g = None"
  shows "references_resolve (textarea_view val ml cc f) \<and>
    references_resolve (select_view opts ph f) \<and>
    references_resolve (date_picker_view val onc f) \<and>
    (references_resolve (input_view sp tog g) \<longleftrightarrow>
       \<not> (truthy (fld_hint g) \<and> truthy (fld_success g) \<and> \<not> truthy (fld_error g)))"
proof (intro conjI)
  show "references_resolve (textarea_view val ml cc f)"
    using assms by (cases "truthy (fld_error f)"; cases "truthy (fld_hint f)"; cases ml; cases cc;
        simp add: references_resolve_def textarea_view_def field_views Let_def)
  show "references_resolve (select_view opts ph f)"
    using assms by (cases "truthy (fld_error f)"; cases "truthy (fld_hint f)";
        simp add: references_resolve_def select_view_def field_views comp_def Let_def)
  show "references_resolve (date_picker_view val onc f)"
    using assms by (cases "truthy (fld_error f)"; cases "truthy (fld_hint f)";
        simp add: references_resolve_def date_picker_view_def field_views Let_def)
  show "references_resolve (input_view sp tog g) \<longleftrightarrow>
       \<not> (truthy (fld_hint g) \<and> truthy (fld_success g) \<and> \<not> truthy (fld_error g))"
    using assms by (cases "truthy (fld_error g)"; cases "truthy (fld_hint g)"; cases "truthy (fld_success g)";
        simp add: references_resolve_def input_view_def field_views Let_def)
qed

definition plain_field :: "jsstring \<Rightarrow> unit field" where
  "plain_field l = \<lparr>fld_id = None, fld_label = Some l, fld_error = None, fld_hint = Some ''two words'',
     fld_required = True, fld_props = []\<rparr>"

definition plain_input :: "jsstring \<Rightarrow> jsstring option \<Rightarrow> unit input_field" where
  "plain_input l ok = field.extend (plain_field l)
     \<lparr>fld_type = None, fld_success = ok, fld_icon = None, fld_right_icon = None\<rparr>"

theorem descriptions_resolve_witness:
  "references_resolve (input_view False () (plain_input ''Full  name'' None)) \<and>
   \<not> references_resolve (input_view False () (plain_input ''Full  name'' (Some ''fine'')))"
proof -
  have 1: "attr_values ''aria-describedby'' (fld_props (plain_field ''Full  name'')) = []"
    by (simp add: plain_field_def)
  have 2: "attr_values ''aria-describedby'' (fld_props (plain_input ''Full  name'' s)) = []"
    "attr_values ''id'' (fld_props (plain_input ''Full  name'' s)) = []"
    "fld_icon (plain_input ''Full  name'' s) = None" "fld_right_icon (plain_input ''Full  name'' s) = None" for s
    by (simp_all add: plain_input_def plain_field_def field.extend_def)
  have "references_resolve (input_view False () (plain_input ''Full  name'' s)) \<longleftrightarrow> \<not> truthy s" for s
    using descriptions_resolve [OF 1 2, where sp = False and tog = "()"]
    by (simp add: plain_input_def plain_field_def field.extend_def truthy_def)
  then show ?thesis by (simp add: truthy_def)
qed

subsection \<open>What a control can do\<close>

lemma actions_button:
  "actions (button_view loading disabled icon props children) =
     (if disabled \<or> loading \<or> is_disabled props then []
      else attr_actions props @ concat (map actions
        ((if loading then [Icon ''Loader2'']
          else case icon of Some i \<Rightarrow> [El ''span'' [] [i]] | None \<Rightarrow> []) @ children)))"
  by (simp add: button_view_def)

lemma actions_switch:
  "actions (switch_view checked onChange label descr disabled i) =
     (if disabled then [] else case onChange of None \<Rightarrow> [] | Some h \<Rightarrow> [h (checked \<noteq> Some True)])"
proof -
  have "attr_actions (opt_attr n v :: 'a attr list) = []" "is_disabled (opt_attr n v :: 'a attr list) = False" for n v
    by (cases v; simp add: opt_attr_def)+
  then show ?thesis
    by (auto simp: switch_view_def Let_def show_some_def show_if_def split: option.split)
qed

lemma actions_chip:
  "actions (chip_view onSelect onRemove None disabled [] [Txt t]) =
     (if disabled then [] else (case onSelect of None \<Rightarrow> [] | Some a \<Rightarrow> [a]) @ (case onRemove of None \<Rightarrow> [] | Some a \<Rightarrow> [a]))"
  by (auto simp: chip_view_def show_if_def show_some_def split: option.split)

lemma actions_alert:
  "actions (alert_view v title None dismissible onDismiss children) =
     concat (map actions children) @ (if dismissible then case onDismiss of None \<Rightarrow> [] | Some a \<Rightarrow> [a] else [])"
  by (auto simp: alert_view_def show_if_def show_some_def split: option.split)

lemma actions_badge:
  "actions (badge_view dot None removable onRemove [] children) =
     concat (map actions children) @ (if removable then case onRemove of None \<Rightarrow> [] | Some a \<Rightarrow> [a] else [])"
  by (auto simp: badge_view_def show_if_def show_some_def split: option.split)

lemma actions_metric_card:
  "actions (metric_card_view m) =
     (case mc_click m of None \<Rightarrow> [] | Some a \<Rightarrow> [a]) @
     (case mc_icon m of None \<Rightarrow> [] | Some i \<Rightarrow> actions i) @ (if mc_loading m then [] else actions (mc_value m))"
  by (auto simp: metric_card_view_def badge_view_def show_if_def show_some_def split: option.split)

lemma radio_actions:
  "actions (radio_view name val onChange opt) =
     (if opt_disabled opt then [] else case onChange of None \<Rightarrow> [] | Some h \<Rightarrow> [h (opt_value opt)])"
  by (auto simp: radio_view_def show_if_def show_some_def split: option.split)

text \<open>A radio group offers exactly the values of its options that are not disabled, each once
  and in order, and marks the chosen value; a switch offers the opposite of its state; and a
  button that is loading or disabled offers nothing, its children included.\<close>

theorem choice_controls:
  "actions (radio_group_view name label options val (Some h) err) =
     map (\<lambda>o'. h (opt_value o')) (filter (\<lambda>o'. \<not> opt_disabled o') options) \<and>
   actions (switch_view checked (Some g) l d False i) = [g (checked \<noteq> Some True)] \<and>
   actions (switch_view checked (Some g) l d True i) = [] \<and>
   actions (button_view True dis ic props children) = [] \<and>
   actions (button_view load True ic props children) = []"
proof -
  have "concat (map (\<lambda>o'. actions (radio_view name val (Some h) o')) os) =
      map (\<lambda>o'. h (opt_value o')) (filter (\<lambda>o'. \<not> opt_disabled o') os)" for os
    by (induction os) (simp_all add: radio_actions)
  moreover have "is_disabled (opt_attr ''aria-label'' label :: 'a attr list) = False"
    "attr_actions (opt_attr ''aria-label'' label :: 'a attr list) = []"
    by (cases label; simp add: opt_attr_def)+
  ultimately show ?thesis
    by (simp add: radio_group_view_def actions_switch actions_button show_if_def comp_def del: map_eq_conv)
qed

subsection \<open>Progress\<close>

lemma progress_pct_bounds: "0 \<le> progress_pct val m \<and> progress_pct val m \<le> 100"
  by (simp add: progress_pct_def)

lemma progress_pct_mono: "0 < m \<Longrightarrow> a \<le> b \<Longrightarrow> progress_pct a m \<le> progress_pct b m"
proof -
  assume "0 < m" "a \<le> b"
  then have "ndiv a m \<le> ndiv b m" by (simp add: ndiv_def dbl.rnd_mono divide_right_mono)
  then have "ntimes (ndiv a m) 100 \<le> ntimes (ndiv b m) 100" by (intro ntimes_mono) simp_all
  then show ?thesis unfolding progress_pct_def by (intro min.mono max.mono) simp_all
qed

end
