(* ===== verification/Ui_Widgets.thy ===== *)
theory Ui_Widgets
  imports Ui_Fields
begin

text \<open>
  The stateful widgets of \<open>frontend/src/components/ui\<close>: \<open>SearchBox\<close>, \<open>FilterBar\<close>, \<open>Tabs\<close>,
  \<open>Accordion\<close>, \<open>Dropdown\<close>, \<open>Popover\<close>, \<open>Tooltip\<close>. A widget has its
  state, its actions (what a user or a timer can do), a step, and its view; the calls of
  the owner's callbacks are part of what a step returns. Icons handed in for single tabs,
  items and menu entries are left out.
\<close>

subsection \<open>SearchBox\<close>

datatype search_call = OnChange jsstring | OnSearch jsstring

record search_box =
  internalValue :: jsstring
  search_timer :: "jsstring option"

definition initial_search_box :: "jsstring option \<Rightarrow> search_box" where
  "initial_search_box controlled = \<lparr>internalValue = str_or controlled '''', search_timer = None\<rparr>"

definition shown_value :: "jsstring option \<Rightarrow> search_box \<Rightarrow> jsstring" where
  "shown_value controlled s = (case controlled of Some v \<Rightarrow> v | None \<Rightarrow> internalValue s)"

definition handleChange :: "jsstring \<Rightarrow> search_box \<Rightarrow> search_box \<times> search_call list" where
  "handleChange v s = (s\<lparr>internalValue := v, search_timer := Some v\<rparr>, [OnChange v])"

definition clear_search :: "search_box \<Rightarrow> search_box \<times> search_call list" where
  "clear_search s = (let (s1, calls) = handleChange '''' s in (s1, calls @ [OnSearch '''']))"

definition search_timer_fires :: "search_box \<Rightarrow> search_box \<times> search_call list" where
  "search_timer_fires s =
     (case search_timer s of None \<Rightarrow> (s, []) | Some v \<Rightarrow> (s\<lparr>search_timer := None\<rparr>, [OnSearch v]))"

datatype search_action = ChangeText jsstring | ClearText

definition search_box_view :: "jsstring option \<Rightarrow> jsstring \<Rightarrow> bool \<Rightarrow> search_box \<Rightarrow> search_action node" where
  "search_box_view controlled placeholder loading s =
     (let v = shown_value controlled s in
      El ''div'' []
        ([Icon ''Search'',
          El ''input'' [Attr ''type'' ''search'', Attr ''value'' v, OnText ''change'' ChangeText,
            Attr ''placeholder'' placeholder, Attr ''role'' ''searchbox''] []]
         @ show_if (v \<noteq> []) [El ''button'' [On ''click'' ClearText, Attr ''aria-label'' ''Clear search''] [Icon ''X'']]
         @ show_if loading [El ''div'' [] [El ''div'' [] []]]))"

text \<open>Typing a character: the browser appends it to the text that is shown, and the widget
  hears of the result. The owner's value stays what it was while the user types.\<close>

definition type_char :: "jsstring option \<Rightarrow> search_box \<Rightarrow> char \<Rightarrow> search_box" where
  "type_char controlled s c = fst (handleChange (shown_value controlled s @ [c]) s)"

lemma type_uncontrolled: "internalValue (foldl (type_char None) s cs) = internalValue s @ cs"
  by (induction cs arbitrary: s) (simp_all add: type_char_def handleChange_def shown_value_def)

text \<open>Typing several characters before the timer fires searches once. Without an owner's
  value it searches for all that was typed; with an owner's value that follows only the
  searches (as the filter bar uses the box), every character but the last one is lost.\<close>

theorem search_box_typing:
  "snd (search_timer_fires (foldl (type_char None) s (cs @ [c]))) = [OnSearch (internalValue s @ cs @ [c])] \<and>
   snd (search_timer_fires (foldl (type_char (Some q)) s (cs @ [c]))) = [OnSearch (q @ [c])]"
  using type_uncontrolled [of s cs]
  by (simp add: type_char_def handleChange_def shown_value_def search_timer_fires_def)

subsection \<open>FilterBar\<close>

datatype filter_action =
    FilterSearch search_action
  | SelectCategory jsstring
  | ChangeSort jsstring

record filter_bar =
  searchQuery :: jsstring
  has_search :: bool
  bar_categories :: "jsstring list"
  has_category_select :: bool
  sortOptions :: "select_option list"
  selectedSort :: "jsstring option"
  has_sort :: bool

definition filter_bar_view :: "filter_bar \<Rightarrow> search_box \<Rightarrow> filter_action node list \<Rightarrow> filter_action node" where
  "filter_bar_view b s bar_actions =
     El ''div'' []
       [El ''div'' []
          (show_if (has_search b)
             [El ''div'' [] [map_node FilterSearch (search_box_view (Some (searchQuery b)) ''Search items...'' False s)]]
           @ show_if (bar_categories b \<noteq> [] \<and> has_category_select b)
               [El ''div'' [] (map (\<lambda>c. chip_view (Some (SelectCategory c)) None None False [] [Txt c]) (bar_categories b))]),
        El ''div'' []
          (show_if (sortOptions b \<noteq> [] \<and> has_sort b)
             [select_view (sortOptions b) None
               \<lparr>fld_id = None, fld_label = None, fld_error = None, fld_hint = None, fld_required = False,
                fld_props = [Attr ''value'' (str_or (selectedSort b) (opt_value (hd (sortOptions b)))),
                             OnText ''change'' ChangeSort]\<rparr>]
           @ bar_actions)]"

subsection \<open>Tabs\<close>

record 'a tab =
  tab_id :: jsstring
  tab_label :: jsstring
  tab_badge :: "jsstring option"
  tab_disabled :: bool
  tab_content :: "'a node list"

datatype 'a tab_action = SelectTab jsstring | InTab 'a

definition initial_tab :: "jsstring option \<Rightarrow> 'a tab list \<Rightarrow> jsstring option" where
  "initial_tab defaultTab tabs =
     (if truthy defaultTab then defaultTab else case tabs of [] \<Rightarrow> None | t # _ \<Rightarrow> Some (tab_id t))"

definition select_tab :: "jsstring \<Rightarrow> jsstring option \<Rightarrow> jsstring option" where
  "select_tab i active = Some i"

definition tab_button :: "jsstring option \<Rightarrow> 'a tab \<Rightarrow> 'a tab_action node" where
  "tab_button active t =
     El ''button'' [Attr ''role'' ''tab'', Flag ''aria-selected'' (active = Some (tab_id t)),
         Attr ''aria-controls'' (''tabpanel-'' @ tab_id t), Flag ''disabled'' (tab_disabled t),
         On ''click'' (SelectTab (tab_id t))]
       (Txt (tab_label t) # show_some (tab_badge t) (\<lambda>b. [El ''span'' [] [Txt b]]))"

definition tab_panel :: "jsstring option \<Rightarrow> 'a tab \<Rightarrow> 'a tab_action node" where
  "tab_panel active t =
     El ''div'' [Attr ''id'' (''tabpanel-'' @ tab_id t), Attr ''role'' ''tabpanel'',
         Flag ''hidden'' (active \<noteq> Some (tab_id t))]
       (show_if (active = Some (tab_id t)) (map (map_node InTab) (tab_content t)))"

definition tabs_view :: "'a tab list \<Rightarrow> jsstring option \<Rightarrow> 'a tab_action node" where
  "tabs_view tabs active =
     El ''div'' [] (El ''div'' [Attr ''role'' ''tablist''] (map (tab_button active) tabs)
       # map (tab_panel active) tabs)"

subsection \<open>Accordion\<close>

datatype accordion_type = Single | Multiple

record 'a accordion_item =
  acc_id :: jsstring
  acc_title :: jsstring
  acc_disabled :: bool
  acc_content :: "'a node list"

datatype 'a accordion_action = ToggleItem jsstring | InItem 'a

fun accordion_toggle :: "accordion_type \<Rightarrow> jsstring \<Rightarrow> jsstring list \<Rightarrow> jsstring list" where
  "accordion_toggle Single i prev = (if List.member prev i then [] else [i])"
| "accordion_toggle Multiple i prev =
     (if List.member prev i then filter (\<lambda>j. j \<noteq> i) prev else prev @ [i])"

definition accordion_item_view :: "jsstring list \<Rightarrow> 'a accordion_item \<Rightarrow> 'a accordion_action node" where
  "accordion_item_view openItems item =
     (let isOpen = List.member openItems (acc_id item) in
      El ''div'' []
        (El ''button'' [Attr ''type'' ''button'', On ''click'' (ToggleItem (acc_id item)),
             Flag ''disabled'' (acc_disabled item), Flag ''aria-expanded'' isOpen,
             Attr ''aria-controls'' (''accordion-content-'' @ acc_id item)]
           [El ''span'' [] [Txt (acc_title item)], Icon ''ChevronDown'']
         # show_if isOpen
             [El ''div'' [Attr ''id'' (''accordion-content-'' @ acc_id item), Attr ''role'' ''region'']
               (map (map_node InItem) (acc_content item))]))"

definition accordion_view :: "'a accordion_item list \<Rightarrow> jsstring list \<Rightarrow> 'a accordion_action node" where
  "accordion_view items openItems = El ''div'' [] (map (accordion_item_view openItems) items)"

interpretation accordion: membership_toggle "\<lambda>s i. List.member s i" "accordion_toggle Multiple"
  by unfold_locales auto

lemma accordion_single: "length (accordion_toggle Single i prev) \<le> 1"
  by simp

lemma accordion_single_member:
  "List.member (accordion_toggle Single i prev) j \<longleftrightarrow> j = i \<and> \<not> List.member prev i"
  by simp

subsection \<open>Dropdown, Popover, Tooltip\<close>

record 'a dropdown_item =
  dd_id :: jsstring
  dd_label :: jsstring
  dd_disabled :: bool
  dd_separator :: bool
  dd_click :: "'a option"

datatype 'a popup_action = TogglePopup | PickItem "'a option" | MouseDownOutside | KeyEscape | InPopup 'a

fun popup_step :: "bool \<Rightarrow> 'a popup_action \<Rightarrow> bool \<times> 'a list" where
  "popup_step is_open TogglePopup = (\<not> is_open, [])"
| "popup_step is_open (PickItem a) = (False, case a of None \<Rightarrow> [] | Some x \<Rightarrow> [x])"
| "popup_step is_open MouseDownOutside = (False, [])"
| "popup_step is_open KeyEscape = (False, [])"
| "popup_step is_open (InPopup a) = (is_open, [a])"

definition dropdown_entry :: "'a dropdown_item \<Rightarrow> 'a popup_action node" where
  "dropdown_entry item =
     (if dd_separator item then El ''div'' [Attr ''role'' ''separator''] []
      else El ''button'' [Attr ''role'' ''menuitem'', Flag ''disabled'' (dd_disabled item),
             On ''click'' (PickItem (dd_click item))] [Txt (dd_label item)])"

definition dropdown_view :: "'a popup_action node \<Rightarrow> 'a dropdown_item list \<Rightarrow> bool \<Rightarrow> 'a popup_action node" where
  "dropdown_view trigger items is_open =
     El ''div'' [On ''keydown.Escape'' KeyEscape]
       (El ''div'' [On ''click'' TogglePopup] [trigger]
        # show_if is_open [El ''div'' [Attr ''role'' ''menu''] (map dropdown_entry items)])"

definition popover_view :: "'a popup_action node \<Rightarrow> 'a node list \<Rightarrow> bool \<Rightarrow> 'a popup_action node" where
  "popover_view trigger children is_open =
     El ''div'' [On ''keydown.Escape'' KeyEscape]
       (El ''div'' [On ''click'' TogglePopup] [trigger]
        # show_if is_open [El ''div'' [] (map (map_node InPopup) children)])"

datatype tooltip_event = PointerIn | PointerOut | TooltipTimer nat

record tooltip =
  tip_visible :: bool
  tip_timers :: "nat list"
  tip_timer :: "nat option"
  tip_next :: nat

definition tooltip_show :: "tooltip \<Rightarrow> tooltip" where
  "tooltip_show s = s\<lparr>tip_timers := tip_timers s @ [tip_next s], tip_timer := Some (tip_next s),
     tip_next := Suc (tip_next s)\<rparr>"

definition tooltip_hide :: "tooltip \<Rightarrow> tooltip" where
  "tooltip_hide s =
     (let s1 = (case tip_timer s of None \<Rightarrow> s | Some t \<Rightarrow> s\<lparr>tip_timers := filter (\<lambda>u. u \<noteq> t) (tip_timers s)\<rparr>)
      in s1\<lparr>tip_visible := False\<rparr>)"

fun tooltip_step :: "tooltip \<Rightarrow> tooltip_event \<Rightarrow> tooltip" where
  "tooltip_step s PointerIn = tooltip_show s"
| "tooltip_step s PointerOut = tooltip_hide s"
| "tooltip_step s (TooltipTimer t) =
     (if List.member (tip_timers s) t
      then s\<lparr>tip_visible := True, tip_timers := filter (\<lambda>u. u \<noteq> t) (tip_timers s)\<rparr> else s)"

text \<open>Pointing at and focusing an element both start a timer, but only the last one is
  remembered: leaving cancels one, and the other shows the tooltip later.\<close>

lemma tooltip_two_timers:
  "tip_visible (run tooltip_step \<lparr>tip_visible = False, tip_timers = [], tip_timer = None, tip_next = 0\<rparr>
     [PointerIn, PointerIn, PointerOut, PointerOut, TooltipTimer 0])"
  by (simp add: tooltip_show_def tooltip_hide_def Let_def)

text \<open>In a list of tabs the panel of the active tab, and no other, has its content rendered;
  only tabs that are not disabled can be selected; in a single accordion at most one item is
  open and in a multiple one toggling concerns one item only; and a menu offers exactly its
  entries that are neither separators nor disabled, each of which closes it and runs its
  handler once.\<close>

theorem selection_widgets:
  "actions (tabs_view tabs active) =
     map (\<lambda>t. SelectTab (tab_id t)) (filter (\<lambda>t. \<not> tab_disabled t) tabs) @
     concat (map (\<lambda>t. map InTab (concat (map actions (tab_content t)))) (filter (\<lambda>t. active = Some (tab_id t)) tabs)) \<and>
   length (accordion_toggle Single i prev) \<le> 1 \<and>
   (List.member (accordion_toggle Multiple i prev) j = (if j = i then \<not> List.member prev i else List.member prev j)) \<and>
   actions (dropdown_view (Txt label) items True) =
     [KeyEscape, TogglePopup] @ map (\<lambda>d. PickItem (dd_click d)) (filter (\<lambda>d. \<not> dd_separator d \<and> \<not> dd_disabled d) items) \<and>
   popup_step True (PickItem (Some a)) = (False, [a])"
proof -
  have "concat (map (\<lambda>t. actions (tab_button active t)) tabs) =
      map (\<lambda>t. SelectTab (tab_id t)) (filter (\<lambda>t. \<not> tab_disabled t) tabs)"
    by (induction tabs) (auto simp: tab_button_def show_some_def split: option.split)
  moreover have "concat (map (\<lambda>t. actions (tab_panel active t)) tabs) =
      concat (map (\<lambda>t. map InTab (concat (map actions (tab_content t)))) (filter (\<lambda>t. active = Some (tab_id t)) tabs))"
    by (induction tabs) (auto simp: tab_panel_def show_if_def comp_def map_concat simp del: map_eq_conv)
  moreover have "concat (map (\<lambda>d. actions (dropdown_entry d)) items) =
      map (\<lambda>d. PickItem (dd_click d)) (filter (\<lambda>d. \<not> dd_separator d \<and> \<not> dd_disabled d) items)"
    by (induction items) (auto simp: dropdown_entry_def)
  ultimately show ?thesis
    using accordion.member_toggle [of i prev j] accordion_single [of i prev]
    by (simp add: tabs_view_def dropdown_view_def comp_def del: map_eq_conv accordion_toggle.simps)
qed

end
