(* ===== verification/Ui_Overlays.thy ===== *)
theory Ui_Overlays
  imports Ui_Fields
begin

text \<open>
  \<open>FileUpload\<close>, \<open>Modal\<close>, \<open>Drawer\<close>, \<open>Breadcrumb\<close>, \<open>PageHeader\<close> and \<open>Avatar\<close> of
  \<open>frontend/src/components/ui\<close>, and the focus trap of \<open>hooks/useFocusTrap.ts\<close> that the
  two dialogs use.
\<close>

subsection \<open>FileUpload\<close>

record upload_file =
  file_name :: jsstring
  file_size :: nat

record upload_props =
  multiple :: bool
  maxSize :: nat
  maxFiles :: nat
  upload_disabled :: bool

text \<open>A list of files may hold \<open>undefined\<close>: \<open>[arr[0]]\<close> of an empty list.\<close>

record upload =
  files :: "upload_file option list"
  dragOver :: bool
  fileError :: "jsstring option"

definition initial_upload :: upload where
  "initial_upload = \<lparr>files = [], dragOver = False, fileError = None\<rparr>"

definition to_fixed1 :: "rat \<Rightarrow> jsstring" where
  \<comment> \<open>\<open>x.toFixed(1)\<close> of a number that is not negative\<close>
  "to_fixed1 x = (let n = nat \<lfloor>10 * x + 1 / 2\<rfloor> in show_nat (n div 10) @ ''.'' @ show_nat (n mod 10))"

definition formatSize :: "nat \<Rightarrow> jsstring" where
  "formatSize bytes =
     (if bytes < 1024 then show_nat bytes @ '' B''
      else if bytes < 1024 * 1024 then to_fixed1 (of_nat bytes / 1024) @ '' KB''
      else to_fixed1 (of_nat bytes / (1024 * 1024)) @ '' MB'')"

definition addFiles :: "upload_props \<Rightarrow> upload_file list \<Rightarrow> upload \<Rightarrow> upload" where
  "addFiles p newFiles s =
     (case List.find (\<lambda>f. file_size f > maxSize p) newFiles of
        Some oversized \<Rightarrow>
          s\<lparr>fileError := Some (file_name oversized @ '' exceeds '' @ formatSize (maxSize p) @ '' limit'')\<rparr>
      | None \<Rightarrow>
          let merged = (if multiple p then take (maxFiles p) (files s @ map Some newFiles)
                        else [case newFiles of [] \<Rightarrow> None | f # _ \<Rightarrow> Some f])
          in s\<lparr>fileError := None, files := merged\<rparr>)"

definition removeFile :: "nat \<Rightarrow> upload \<Rightarrow> upload" where
  "removeFile i s = s\<lparr>files := take i (files s) @ drop (Suc i) (files s)\<rparr>"

datatype upload_action =
    DragOver
  | DragLeave
  | DropFiles "upload_file list"
  | ChooseFiles "upload_file list"
  | RemoveFile nat

fun upload_step :: "upload_props \<Rightarrow> upload \<Rightarrow> upload_action \<Rightarrow> upload" where
  "upload_step p s DragOver = s\<lparr>dragOver := True\<rparr>"
| "upload_step p s DragLeave = s\<lparr>dragOver := False\<rparr>"
| "upload_step p s (DropFiles fs) =
     (if upload_disabled p then s\<lparr>dragOver := False\<rparr> else addFiles p fs (s\<lparr>dragOver := False\<rparr>))"
| "upload_step p s (ChooseFiles fs) = (if upload_disabled p then s else addFiles p fs s)"
| "upload_step p s (RemoveFile i) = removeFile i s"

definition image_suffixes :: "jsstring list" where
  "image_suffixes = [''.jpg'', ''.jpeg'', ''.png'', ''.gif'', ''.webp'', ''.svg'']"

definition ends_with :: "jsstring \<Rightarrow> jsstring \<Rightarrow> bool" where
  "ends_with s t = starts_with (rev s) (rev t)"

definition isImage :: "jsstring \<Rightarrow> bool" where
  "isImage name = list_ex (ends_with (toLowerCase name)) image_suffixes"

text \<open>Rendering a missing file reads a property of \<open>undefined\<close>, which throws: \<open>None\<close>.\<close>

definition file_row :: "nat \<Rightarrow> upload_file \<Rightarrow> upload_action node" where
  "file_row i f =
     El ''li'' []
       [Icon (if isImage (file_name f) then ''Image'' else ''File''),
        El ''span'' [] [Txt (file_name f)],
        El ''span'' [] [Txt (formatSize (file_size f))],
        El ''button'' [On ''click'' (RemoveFile i), Attr ''aria-label'' (''Remove '' @ file_name f)] [Icon ''X'']]"

definition upload_view ::
    "upload_props \<Rightarrow> jsstring \<Rightarrow> jsstring option \<Rightarrow> jsstring option \<Rightarrow> upload \<Rightarrow> upload_action node option" where
  "upload_view p label hint err s =
     (if list_ex (\<lambda>f. f = None) (files s) then None
      else Some (El ''div'' []
        (show_if (label \<noteq> []) [El ''p'' [] [Txt label]]
         @ [El ''div'' [On ''dragover'' DragOver, On ''dragleave'' DragLeave]
             ([Icon ''Upload'', El ''p'' [] [El ''span'' [] [Txt ''Click to upload''], Txt '' or drag & drop'']]
              @ show_if (truthy hint) [El ''p'' [] [Txt (str_or hint '''')]]
              @ [El ''input'' [Attr ''type'' ''file'', Flag ''multiple'' (multiple p),
                   Flag ''disabled'' (upload_disabled p)] []])]
         @ show_if (truthy err \<or> truthy (fileError s))
             [El ''p'' [Attr ''role'' ''alert''] [Txt (str_or err (str_or (fileError s) ''''))]]
         @ show_if (files s \<noteq> [])
             [El ''ul'' [] (map (\<lambda>(i, f). file_row i (the f)) (zip [0..<length (files s)] (files s)))])))"

definition upload_inv :: "upload_props \<Rightarrow> upload \<Rightarrow> bool" where
  "upload_inv p s \<longleftrightarrow> length (files s) \<le> (if multiple p then maxFiles p else 1) \<and>
     list_all (\<lambda>f. case f of None \<Rightarrow> \<not> multiple p | Some g \<Rightarrow> file_size g \<le> maxSize p) (files s)"

lemma addFiles_inv: "upload_inv p s \<Longrightarrow> upload_inv p (addFiles p fs s)"
proof (cases "List.find (\<lambda>f. file_size f > maxSize p) fs")
  case None
  then have "\<forall>f \<in> set fs. file_size f \<le> maxSize p"
    by (auto simp: find_None_filter filter_empty_conv not_less)
  moreover assume "upload_inv p s"
  ultimately show ?thesis using None
    by (auto simp: upload_inv_def addFiles_def list_all_iff dest!: in_set_takeD split: list.split)
qed (simp add: addFiles_def upload_inv_def)

interpretation upload: state_machine initial_upload "upload_step p" "upload_inv p" for p
proof unfold_locales
  show "upload_inv p initial_upload" by (simp add: upload_inv_def initial_upload_def)
  show "upload_inv p (upload_step p s a)" if i: "upload_inv p s" for s a
  proof (cases a)
    case (DropFiles fs)
    have d: "upload_inv p (s\<lparr>dragOver := False\<rparr>)" using i by (simp add: upload_inv_def)
    then show ?thesis using addFiles_inv [OF d, of fs] DropFiles by simp
  next
    case (ChooseFiles fs)
    then show ?thesis using addFiles_inv [OF i] i by simp
  next
    case (RemoveFile j)
    then show ?thesis using i
      by (auto simp: upload_inv_def removeFile_def list_all_iff dest: in_set_takeD in_set_dropD)
  qed (use i in \<open>simp_all add: upload_inv_def\<close>)
qed

text \<open>Whatever is dropped, chosen and removed, the list never has more files than allowed (one
  when the field is not multiple), and none above the size limit; a batch with a file that
  is too large changes nothing and names the limit; but an empty choice in a field that is
  not multiple puts a missing file into the list, on which rendering fails.\<close>

theorem upload_limits:
  "(let s = run (upload_step p) initial_upload as in
     length (files s) \<le> (if multiple p then maxFiles p else 1) \<and>
     list_all (\<lambda>f. case f of None \<Rightarrow> \<not> multiple p | Some g \<Rightarrow> file_size g \<le> maxSize p) (files s) \<and>
     (list_ex (\<lambda>f. maxSize p < file_size f) fs \<longrightarrow>
        files (addFiles p fs s) = files s \<and> fileError (addFiles p fs s) \<noteq> None) \<and>
     (\<not> multiple p \<longrightarrow> upload_view p l h e (addFiles p [] s) = None))"
proof -
  let ?s = "run (upload_step p) initial_upload as"
  have "upload_inv p ?s" by (rule upload.inv_run)
  moreover have "files (addFiles p fs ?s) = files ?s \<and> fileError (addFiles p fs ?s) \<noteq> None"
    if "list_ex (\<lambda>f. maxSize p < file_size f) fs"
  proof -
    from that have "List.find (\<lambda>f. file_size f > maxSize p) fs \<noteq> None"
      by (auto simp: find_None_filter filter_empty_conv list_ex_iff)
    then show ?thesis by (auto simp: addFiles_def)
  qed
  moreover have "upload_view p l h e (addFiles p [] ?s) = None" if "\<not> multiple p"
    using that by (simp add: upload_view_def addFiles_def)
  ultimately show ?thesis by (simp add: Let_def upload_inv_def)
qed

theorem upload_limits_witness:
  "upload_view \<lparr>multiple = False, maxSize = 10, maxFiles = 5, upload_disabled = False\<rparr> ''Files'' None None
     (addFiles \<lparr>multiple = False, maxSize = 10, maxFiles = 5, upload_disabled = False\<rparr> [] initial_upload) = None"
  using upload_limits [of "\<lparr>multiple = False, maxSize = 10, maxFiles = 5, upload_disabled = False\<rparr>" "[]" "[]"
      "''Files''" None None] by simp

subsection \<open>The focus trap\<close>

text \<open>A focusable element of the dialog: its number in the document and whether the Tab key
  reaches it (an element with \<open>tabindex="-1"\<close> matches the selectors of the trap when it is a
  button or a field, but Tab skips it). The browser's own reaction to Tab is to go to the
  next element Tab reaches; past the last one the focus leaves the dialog, \<open>None\<close>.\<close>

record focusable =
  fid :: nat
  tabbable :: bool

fun next_tabbable :: "nat \<Rightarrow> focusable list \<Rightarrow> nat option" where
  "next_tabbable f [] = None"
| "next_tabbable f (e # es) =
     (if fid e = f then map_option fid (List.find tabbable es) else next_tabbable f es)"

definition trap_key :: "focusable list \<Rightarrow> bool \<Rightarrow> nat \<Rightarrow> nat option" where
  \<comment> \<open>\<open>handleKeyDown\<close> for Tab, with or without Shift, and the browser's default action\<close>
  "trap_key elements shift active =
     (if elements = [] then Some active
      else if shift then
        (if active = fid (hd elements) then Some (fid (last elements))
         else next_tabbable active (rev elements))
      else
        (if active = fid (last elements) then Some (fid (hd elements))
         else next_tabbable active elements))"

lemma next_tabbable_in:
  "distinct (map fid es) \<Longrightarrow> f \<in> fid ` set es \<Longrightarrow> f \<noteq> fid (last es) \<Longrightarrow> tabbable (last es) \<Longrightarrow>
   \<exists>g. next_tabbable f es = Some g \<and> g \<in> fid ` set es"
proof (induction es)
  case (Cons e es)
  show ?case
  proof (cases "fid e = f")
    case True
    then have "es \<noteq> []" using Cons.prems(3) by auto
    then have "last es \<in> set es" "tabbable (last es)" using Cons.prems(4) by auto
    then have "List.find tabbable es \<noteq> None" by (auto simp: find_None_filter filter_empty_conv)
    then obtain g where g: "List.find tabbable es = Some g" by blast
    then show ?thesis using True find_Some_mem [OF g] by auto
  next
    case False
    then have "es \<noteq> []" using Cons.prems(2) by auto
    then show ?thesis using False Cons by auto
  qed
qed simp

text \<open>A dialog whose first and last focusable elements can be reached with Tab keeps the focus:
  Tab and Shift+Tab lead from an element of the dialog to one of its elements, wrapping
  around at the ends. When Tab skips the last element (the button of a password field that
  ends the dialog), Tab leaves the dialog from the element before it.\<close>

theorem focus_trap_holds:
  assumes "distinct (map fid es)" "f \<in> fid ` set es"
  shows "(tabbable (hd es) \<and> tabbable (last es) \<longrightarrow>
      (\<exists>g \<in> fid ` set es. trap_key es shift f = Some g) \<and>
      trap_key es False (fid (last es)) = Some (fid (hd es)) \<and>
      trap_key es True (fid (hd es)) = Some (fid (last es))) \<and>
    trap_key [\<lparr>fid = 0, tabbable = True\<rparr>, \<lparr>fid = 1, tabbable = True\<rparr>, \<lparr>fid = 2, tabbable = False\<rparr>] False 1 = None"
proof (intro conjI impI)
  have ne: "es \<noteq> []" using assms(2) by auto
  assume t: "tabbable (hd es) \<and> tabbable (last es)"
  show "\<exists>g \<in> fid ` set es. trap_key es shift f = Some g"
  proof (cases shift)
    case True
    have "\<exists>g. next_tabbable f (rev es) = Some g \<and> g \<in> fid ` set (rev es)" if "f \<noteq> fid (hd es)"
      using next_tabbable_in [of "rev es" f] assms t that by (simp add: rev_map [symmetric] last_rev)
    then show ?thesis using True ne by (auto simp: trap_key_def)
  next
    case False
    then show ?thesis using next_tabbable_in [OF assms] t ne by (auto simp: trap_key_def)
  qed
  show "trap_key es False (fid (last es)) = Some (fid (hd es))"
    "trap_key es True (fid (hd es)) = Some (fid (last es))"
    using ne by (simp_all add: trap_key_def)
next
  show "trap_key [\<lparr>fid = 0, tabbable = True\<rparr>, \<lparr>fid = 1, tabbable = True\<rparr>, \<lparr>fid = 2, tabbable = False\<rparr>] False 1 = None"
    by (simp add: trap_key_def)
qed

theorem focus_trap_holds_witness:
  "trap_key [\<lparr>fid = 4, tabbable = True\<rparr>, \<lparr>fid = 9, tabbable = True\<rparr>] False 9 = Some 4"
proof -
  let ?es = "[\<lparr>fid = 4, tabbable = True\<rparr>, \<lparr>fid = 9, tabbable = True\<rparr>]"
  have "distinct (map fid ?es)" "9 \<in> fid ` set ?es" by simp_all
  from focus_trap_holds [OF this] show ?thesis by simp
qed

text \<open>The effect around the trap: it remembers the element that has the focus, focuses the first
  element of the dialog if there is one, and listens; its cleanup gives the focus back.\<close>

record focus_trap =
  activeElement :: "nat option"
  previouslyFocused :: "nat option"
  trap_listening :: bool

definition trap_effect :: "bool \<Rightarrow> focusable list option \<Rightarrow> focus_trap \<Rightarrow> focus_trap" where
  \<comment> \<open>whether the trap is active, and the focusable elements of the dialog when it is rendered\<close>
  "trap_effect active dialog t =
     (case dialog of
        None \<Rightarrow> t
      | Some es \<Rightarrow>
          if \<not> active then t
          else t\<lparr>previouslyFocused := activeElement t, trap_listening := True,
                 activeElement := (if es = [] then activeElement t else Some (fid (hd es)))\<rparr>)"

definition trap_cleanup :: "focus_trap \<Rightarrow> focus_trap" where
  "trap_cleanup t =
     (if \<not> trap_listening t then t
      else t\<lparr>trap_listening := False,
             activeElement := (case previouslyFocused t of None \<Rightarrow> activeElement t | Some f \<Rightarrow> Some f)\<rparr>)"

datatype trap_event =
    TabKey bool "focusable list"
  | OtherKey
  | FocusMoves "nat option"

fun trap_step :: "focus_trap \<Rightarrow> trap_event \<Rightarrow> focus_trap" where
  \<comment> \<open>the elements are looked up at each key; a click or a script can move the focus anywhere\<close>
  "trap_step t (TabKey shift es) =
     (if \<not> trap_listening t then t
      else case activeElement t of
          None \<Rightarrow> t
        | Some f \<Rightarrow> if f \<in> fid ` set es then t\<lparr>activeElement := trap_key es shift f\<rparr> else t)"
| "trap_step t OtherKey = t"
| "trap_step t (FocusMoves f) = t\<lparr>activeElement := f\<rparr>"

lemma trap_step_frame [simp]:
  "previouslyFocused (trap_step t e) = previouslyFocused t" "trap_listening (trap_step t e) = trap_listening t"
  by (cases e; simp split: option.split)+

lemma trap_run_frame:
  "previouslyFocused (run trap_step t es) = previouslyFocused t" "trap_listening (run trap_step t es) = trap_listening t"
  by (induction es arbitrary: t) simp_all

text \<open>Opening a dialog moves the focus to its first element, and however the focus moved while it
  was open, by keys, clicks or scripts, closing it gives the focus back to the element that had it before. A
  dialog without focusable elements leaves the focus where it is, and keys do not move it.\<close>

theorem focus_returns:
  assumes "activeElement t = Some f" "\<not> trap_listening t"
  shows "activeElement (trap_effect True (Some es) t) = Some (if es = [] then f else fid (hd es)) \<and>
     activeElement (trap_cleanup (run trap_step (trap_effect True (Some es) t) evs)) = Some f \<and>
     trap_cleanup (trap_effect False dialog t) = t \<and>
     trap_key [] shift f = Some f"
  using assms by (auto simp: trap_effect_def trap_cleanup_def trap_run_frame trap_key_def split: option.split)

theorem focus_returns_witness:
  "activeElement (trap_cleanup (run trap_step
     (trap_effect True (Some [\<lparr>fid = 4, tabbable = True\<rparr>]) \<lparr>activeElement = Some 9, previouslyFocused = None, trap_listening = False\<rparr>)
     [FocusMoves None])) = Some 9"
  using focus_returns [of "\<lparr>activeElement = Some 9, previouslyFocused = None, trap_listening = False\<rparr>" 9 "[\<lparr>fid = 4, tabbable = True\<rparr>]"
      "[FocusMoves None]" None False] by simp

subsection \<open>Modal and Drawer\<close>

text \<open>\<open>onClose\<close> is an action of the owner, reached from the backdrop, the button and the Escape
  key, whose listener is attached to the document while the dialog is open.\<close>

definition dialog_keydown :: "bool \<Rightarrow> jsstring \<Rightarrow> 'a \<Rightarrow> 'a list" where
  "dialog_keydown is_open key onClose = (if is_open \<and> key = ''Escape'' then [onClose] else [])"

definition body_overflow :: "bool \<Rightarrow> jsstring" where
  "body_overflow is_open = (if is_open then ''hidden'' else '''')"

definition modal_view :: "bool \<Rightarrow> 'a \<Rightarrow> jsstring option \<Rightarrow> jsstring option \<Rightarrow> 'a node list \<Rightarrow> 'a node list" where
  "modal_view is_open onClose title descr children =
     (if \<not> is_open then []
      else [El ''div'' ([Attr ''role'' ''dialog'', Attr ''aria-modal'' ''true''] @ opt_attr ''aria-label'' title)
        [El ''div'' [On ''click'' onClose] [],
         El ''div'' []
           (show_if (truthy title)
              [El ''div'' []
                (El ''h2'' [] [Txt (str_or title '''')]
                 # show_if (truthy descr) [El ''p'' [] [Txt (str_or descr '''')]])]
            @ [El ''button'' [On ''click'' onClose, Attr ''aria-label'' ''Close''] [Icon ''X'']]
            @ children)]])"

definition drawer_view :: "bool \<Rightarrow> 'a \<Rightarrow> jsstring option \<Rightarrow> jsstring option \<Rightarrow> 'a node list \<Rightarrow> 'a node list" where
  "drawer_view is_open onClose title descr children =
     (if \<not> is_open then []
      else [El ''div'' ([Attr ''role'' ''dialog'', Attr ''aria-modal'' ''true''] @ opt_attr ''aria-label'' title)
        [El ''div'' [On ''click'' onClose] [],
         El ''div'' []
           [El ''div'' []
              [El ''div'' []
                 (show_if (truthy title) [El ''h2'' [] [Txt (str_or title '''')]]
                  @ show_if (truthy descr) [El ''p'' [] [Txt (str_or descr '''')]]),
               El ''button'' [On ''click'' onClose, Attr ''aria-label'' ''Close drawer''] [Icon ''X'']],
            El ''div'' [] children]]])"

lemma dialog_actions:
  "forest_actions (modal_view is_open c t d ch) = (if is_open then [c, c] @ forest_actions ch else [])"
  "forest_actions (drawer_view is_open c t d ch) = (if is_open then [c, c] @ forest_actions ch else [])"
proof -
  have "is_disabled (opt_attr ''aria-label'' t) = False" "attr_actions (opt_attr ''aria-label'' t) = []"
    by (cases t; simp add: opt_attr_def)+
  then show "forest_actions (modal_view is_open c t d ch) = (if is_open then [c, c] @ forest_actions ch else [])"
    "forest_actions (drawer_view is_open c t d ch) = (if is_open then [c, c] @ forest_actions ch else [])"
    by (auto simp: modal_view_def drawer_view_def forest_actions_def show_if_def)
qed

subsection \<open>Breadcrumb, PageHeader, Avatar\<close>

record crumb =
  crumb_label :: jsstring
  crumb_href :: "jsstring option"
  crumb_icon :: "string option"

definition home_crumb :: crumb where
  "home_crumb = \<lparr>crumb_label = ''Home'', crumb_href = Some ''/'', crumb_icon = Some ''Home''\<rparr>"

definition crumb_view :: "nat \<Rightarrow> nat \<Rightarrow> crumb \<Rightarrow> 'a node" where
  "crumb_view n i item =
     (let isLast = (i + 1 = n);
          content = show_some (crumb_icon item) (\<lambda>x. [Icon x]) @ [Txt (crumb_label item)]
      in El ''li'' []
        (show_if (i > 0) [Icon ''ChevronRight'']
         @ [if isLast \<or> \<not> truthy (crumb_href item)
            then El ''span'' (show_if isLast [Attr ''aria-current'' ''page'']) content
            else El ''Link'' [Attr ''to'' (str_or (crumb_href item) '''')] content]))"

definition breadcrumb_view :: "bool \<Rightarrow> crumb list \<Rightarrow> 'a node" where
  "breadcrumb_view showHome items =
     (let allItems = (if showHome then home_crumb # items else items)
      in El ''nav'' [Attr ''aria-label'' ''Breadcrumb'']
        [El ''ol'' [] (map (\<lambda>(i, c). crumb_view (length allItems) i c) (zip [0..<length allItems] allItems))])"

definition page_header_view :: "jsstring \<Rightarrow> jsstring option \<Rightarrow> crumb list \<Rightarrow> 'a node list \<Rightarrow> 'a node" where
  "page_header_view title subtitle crumbs header_actions =
     El ''div'' []
       (show_if (crumbs \<noteq> []) [breadcrumb_view True crumbs]
        @ [El ''div'' []
            (El ''div'' []
               (El ''h1'' [] [Txt title]
                # show_if (truthy subtitle) [El ''p'' [] [Txt (str_or subtitle '''')]])
             # show_if (header_actions \<noteq> []) [El ''div'' [] header_actions])])"

fun split_spaces :: "jsstring \<Rightarrow> jsstring list" where
  "split_spaces [] = [[]]"
| "split_spaces (c # s) =
     (if c = CHR '' '' then [] # split_spaces s
      else case split_spaces s of [] \<Rightarrow> [[c]] | p # ps \<Rightarrow> (c # p) # ps)"

definition getInitials :: "jsstring \<Rightarrow> jsstring" where
  \<comment> \<open>\<open>w[0]\<close> of an empty word is \<open>undefined\<close>, which \<open>join\<close> renders as nothing\<close>
  "getInitials name = toUpperCase (concat (take 2 (map (take 1) (split_spaces name))))"

definition avatar_view ::
    "jsstring option \<Rightarrow> jsstring option \<Rightarrow> jsstring option \<Rightarrow> jsstring option \<Rightarrow> bool \<Rightarrow> unit node" where
  \<comment> \<open>the only action is the failing of the image\<close>
  "avatar_view src alt fallback avatar_status imgError =
     El ''div'' []
       ((if truthy src \<and> \<not> imgError
         then El ''img'' [Attr ''src'' (str_or src ''''), Attr ''alt'' (str_or alt ''Avatar''), On ''error'' ()] []
         else if truthy fallback then El ''span'' [] [Txt (getInitials (str_or fallback ''''))]
         else El ''span'' [] [Icon ''User''])
        # show_if (truthy avatar_status) [El ''span'' [Attr ''aria-label'' (str_or avatar_status '''')] []])"

end
