(* ===== verification/Error_Mapper.thy ===== *)
theory Error_Mapper
  imports Js_String
begin

text \<open>
  \<open>frontend/src/lib/errorMapper.ts\<close>: \<open>mapAPIError\<close> turns whatever a failed request threw
  into a \<open>SystemError\<close>. A thrown value is one of: nothing (\<open>undefined\<close> or \<open>null\<close>), an
  Axios error with the status and the \<open>detail\<close> of its response where there are any, an
  \<open>Error\<close> with its message, an already mapped error, or another value without a message.
\<close>

record system_error =
  se_code :: jsstring
  se_message :: jsstring
  se_detail :: "jsstring option"
  se_status :: "int option"

datatype thrown =
    Nothing
  | AxiosFailure "int option" "jsstring option" jsstring
  | ErrorObject jsstring
  | MappedError system_error
  | OtherValue

fun thrown_message :: "thrown \<Rightarrow> jsstring option" where
  "thrown_message Nothing = None"
| "thrown_message (AxiosFailure st d m) = Some m"
| "thrown_message (ErrorObject m) = Some m"
| "thrown_message (MappedError e) = Some (se_message e)"
| "thrown_message OtherValue = None"

fun response_status :: "thrown \<Rightarrow> int option" where
  "response_status (AxiosFailure st d m) = st"
| "response_status _ = None"

fun response_detail :: "thrown \<Rightarrow> jsstring option" where
  \<comment> \<open>\<open>err.response?.data?.detail\<close>; only a raw Axios error has a response\<close>
  "response_detail (AxiosFailure st d m) = d"
| "response_detail _ = None"

definition js_or :: "jsstring option \<Rightarrow> jsstring \<Rightarrow> jsstring" where
  "js_or a b = (case a of None \<Rightarrow> b | Some s \<Rightarrow> if s = [] then b else s)"

definition unknown_error :: "thrown \<Rightarrow> system_error" where
  "unknown_error e = \<lparr>se_code = ''UNKNOWN_ERROR'',
     se_message = js_or (thrown_message e) ''An unexpected network communication error occurred.'',
     se_detail = None, se_status = None\<rparr>"

fun mapAPIError :: "thrown \<Rightarrow> system_error" where
  "mapAPIError (AxiosFailure status detail m) =
     (if status = Some 400 then
        \<lparr>se_code = ''BAD_REQUEST'',
         se_message = ''The request payload parameters are invalid or corrupted.'',
         se_detail = detail, se_status = status\<rparr>
      else if status = Some 401 then
        \<lparr>se_code = ''UNAUTHORIZED'',
         se_message = ''Your login session has expired. Please sign in again.'',
         se_detail = detail, se_status = status\<rparr>
      else if status = Some 403 then
        \<lparr>se_code = ''FORBIDDEN'',
         se_message = ''You do not have administrative privileges to perform this operation.'',
         se_detail = detail, se_status = status\<rparr>
      else if status = Some 404 then
        \<lparr>se_code = ''NOT_FOUND'',
         se_message = ''The requested resource record could not be found.'',
         se_detail = detail, se_status = status\<rparr>
      else if status = Some 422 then
        \<lparr>se_code = ''UNPROCESSABLE_ENTITY'',
         se_message = ''Field validation failed. Please check input formats.'',
         se_detail = detail, se_status = status\<rparr>
      else if status = Some 429 then
        \<lparr>se_code = ''TOO_MANY_REQUESTS'',
         se_message = ''Rate limit threshold exceeded. Please retry shortly.'',
         se_detail = detail, se_status = status\<rparr>
      else if status \<in> {Some 500, Some 502, Some 503, Some 504} then
        \<lparr>se_code = ''SERVER_ERROR'',
         se_message = ''A central microservice error occurred. Our engineers have been alerted.'',
         se_detail = detail, se_status = status\<rparr>
      else unknown_error (AxiosFailure status detail m))"
| "mapAPIError e = unknown_error e"

definition known_statuses :: "int set" where
  "known_statuses = {400, 401, 403, 404, 422, 429, 500, 502, 503, 504}"

lemma js_or_nonempty: "b \<noteq> [] \<Longrightarrow> js_or a b \<noteq> []"
  by (simp add: js_or_def split: option.splits)

lemma mapped_message_shown: "se_message (mapAPIError e) \<noteq> []"
  by (cases e) (auto simp: unknown_error_def js_or_def split: option.split)

lemma mapped_response_detail [simp]: "response_detail (MappedError e) = None"
  by simp

text \<open>Every failure is mapped to an error with a message to show; the status and the
  detail of the response survive exactly for the ten statuses the table knows, and every
  other failure becomes \<open>UNKNOWN_ERROR\<close> with both dropped. Mapping an already mapped error
  keeps its message.\<close>

theorem mapAPIError_classifies:
  "se_message (mapAPIError e) \<noteq> [] \<and>
   (if \<exists>st \<in> known_statuses. response_status e = Some st
    then se_status (mapAPIError e) = response_status e \<and>
         se_detail (mapAPIError e) = response_detail e \<and>
         se_code (mapAPIError e) \<noteq> ''UNKNOWN_ERROR''
    else se_status (mapAPIError e) = None \<and> se_detail (mapAPIError e) = None \<and>
         se_code (mapAPIError e) = ''UNKNOWN_ERROR'') \<and>
   se_message (mapAPIError (MappedError (mapAPIError e))) = se_message (mapAPIError e)"
proof (cases e)
  case (AxiosFailure st d m)
  then show ?thesis
    by (cases st) (auto simp: known_statuses_def unknown_error_def js_or_def)
qed (auto simp: unknown_error_def js_or_def split: option.splits)

end
