(* ===== verification/Small_Stores.thy ===== *)
theory Small_Stores
  imports Js_String
begin

text \<open>
  The small client stores of \<open>frontend/src/stores\<close>: the wishlist (\<open>wishlistStore.ts\<close>),
  the recent searches (\<open>searchStore.ts\<close>), the tenant and its plan (\<open>tenantStore.ts\<close>),
  the sidebar (\<open>uiStore.ts\<close>) and the theme (\<open>themeStore.ts\<close>), the last with the class
  list of the document element it writes. One record per store, one definition per
  operation, an event type and a step per store, and the invariant of its runs.
\<close>

subsection \<open>Wishlist\<close>

record wishlist_state =
  itemIds :: "jsstring list"

definition initial_wishlist :: wishlist_state where
  "initial_wishlist = \<lparr>itemIds = []\<rparr>"

definition isWishlisted :: "wishlist_state \<Rightarrow> jsstring \<Rightarrow> bool" where
  "isWishlisted s productId = List.member (itemIds s) productId"

definition toggleWishlist :: "jsstring \<Rightarrow> wishlist_state \<Rightarrow> wishlist_state" where
  "toggleWishlist productId s =
     (let current = itemIds s; exists = List.member current productId
      in if exists then s\<lparr>itemIds := filter (\<lambda>i. i \<noteq> productId) current\<rparr>
         else s\<lparr>itemIds := current @ [productId]\<rparr>)"

definition clearWishlist :: "wishlist_state \<Rightarrow> wishlist_state" where
  "clearWishlist s = s\<lparr>itemIds := []\<rparr>"

datatype wishlist_event = ToggleWishlist jsstring | ClearWishlist

fun wishlist_step :: "wishlist_state \<Rightarrow> wishlist_event \<Rightarrow> wishlist_state" where
  "wishlist_step s (ToggleWishlist p) = toggleWishlist p s"
| "wishlist_step s ClearWishlist = clearWishlist s"

lemma isWishlisted_toggle:
  "isWishlisted (toggleWishlist a s) b = (if b = a then \<not> isWishlisted s a else isWishlisted s b)"
  by (auto simp: isWishlisted_def toggleWishlist_def Let_def)

interpretation wish: membership_toggle isWishlisted toggleWishlist
  by unfold_locales (rule isWishlisted_toggle)

interpretation wish_distinct: state_machine initial_wishlist wishlist_step "\<lambda>s. distinct (itemIds s)"
proof unfold_locales
  show "distinct (itemIds s) \<Longrightarrow> distinct (itemIds (wishlist_step s e))" for s e
    by (cases e) (auto simp: toggleWishlist_def clearWishlist_def Let_def)
qed (simp add: initial_wishlist_def)

subsection \<open>Recent searches\<close>

record search_state =
  recentSearches :: "jsstring list"

definition initial_search :: search_state where
  "initial_search = \<lparr>recentSearches = []\<rparr>"

definition addSearch :: "jsstring \<Rightarrow> search_state \<Rightarrow> search_state" where
  "addSearch term s =
     (let cleaned = trim term
      in if cleaned = [] then s
         else let current = recentSearches s;
                  filtered = filter (\<lambda>x. toLowerCase x \<noteq> toLowerCase cleaned) current
              in s\<lparr>recentSearches := take 8 (cleaned # filtered)\<rparr>)"

definition removeSearch :: "jsstring \<Rightarrow> search_state \<Rightarrow> search_state" where
  "removeSearch term s = s\<lparr>recentSearches := filter (\<lambda>x. x \<noteq> term) (recentSearches s)\<rparr>"

definition clearHistory :: "search_state \<Rightarrow> search_state" where
  "clearHistory s = s\<lparr>recentSearches := []\<rparr>"

datatype search_event = AddSearch jsstring | RemoveSearch jsstring | ClearHistory

fun search_step :: "search_state \<Rightarrow> search_event \<Rightarrow> search_state" where
  "search_step s (AddSearch t) = addSearch t s"
| "search_step s (RemoveSearch t) = removeSearch t s"
| "search_step s ClearHistory = clearHistory s"

definition search_inv :: "search_state \<Rightarrow> bool" where
  "search_inv s \<longleftrightarrow> length (recentSearches s) \<le> 8 \<and>
     distinct (map toLowerCase (recentSearches s)) \<and>
     list_all (\<lambda>t. t \<noteq> [] \<and> trim t = t) (recentSearches s)"

lemma addSearch_inv: "search_inv s \<Longrightarrow> search_inv (addSearch t s)"
proof (cases "trim t = []")
  case False
  let ?f = "filter (\<lambda>x. toLowerCase x \<noteq> toLowerCase (trim t)) (recentSearches s)"
  assume i: "search_inv s"
  then have "distinct (map toLowerCase (trim t # ?f))"
    by (auto simp: search_inv_def intro: distinct_map_filter_key)
  then have "distinct (map toLowerCase (take 8 (trim t # ?f)))"
    by (metis distinct_take take_map)
  moreover have "list_all (\<lambda>t. t \<noteq> [] \<and> trim t = t) (take 8 (trim t # ?f))"
    using i False by (auto simp: search_inv_def list_all_iff dest!: in_set_takeD)
  ultimately show ?thesis using False
    by (simp add: search_inv_def addSearch_def Let_def)
qed (simp add: addSearch_def)

interpretation searches: state_machine initial_search search_step search_inv
proof unfold_locales
  show "search_inv s \<Longrightarrow> search_inv (search_step s e)" for s e
  proof (cases e)
    case (RemoveSearch t)
    assume "search_inv s"
    then show ?thesis using RemoveSearch
      by (auto simp: search_inv_def removeSearch_def list_all_iff intro: distinct_map_filter_key
            order_trans [OF length_filter_le])
  next
    case (AddSearch t)
    assume "search_inv s"
    then show ?thesis using AddSearch by (simp add: addSearch_inv)
  qed (auto simp: clearHistory_def search_inv_def)
qed (simp add: initial_search_def search_inv_def)

text \<open>The search history, after any sequence of additions, removals and clearings,
  holds at most eight terms, no two of which agree up to letter case, and every term is
  trimmed and not empty.\<close>

theorem search_history_run: "search_inv (run search_step initial_search es)"
  by (rule searches.inv_run)

text \<open>Adding a term that is not blank puts its trimmed form in front and keeps the other
  terms, in order, except those that agree with it up to letter case and, when nine
  remain, the oldest one.\<close>

theorem addSearch_front:
  assumes "trim t \<noteq> []" and "search_inv s"
  shows "recentSearches (addSearch t s) = trim t #
     take 7 (filter (\<lambda>x. toLowerCase x \<noteq> toLowerCase (trim t)) (recentSearches s)) \<and>
     (toLowerCase (trim t) \<in> toLowerCase ` set (recentSearches s) \<longrightarrow>
      length (recentSearches (addSearch t s)) = length (recentSearches s))"
proof -
  let ?p = "\<lambda>x. toLowerCase x \<noteq> toLowerCase (trim t)"
  have front: "recentSearches (addSearch t s) = trim t # take 7 (filter ?p (recentSearches s))"
    using assms(1) by (simp add: addSearch_def Let_def numeral_eq_Suc)
  have "length (filter ?p (recentSearches s)) + 1 = length (recentSearches s)"
    if "toLowerCase (trim t) \<in> toLowerCase ` set (recentSearches s)"
    using that assms(2) by (intro length_drop_key) (simp_all add: search_inv_def)
  moreover have "length (recentSearches s) \<le> 8" using assms(2) by (simp add: search_inv_def)
  ultimately show ?thesis using front by auto
qed

theorem addSearch_front_witness:
  "recentSearches (addSearch ''  Red Shirt '' \<lparr>recentSearches = [''hat'', ''red shirt'']\<rparr>)
     = [''Red Shirt'', ''hat'']"
proof -
  have t: "trim ''  Red Shirt '' \<noteq> []" by code_simp
  have i: "search_inv \<lparr>recentSearches = [''hat'', ''red shirt'']\<rparr>" by code_simp
  have "trim ''  Red Shirt '' # take 7 (filter (\<lambda>x. toLowerCase x \<noteq> toLowerCase (trim ''  Red Shirt ''))
      [''hat'', ''red shirt'']) = [''Red Shirt'', ''hat'']" by code_simp
  with addSearch_front [OF t i] show ?thesis
    unfolding search_state.simps by (simp only: HOL.simp_thms)
qed

subsection \<open>Tenant and plan\<close>

datatype plan_tier = Free | Growth | Enterprise

record tenant_limits =
  maxProducts :: int
  maxOrders :: int

record tenant_state =
  activeTenantId :: jsstring
  planTier :: plan_tier
  limits :: tenant_limits

fun plan_limits :: "plan_tier \<Rightarrow> tenant_limits" where
  "plan_limits Free = \<lparr>maxProducts = 10, maxOrders = 15\<rparr>"
| "plan_limits Growth = \<lparr>maxProducts = 100, maxOrders = 200\<rparr>"
| "plan_limits Enterprise = \<lparr>maxProducts = 10000, maxOrders = 20000\<rparr>"

definition initial_tenant :: tenant_state where
  "initial_tenant = \<lparr>activeTenantId = ''default-tenant'', planTier = Free, limits = plan_limits Free\<rparr>"

definition switchTenant :: "jsstring \<Rightarrow> tenant_state \<Rightarrow> tenant_state" where
  "switchTenant tenantId s = s\<lparr>activeTenantId := tenantId\<rparr>"

definition upgradePlan :: "plan_tier \<Rightarrow> tenant_state \<Rightarrow> tenant_state" where
  "upgradePlan tier s = s\<lparr>planTier := tier, limits := plan_limits tier\<rparr>"

definition resetTenant :: "tenant_state \<Rightarrow> tenant_state" where
  "resetTenant s = s\<lparr>activeTenantId := ''default-tenant'', planTier := Free, limits := plan_limits Free\<rparr>"

datatype tenant_event = SwitchTenant jsstring | UpgradePlan plan_tier | ResetTenant

fun tenant_step :: "tenant_state \<Rightarrow> tenant_event \<Rightarrow> tenant_state" where
  "tenant_step s (SwitchTenant t) = switchTenant t s"
| "tenant_step s (UpgradePlan p) = upgradePlan p s"
| "tenant_step s ResetTenant = resetTenant s"

definition tenant_inv :: "tenant_state \<Rightarrow> bool" where
  "tenant_inv s \<longleftrightarrow> limits s = plan_limits (planTier s)"

interpretation tenant: state_machine initial_tenant tenant_step tenant_inv
proof unfold_locales
  show "tenant_inv s \<Longrightarrow> tenant_inv (tenant_step s e)" for s e
    by (cases e) (auto simp: tenant_inv_def switchTenant_def upgradePlan_def resetTenant_def)
qed (simp add: initial_tenant_def tenant_inv_def)

subsection \<open>Sidebar\<close>

record ui_state =
  sidebarOpen :: bool

definition initial_ui :: ui_state where
  "initial_ui = \<lparr>sidebarOpen = True\<rparr>"

definition toggleSidebar :: "ui_state \<Rightarrow> ui_state" where
  "toggleSidebar s = s\<lparr>sidebarOpen := \<not> sidebarOpen s\<rparr>"

definition setSidebarOpen :: "bool \<Rightarrow> ui_state \<Rightarrow> ui_state" where
  "setSidebarOpen b s = s\<lparr>sidebarOpen := b\<rparr>"

subsection \<open>Theme\<close>

text \<open>The document element's class list is a list of distinct tokens (a \<open>DOMTokenList\<close>);
  \<open>prefers_dark\<close> is the answer of \<open>matchMedia("(prefers-color-scheme: dark)")\<close>.\<close>

datatype theme_choice = Light | Dark | System

record theme_state =
  theme :: theme_choice
  classList :: "jsstring list"

definition token_add :: "jsstring \<Rightarrow> jsstring list \<Rightarrow> jsstring list" where
  "token_add t ts = (if List.member ts t then ts else ts @ [t])"

definition applyTheme :: "bool \<Rightarrow> theme_state \<Rightarrow> theme_state" where
  "applyTheme prefers_dark s =
     (let root = filter (\<lambda>c. c \<noteq> ''light'' \<and> c \<noteq> ''dark'') (classList s)
      in case theme s of
           System \<Rightarrow>
             s\<lparr>classList := token_add (if prefers_dark then ''dark'' else ''light'') root\<rparr>
         | Light \<Rightarrow> s\<lparr>classList := token_add ''light'' root\<rparr>
         | Dark \<Rightarrow> s\<lparr>classList := token_add ''dark'' root\<rparr>)"

definition setTheme :: "bool \<Rightarrow> theme_choice \<Rightarrow> theme_state \<Rightarrow> theme_state" where
  "setTheme prefers_dark t s = applyTheme prefers_dark (s\<lparr>theme := t\<rparr>)"

text \<open>The layout's theme button (\<open>AppLayout.tsx\<close>).\<close>

definition toggleTheme :: "bool \<Rightarrow> theme_state \<Rightarrow> theme_state" where
  "toggleTheme prefers_dark s = setTheme prefers_dark (if theme s = Dark then Light else Dark) s"

definition shows_dark :: "bool \<Rightarrow> theme_choice \<Rightarrow> bool" where
  "shows_dark prefers_dark t = (t = Dark \<or> t = System \<and> prefers_dark)"

text \<open>After a theme is chosen, or toggled with the layout's button, the document
  carries exactly one of the two theme classes, the one the choice (or, for the system
  theme, the media query) asks for, and every other class is untouched; the button
  always leaves a concrete theme, so pressing it twice shows a light page again after a
  dark one.\<close>

theorem theme_class_exclusive:
  "(''dark'' \<in> set (classList (setTheme d t s)) \<longleftrightarrow> shows_dark d t) \<and>
   (''light'' \<in> set (classList (setTheme d t s)) \<longleftrightarrow> \<not> shows_dark d t) \<and>
   filter (\<lambda>c. c \<noteq> ''light'' \<and> c \<noteq> ''dark'') (classList (setTheme d t s)) =
     filter (\<lambda>c. c \<noteq> ''light'' \<and> c \<noteq> ''dark'') (classList s) \<and>
   theme (toggleTheme d s) \<noteq> System \<and>
   theme (toggleTheme d (toggleTheme d s)) = (if theme s = Dark then Dark else Light)"
  by (cases t) (auto simp: setTheme_def applyTheme_def token_add_def shows_dark_def toggleTheme_def Let_def
      split: theme_choice.splits)

end
