(* ===== verification/Api_Client.thy ===== *)
theory Api_Client
  imports Error_Mapper Small_Stores
begin

text \<open>
  The HTTP client, \<open>frontend/src/lib/api-client.ts\<close>, with the authentication store it
  reads and writes, \<open>frontend/src/stores/authStore.ts\<close>: the request interceptor, the
  response interceptor with its token rotation, the queue of requests that wait for a
  rotation, and \<open>logout\<close>.

  A call of \<open>apiClient\<close> gets a number; the promise the caller holds is settled under that
  number. A call is first in \<open>outbox\<close> (issued: Axios runs request interceptors
  asynchronously, after the code that issued the call has finished), then in \<open>inflight\<close>
  (intercepted and sent), and at last in \<open>settled\<close>, unless the response interceptor parks
  it in \<open>failedQueue\<close> or makes it the request that waits for the rotation, \<open>refreshing\<close>.
  What the network does (answers, failures, the answer of the refresh endpoint) and the
  order in which it does it are the events of a run.
\<close>

subsection \<open>The authentication store\<close>

record user =
  user_id :: jsstring
  email :: jsstring
  full_name :: jsstring
  role :: jsstring

text \<open>A token or a user that the server's answer lacks is \<open>undefined\<close>, which the store
  keeps; the model does not tell it from \<open>null\<close>.\<close>

record auth_state =
  auth_user :: "user option"
  accessToken :: "jsstring option"
  refreshToken :: "jsstring option"
  isAuthenticated :: bool

definition initial_auth :: auth_state where
  "initial_auth = \<lparr>auth_user = None, accessToken = None, refreshToken = None, isAuthenticated = False\<rparr>"

definition setCredentials ::
    "user option \<Rightarrow> jsstring option \<Rightarrow> jsstring option \<Rightarrow> auth_state \<Rightarrow> auth_state" where
  "setCredentials u a r s =
     s\<lparr>auth_user := u, accessToken := a, refreshToken := r, isAuthenticated := True\<rparr>"

definition setAccessToken :: "jsstring \<Rightarrow> auth_state \<Rightarrow> auth_state" where
  "setAccessToken a s = s\<lparr>accessToken := Some a\<rparr>"

definition setUser :: "user \<Rightarrow> auth_state \<Rightarrow> auth_state" where
  "setUser u s = s\<lparr>auth_user := Some u\<rparr>"

definition clear_auth :: "auth_state \<Rightarrow> auth_state" where
  "clear_auth s = s\<lparr>auth_user := None, accessToken := None, refreshToken := None, isAuthenticated := False\<rparr>"

subsection \<open>Requests and the client's state\<close>

record request =
  req_method :: jsstring
  req_url :: jsstring
  req_headers :: "jsstring \<rightharpoonup> jsstring"
  retried :: bool

datatype outcome =
    Resolved jsstring
  | Rejected thrown

record client =
  auth :: auth_state
  tenant :: tenant_state
  correlationId :: jsstring
  isRefreshing :: bool
  failedQueue :: "(nat \<times> request) list"
  refreshing :: "(nat \<times> request) option"
  outbox :: "(nat \<times> request) list"
  inflight :: "(nat \<times> request) list"
  settled :: "(nat \<times> outcome) list"
  next_call :: nat

definition new_request :: "jsstring \<Rightarrow> jsstring \<Rightarrow> request" where
  "new_request m u = \<lparr>req_method = m, req_url = u,
     req_headers = [''Content-Type'' \<mapsto> ''application/json''], retried = False\<rparr>"

definition initial_client :: "jsstring \<Rightarrow> client" where
  "initial_client cid = \<lparr>auth = initial_auth, tenant = initial_tenant, correlationId = cid,
     isRefreshing = False, failedQueue = [], refreshing = None, outbox = [], inflight = [],
     settled = [], next_call = 0\<rparr>"

definition issue :: "nat \<Rightarrow> request \<Rightarrow> client \<Rightarrow> client" where
  "issue i r c = c\<lparr>outbox := outbox c @ [(i, r)]\<rparr>"

definition api_call :: "request \<Rightarrow> client \<Rightarrow> client" where
  "api_call r c = (issue (next_call c) r c)\<lparr>next_call := Suc (next_call c)\<rparr>"

definition settle :: "nat \<Rightarrow> outcome \<Rightarrow> client \<Rightarrow> client" where
  "settle i out c = c\<lparr>settled := settled c @ [(i, out)]\<rparr>"

definition logout :: "client \<Rightarrow> client" where
  "logout c =
     (let c1 = api_call (new_request ''post'' ''/api/v1/auth/logout'') c
      in c1\<lparr>auth := clear_auth (auth c1)\<rparr>)"

subsection \<open>The request interceptor\<close>

definition bearer :: "jsstring \<Rightarrow> jsstring" where
  "bearer t = ''Bearer '' @ t"

definition mutating_methods :: "jsstring list" where
  "mutating_methods = [''post'', ''put'', ''patch'', ''delete'']"

definition request_interceptor :: "client \<Rightarrow> jsstring \<Rightarrow> request \<Rightarrow> request" where
  "request_interceptor c uuid r =
     (let h0 = req_headers r;
          h1 = (case accessToken (auth c) of
                  Some t \<Rightarrow> if t \<noteq> [] then h0(''Authorization'' \<mapsto> bearer t) else h0
                | None \<Rightarrow> h0);
          h2 = h1(''X-Correlation-ID'' \<mapsto> correlationId c, ''X-CSRF-Token'' \<mapsto> ''cloudscale-csrf-guard-v1'',
                  ''X-Tenant-ID'' \<mapsto> activeTenantId (tenant c));
          h3 = (if req_method r \<noteq> [] \<and> List.member mutating_methods (toLowerCase (req_method r))
                then if h2 ''Idempotency-Key'' = None \<or> h2 ''Idempotency-Key'' = Some []
                     then h2(''Idempotency-Key'' \<mapsto> uuid) else h2
                else h2)
      in r\<lparr>req_headers := h3\<rparr>)"

definition send_next :: "jsstring \<Rightarrow> client \<Rightarrow> client" where
  "send_next uuid c =
     (case outbox c of
        [] \<Rightarrow> c
      | (i, r) # rest \<Rightarrow> c\<lparr>outbox := rest, inflight := inflight c @ [(i, request_interceptor c uuid r)]\<rparr>)"

subsection \<open>The response interceptor\<close>

definition with_token :: "jsstring \<Rightarrow> request \<Rightarrow> request" where
  "with_token t r = r\<lparr>req_headers := (req_headers r)(''Authorization'' \<mapsto> bearer t)\<rparr>"

fun drain :: "thrown \<Rightarrow> jsstring option \<Rightarrow> (nat \<times> request) list \<Rightarrow> client \<Rightarrow> client" where
  "drain err token [] c = c"
| "drain err token ((i, r) # q) c =
     (case token of
        Some t \<Rightarrow> if t \<noteq> [] then drain err token q (issue i (with_token t r) c)
                  else drain err token q (settle i (Rejected err) c)
      | None \<Rightarrow> drain err token q (settle i (Rejected err) c))"

definition processQueue :: "thrown \<Rightarrow> jsstring option \<Rightarrow> client \<Rightarrow> client" where
  "processQueue err token c = (drain err token (failedQueue c) c)\<lparr>failedQueue := []\<rparr>"

definition on_error :: "nat \<Rightarrow> request \<Rightarrow> thrown \<Rightarrow> client \<Rightarrow> client" where
  "on_error i r e c =
     (if response_status e = Some 401 \<and> \<not> retried r then
        if isRefreshing c then c\<lparr>failedQueue := failedQueue c @ [(i, r)]\<rparr>
        else
          let r1 = r\<lparr>retried := True\<rparr>; c1 = c\<lparr>isRefreshing := True\<rparr> in
          (case refreshToken (auth c) of
             Some t \<Rightarrow> if t \<noteq> [] then c1\<lparr>refreshing := Some (i, r1)\<rparr>
                       else settle i (Rejected e) (logout c1)
           | None \<Rightarrow> settle i (Rejected e) (logout c1))
      else settle i (Rejected (MappedError (mapAPIError e))) c)"

text \<open>The answer of the refresh endpoint: \<open>user\<close>, \<open>access_token\<close> and \<open>refresh_token\<close> as far
  as the body has them.\<close>

record refresh_data =
  rd_user :: "user option"
  rd_access :: "jsstring option"
  rd_refresh :: "jsstring option"

definition token_text :: "jsstring option \<Rightarrow> jsstring" where
  "token_text t = (case t of Some s \<Rightarrow> s | None \<Rightarrow> ''undefined'')"

definition on_refreshed :: "refresh_data \<Rightarrow> client \<Rightarrow> client" where
  "on_refreshed d c =
     (case refreshing c of
        None \<Rightarrow> c
      | Some (i, r) \<Rightarrow>
          let c1 = c\<lparr>refreshing := None, auth := setCredentials (rd_user d) (rd_access d) (rd_refresh d) (auth c)\<rparr>;
              c2 = processQueue Nothing (rd_access d) (c1\<lparr>isRefreshing := False\<rparr>)
          in issue i (with_token (token_text (rd_access d)) r) c2)"

definition on_refresh_failed :: "thrown \<Rightarrow> client \<Rightarrow> client" where
  "on_refresh_failed e c =
     (case refreshing c of
        None \<Rightarrow> c
      | Some (i, r) \<Rightarrow>
          let c1 = processQueue e None (c\<lparr>refreshing := None, isRefreshing := False\<rparr>)
          in settle i (Rejected (MappedError (mapAPIError e))) (logout c1))"

subsection \<open>Runs\<close>

datatype client_event =
    Call jsstring jsstring
  | SendNext jsstring
  | Answer nat jsstring
  | Failure nat thrown
  | Refreshed refresh_data
  | RefreshFailed thrown
  | SignIn "user option" "jsstring option" "jsstring option"
  | SignOut
  | ChangeTenant jsstring

definition drop_inflight :: "nat \<Rightarrow> client \<Rightarrow> client" where
  "drop_inflight i c = c\<lparr>inflight := filter (\<lambda>(j, _). j \<noteq> i) (inflight c)\<rparr>"

fun client_step :: "client \<Rightarrow> client_event \<Rightarrow> client" where
  "client_step c (Call m u) = api_call (new_request m u) c"
| "client_step c (SendNext uuid) = send_next uuid c"
| "client_step c (Answer i d) =
     (case map_of (inflight c) i of
        None \<Rightarrow> c | Some r \<Rightarrow> settle i (Resolved d) (drop_inflight i c))"
| "client_step c (Failure i e) =
     (case map_of (inflight c) i of
        None \<Rightarrow> c | Some r \<Rightarrow> on_error i r e (drop_inflight i c))"
| "client_step c (Refreshed d) = on_refreshed d c"
| "client_step c (RefreshFailed e) = on_refresh_failed e c"
| "client_step c (SignIn u a r) = c\<lparr>auth := setCredentials u a r (auth c)\<rparr>"
| "client_step c SignOut = logout c"
| "client_step c (ChangeTenant t) = c\<lparr>tenant := switchTenant t (tenant c)\<rparr>"

lemmas client_defs [model_defs] =
  issue_def api_call_def settle_def logout_def send_next_def processQueue_def on_error_def
  on_refreshed_def on_refresh_failed_def drop_inflight_def


subsection \<open>Draining the queue\<close>

definition usable :: "jsstring option \<Rightarrow> bool" where
  "usable t \<longleftrightarrow> t \<noteq> None \<and> t \<noteq> Some []"

lemma drain_usable:
  "usable token \<Longrightarrow> drain err token q c = c\<lparr>outbox := outbox c @ map (\<lambda>(i, r). (i, with_token (token_text token) r)) q\<rparr>"
  by (induction err token q c rule: drain.induct)
    (auto simp: usable_def issue_def token_text_def split: option.splits)

lemma drain_unusable:
  "\<not> usable token \<Longrightarrow> drain err token q c = c\<lparr>settled := settled c @ map (\<lambda>(i, r). (i, Rejected err)) q\<rparr>"
  by (induction err token q c rule: drain.induct)
    (auto simp: usable_def settle_def split: option.splits)

lemma processQueue_eq:
  "processQueue err token c =
     (if usable token
      then c\<lparr>failedQueue := [], outbox := outbox c @ map (\<lambda>(i, r). (i, with_token (token_text token) r)) (failedQueue c)\<rparr>
      else c\<lparr>failedQueue := [], settled := settled c @ map (\<lambda>(i, r). (i, Rejected err)) (failedQueue c)\<rparr>)"
  by (simp add: processQueue_def drain_usable drain_unusable)

lemma fst_map_pair [simp]: "map fst (map (\<lambda>(i, r). (i, f r)) q) = map fst q"
  by (induction q) auto

subsection \<open>Every call is in exactly one place\<close>

definition waiting :: "client \<Rightarrow> nat list" where
  "waiting c = (case refreshing c of None \<Rightarrow> [] | Some (i, _) \<Rightarrow> [i])"

definition all_calls :: "client \<Rightarrow> nat list" where
  "all_calls c = map fst (outbox c) @ map fst (inflight c) @ map fst (failedQueue c) @ waiting c @ map fst (settled c)"

definition numbers_below :: "nat \<Rightarrow> nat multiset" where
  "numbers_below n = mset [0..<n]"

definition calls_inv :: "client \<Rightarrow> bool" where
  "calls_inv c \<longleftrightarrow> mset (all_calls c) = numbers_below (next_call c)"

definition rotation_inv :: "client \<Rightarrow> bool" where
  "rotation_inv c \<longleftrightarrow> (refreshing c \<noteq> None \<or> failedQueue c \<noteq> [] \<longrightarrow> isRefreshing c) \<and>
     (\<forall>i r. refreshing c = Some (i, r) \<longrightarrow> retried r)"

definition client_inv :: "client \<Rightarrow> bool" where
  "client_inv c \<longleftrightarrow> calls_inv c \<and> rotation_inv c"

lemma numbers_below_Suc [simp]: "numbers_below (Suc n) = add_mset n (numbers_below n)"
  by (simp add: numbers_below_def)

lemma image_fst_pair [simp]:
  "image_mset fst (image_mset (\<lambda>(i, r). (i, f r)) M) = image_mset fst M"
  by (induction M) auto

lemma calls_inv_distinct: "calls_inv c \<Longrightarrow> distinct (all_calls c)"
  unfolding calls_inv_def numbers_below_def by (metis distinct_upt mset_eq_imp_distinct_iff)

lemma mset_drop_key:
  "distinct (map fst xs) \<Longrightarrow> map_of xs i = Some r \<Longrightarrow>
   add_mset i (mset (map fst (filter (\<lambda>(j, _). j \<noteq> i) xs))) = mset (map fst xs)"
proof (induction xs)
  case (Cons x xs)
  obtain j q where x: "x = (j, q)" by (cases x)
  show ?case
  proof (cases "j = i")
    case True
    then have "filter (\<lambda>(j, _). j \<noteq> i) xs = xs"
      using Cons.prems(1) x by (auto simp: filter_id_conv image_iff)
    then show ?thesis using True x by simp
  qed (use Cons x in auto)
qed simp

lemma drop_inflight_calls:
  assumes "calls_inv c" and "map_of (inflight c) i = Some r"
  shows "add_mset i (mset (all_calls (drop_inflight i c))) = numbers_below (next_call c)"
proof -
  have "distinct (map fst (inflight c))"
    using calls_inv_distinct [OF assms(1)] by (simp add: all_calls_def)
  from mset_drop_key [OF this assms(2)]
  have "mset (map fst (inflight c)) = add_mset i (mset (map fst (inflight (drop_inflight i c))))"
    by (simp add: drop_inflight_def)
  then show ?thesis using assms(1)
    by (simp add: calls_inv_def all_calls_def drop_inflight_def waiting_def)
qed

lemma logout_frame [simp]:
  "failedQueue (logout c) = failedQueue c" "refreshing (logout c) = refreshing c"
  "isRefreshing (logout c) = isRefreshing c" "inflight (logout c) = inflight c"
  "settled (logout c) = settled c" "next_call (logout c) = Suc (next_call c)"
  "map fst (outbox (logout c)) = map fst (outbox c) @ [next_call c]"
  "waiting (logout c) = waiting c"
  by (simp_all add: logout_def api_call_def issue_def waiting_def Let_def)

lemma on_error_calls:
  assumes "add_mset i (mset (all_calls c)) = numbers_below (next_call c)" "waiting c = [] \<or> isRefreshing c"
  shows "calls_inv (on_error i r e c)"
proof -
  have "waiting c = []" if "\<not> isRefreshing c" using assms(2) that by auto
  then show ?thesis using assms(1)
    by (auto simp: on_error_def calls_inv_def all_calls_def settle_def waiting_def logout_def
        api_call_def issue_def Let_def split: option.splits)
qed

lemma on_refreshed_calls: "calls_inv c \<Longrightarrow> calls_inv (on_refreshed d c)"
  by (auto simp: on_refreshed_def calls_inv_def all_calls_def waiting_def processQueue_eq issue_def Let_def
      ac_simps split: option.splits)

lemma on_refresh_failed_calls: "calls_inv c \<Longrightarrow> calls_inv (on_refresh_failed e c)"
  by (auto simp: on_refresh_failed_def calls_inv_def all_calls_def waiting_def processQueue_eq usable_def
      settle_def logout_def api_call_def issue_def Let_def ac_simps split: option.splits)

lemma client_step_calls: "client_inv c \<Longrightarrow> calls_inv (client_step c ev)"
proof (cases ev)
  case (Failure i e)
  assume inv: "client_inv c"
  show ?thesis
  proof (cases "map_of (inflight c) i")
    case (Some r)
    have "waiting (drop_inflight i c) = [] \<or> isRefreshing (drop_inflight i c)"
      using inv by (auto simp: client_inv_def rotation_inv_def waiting_def drop_inflight_def split: option.splits)
    then show ?thesis
      using Failure Some inv drop_inflight_calls [of c i r] on_error_calls [of i "drop_inflight i c" r e]
      by (simp add: client_inv_def drop_inflight_def)
  qed (use Failure inv in \<open>simp add: client_inv_def\<close>)
next
  case (Answer i d)
  assume inv: "client_inv c"
  then show ?thesis using Answer drop_inflight_calls [of c i]
    by (auto simp: client_inv_def calls_inv_def all_calls_def settle_def waiting_def drop_inflight_def
        split: option.splits)
next
  case (SendNext u)
  then show "client_inv c \<Longrightarrow> ?thesis"
    by (auto simp: client_inv_def calls_inv_def all_calls_def send_next_def waiting_def split: list.splits)
next
  case (Refreshed d)
  then show "client_inv c \<Longrightarrow> ?thesis" by (simp add: client_inv_def on_refreshed_calls)
next
  case (RefreshFailed e)
  then show "client_inv c \<Longrightarrow> ?thesis" by (simp add: client_inv_def on_refresh_failed_calls)
qed (auto simp: client_inv_def calls_inv_def all_calls_def waiting_def logout_def api_call_def issue_def Let_def)


lemma client_step_rotation: "rotation_inv c \<Longrightarrow> rotation_inv (client_step c ev)"
  by (cases ev)
    (auto simp: rotation_inv_def api_call_def issue_def send_next_def settle_def drop_inflight_def
      on_error_def on_refreshed_def on_refresh_failed_def processQueue_eq logout_def Let_def
      split: option.splits list.splits if_splits)

interpretation client: state_machine "initial_client cid" client_step client_inv for cid
proof unfold_locales
  show "client_inv (initial_client cid)"
    by (simp add: client_inv_def calls_inv_def rotation_inv_def initial_client_def all_calls_def
        waiting_def numbers_below_def)
  show "client_inv s \<Longrightarrow> client_inv (client_step s e)" for s e
    using client_step_calls [of s e] client_step_rotation [of s e] by (simp add: client_inv_def)
qed

text \<open>C14. Whatever the pages and the network do, in any order: every call ever issued is in
  exactly one place (waiting to be sent, in flight, parked in the queue, waiting for the
  rotation, or settled), so no call is lost, duplicated or settled twice; requests are
  parked only while a rotation is marked as running; and the request that started a
  rotation is marked as retried, so it cannot start another one.\<close>

theorem client_calls_conserved:
  "mset (all_calls (run client_step (initial_client cid) es)) =
     mset [0..<next_call (run client_step (initial_client cid) es)] \<and>
   distinct (map fst (settled (run client_step (initial_client cid) es))) \<and>
   rotation_inv (run client_step (initial_client cid) es)"
proof -
  have "client_inv (run client_step (initial_client cid) es)" by (rule client.inv_run)
  then show ?thesis
    using calls_inv_distinct [of "run client_step (initial_client cid) es"]
    by (simp add: client_inv_def calls_inv_def numbers_below_def) (simp add: all_calls_def)
qed

subsection \<open>What a rotation does\<close>

lemma interceptor_authorization:
  "accessToken (auth c) = Some t \<Longrightarrow> t \<noteq> [] \<Longrightarrow>
   req_headers (request_interceptor c u r) ''Authorization'' = Some (bearer t)"
  by (simp add: request_interceptor_def Let_def)

lemma interceptor_no_token:
  "\<not> usable (accessToken (auth c)) \<Longrightarrow>
   req_headers (request_interceptor c u r) ''Authorization'' = req_headers r ''Authorization''"
  by (auto simp: request_interceptor_def usable_def Let_def split: option.splits)

text \<open>C30. When the rotation succeeds with a usable access token, the new credentials are in
  the store, every parked request and then the request that started the rotation is
  issued again in the order in which they failed, each carrying the new token, the queue
  is empty, nothing is settled, and the client can rotate again. When it fails, every
  parked request is rejected with the failure, the one that started it with the mapped
  failure, the credentials are gone, and a logout call is issued.\<close>

theorem rotation_outcome:
  assumes "refreshing c = Some (i, r)"
  shows "(usable (rd_access d) \<longrightarrow>
      outbox (on_refreshed d c) = outbox c @
        map (\<lambda>(j, q). (j, with_token (token_text (rd_access d)) q)) (failedQueue c @ [(i, r)]) \<and>
      auth (on_refreshed d c) = setCredentials (rd_user d) (rd_access d) (rd_refresh d) (auth c) \<and>
      failedQueue (on_refreshed d c) = [] \<and> refreshing (on_refreshed d c) = None \<and>
      \<not> isRefreshing (on_refreshed d c) \<and> settled (on_refreshed d c) = settled c) \<and>
    (settled (on_refresh_failed e c) = settled c @ map (\<lambda>(j, q). (j, Rejected e)) (failedQueue c) @
        [(i, Rejected (MappedError (mapAPIError e)))] \<and>
      auth (on_refresh_failed e c) = clear_auth (auth c) \<and>
      failedQueue (on_refresh_failed e c) = [] \<and> refreshing (on_refresh_failed e c) = None \<and>
      \<not> isRefreshing (on_refresh_failed e c) \<and>
      outbox (on_refresh_failed e c) = outbox c @
        [(next_call c, new_request ''post'' ''/api/v1/auth/logout'')])"
proof -
  have "\<not> usable None" by (simp add: usable_def)
  then show ?thesis using assms
    by (simp add: on_refreshed_def on_refresh_failed_def processQueue_eq issue_def settle_def logout_def
        api_call_def Let_def)
qed

theorem rotation_outcome_witness:
  "let c = run client_step (initial_client ''cid'')
       [SignIn None (Some ''old'') (Some ''r0''), Call ''get'' ''/orders'', Call ''get'' ''/cart'',
        SendNext ''u0'', SendNext ''u1'', Failure 0 (AxiosFailure (Some 401) None ''m''),
        Failure 1 (AxiosFailure (Some 401) None ''m'')]
   in map fst (outbox (on_refreshed \<lparr>rd_user = None, rd_access = Some ''new'', rd_refresh = None\<rparr> c)) = [1, 0]"
proof -
  define c where "c = run client_step (initial_client ''cid'')
       [SignIn None (Some ''old'') (Some ''r0''), Call ''get'' ''/orders'', Call ''get'' ''/cart'',
        SendNext ''u0'', SendNext ''u1'', Failure 0 (AxiosFailure (Some 401) None ''m''),
        Failure 1 (AxiosFailure (Some 401) None ''m'')]"
  have c: "map fst (outbox c) = []" "map fst (failedQueue c) = [1]" "\<exists>r. refreshing c = Some (0, r)"
    by (simp_all add: c_def initial_client_def setCredentials_def api_call_def issue_def send_next_def
        on_error_def drop_inflight_def new_request_def initial_auth_def request_interceptor_def Let_def)
  then obtain r where r: "refreshing c = Some (0, r)" by blast
  have u: "usable (Some ''new'')" by (simp add: usable_def)
  have "outbox (on_refreshed \<lparr>rd_user = None, rd_access = Some ''new'', rd_refresh = None\<rparr> c) = outbox c @
      map (\<lambda>(j, q). (j, with_token (token_text (Some ''new'')) q)) (failedQueue c @ [(0, r)])"
    using rotation_outcome [OF r, of "\<lparr>rd_user = None, rd_access = Some ''new'', rd_refresh = None\<rparr>"] u by simp
  then have "map fst (outbox (on_refreshed \<lparr>rd_user = None, rd_access = Some ''new'', rd_refresh = None\<rparr> c)) = [1, 0]"
    using c by (simp only: map_append fst_map_pair) simp
  then show ?thesis unfolding Let_def c_def [symmetric] .
qed

text \<open>No request is retried for ever: a request that already went through a rotation and
  fails again, with whatever status, is settled with the mapped failure at once, and the
  rotation state and the queue stay as they are.\<close>

theorem retried_request_settles:
  assumes "retried r"
  shows "on_error i r e c = c\<lparr>settled := settled c @ [(i, Rejected (MappedError (mapAPIError e)))]\<rparr>"
  using assms by (simp add: on_error_def settle_def)

theorem retried_request_settles_witness:
  "settled (on_error 7 ((new_request ''get'' ''/x'')\<lparr>retried := True\<rparr>) (AxiosFailure (Some 401) None ''m'')
     (initial_client ''cid'')) =
   [(7, Rejected (MappedError (mapAPIError (AxiosFailure (Some 401) None ''m''))))]"
proof -
  have "retried ((new_request ''get'' ''/x'')\<lparr>retried := True\<rparr>)" by simp
  from retried_request_settles [OF this, of 7 "AxiosFailure (Some 401) None ''m''" "initial_client ''cid''"]
  show ?thesis by (simp add: initial_client_def del: mapAPIError.simps)
qed

subsection \<open>The request interceptor\<close>

definition is_mutating :: "jsstring \<Rightarrow> bool" where
  "is_mutating m = (m \<noteq> [] \<and> List.member mutating_methods (toLowerCase m))"

lemma is_mutating_iff: "is_mutating m \<longleftrightarrow> toLowerCase m \<in> {''post'', ''put'', ''patch'', ''delete''}"
  by (auto simp: is_mutating_def mutating_methods_def)

lemma interceptor_key:
  "req_headers (request_interceptor c u r) ''Idempotency-Key'' =
     (if is_mutating (req_method r) \<and> \<not> usable (req_headers r ''Idempotency-Key'') then Some u
      else req_headers r ''Idempotency-Key'')"
  unfolding request_interceptor_def Let_def is_mutating_def [symmetric] usable_def
  by (simp split: option.split)

lemma interceptor_context:
  "req_headers (request_interceptor c u r) ''X-Tenant-ID'' = Some (activeTenantId (tenant c))"
  "req_headers (request_interceptor c u r) ''X-Correlation-ID'' = Some (correlationId c)"
  "req_headers (request_interceptor c u r) ''X-CSRF-Token'' = Some ''cloudscale-csrf-guard-v1''"
  by (simp_all add: request_interceptor_def Let_def)

lemma with_token_key:
  "req_headers (with_token t r) ''Idempotency-Key'' = req_headers r ''Idempotency-Key''"
  "req_method (with_token t r) = req_method r"
  "req_method (request_interceptor c u r) = req_method r"
  by (simp_all add: with_token_def request_interceptor_def Let_def)

text \<open>Every request leaves with the current tenant, the correlation id and the CSRF
  token; with the current access token when there is one; a mutating request has a
  non-empty idempotency key, and intercepting it again, for a retry after a rotation,
  keeps that key, so that the server can recognise the repetition; a request of another
  method gets no key.\<close>

theorem interceptor_headers:
  assumes "uuid \<noteq> []"
  shows "(let h = req_headers (request_interceptor c uuid r) in
      h ''X-Tenant-ID'' = Some (activeTenantId (tenant c)) \<and>
      h ''X-Correlation-ID'' = Some (correlationId c) \<and>
      h ''X-CSRF-Token'' = Some ''cloudscale-csrf-guard-v1'' \<and>
      (usable (accessToken (auth c)) \<longrightarrow>
         h ''Authorization'' = Some (bearer (token_text (accessToken (auth c))))) \<and>
      (if toLowerCase (req_method r) \<in> {''post'', ''put'', ''patch'', ''delete''}
       then (\<exists>k. k \<noteq> [] \<and> h ''Idempotency-Key'' = Some k \<and>
          req_headers (request_interceptor c' uuid' (with_token t (request_interceptor c uuid r)))
            ''Idempotency-Key'' = Some k)
       else h ''Idempotency-Key'' = req_headers r ''Idempotency-Key''))"
proof -
  have key: "req_headers (request_interceptor c uuid r) ''Idempotency-Key'' =
      Some (if usable (req_headers r ''Idempotency-Key'') then the (req_headers r ''Idempotency-Key'') else uuid)"
    if "is_mutating (req_method r)"
    using that by (auto simp: interceptor_key usable_def)
  have "is_mutating (req_method r) \<Longrightarrow> \<exists>k. k \<noteq> [] \<and>
      req_headers (request_interceptor c uuid r) ''Idempotency-Key'' = Some k \<and>
      req_headers (request_interceptor c' uuid' (with_token t (request_interceptor c uuid r)))
        ''Idempotency-Key'' = Some k"
    using key assms by (auto simp: interceptor_key [of c'] with_token_key usable_def)
  then show ?thesis
    unfolding Let_def is_mutating_iff [symmetric]
    by (auto simp: interceptor_key interceptor_context usable_def token_text_def
        intro: interceptor_authorization)
qed

theorem interceptor_headers_witness:
  "\<exists>k. req_headers (request_interceptor (initial_client ''cid'') ''u1''
      (with_token ''t'' (request_interceptor (initial_client ''cid'') ''u0'' (new_request ''post'' ''/orders''))))
        ''Idempotency-Key'' = Some k"
proof -
  have u: "''u0'' \<noteq> ([] :: jsstring)" by simp
  have m: "toLowerCase (req_method (new_request ''post'' ''/orders'')) \<in> {''post'', ''put'', ''patch'', ''delete''}"
    by code_simp
  show ?thesis
    using interceptor_headers [OF u, of "initial_client ''cid''" "new_request ''post'' ''/orders''"
        "initial_client ''cid''" "''u1''" "''t''"] m by (auto simp: Let_def)
qed

subsection \<open>Signing out, and signing in with a wrong password\<close>

definition without_credentials :: "client \<Rightarrow> bool" where
  "without_credentials c \<longleftrightarrow> \<not> usable (accessToken (auth c)) \<and> \<not> usable (refreshToken (auth c))"

text \<open>Signing out revokes nothing on the server: interceptors run after the code that
  issued the call, and by then \<open>logout\<close> has removed the token, so the revocation request
  leaves without an \<open>Authorization\<close> header.\<close>

theorem logout_request_unauthenticated:
  assumes "outbox c = []"
  shows "(let c' = run client_step c [SignOut, SendNext u] in
     \<exists>r. inflight c' = inflight c @ [(next_call c, r)] \<and> req_method r = ''post'' \<and>
       req_url r = ''/api/v1/auth/logout'' \<and> req_headers r ''Authorization'' = None \<and>
       without_credentials c' \<and> \<not> isAuthenticated (auth c'))"
  using assms
  by (simp add: logout_def api_call_def issue_def send_next_def clear_auth_def without_credentials_def
      usable_def interceptor_no_token new_request_def request_interceptor_def Let_def)

theorem logout_request_unauthenticated_witness:
  "\<exists>r. inflight (run client_step (initial_client ''cid'') [SignIn None (Some ''t'') (Some ''r''), SignOut, SendNext ''u''])
     = [(0, r)] \<and> req_headers r ''Authorization'' = None"
proof -
  let ?c = "client_step (initial_client ''cid'') (SignIn None (Some ''t'') (Some ''r''))"
  have o: "outbox ?c = []" by (simp add: initial_client_def)
  have i: "inflight ?c = []" "next_call ?c = 0" by (simp_all add: initial_client_def)
  show ?thesis
    using logout_request_unauthenticated [OF o, of "''u''"] unfolding Let_def i by auto
qed

text \<open>A client is wedged when a rotation is marked as running and none is.\<close>

definition wedged :: "client \<Rightarrow> bool" where
  "wedged c \<longleftrightarrow> isRefreshing c \<and> refreshing c = None"

lemma wedged_step:
  assumes "wedged c"
  shows "wedged (client_step c ev) \<and>
    (\<exists>q. failedQueue (client_step c ev) = failedQueue c @ q)"
  using assms
  by (cases ev)
    (auto simp: wedged_def api_call_def issue_def send_next_def settle_def drop_inflight_def
      on_error_def on_refreshed_def on_refresh_failed_def logout_def Let_def
      split: option.splits list.splits)

lemma wedged_run:
  assumes "wedged c"
  shows "wedged (run client_step c es) \<and>
    set (failedQueue c) \<subseteq> set (failedQueue (run client_step c es))"
  using assms
proof (induction es arbitrary: c)
  case (Cons e es)
  show ?case
    using wedged_step [OF Cons.prems, of e] Cons.IH [of "client_step c e"] by auto
qed simp

lemma missing_refresh_token_wedges:
  assumes "response_status e = Some 401" "\<not> retried r" "\<not> usable (refreshToken (auth c))"
    "refreshing c = None"
  shows "wedged (on_error i r e c)"
  using assms by (auto simp: on_error_def usable_def wedged_def settle_def Let_def split: option.splits)

lemma wedged_parks:
  assumes "wedged c" "map_of (inflight c) j = Some q" "\<not> retried q" "response_status e = Some 401"
  shows "(j, q) \<in> set (failedQueue (client_step c (Failure j e)))"
  using assms by (simp add: on_error_def drop_inflight_def wedged_def)

lemma parked_unsettled:
  assumes "client_inv c" "(j, q) \<in> set (failedQueue c)"
  shows "j \<notin> fst ` set (settled c)"
proof
  assume s: "j \<in> fst ` set (settled c)"
  have "distinct (all_calls c)" using assms(1) by (simp add: client_inv_def calls_inv_distinct)
  then have "fst ` set (failedQueue c) \<inter> fst ` set (settled c) = {}" by (auto simp: all_calls_def)
  moreover have "j \<in> fst ` set (failedQueue c)" using assms(2) by (metis fst_conv image_eqI)
  ultimately show False using s by blast
qed

lemma wedged_never_settles:
  assumes "client_inv c" "wedged c" "map_of (inflight c) j = Some q" "\<not> retried q"
    "response_status e = Some 401"
  shows "j \<notin> fst ` set (settled (run client_step c (Failure j e # fs)))"
proof (rule parked_unsettled)
  show "client_inv (run client_step c (Failure j e # fs))" by (rule client.inv_run_from [OF assms(1)])
  have "wedged (client_step c (Failure j e))" using wedged_step [OF assms(2)] by blast
  then show "(j, q) \<in> set (failedQueue (run client_step c (Failure j e # fs)))"
    using wedged_run wedged_parks [OF assms(2-5)] by fastforce
qed

text \<open>A 401 that arrives while there is no refresh token (a wrong password on the login
  page, or the answer to the unauthenticated logout request) leaves the rotation marked as
  running for ever: no later event ends it, and a request that fails with a 401 after that
  is parked and stays parked, never settled, whatever happens next.\<close>

theorem wedged_for_ever:
  assumes "client_inv c" "without_credentials c" "refreshing c = None"
    and "map_of (inflight c) i = Some r" "\<not> retried r" "response_status e = Some 401"
  shows "wedged (run client_step c (Failure i e # es)) \<and>
    (\<forall>j q e' fs. map_of (inflight (run client_step c (Failure i e # es))) j = Some q \<and>
       \<not> retried q \<and> response_status e' = Some 401 \<longrightarrow>
       j \<notin> fst ` set (settled (run client_step c ((Failure i e # es) @ Failure j e' # fs))))"
proof -
  let ?d = "run client_step c (Failure i e # es)"
  have "wedged (client_step c (Failure i e))"
    using assms by (simp add: missing_refresh_token_wedges without_credentials_def drop_inflight_def)
  then have w: "wedged ?d" using wedged_run by simp
  have "client_inv ?d" by (rule client.inv_run_from [OF assms(1)])
  from wedged_never_settles [OF this w] show ?thesis
    using w unfolding run_append by blast
qed

text \<open>The second login attempt after a wrong password: whatever the server answers, and
  whatever happens later, its promise is never settled.\<close>

theorem wedged_for_ever_witness:
  "\<forall>fs. 2 \<notin> fst ` set (settled (run client_step (initial_client ''cid'')
     ([Call ''post'' ''/login'', SendNext ''u0''] @
      [Failure 0 (AxiosFailure (Some 401) None ''m''), Call ''post'' ''/login'', SendNext ''u1'', SendNext ''u2''] @
       Failure 2 (AxiosFailure (Some 401) None ''m'') # fs)))"
proof -
  define c where "c = run client_step (initial_client ''cid'') [Call ''post'' ''/login'', SendNext ''u0'']"
  define e where "e = AxiosFailure (Some 401) None ''m''"
  define es where "es = [Call ''post'' ''/login'', SendNext ''u1'', SendNext ''u2'']"
  have i: "client_inv c" unfolding c_def by (rule client.inv_run)
  have w: "without_credentials c" "refreshing c = None"
    by (simp_all add: c_def initial_client_def initial_auth_def without_credentials_def usable_def
        api_call_def issue_def send_next_def Let_def)
  have "map_option retried (map_of (inflight c) 0) = Some False" unfolding c_def by code_simp
  then obtain r where r: "map_of (inflight c) 0 = Some r" "\<not> retried r" by auto
  have e: "response_status e = Some 401" by (simp add: e_def)
  have "map_option retried (map_of (inflight (run client_step c (Failure 0 e # es))) 2) = Some False"
    unfolding c_def e_def es_def by code_simp
  then obtain q where q: "map_of (inflight (run client_step c (Failure 0 e # es))) 2 = Some q \<and> \<not> retried q \<and>
      response_status e = Some 401" using e by auto
  have "2 \<notin> fst ` set (settled (run client_step c ((Failure 0 e # es) @ Failure 2 e # fs)))" for fs
    using wedged_for_ever [OF i w r e, of es] q by blast
  then show ?thesis
    unfolding c_def e_def es_def run_append run_Cons run_Nil append_Cons append_Nil by blast
qed

end
