(* ===== verification/Checkout.thy ===== *)
theory Checkout
  imports Cart_Store Notifications Api_Client I18n Ui_Fields
begin

text \<open>
  The checkout page, \<open>frontend/src/pages/Checkout.tsx\<close>, with the two hooks it uses,
  \<open>lib/useFormAutosave.ts\<close> and \<open>lib/useUnsavedChanges.ts\<close>, and the form schema of this
  page. The submission runs in steps: the reservation request, then,
  whatever came of it, the order request, then its answer; the phase says which request is
  awaited. The form library validates before it calls the submit handler, and its
  \<open>watch()\<close> returns a new object on every render, so the autosave effect runs after every
  change of the page's state.
\<close>

subsection \<open>Autosave\<close>

record 'a autosave =
  saved_draft :: "'a option"
  pending_save :: "'a option"
  initial_mount :: bool

definition initial_autosave :: "'a option \<Rightarrow> 'a autosave" where
  "initial_autosave d = \<lparr>saved_draft = d, pending_save = None, initial_mount = True\<rparr>"

definition autosave_effect :: "bool \<Rightarrow> 'a \<Rightarrow> 'a autosave \<Rightarrow> 'a autosave" where
  \<comment> \<open>the previous effect's clean-up clears the timer first\<close>
  "autosave_effect enabled data s =
     (let s1 = s\<lparr>pending_save := None\<rparr>
      in if \<not> enabled then s1
         else if initial_mount s1 then s1\<lparr>initial_mount := False\<rparr>
         else s1\<lparr>pending_save := Some data\<rparr>)"

definition autosave_fires :: "'a autosave \<Rightarrow> 'a autosave" where
  "autosave_fires s =
     (case pending_save s of None \<Rightarrow> s
      | Some d \<Rightarrow> s\<lparr>saved_draft := Some d, pending_save := None\<rparr>)"

definition clearDraft :: "'a autosave \<Rightarrow> 'a autosave" where
  "clearDraft s = s\<lparr>saved_draft := None\<rparr>"

definition leave_prompt :: "bool \<Rightarrow> jsstring \<Rightarrow> jsstring option" where
  \<comment> \<open>what \<open>beforeunload\<close> asks\<close>
  "leave_prompt isDirty msg = (if isDirty then Some msg else None)"

subsection \<open>The forms\<close>

datatype payment_method = CreditCard | BankTransfer

record checkout_form =
  shipping_address :: jsstring
  city :: jsstring
  zip_code :: jsstring
  payment :: payment_method

definition empty_form :: checkout_form where
  "empty_form = \<lparr>shipping_address = '''', city = '''', zip_code = '''', payment = CreditCard\<rparr>"

record form_errors =
  address_error :: "jsstring option"
  city_error :: "jsstring option"
  zip_error :: "jsstring option"

definition min_length :: "nat \<Rightarrow> jsstring \<Rightarrow> jsstring \<Rightarrow> jsstring option" where
  \<comment> \<open>\<open>z.string().min(n, message)\<close>\<close>
  "min_length n msg s = (if n \<le> length s then None else Some msg)"

definition checkoutSchema :: "checkout_form \<Rightarrow> form_errors" where
  "checkoutSchema f =
     \<lparr>address_error = min_length 5 ''Enter your shipping street address'' (shipping_address f),
      city_error = min_length 2 ''Enter a valid city name'' (city f),
      zip_error = min_length 5 ''Zip code must be at least 5 digits'' (zip_code f)\<rparr>"

definition no_errors :: form_errors where
  "no_errors = \<lparr>address_error = None, city_error = None, zip_error = None\<rparr>"

subsection \<open>The page\<close>

record reserve_item =
  ri_product :: jsstring
  ri_quantity :: rat

datatype sent_request =
    Reserve "reserve_item list"
  | PlaceOrder "reserve_item list" jsstring payment_method

datatype phase =
    Idle
  | Reserving "reserve_item list" checkout_form
  | Ordering "reserve_item list" checkout_form

record checkout =
  ck_cart :: cart_state
  ck_notifications :: notification_state
  ck_form :: checkout_form
  ck_errors :: form_errors
  ck_autosave :: "checkout_form autosave"
  ck_loading :: bool
  ck_success :: bool
  ck_error :: "jsstring option"
  ck_phase :: phase
  ck_sent :: "sent_request list"
  ck_route :: jsstring

definition rerender :: "checkout \<Rightarrow> checkout" where
  "rerender c = c\<lparr>ck_autosave := autosave_effect (\<not> ck_success c) (ck_form c) (ck_autosave c)\<rparr>"

definition mount_checkout ::
    "cart_state \<Rightarrow> notification_state \<Rightarrow> checkout_form option \<Rightarrow> checkout" where
  "mount_checkout cart notifs draft =
     (let c = rerender \<lparr>ck_cart = cart, ck_notifications = notifs, ck_form = empty_form, ck_errors = no_errors,
            ck_autosave = initial_autosave draft, ck_loading = False, ck_success = False,
            ck_error = None, ck_phase = Idle, ck_sent = [], ck_route = ''/checkout''\<rparr>
      in case saved_draft (ck_autosave c) of
           None \<Rightarrow> c
         | Some d \<Rightarrow> rerender (c\<lparr>ck_form := d\<rparr>))"

definition reserve_items :: "cart_state \<Rightarrow> reserve_item list" where
  "reserve_items s = map (\<lambda>i. \<lparr>ri_product = product_id i, ri_quantity = quantity i\<rparr>) (items s)"

definition full_address :: "checkout_form \<Rightarrow> jsstring" where
  "full_address d = shipping_address d @ '', '' @ city d @ '' ('' @ zip_code d @ '')''"

definition submit_start :: "checkout \<Rightarrow> checkout" where
  "submit_start c =
     (let errs = checkoutSchema (ck_form c)
      in if errs \<noteq> no_errors then rerender (c\<lparr>ck_errors := errs\<rparr>)
         else rerender (c\<lparr>ck_errors := no_errors, ck_loading := True, ck_error := None,
                ck_phase := Reserving (reserve_items (ck_cart c)) (ck_form c),
                ck_sent := ck_sent c @ [Reserve (reserve_items (ck_cart c))]\<rparr>))"

definition reserve_answered :: "checkout \<Rightarrow> checkout" where
  \<comment> \<open>a failed reservation is swallowed\<close>
  "reserve_answered c =
     (case ck_phase c of
        Reserving its d \<Rightarrow> c\<lparr>ck_phase := Ordering its d,
            ck_sent := ck_sent c @ [PlaceOrder its (full_address d) (payment d)]\<rparr>
      | _ \<Rightarrow> c)"

definition error_text :: "thrown \<Rightarrow> jsstring \<Rightarrow> jsstring option" where
  \<comment> \<open>\<open>err.response?.data?.detail || err.message || fallback\<close>, which throws when \<open>err\<close> is null\<close>
  "error_text e fallback =
     (if e = Nothing then None
      else Some (if truthy (response_detail e) then the (response_detail e) else js_or (thrown_message e) fallback))"

definition order_answered :: "env \<Rightarrow> thrown option \<Rightarrow> checkout \<Rightarrow> checkout" where
  "order_answered env res c =
     (case ck_phase c of
        Ordering its d \<Rightarrow>
          (case res of
             None \<Rightarrow> rerender (c\<lparr>ck_notifications := addNotification env ''Order Placed''
                          ''Your checkout transaction completed successfully.'' ''order'' (ck_notifications c),
                        ck_cart := clearCart (ck_cart c), ck_autosave := clearDraft (ck_autosave c),
                        ck_success := True, ck_loading := False, ck_phase := Idle\<rparr>)
           | Some e \<Rightarrow> rerender (c\<lparr>ck_error :=
                          (case error_text e ''Failed to process order checkout. Try again.'' of
                             None \<Rightarrow> ck_error c | Some t \<Rightarrow> Some t),
                        ck_loading := False, ck_phase := Idle\<rparr>))
      | _ \<Rightarrow> c)"

datatype checkout_action =
    TypeAddress jsstring
  | TypeCity jsstring
  | TypeZip jsstring
  | ChoosePayment payment_method
  | Submit
  | ViewOrders
  | NoAction

datatype checkout_event =
    Act checkout_action
  | ReserveAnswered "thrown option"
  | OrderAnswered env "thrown option"
  | AutosaveTimer

fun checkout_act :: "checkout \<Rightarrow> checkout_action \<Rightarrow> checkout" where
  "checkout_act c (TypeAddress t) = rerender (c\<lparr>ck_form := (ck_form c)\<lparr>shipping_address := t\<rparr>\<rparr>)"
| "checkout_act c (TypeCity t) = rerender (c\<lparr>ck_form := (ck_form c)\<lparr>city := t\<rparr>\<rparr>)"
| "checkout_act c (TypeZip t) = rerender (c\<lparr>ck_form := (ck_form c)\<lparr>zip_code := t\<rparr>\<rparr>)"
| "checkout_act c (ChoosePayment p) = rerender (c\<lparr>ck_form := (ck_form c)\<lparr>payment := p\<rparr>\<rparr>)"
| "checkout_act c Submit = (if ck_loading c \<or> ck_success c then c else submit_start c)"
| "checkout_act c ViewOrders = (if ck_success c then c\<lparr>ck_route := ''/orders''\<rparr> else c)"
| "checkout_act c NoAction = c"

fun checkout_step :: "checkout \<Rightarrow> checkout_event \<Rightarrow> checkout" where
  "checkout_step c (Act a) = checkout_act c a"
| "checkout_step c (ReserveAnswered res) = reserve_answered c"
| "checkout_step c (OrderAnswered env res) = order_answered env res c"
| "checkout_step c AutosaveTimer = c\<lparr>ck_autosave := autosave_fires (ck_autosave c)\<rparr>"

subsection \<open>The view\<close>

definition checkout_input ::
    "jsstring \<Rightarrow> jsstring option \<Rightarrow> jsstring \<Rightarrow> (jsstring \<Rightarrow> checkout_action) \<Rightarrow> checkout_action node" where
  "checkout_input label err name onText =
     input_view False NoAction
       \<lparr>fld_id = None, fld_label = Some label, fld_error = err, fld_hint = None, fld_required = True,
        fld_props = [Attr ''name'' name, OnText ''change'' onText],
        fld_type = None, fld_success = None, fld_icon = None, fld_right_icon = None\<rparr>"

definition success_view :: "i18n_state \<Rightarrow> checkout_action node" where
  "success_view st =
     El ''div'' []
       [El ''div'' [] [Icon ''CheckCircle''],
        El ''h1'' [] [Txt (translate st ''checkout.success'' [])],
        El ''p'' [] [Txt (translate st ''checkout.successDescription'' [])],
        button_view False False None [On ''click'' ViewOrders] [Txt ''View Orders History'']]"

definition payment_buttons :: "i18n_state \<Rightarrow> checkout_action node" where
  "payment_buttons st =
     El ''div'' []
       [El ''button'' [Attr ''type'' ''button'', On ''click'' (ChoosePayment CreditCard)]
          [Icon ''CreditCard'', El ''span'' [] [Txt (translate st ''checkout.creditCard'' [])]],
        El ''button'' [Attr ''type'' ''button'', On ''click'' (ChoosePayment BankTransfer)]
          [Icon ''Landmark'', El ''span'' [] [Txt (translate st ''checkout.bankTransfer'' [])]]]"

definition checkout_view :: "i18n_state \<Rightarrow> checkout \<Rightarrow> checkout_action node" where
  "checkout_view st c =
     (if ck_success c then success_view st
      else El ''div'' []
       [El ''h1'' [] [Txt (translate st ''checkout.title'' [])],
        El ''div'' []
          [El ''form'' []
            (show_if (truthy (ck_error c))
               [alert_view AlertError (Some ''Checkout Error'') None False None [Txt (str_or (ck_error c) '''')]]
             @ [El ''div'' []
                  [El ''h3'' [] [Txt (translate st ''checkout.shipping'' [])],
                   checkout_input (translate st ''checkout.street'' []) (address_error (ck_errors c))
                     ''shipping_address'' TypeAddress,
                   El ''div'' []
                     [checkout_input (translate st ''checkout.city'' []) (city_error (ck_errors c)) ''city'' TypeCity,
                      checkout_input (translate st ''checkout.zip'' []) (zip_error (ck_errors c)) ''zip_code'' TypeZip]],
                El ''div'' []
                  [El ''h3'' [] [Txt (translate st ''checkout.payment'' [])], payment_buttons st],
                button_view (ck_loading c) False None [Attr ''type'' ''submit'', On ''submit'' Submit]
                  [Txt (translate st ''checkout.placeOrder'' []), Txt '' - $'',
                   Num (total (getCartTotals (ck_cart c)))]])]])"

subsection \<open>Orders, the cart and the draft\<close>

definition valid_form :: "checkout_form \<Rightarrow> bool" where
  "valid_form d \<longleftrightarrow> 5 \<le> length (shipping_address d) \<and> 2 \<le> length (city d) \<and> 5 \<le> length (zip_code d)"

lemma schema_valid: "checkoutSchema d = no_errors \<longleftrightarrow> valid_form d"
  by (auto simp: checkoutSchema_def no_errors_def min_length_def valid_form_def)

definition order_requests :: "(reserve_item list \<times> checkout_form) list \<Rightarrow> sent_request list" where
  "order_requests os = concat (map (\<lambda>(its, d). [Reserve its, PlaceOrder its (full_address d) (payment d)]) os)"

definition awaited :: "phase \<Rightarrow> sent_request list" where
  "awaited p = (case p of Reserving its d \<Rightarrow> [Reserve its] | _ \<Rightarrow> [])"

definition phase_valid :: "phase \<Rightarrow> bool" where
  "phase_valid p = (case p of Reserving its d \<Rightarrow> valid_form d | _ \<Rightarrow> True)"

definition orders_ok :: "sent_request list \<Rightarrow> phase \<Rightarrow> bool" where
  "orders_ok sent p \<longleftrightarrow> (\<exists>os. sent = order_requests os @ awaited p \<and> list_all (\<lambda>(its, d). valid_form d) os)"

definition checkout_inv :: "checkout \<Rightarrow> bool" where
  "checkout_inv c \<longleftrightarrow> (ck_loading c \<longleftrightarrow> ck_phase c \<noteq> Idle) \<and> phase_valid (ck_phase c) \<and>
     orders_ok (ck_sent c) (ck_phase c) \<and>
     (ck_success c \<longrightarrow> items (ck_cart c) = [] \<and> saved_draft (ck_autosave c) = None \<and>
        pending_save (ck_autosave c) = None \<and> ck_phase c = Idle)"

lemma order_requests_snoc [simp]:
  "order_requests (os @ [(its, d)]) = order_requests os @ [Reserve its, PlaceOrder its (full_address d) (payment d)]"
  by (simp add: order_requests_def)

lemma orders_ok_start: "orders_ok sent Idle \<Longrightarrow> orders_ok (sent @ [Reserve its]) (Reserving its d)"
  by (auto simp: orders_ok_def awaited_def)

lemma orders_ok_reserved:
  assumes "orders_ok sent (Reserving its d)" "valid_form d"
  shows "orders_ok (sent @ [PlaceOrder its (full_address d) (payment d)]) (Ordering its d)"
proof -
  obtain os where "sent = order_requests os @ [Reserve its]" "list_all (\<lambda>(its, d). valid_form d) os"
    using assms(1) by (auto simp: orders_ok_def awaited_def)
  then show ?thesis using assms(2) unfolding orders_ok_def
    by (intro exI [of _ "os @ [(its, d)]"]) (simp add: awaited_def)
qed

lemma orders_ok_idle [simp]: "orders_ok sent (Ordering its d) \<longleftrightarrow> orders_ok sent Idle"
  by (simp add: orders_ok_def awaited_def)

lemma orders_ok_Nil [simp]: "orders_ok [] Idle"
  by (auto simp: orders_ok_def awaited_def order_requests_def intro: exI [of _ "[]"])

lemma rerender_frame [simp]:
  "ck_cart (rerender c) = ck_cart c" "ck_notifications (rerender c) = ck_notifications c"
  "ck_form (rerender c) = ck_form c" "ck_errors (rerender c) = ck_errors c"
  "ck_loading (rerender c) = ck_loading c" "ck_success (rerender c) = ck_success c"
  "ck_error (rerender c) = ck_error c" "ck_phase (rerender c) = ck_phase c"
  "ck_sent (rerender c) = ck_sent c" "ck_route (rerender c) = ck_route c"
  "saved_draft (ck_autosave (rerender c)) = saved_draft (ck_autosave c)"
  by (simp_all add: rerender_def autosave_effect_def Let_def)

lemma rerender_pending: "ck_success c \<Longrightarrow> pending_save (ck_autosave (rerender c)) = None"
  by (simp add: rerender_def autosave_effect_def)

lemma checkout_inv_rerender: "checkout_inv c \<Longrightarrow> checkout_inv (rerender c)"
  using rerender_pending [of c] by (auto simp: checkout_inv_def)

lemma checkout_inv_form: "checkout_inv c \<Longrightarrow> checkout_inv (c\<lparr>ck_form := f\<rparr>)"
  by (simp add: checkout_inv_def)

lemma submit_start_inv:
  assumes "checkout_inv c" "\<not> ck_loading c" "\<not> ck_success c"
  shows "checkout_inv (submit_start c)"
proof (cases "checkoutSchema (ck_form c) = no_errors")
  case True
  have "orders_ok (ck_sent c) Idle" using assms by (auto simp: checkout_inv_def)
  then have "checkout_inv (c\<lparr>ck_errors := no_errors, ck_loading := True, ck_error := None,
      ck_phase := Reserving (reserve_items (ck_cart c)) (ck_form c),
      ck_sent := ck_sent c @ [Reserve (reserve_items (ck_cart c))]\<rparr>)"
    using assms True by (simp add: checkout_inv_def phase_valid_def schema_valid orders_ok_start)
  then show ?thesis using True by (simp add: submit_start_def checkout_inv_rerender)
next
  case False
  have "checkout_inv (c\<lparr>ck_errors := e\<rparr>)" for e using assms(1) by (simp add: checkout_inv_def)
  then show ?thesis using False by (simp add: submit_start_def checkout_inv_rerender)
qed

lemma reserve_answered_inv: "checkout_inv c \<Longrightarrow> checkout_inv (reserve_answered c)"
  by (cases "ck_phase c")
    (auto simp: checkout_inv_def reserve_answered_def phase_valid_def orders_ok_reserved simp del: orders_ok_idle)

lemma order_answered_inv:
  assumes "checkout_inv c" shows "checkout_inv (order_answered env res c)"
proof (cases "ck_phase c")
  case (Ordering its d)
  then have i: "ck_loading c" "orders_ok (ck_sent c) Idle" "\<not> ck_success c"
    using assms by (simp_all add: checkout_inv_def)
  show ?thesis
  proof (cases res)
    case None
    then show ?thesis using i Ordering
      by (simp add: checkout_inv_def phase_valid_def order_answered_def rerender_pending clearCart_def clearDraft_def)
  next
    case (Some e)
    then show ?thesis using i Ordering
      by (simp add: checkout_inv_def phase_valid_def order_answered_def)
  qed
qed (use assms in \<open>simp_all add: order_answered_def\<close>)

lemma mount_inv: "checkout_inv (mount_checkout cart notifs draft)"
proof -
  have "checkout_inv (rerender \<lparr>ck_cart = cart, ck_notifications = notifs, ck_form = empty_form, ck_errors = no_errors,
      ck_autosave = initial_autosave draft, ck_loading = False, ck_success = False,
      ck_error = None, ck_phase = Idle, ck_sent = [], ck_route = ''/checkout''\<rparr>)"
    by (rule checkout_inv_rerender) (simp add: checkout_inv_def phase_valid_def)
  then show ?thesis
    by (auto simp: mount_checkout_def Let_def intro: checkout_inv_rerender checkout_inv_form split: option.split)
qed

interpretation checkout: state_machine "mount_checkout cart notifs draft" checkout_step checkout_inv
  for cart notifs draft
proof unfold_locales
  show "checkout_inv (mount_checkout cart notifs draft)" by (rule mount_inv)
  show "checkout_inv (checkout_step c e)" if i: "checkout_inv c" for c e
  proof (cases e)
    case (Act a)
    have "checkout_inv (checkout_act c a)"
    proof (cases a)
      case Submit
      then show ?thesis using i submit_start_inv [OF i] by auto
    next
      case ViewOrders
      then show ?thesis using i by (auto simp: checkout_inv_def)
    qed (use i in \<open>simp_all add: checkout_inv_rerender checkout_inv_form\<close>)
    then show ?thesis using Act by simp
  next
    case AutosaveTimer
    then show ?thesis using i
      by (auto simp: checkout_inv_def autosave_fires_def split: option.split)
  qed (use i in \<open>simp_all add: reserve_answered_inv order_answered_inv\<close>)
qed

text \<open>C4. Over any run of the page, in any order of typing, submitting, timers and answers: the
  requests sent are pairs of a reservation and an order for the same items, at most one pair
  being under way; every order carries an address that passed validation; the page is
  loading exactly while a request is awaited, so no second submission starts; and when
  success is shown the cart is empty and no draft is saved or about to be.\<close>

theorem checkout_run:
  "checkout_inv (run checkout_step (mount_checkout cart notifs draft) es)"
  by (rule checkout.inv_run)

text \<open>C5. The answer of the order request decides: on success the cart is emptied, the draft is
  removed and one order notification is added (unless muted). On failure, whatever the promise is rejected with, the cart, the
  saved draft, the form and the notifications stay and loading ends; the message is the detail of the answer
  where the rejection carries one, else its message, else a general text, and nothing at all for a rejection
  with null, on which the handler itself throws. So an error that the client has mapped shows the text of its status, without
  the detail of the server. No other event changes the cart.\<close>

theorem order_answer_outcome:
  assumes "ck_phase c = Ordering its d"
  shows "(let c' = checkout_step c (OrderAnswered env None) in
      ck_success c' \<and> items (ck_cart c') = [] \<and> saved_draft (ck_autosave c') = None \<and> \<not> ck_loading c' \<and>
      unread (ck_notifications c') = unread (ck_notifications c) +
        (if preference (preferences (ck_notifications c)) ''order'' then 1 else 0)) \<and>
    (let c' = checkout_step c (OrderAnswered env (Some e)) in
      ck_cart c' = ck_cart c \<and> ck_form c' = ck_form c \<and> ck_notifications c' = ck_notifications c \<and>
      saved_draft (ck_autosave c') = saved_draft (ck_autosave c) \<and> ck_success c' = ck_success c \<and> \<not> ck_loading c' \<and>
      ck_error c' = (case e of
          Nothing \<Rightarrow> ck_error c
        | AxiosFailure st (Some (x # xs)) m \<Rightarrow> Some (x # xs)
        | AxiosFailure st det (x # xs) \<Rightarrow> Some (x # xs)
        | ErrorObject (x # xs) \<Rightarrow> Some (x # xs)
        | MappedError se \<Rightarrow> Some (if se_message se = [] then ''Failed to process order checkout. Try again.'' else se_message se)
        | _ \<Rightarrow> Some ''Failed to process order checkout. Try again.'')) \<and>
    ck_error (checkout_step c (OrderAnswered env (Some (MappedError (mapAPIError f))))) = Some (se_message (mapAPIError f)) \<and>
    (ck_cart (checkout_step c0 ev) = ck_cart c0 \<or>
      (\<exists>its' d' env'. ck_phase c0 = Ordering its' d' \<and> ev = OrderAnswered env' None))"
proof (intro conjI)
  show "let c' = checkout_step c (OrderAnswered env None) in
      ck_success c' \<and> items (ck_cart c') = [] \<and> saved_draft (ck_autosave c') = None \<and> \<not> ck_loading c' \<and>
      unread (ck_notifications c') = unread (ck_notifications c) +
        (if preference (preferences (ck_notifications c)) ''order'' then 1 else 0)"
    using assms by (simp add: order_answered_def clearCart_def clearDraft_def Let_def
        addNotification_enabled addNotification_muted)
  show "let c' = checkout_step c (OrderAnswered env (Some e)) in
      ck_cart c' = ck_cart c \<and> ck_form c' = ck_form c \<and> ck_notifications c' = ck_notifications c \<and>
      saved_draft (ck_autosave c') = saved_draft (ck_autosave c) \<and> ck_success c' = ck_success c \<and> \<not> ck_loading c' \<and>
      ck_error c' = (case e of
          Nothing \<Rightarrow> ck_error c
        | AxiosFailure st (Some (x # xs)) m \<Rightarrow> Some (x # xs)
        | AxiosFailure st det (x # xs) \<Rightarrow> Some (x # xs)
        | ErrorObject (x # xs) \<Rightarrow> Some (x # xs)
        | MappedError se \<Rightarrow> Some (if se_message se = [] then ''Failed to process order checkout. Try again.'' else se_message se)
        | _ \<Rightarrow> Some ''Failed to process order checkout. Try again.'')"
    using assms
    by (simp add: order_answered_def error_text_def truthy_def js_or_def Let_def
        split: thrown.split option.split list.split)
  have "se_message (mapAPIError f) \<noteq> []" using mapped_message_shown .
  then show "ck_error (checkout_step c (OrderAnswered env (Some (MappedError (mapAPIError f))))) = Some (se_message (mapAPIError f))"
    using assms by (simp add: order_answered_def error_text_def truthy_def js_or_def del: mapAPIError.simps)
  show "ck_cart (checkout_step c0 ev) = ck_cart c0 \<or>
      (\<exists>its' d' env'. ck_phase c0 = Ordering its' d' \<and> ev = OrderAnswered env' None)"
  proof (cases ev)
    case (Act a)
    then show ?thesis by (cases a) (simp_all add: submit_start_def Let_def)
  next
    case (ReserveAnswered r)
    then show ?thesis by (simp add: reserve_answered_def split: phase.split)
  next
    case (OrderAnswered env' r)
    then show ?thesis by (cases "ck_phase c0"; cases r) (simp_all add: order_answered_def)
  qed simp
qed

definition sample_checkout :: checkout where
  "sample_checkout = run checkout_step
     (mount_checkout (addItem sample_item initial_cart) (initial_notifications ''now'' ''ago'')
       (Some \<lparr>shipping_address = ''1 Main St'', city = ''Pune'', zip_code = ''41100'', payment = BankTransfer\<rparr>))
     [Act Submit, ReserveAnswered None]"

theorem order_answer_outcome_witness:
  "items (ck_cart (checkout_step sample_checkout (OrderAnswered sample_env None))) = [] \<and>
   ck_error (checkout_step sample_checkout
     (OrderAnswered sample_env (Some (AxiosFailure (Some 401) (Some ''Token expired'') ''m'')))) = Some ''Token expired''"
proof -
  have "\<exists>its d. ck_phase sample_checkout = Ordering its d"
    by (simp add: sample_checkout_def mount_checkout_def initial_autosave_def rerender_def autosave_effect_def
        submit_start_def checkoutSchema_def no_errors_def min_length_def reserve_answered_def)
  then obtain its d where "ck_phase sample_checkout = Ordering its d" by blast
  from order_answer_outcome [OF this, of sample_env "AxiosFailure (Some 401) (Some ''Token expired'') ''m''"] show ?thesis
    by (simp add: Let_def del: checkout_step.simps)
qed

text \<open>What the promise of the order request is rejected with, by the client: an answer of 401 that starts no rotation, for want of a refresh token,
  is handed on as it is, so the page shows its detail; every other answer is mapped; a request that waited for a
  rotation that failed is rejected with the error of the rotation, and with null when the rotation brought no token.\<close>

theorem order_rejections:
  "(response_status f \<noteq> Some 401 \<or> retried r \<longrightarrow>
      settled (on_error i r f cl) = settled cl @ [(i, Rejected (MappedError (mapAPIError f)))]) \<and>
   (response_status f = Some 401 \<and> \<not> retried r \<and> \<not> isRefreshing cl \<and> \<not> usable (refreshToken (auth cl)) \<longrightarrow>
      settled (on_error i r f cl) = settled cl @ [(i, Rejected f)]) \<and>
   (refreshing cl = Some (j, q) \<and> (i, r) \<in> set (failedQueue cl) \<longrightarrow>
      (i, Rejected f) \<in> set (settled (on_refresh_failed f cl)) \<and>
      (\<not> usable (rd_access t) \<longrightarrow> (i, Rejected Nothing) \<in> set (settled (on_refreshed t cl))))"
proof (intro conjI impI)
  assume "refreshing cl = Some (j, q) \<and> (i, r) \<in> set (failedQueue cl)"
  then show "(i, Rejected f) \<in> set (settled (on_refresh_failed f cl))"
    "\<not> usable (rd_access t) \<Longrightarrow> (i, Rejected Nothing) \<in> set (settled (on_refreshed t cl))"
    by (force simp: on_refresh_failed_def on_refreshed_def processQueue_eq usable_def settle_def issue_def Let_def image_iff)+
qed (auto simp: on_error_def settle_def usable_def Let_def simp del: mapAPIError.simps split: option.split)

subsection \<open>The draft follows the form\<close>

definition restored :: "checkout_form option \<Rightarrow> checkout_form" where
  \<comment> \<open>the form a visit starts with\<close>
  "restored d = (case d of None \<Rightarrow> empty_form | Some f \<Rightarrow> f)"

definition draft_inv :: "checkout \<Rightarrow> bool" where
  "draft_inv c \<longleftrightarrow> \<not> initial_mount (ck_autosave c) \<and>
     (let s = ck_autosave c
      in if ck_success c then saved_draft s = None \<and> pending_save s = None
         else pending_save s = Some (ck_form c) \<or> pending_save s = None \<and> restored (saved_draft s) = ck_form c)"

lemma mount_form: "ck_form (mount_checkout cart notifs d) = restored d"
  by (simp add: mount_checkout_def initial_autosave_def restored_def Let_def split: option.split)

lemma draft_mount: "draft_inv (mount_checkout cart notifs d)"
  by (cases d) (simp_all add: draft_inv_def mount_checkout_def initial_autosave_def restored_def rerender_def
      autosave_effect_def Let_def)

lemma draft_rerender:
  "\<not> initial_mount (ck_autosave c) \<Longrightarrow> (ck_success c \<Longrightarrow> saved_draft (ck_autosave c) = None) \<Longrightarrow> draft_inv (rerender c)"
  by (simp add: draft_inv_def rerender_def autosave_effect_def Let_def)

lemma draft_change:
  assumes "draft_inv c" "ck_autosave d = ck_autosave c" "ck_success d = ck_success c"
  shows "draft_inv (rerender d)"
  using assms by (intro draft_rerender) (auto simp: draft_inv_def Let_def split: if_splits)

lemma draft_frame:
  "draft_inv c \<Longrightarrow> ck_autosave d = ck_autosave c \<Longrightarrow> ck_success d = ck_success c \<Longrightarrow> ck_form d = ck_form c \<Longrightarrow> draft_inv d"
  by (simp only: draft_inv_def simp_thms)

lemma draft_step: "draft_inv c \<Longrightarrow> draft_inv (checkout_step c e)"
proof (cases e)
  case (Act a)
  assume i: "draft_inv c"
  show ?thesis
  proof (cases a)
    case ViewOrders
    then show ?thesis using Act i by (auto intro: draft_frame)
  qed (use Act i in \<open>auto simp: submit_start_def Let_def intro: draft_change\<close>)
next
  case (ReserveAnswered r)
  assume "draft_inv c"
  then show ?thesis using ReserveAnswered by (auto simp: reserve_answered_def intro: draft_frame split: phase.split)
next
  case (OrderAnswered env r)
  assume i: "draft_inv c"
  then have "\<not> initial_mount (ck_autosave c)" "ck_success c \<Longrightarrow> saved_draft (ck_autosave c) = None"
    by (simp_all add: draft_inv_def Let_def)
  then show ?thesis using OrderAnswered i
    by (auto simp: order_answered_def clearDraft_def intro!: draft_rerender split: phase.split option.split)
next
  case AutosaveTimer
  assume "draft_inv c"
  then show ?thesis using AutosaveTimer
    by (auto simp: draft_inv_def autosave_fires_def restored_def Let_def split: option.splits)
qed

interpretation draft: state_machine "mount_checkout cart notifs d" checkout_step draft_inv for cart notifs d
  by unfold_locales (auto simp: draft_mount draft_step)

text \<open>C8. What was typed survives leaving the page. Over any run of the page, whatever was typed, submitted
  and answered in whatever order: once the autosave timer has fired, opening the page again shows the
  form as it was, whatever the cart is by then; and after an order succeeded the page opens with an empty form.\<close>

theorem draft_survives_reload:
  "let c = run checkout_step (mount_checkout cart notifs draft) (es @ [AutosaveTimer])
   in ck_form (mount_checkout cart' notifs' (saved_draft (ck_autosave c))) = (if ck_success c then empty_form else ck_form c)"
proof -
  define c where "c = run checkout_step (mount_checkout cart notifs draft) es"
  have "draft_inv c" unfolding c_def by (rule draft.inv_run)
  then show ?thesis unfolding Let_def run_append c_def [symmetric] mount_form
    by (auto simp: draft_inv_def autosave_fires_def restored_def Let_def split: option.split)
qed

end
