(* ===== verification/Data_Table.thy ===== *)
theory Data_Table
  imports Js_Sort Ui_Widgets
begin

text \<open>
  The data table, \<open>frontend/src/components/data/DataTable.tsx\<close>: search, sorting by a
  column, paging, selection, column visibility and the CSV export, with the rendered
  table. Rows are of any type; a column reads a cell from a row. A cell is text or an
  element; \<open>String(...)\<close> of an element is \<open>[object Object]\<close>.

  \<open>collate\<close> is \<open>a.localeCompare(b, undefined, { numeric: true })\<close>, whose order depends
  on the language of the browser; what the table needs of it is the law
  \<open>consistent_comparator\<close>, which the standard demands.
\<close>

subsection \<open>Columns and state\<close>

datatype 'x cell = TextCell jsstring | ElementCell "'x node"

fun cell_string :: "'x cell \<Rightarrow> jsstring" where
  "cell_string (TextCell s) = s"
| "cell_string (ElementCell n) = ''[object Object]''"

fun cell_node :: "'x cell \<Rightarrow> 'x node" where
  "cell_node (TextCell s) = Txt s"
| "cell_node (ElementCell n) = n"

record ('r, 'x) data_column =
  col_id :: jsstring
  header :: jsstring
  accessor :: "'r \<Rightarrow> 'x cell"
  sortAccessor :: "('r \<Rightarrow> jsstring) option"
  searchable :: bool
  col_hidden :: bool

datatype sort_dir = Asc | Desc

record data_table =
  search :: jsstring
  sortCol :: "jsstring option"
  sortDir :: "sort_dir option"
  page :: nat
  pageSize :: nat
  selected :: "jsstring list"
  hiddenCols :: "jsstring list"

definition initial_table :: "nat \<Rightarrow> ('r, 'x) data_column list \<Rightarrow> data_table" where
  "initial_table defaultPageSize allColumns =
     \<lparr>search = '''', sortCol = None, sortDir = None, page = 1, pageSize = defaultPageSize, selected = [],
      hiddenCols = map col_id (filter col_hidden allColumns)\<rparr>"

definition default_row_id :: "'r \<Rightarrow> nat \<Rightarrow> jsstring" where
  "default_row_id r i = show_nat i"

subsection \<open>What the table shows\<close>

definition visibleColumns :: "('r, 'x) data_column list \<Rightarrow> data_table \<Rightarrow> ('r, 'x) data_column list" where
  "visibleColumns allColumns s = filter (\<lambda>c. \<not> List.member (hiddenCols s) (col_id c)) allColumns"

definition filtered_rows :: "('r, 'x) data_column list \<Rightarrow> 'r list \<Rightarrow> data_table \<Rightarrow> 'r list" where
  "filtered_rows allColumns data s =
     (if search s = [] then data
      else let q = toLowerCase (search s);
               searchableIds = map col_id (filter searchable allColumns)
        in filter (\<lambda>row. list_ex (\<lambda>i.
             case List.find (\<lambda>c. col_id c = i) allColumns of
               None \<Rightarrow> False
             | Some col \<Rightarrow> str_includes (toLowerCase (cell_string (accessor col row))) q) searchableIds) data)"

definition sort_key :: "('r, 'x) data_column \<Rightarrow> 'r \<Rightarrow> jsstring" where
  "sort_key col row = (case sortAccessor col of Some f \<Rightarrow> f row | None \<Rightarrow> cell_string (accessor col row))"

definition row_order ::
    "(jsstring \<Rightarrow> jsstring \<Rightarrow> rat) \<Rightarrow> ('r, 'x) data_column \<Rightarrow> sort_dir \<Rightarrow> 'r \<Rightarrow> 'r \<Rightarrow> rat" where
  "row_order collate col d a b =
     (let cmp = collate (sort_key col a) (sort_key col b) in if d = Asc then cmp else - cmp)"

definition sorted_rows ::
    "(jsstring \<Rightarrow> jsstring \<Rightarrow> rat) \<Rightarrow> ('r, 'x) data_column list \<Rightarrow> 'r list \<Rightarrow> data_table \<Rightarrow> 'r list" where
  "sorted_rows collate allColumns data s =
     (let rows = filtered_rows allColumns data s in
      case (sortCol s, sortDir s) of
        (Some i, Some d) \<Rightarrow>
          if i = [] then rows
          else (case List.find (\<lambda>c. col_id c = i) allColumns of
             None \<Rightarrow> rows
           | Some col \<Rightarrow> js_sort (row_order collate col d) rows)
      | _ \<Rightarrow> rows)"

definition totalPages :: "nat \<Rightarrow> 'r list \<Rightarrow> nat" where
  "totalPages ps rows = max 1 ((length rows + ps - 1) div ps)"

definition safePage :: "data_table \<Rightarrow> 'r list \<Rightarrow> nat" where
  "safePage s rows = min (page s) (totalPages (pageSize s) rows)"

definition page_rows :: "nat \<Rightarrow> nat \<Rightarrow> 'r list \<Rightarrow> 'r list" where
  "page_rows ps p rows = take ps (drop ((p - 1) * ps) rows)"

definition paged :: "data_table \<Rightarrow> 'r list \<Rightarrow> 'r list" where
  "paged s rows = page_rows (pageSize s) (safePage s rows) rows"

definition paged_ids :: "('r \<Rightarrow> nat \<Rightarrow> jsstring) \<Rightarrow> data_table \<Rightarrow> 'r list \<Rightarrow> jsstring list" where
  "paged_ids getRowId s rows =
     map (\<lambda>(i, r). getRowId r (i + (safePage s rows - 1) * pageSize s))
       (zip [0..<length (paged s rows)] (paged s rows))"

definition allSelected :: "('r \<Rightarrow> nat \<Rightarrow> jsstring) \<Rightarrow> data_table \<Rightarrow> 'r list \<Rightarrow> bool" where
  "allSelected getRowId s rows =
     (paged s rows \<noteq> [] \<and> list_all (List.member (selected s)) (paged_ids getRowId s rows))"

subsection \<open>Operations\<close>

definition set_add :: "jsstring \<Rightarrow> jsstring list \<Rightarrow> jsstring list" where
  "set_add x xs = (if List.member xs x then xs else xs @ [x])"

definition set_delete :: "jsstring \<Rightarrow> jsstring list \<Rightarrow> jsstring list" where
  "set_delete x xs = filter (\<lambda>y. y \<noteq> x) xs"

definition set_toggle :: "jsstring \<Rightarrow> jsstring list \<Rightarrow> jsstring list" where
  "set_toggle x xs = (if List.member xs x then set_delete x xs else set_add x xs)"

definition toggleAll :: "('r \<Rightarrow> nat \<Rightarrow> jsstring) \<Rightarrow> 'r list \<Rightarrow> data_table \<Rightarrow> data_table" where
  "toggleAll getRowId rows s =
     (let ids = paged_ids getRowId s rows
      in if allSelected getRowId s rows
         then s\<lparr>selected := foldl (\<lambda>xs i. set_delete i xs) (selected s) ids\<rparr>
         else s\<lparr>selected := foldl (\<lambda>xs i. set_add i xs) (selected s) ids\<rparr>)"

definition toggleRow :: "jsstring \<Rightarrow> data_table \<Rightarrow> data_table" where
  "toggleRow i s = s\<lparr>selected := set_toggle i (selected s)\<rparr>"

definition selected_rows :: "('r \<Rightarrow> nat \<Rightarrow> jsstring) \<Rightarrow> 'r list \<Rightarrow> data_table \<Rightarrow> 'r list" where
  \<comment> \<open>what the owner and the bulk actions get\<close>
  "selected_rows getRowId data s =
     map snd (filter (\<lambda>(i, r). List.member (selected s) (getRowId r i)) (zip [0..<length data] data))"

definition handleSort :: "jsstring \<Rightarrow> data_table \<Rightarrow> data_table" where
  "handleSort colId s =
     (if sortCol s = Some colId then
        (let s1 = s\<lparr>sortDir := (case sortDir s of Some Asc \<Rightarrow> Some Desc | Some Desc \<Rightarrow> None | None \<Rightarrow> Some Asc)\<rparr>
         in if sortDir s = Some Desc then s1\<lparr>sortCol := None\<rparr> else s1)
      else s\<lparr>sortCol := Some colId, sortDir := Some Asc\<rparr>)"

definition toggleColumn :: "jsstring \<Rightarrow> data_table \<Rightarrow> data_table" where
  "toggleColumn colId s = s\<lparr>hiddenCols := set_toggle colId (hiddenCols s)\<rparr>"

definition changePageSize :: "nat \<Rightarrow> data_table \<Rightarrow> data_table" where
  "changePageSize n s = s\<lparr>pageSize := n, page := 1\<rparr>"

definition previousPage :: "data_table \<Rightarrow> data_table" where
  "previousPage s = s\<lparr>page := max 1 (page s - 1)\<rparr>"

definition nextPage :: "nat \<Rightarrow> data_table \<Rightarrow> data_table" where
  "nextPage n_pages s = s\<lparr>page := min n_pages (page s + 1)\<rparr>"

subsection \<open>CSV\<close>

fun join :: "jsstring \<Rightarrow> jsstring list \<Rightarrow> jsstring" where
  "join sep [] = []"
| "join sep [s] = s"
| "join sep (s # t # r) = s @ sep @ join sep (t # r)"

abbreviation dquote :: char where "dquote \<equiv> CHR 0x22"
abbreviation newline :: char where "newline \<equiv> CHR 0x0A"

definition csv_cell :: "jsstring \<Rightarrow> jsstring" where
  "csv_cell s = [dquote] @ concat (map (\<lambda>c. if c = dquote then [dquote, dquote] else [c]) s) @ [dquote]"

definition exportCSV :: "('r, 'x) data_column list \<Rightarrow> 'r list \<Rightarrow> data_table \<Rightarrow> jsstring" where
  "exportCSV allColumns rows s =
     (let cols = visibleColumns allColumns s
      in join '','' (map header cols) @ [newline] @
         join [newline] (map (\<lambda>row. join '','' (map (\<lambda>c. csv_cell (cell_string (accessor c row))) cols)) rows))"

subsection \<open>The view\<close>

datatype 'x table_action =
    Search search_action
  | ColumnMenu "jsstring popup_action"
  | Export
  | Bulk nat
  | ToggleAll
  | SortBy jsstring
  | ToggleRow jsstring
  | PageSizeText jsstring
  | Previous
  | Next
  | InCell 'x

definition column_menu :: "('r, 'x) data_column list \<Rightarrow> data_table \<Rightarrow> bool \<Rightarrow> 'x table_action node" where
  "column_menu allColumns s is_open =
     map_node ColumnMenu
       (dropdown_view (button_view False False (Some (Icon ''Columns'')) [] [Txt ''Columns''])
         (map (\<lambda>c. \<lparr>dd_id = col_id c, dd_label = header c, dd_disabled = False, dd_separator = False,
                    dd_click = Some (col_id c)\<rparr>) allColumns) is_open)"

definition header_cell :: "data_table \<Rightarrow> ('r, 'x) data_column \<Rightarrow> 'x table_action node" where
  "header_cell s col =
     El ''th'' [On ''click'' (SortBy (col_id col))]
       [El ''span'' []
         [Txt (header col),
          Icon (if sortCol s = Some (col_id col)
                then if sortDir s = Some Asc then ''ArrowUp'' else ''ArrowDown'' else ''ArrowUpDown'')]]"

definition table_row ::
    "bool \<Rightarrow> ('r, 'x) data_column list \<Rightarrow> data_table \<Rightarrow> jsstring \<Rightarrow> 'r \<Rightarrow> 'x table_action node" where
  "table_row selectable cols s rowId row =
     El ''tr'' []
       (show_if selectable
          [El ''td'' []
            [El ''input'' [Attr ''type'' ''checkbox'', Flag ''checked'' (List.member (selected s) rowId),
               On ''change'' (ToggleRow rowId), Attr ''aria-label'' (''Select row '' @ rowId)] []]]
        @ map (\<lambda>col. El ''td'' [] [map_node InCell (cell_node (accessor col row))]) cols)"

definition table_body ::
    "bool \<Rightarrow> jsstring option \<Rightarrow> jsstring option \<Rightarrow> ('r \<Rightarrow> nat \<Rightarrow> jsstring) \<Rightarrow> ('r, 'x) data_column list \<Rightarrow> data_table \<Rightarrow>
     'r list \<Rightarrow> 'x table_action node" where
  "table_body selectable emptyTitle emptyDescription getRowId cols s rows =
     El ''tbody'' []
       (if paged s rows = []
        then [El ''tr'' []
          [El ''td'' [NumAttr ''colSpan'' (of_nat (length cols + (if selectable then 1 else 0)))]
            [empty_state_view (if search s \<noteq> [] then EmptySearch else EmptyDefault) emptyTitle emptyDescription None []]]]
        else map (\<lambda>(i, row). table_row selectable cols s i row) (zip (paged_ids getRowId s rows) (paged s rows)))"

definition table_footer :: "data_table \<Rightarrow> 'r list \<Rightarrow> 'x table_action node" where
  "table_footer s rows =
     (let sp = safePage s rows; n_pages = totalPages (pageSize s) rows
      in El ''div'' []
        [El ''div'' []
           [Txt ''Showing '', Num (of_nat ((sp - 1) * pageSize s + 1)), Txt ''-'',
            Num (of_nat (min (sp * pageSize s) (length rows))), Txt '' of '', Num (of_nat (length rows)), Txt '' results''],
         El ''div'' []
           [El ''select'' [NumAttr ''value'' (of_nat (pageSize s)), OnText ''change'' PageSizeText]
              (map (\<lambda>n. El ''option'' [NumAttr ''value'' n] [Num n, Txt '' / page'']) [10, 25, 50, 100]),
            El ''div'' []
              [El ''button'' [On ''click'' Previous, Flag ''disabled'' (sp = 1), Attr ''aria-label'' ''Previous page'']
                 [Icon ''ChevronLeft''],
               El ''span'' [] [Num (of_nat sp), Txt '' / '', Num (of_nat n_pages)],
               El ''button'' [On ''click'' Next, Flag ''disabled'' (sp = n_pages), Attr ''aria-label'' ''Next page'']
                 [Icon ''ChevronRight'']]]])"

definition table_skeleton :: "'x table_action node" where
  "table_skeleton =
     El ''div'' [] (El ''div'' [] [El ''div'' [] [], El ''div'' [] []]
       # replicate 5 (El ''div'' [] (replicate 4 (El ''div'' [] []))))"

definition bulk_bar :: "jsstring list option \<Rightarrow> data_table \<Rightarrow> 'x table_action node list" where
  "bulk_bar bulkActions s =
     (case bulkActions of
        None \<Rightarrow> []
      | Some labels \<Rightarrow> show_if (selected s \<noteq> [])
          [El ''div'' []
            [El ''span'' [] [Num (of_nat (length (selected s))), Txt '' selected''],
             El ''div'' [] (map (\<lambda>(i, l). button_view False False None [On ''click'' (Bulk i)] [Txt l])
               (zip [0..<length labels] labels))]])"

definition table_view ::
    "(jsstring \<Rightarrow> jsstring \<Rightarrow> rat) \<Rightarrow> ('r \<Rightarrow> nat \<Rightarrow> jsstring) \<Rightarrow> ('r, 'x) data_column list \<Rightarrow> 'r list \<Rightarrow> bool \<Rightarrow> bool \<Rightarrow>
     jsstring list option \<Rightarrow> jsstring option \<Rightarrow> jsstring option \<Rightarrow> bool \<Rightarrow> search_box \<Rightarrow> data_table \<Rightarrow>
     'x table_action node" where
  "table_view collate getRowId allColumns data loading selectable bulkActions emptyTitle emptyDescription menuOpen box s =
     (if loading then table_skeleton
      else let rows = sorted_rows collate allColumns data s; cols = visibleColumns allColumns s
        in El ''div'' []
          ([El ''div'' []
             [map_node Search (search_box_view (Some (search s)) ''Search records...'' False box),
              El ''div'' []
                [column_menu allColumns s menuOpen,
                 button_view False False (Some (Icon ''Download'')) [On ''click'' Export] [Txt ''Export'']]]]
           @ bulk_bar bulkActions s
           @ [El ''div'' []
               [El ''table'' []
                 [El ''thead'' []
                   [El ''tr'' []
                     (show_if selectable
                        [El ''th'' [] [El ''input'' [Attr ''type'' ''checkbox'',
                           Flag ''checked'' (allSelected getRowId s rows), On ''change'' ToggleAll,
                           Attr ''aria-label'' ''Select all rows''] []]]
                      @ map (header_cell s) cols)],
                  table_body selectable emptyTitle emptyDescription getRowId cols s rows]],
              table_footer s rows]))"

subsection \<open>Events\<close>

text \<open>The table with the state of its two child widgets. Typing in the search box goes into
  the search at once; the box's own timer has no listener here. The texts of the page size
  menu are the numerals of its options.\<close>

record table_ui =
  tbl :: data_table
  tbl_box :: search_box
  tbl_menu :: bool

definition table_search :: "search_action \<Rightarrow> table_ui \<Rightarrow> table_ui" where
  "table_search a u =
     (let (box, calls) = (case a of ChangeText v \<Rightarrow> handleChange v (tbl_box u) | ClearText \<Rightarrow> clear_search (tbl_box u));
          set_search = (\<lambda>s c. case c of OnChange v \<Rightarrow> s\<lparr>search := v\<rparr> | OnSearch v \<Rightarrow> s)
      in u\<lparr>tbl_box := box, tbl := foldl set_search (tbl u) calls\<rparr>)"

definition table_columns :: "jsstring popup_action \<Rightarrow> table_ui \<Rightarrow> table_ui" where
  "table_columns a u =
     (let (is_open, picked) = popup_step (tbl_menu u) a
      in u\<lparr>tbl_menu := is_open, tbl := foldl (\<lambda>s i. toggleColumn i s) (tbl u) picked\<rparr>)"

definition initial_table_ui :: "nat \<Rightarrow> ('r, 'x) data_column list \<Rightarrow> table_ui" where
  "initial_table_ui defaultPageSize allColumns =
     \<lparr>tbl = initial_table defaultPageSize allColumns, tbl_box = initial_search_box (Some ''''), tbl_menu = False\<rparr>"

definition table_download ::
    "(jsstring \<Rightarrow> jsstring \<Rightarrow> rat) \<Rightarrow> ('r, 'x) data_column list \<Rightarrow> 'r list \<Rightarrow> table_ui \<Rightarrow> 'x table_action \<Rightarrow> jsstring option" where
  \<comment> \<open>the contents of the file an action downloads: the export has the sorted rows of all pages\<close>
  "table_download collate cols data u a =
     (case a of Export \<Rightarrow> Some (exportCSV cols (sorted_rows collate cols data (tbl u)) (tbl u)) | _ \<Rightarrow> None)"

fun table_act ::
    "(jsstring \<Rightarrow> jsstring \<Rightarrow> rat) \<Rightarrow> ('r \<Rightarrow> nat \<Rightarrow> jsstring) \<Rightarrow> ('r, 'x) data_column list \<Rightarrow> 'r list \<Rightarrow>
     table_ui \<Rightarrow> 'x table_action \<Rightarrow> table_ui" where
  "table_act collate getRowId cols data u (Search a) = table_search a u"
| "table_act collate getRowId cols data u (ColumnMenu a) = table_columns a u"
| "table_act collate getRowId cols data u ToggleAll =
     u\<lparr>tbl := toggleAll getRowId (sorted_rows collate cols data (tbl u)) (tbl u)\<rparr>"
| "table_act collate getRowId cols data u (SortBy i) = u\<lparr>tbl := handleSort i (tbl u)\<rparr>"
| "table_act collate getRowId cols data u (ToggleRow i) = u\<lparr>tbl := toggleRow i (tbl u)\<rparr>"
| "table_act collate getRowId cols data u (PageSizeText t) = u\<lparr>tbl := changePageSize (read_nat t) (tbl u)\<rparr>"
| "table_act collate getRowId cols data u Previous = u\<lparr>tbl := previousPage (tbl u)\<rparr>"
| "table_act collate getRowId cols data u Next =
     u\<lparr>tbl := nextPage (totalPages (pageSize (tbl u)) (sorted_rows collate cols data (tbl u))) (tbl u)\<rparr>"
| "table_act collate getRowId cols data u Export = u"
| "table_act collate getRowId cols data u (Bulk n) = u"
| "table_act collate getRowId cols data u (InCell x) = u"

subsection \<open>Sorting\<close>

context consistent_comparator begin

lemma order_of_key:
  assumes "\<sigma> = 1 \<or> \<sigma> = (- 1 :: rat)"
  shows "consistent_comparator (\<lambda>a b. \<sigma> * cmp (key a) (key b))"
proof
  show "\<sigma> * cmp (key a) (key a) = 0" for a by (simp add: cmp_refl)
  show "\<sigma> * cmp (key a) (key b) < 0 \<longleftrightarrow> 0 < \<sigma> * cmp (key b) (key a)" for a b
    using assms cmp_antisym [of "key a" "key b"] cmp_antisym [of "key b" "key a"] by auto
  show "\<sigma> * cmp (key a) (key b) \<le> 0 \<Longrightarrow> \<sigma> * cmp (key b) (key c) \<le> 0 \<Longrightarrow> \<sigma> * cmp (key a) (key c) \<le> 0" for a b c
  proof -
    have ge: "0 \<le> cmp x y \<longleftrightarrow> cmp y x \<le> 0" for x y
      using cmp_antisym [of x y] by (metis not_less)
    show "\<sigma> * cmp (key a) (key b) \<le> 0 \<Longrightarrow> \<sigma> * cmp (key b) (key c) \<le> 0 \<Longrightarrow> \<sigma> * cmp (key a) (key c) \<le> 0"
      using assms cmp_trans [of "key a" "key b" "key c"] cmp_trans [of "key c" "key b" "key a"]
      by (auto simp: ge)
  qed
qed

end

lemma row_order_consistent:
  assumes "consistent_comparator collate"
  shows "consistent_comparator (row_order collate col d)"
proof -
  have "row_order collate col d =
      (\<lambda>a b. (if d = Asc then 1 else - 1) * collate (sort_key col a) (sort_key col b))"
    by (simp add: row_order_def fun_eq_iff Let_def)
  then show ?thesis
    using consistent_comparator.order_of_key [OF assms, of "if d = Asc then 1 else - 1" "sort_key col"] by simp
qed

lemma mset_sorted_rows: "mset (sorted_rows collate cols data s) = mset (filtered_rows cols data s)"
  by (simp add: sorted_rows_def Let_def split: option.split)

lemma length_sorted_rows: "length (sorted_rows collate cols data s) = length (filtered_rows cols data s)"
  by (metis mset_sorted_rows size_mset)

lemma find_column:
  assumes "distinct (map col_id cols)" "c \<in> set cols" shows "List.find (\<lambda>c'. col_id c' = col_id c) cols = Some c"
  using assms by (induction cols) (auto simp: image_iff)

lemma filtered_rows_spec:
  assumes "distinct (map col_id cols)"
  shows "filtered_rows cols data s =
    filter (\<lambda>r. search s = [] \<or> (\<exists>c \<in> set cols. searchable c \<and>
      sublist (toLowerCase (search s)) (toLowerCase (cell_string (accessor c r))))) data"
proof -
  have "(\<exists>i \<in> set (map col_id (filter searchable cols)).
      case List.find (\<lambda>c. col_id c = i) cols of None \<Rightarrow> False | Some col \<Rightarrow> P col) \<longleftrightarrow> (\<exists>c \<in> set cols. searchable c \<and> P c)" for P
    using find_column [OF assms] by auto
  then show ?thesis by (simp add: filtered_rows_def list_ex_iff str_includes_sublist Let_def del: set_map set_filter)
qed

text \<open>C10. The table shows exactly the rows of which some searchable column has a text that contains what was typed, upper and
  lower case being the same, each row as often as the data has it; not sorted, in the order of the data. Sorted upwards by a column, no row stands after one whose
  key (the text of the cell, or what the column sorts by instead) the language puts behind its own; downwards, no row after one whose key
  is before its own; and in both directions rows with equal keys stay in the order of the data. The columns must have different names.\<close>

theorem table_sorted:
  fixes cols :: "('r, 'x) data_column list" and data :: "'r list" and s :: data_table and collate :: "jsstring \<Rightarrow> jsstring \<Rightarrow> rat"
  defines "hits \<equiv> filter (\<lambda>r. search s = [] \<or> (\<exists>c \<in> set cols. searchable c \<and>
      sublist (toLowerCase (search s)) (toLowerCase (cell_string (accessor c r))))) data"
    and "shown \<equiv> sorted_rows collate cols data s"
    and "key \<equiv> (\<lambda>(c :: ('r, 'x) data_column) r. case sortAccessor c of Some f \<Rightarrow> f r | None \<Rightarrow> cell_string (accessor c r))"
  assumes "consistent_comparator collate" "distinct (map col_id cols)"
  shows "mset shown = mset hits \<and> (sortCol s = None \<longrightarrow> shown = hits) \<and>
    (\<forall>c \<in> set cols. sortCol s = Some (col_id c) \<and> col_id c \<noteq> [] \<longrightarrow>
       (sortDir s = Some Asc \<longrightarrow> sorted_wrt (\<lambda>a b. collate (key c a) (key c b) \<le> 0) shown) \<and>
       (sortDir s = Some Desc \<longrightarrow> sorted_wrt (\<lambda>a b. collate (key c b) (key c a) \<le> 0) shown) \<and>
       (sortDir s \<noteq> None \<longrightarrow>
          (\<forall>a. filter (\<lambda>b. collate (key c a) (key c b) = 0) shown = filter (\<lambda>b. collate (key c a) (key c b) = 0) hits)))"
proof (intro conjI ballI impI allI)
  have h: "filtered_rows cols data s = hits" unfolding hits_def by (rule filtered_rows_spec [OF assms(5)])
  then show "mset shown = mset hits" by (simp add: shown_def mset_sorted_rows)
  show "shown = hits" if "sortCol s = None" using that h by (simp add: shown_def sorted_rows_def)
  fix c assume c: "c \<in> set cols" and sc: "sortCol s = Some (col_id c) \<and> col_id c \<noteq> []"
  have sk: "sort_key c = key c" by (simp add: sort_key_def key_def fun_eq_iff)
  have js: "shown = js_sort (row_order collate c d) hits" if "sortDir s = Some d" for d
    using find_column [OF assms(5) c] sc that h by (simp add: shown_def sorted_rows_def)
  note sorted = consistent_comparator.sorted_js_sort [OF row_order_consistent [OF assms(4), of c]]
    and stable = consistent_comparator.stable_js_sort [OF row_order_consistent [OF assms(4), of c]]
  have flip: "0 \<le> collate x y \<longleftrightarrow> collate y x \<le> 0" for x y
    using consistent_comparator.cmp_antisym [OF assms(4), of x y] consistent_comparator.cmp_antisym [OF assms(4), of y x] by linarith
  show "sorted_wrt (\<lambda>a b. collate (key c a) (key c b) \<le> 0) shown" if "sortDir s = Some Asc"
    using sorted [of Asc hits] js [OF that] by (simp add: row_order_def sk)
  show "sorted_wrt (\<lambda>a b. collate (key c b) (key c a) \<le> 0) shown" if "sortDir s = Some Desc"
    using sorted [of Desc hits] js [OF that] by (simp add: row_order_def sk flip)
  show "filter (\<lambda>b. collate (key c a) (key c b) = 0) shown = filter (\<lambda>b. collate (key c a) (key c b) = 0) hits"
    if dir: "sortDir s \<noteq> None" for a
  proof -
    obtain d where d: "sortDir s = Some d" using dir by blast
    have "row_order collate c d a b = 0 \<longleftrightarrow> collate (key c a) (key c b) = 0" for b
      by (simp add: row_order_def sk Let_def)
    then show ?thesis using stable [of d a hits] js [OF d] by simp
  qed
qed

text \<open>A collation for the witnesses: by length.\<close>

definition by_length :: "jsstring \<Rightarrow> jsstring \<Rightarrow> rat" where
  "by_length a b = of_nat (length a) - of_nat (length b)"

interpretation by_length: consistent_comparator by_length
  by unfold_locales (auto simp: by_length_def)

definition text_column :: "jsstring \<Rightarrow> (jsstring, unit) data_column" where
  "text_column i = \<lparr>col_id = i, header = i, accessor = TextCell, sortAccessor = None, searchable = True, col_hidden = False\<rparr>"

theorem table_sorted_witness:
  "let shown = sorted_rows by_length [text_column ''n''] [''Bb'', ''ab'', ''ccc'', ''bcbc'']
     ((initial_table 10 [text_column ''n''])\<lparr>search := ''B'', sortCol := Some ''n'', sortDir := Some Desc\<rparr>)
   in mset shown = {#''Bb'', ''ab'', ''bcbc''#} \<and> sorted_wrt (\<lambda>a b. by_length b a \<le> 0) shown \<and>
      filter (\<lambda>b. by_length ''Bb'' b = 0) shown = [''Bb'', ''ab'']"
proof -
  let ?s = "(initial_table 10 [text_column ''n''])\<lparr>search := ''B'', sortCol := Some ''n'', sortDir := Some Desc\<rparr>"
  have d: "distinct (map col_id [text_column ''n''])" by simp
  have f: "filter (\<lambda>r. search ?s = [] \<or> (\<exists>c \<in> set [text_column ''n'']. searchable c \<and>
      sublist (toLowerCase (search ?s)) (toLowerCase (cell_string (accessor c r))))) [''Bb'', ''ab'', ''ccc'', ''bcbc''] =
    [''Bb'', ''ab'', ''bcbc'']"
    unfolding str_includes_sublist [symmetric] by code_simp
  note t = table_sorted [OF by_length.consistent_comparator_axioms d, where s = ?s and data = "[''Bb'', ''ab'', ''ccc'', ''bcbc'']", unfolded f]
  have c: "text_column ''n'' \<in> set [text_column ''n'']" "sortCol ?s = Some (col_id (text_column ''n'')) \<and> col_id (text_column ''n'') \<noteq> []"
    "sortDir ?s = Some Desc" "sortDir ?s \<noteq> None" "sortAccessor (text_column ''n'') = None"
    by (simp_all add: text_column_def)
  have k: "cell_string (accessor (text_column ''n'') r) = r" for r by (simp add: text_column_def)
  have e: "filter (\<lambda>b. by_length ''Bb'' b = 0) [''Bb'', ''ab'', ''bcbc''] = [''Bb'', ''ab'']" by (simp add: by_length_def)
  note u = bspec [OF conjunct2 [OF conjunct2 [OF t]] c(1), THEN mp, OF c(2), unfolded c(5) option.case k]
  show ?thesis unfolding Let_def
  proof (intro conjI)
    show "mset (sorted_rows by_length [text_column ''n''] [''Bb'', ''ab'', ''ccc'', ''bcbc''] ?s) = {#''Bb'', ''ab'', ''bcbc''#}"
      using conjunct1 [OF t] by simp
  qed (use u c(3,4) e in simp_all)
qed

text \<open>Clicking the header of a column three times sorts by it upwards, then downwards, then no
  longer; clicking another column starts that one upwards, whatever was sorted before.\<close>

theorem sort_cycle:
  "let s0 = s\<lparr>sortCol := None, sortDir := None\<rparr>; s1 = handleSort i s0; s2 = handleSort i s1; s3 = handleSort i s2 in
   sortCol s1 = Some i \<and> sortDir s1 = Some Asc \<and> sortCol s2 = Some i \<and> sortDir s2 = Some Desc \<and> s3 = s0 \<and>
   handleSort j s = (if sortCol s = Some j then handleSort j s else s\<lparr>sortCol := Some j, sortDir := Some Asc\<rparr>) \<and>
   sorted_rows collate cols data s0 = filtered_rows cols data s"
  by (simp add: handleSort_def sorted_rows_def filtered_rows_def Let_def)

subsection \<open>Pages\<close>

lemma totalPages_pos: "0 < totalPages ps rows"
  by (simp add: totalPages_def)

lemma totalPages_covers: "0 < ps \<Longrightarrow> length rows \<le> totalPages ps rows * ps"
proof -
  assume ps: "0 < ps"
  have "length rows + ps - 1 < ((length rows + ps - 1) div ps + 1) * ps"
    using ps dividend_less_div_times [of ps "length rows + ps - 1"] by simp
  then have "length rows \<le> (length rows + ps - 1) div ps * ps" using ps by simp
  also have "\<dots> \<le> totalPages ps rows * ps" by (simp add: totalPages_def)
  finally show ?thesis .
qed

lemma totalPages_tight: "0 < ps \<Longrightarrow> rows \<noteq> [] \<Longrightarrow> (totalPages ps rows - 1) * ps < length rows"
proof -
  assume ps: "0 < ps" and "rows \<noteq> []"
  then have l: "0 < length rows" by simp
  let ?k = "(length rows + ps - 1) div ps"
  have k: "?k * ps \<le> length rows + ps - 1" by (rule div_times_less_eq_dividend)
  have "ps \<le> length rows + ps - 1" using l by linarith
  then have pos: "0 < ?k" using ps by (simp add: div_greater_zero_iff)
  then have "totalPages ps rows = ?k" by (simp add: totalPages_def max_def)
  then have "(totalPages ps rows - 1) * ps = ?k * ps - ps" by (simp add: diff_mult_distrib)
  also have "\<dots> < length rows" using k l by linarith
  finally show ?thesis .
qed

lemma take_pages: "concat (map (\<lambda>p. page_rows ps p rows) [1..<Suc n]) = take (n * ps) rows"
proof (induction n)
  case (Suc n)
  have "concat (map (\<lambda>p. page_rows ps p rows) [1..<Suc (Suc n)]) =
      take (n * ps) rows @ page_rows ps (Suc n) rows"
    using Suc by simp
  also have "\<dots> = take (n * ps + ps) rows" by (simp add: page_rows_def take_add)
  finally show ?case by (simp add: add.commute)
qed simp

text \<open>What every run keeps: a page number from 1, a positive page size and distinct selected
  identifiers.\<close>

definition table_inv :: "data_table \<Rightarrow> bool" where
  "table_inv s = (1 \<le> page s \<and> 0 < pageSize s \<and> distinct (selected s))"

definition offered_size :: "'x table_action \<Rightarrow> bool" where
  "offered_size a = (case a of PageSizeText t \<Rightarrow> t \<in> show_nat ` {10, 25, 50, 100} | _ \<Rightarrow> True)"

lemma distinct_set_ops: "distinct xs \<Longrightarrow> distinct (set_add x xs)" "distinct xs \<Longrightarrow> distinct (set_delete x xs)"
  by (auto simp: set_add_def set_delete_def)

lemma distinct_folds:
  "distinct xs \<Longrightarrow> distinct (foldl (\<lambda>xs i. set_add i xs) xs is)"
  "distinct xs \<Longrightarrow> distinct (foldl (\<lambda>xs i. set_delete i xs) xs is)"
  by (induction "is" arbitrary: xs) (auto simp: distinct_set_ops)

lemma foldl_preserves: "(\<And>s x. P s \<Longrightarrow> P (f s x)) \<Longrightarrow> P s \<Longrightarrow> P (foldl f s xs)"
  by (induction xs arbitrary: s) auto

lemma table_inv_operations:
  assumes "table_inv s"
  shows "table_inv (s\<lparr>search := v\<rparr>)" "table_inv (toggleColumn i s)" "table_inv (handleSort i s)"
    "table_inv (toggleRow i s)" "table_inv (toggleAll g rows s)" "table_inv (previousPage s)"
    "0 < n \<Longrightarrow> table_inv (nextPage n s)" "0 < n \<Longrightarrow> table_inv (changePageSize n s)"
  using assms
  by (auto simp: table_inv_def toggleColumn_def handleSort_def toggleRow_def toggleAll_def previousPage_def nextPage_def
      changePageSize_def set_toggle_def distinct_folds distinct_set_ops Let_def)

lemma table_act_inv:
  assumes "table_inv (tbl u)" "offered_size a"
  shows "table_inv (tbl (table_act collate getRowId cols data u a))"
proof (cases a)
  case (Search x)
  then show ?thesis using assms(1)
    by (cases x) (simp_all add: table_search_def handleChange_def clear_search_def table_inv_operations(1))
next
  case (ColumnMenu x)
  then show ?thesis using assms(1)
    by (simp add: table_columns_def case_prod_unfold Let_def foldl_preserves [of table_inv] table_inv_operations(2))
next
  case (PageSizeText t)
  then have "0 < read_nat t" using assms(2) by (auto simp: offered_size_def read_show_nat)
  then show ?thesis using PageSizeText assms(1) by (simp add: table_inv_operations)
qed (use assms(1) in \<open>simp_all add: table_inv_operations totalPages_pos\<close>)

lemma table_run_inv:
  assumes "0 < defaultPageSize" "\<forall>a \<in> set as. offered_size a"
  shows "table_inv (tbl (run (table_act collate getRowId cols data) (initial_table_ui defaultPageSize cols) as))"
proof -
  have "table_inv (tbl u) \<Longrightarrow> \<forall>a \<in> set as. offered_size a \<Longrightarrow>
      table_inv (tbl (run (table_act collate getRowId cols data) u as))" for u
    by (induction as arbitrary: u) (simp_all add: table_act_inv)
  then show ?thesis using assms
    by (simp add: initial_table_ui_def initial_table_def table_inv_def)
qed

lemma pages_of:
  assumes "table_inv s"
  shows "concat (map (\<lambda>p. page_rows (pageSize s) p rows) [1..<Suc (totalPages (pageSize s) rows)]) = rows"
    and "1 \<le> safePage s rows" "safePage s rows \<le> totalPages (pageSize s) rows"
    and "length (paged s rows) \<le> pageSize s" "paged s rows = [] \<longleftrightarrow> rows = []"
proof -
  let ?n = "totalPages (pageSize s) rows"
  have p: "0 < pageSize s" "1 \<le> page s" using assms by (simp_all add: table_inv_def)
  show "concat (map (\<lambda>p. page_rows (pageSize s) p rows) [1..<Suc ?n]) = rows"
    by (simp only: take_pages) (simp add: totalPages_covers p)
  show sp: "1 \<le> safePage s rows" "safePage s rows \<le> ?n"
    using p(2) totalPages_pos [of "pageSize s" rows] by (auto simp: safePage_def)
  show "length (paged s rows) \<le> pageSize s" by (simp add: paged_def page_rows_def)
  have "paged s rows \<noteq> []" if "rows \<noteq> []"
  proof -
    have "(safePage s rows - 1) * pageSize s \<le> (?n - 1) * pageSize s" using sp by (intro mult_right_mono) auto
    also have "\<dots> < length rows" by (rule totalPages_tight [OF p(1) that])
    finally show ?thesis using p(1) by (simp add: paged_def page_rows_def)
  qed
  moreover have "rows = [] \<Longrightarrow> paged s rows = []" by (simp add: paged_def page_rows_def)
  ultimately show "paged s rows = [] \<longleftrightarrow> rows = []" by blast
qed

text \<open>C9. Whatever the user does, in any order, the pages of the table, read one after the other,
  are the sorted rows: no row is skipped and none is shown twice. The page shown always
  exists, has at most as many rows as the page size, and is empty only when no row matches,
  even when a search has just made the table shorter than the page number; no identifier
  is selected twice.\<close>

theorem pages_partition:
  assumes "0 < defaultPageSize" "\<forall>a \<in> set as. offered_size a"
    and "s = tbl (run (table_act collate getRowId cols data) (initial_table_ui defaultPageSize cols) as)"
    and "rows = sorted_rows collate cols data s"
  shows "concat (map (\<lambda>p. page_rows (pageSize s) p rows) [1..<Suc (totalPages (pageSize s) rows)]) = rows \<and>
    1 \<le> safePage s rows \<and> safePage s rows \<le> totalPages (pageSize s) rows \<and>
    length (paged s rows) \<le> pageSize s \<and> (paged s rows = [] \<longleftrightarrow> filtered_rows cols data s = []) \<and> distinct (selected s)"
proof -
  have inv: "table_inv s" unfolding assms(3) by (rule table_run_inv [OF assms(1,2)])
  have "rows = [] \<longleftrightarrow> filtered_rows cols data s = []"
    unfolding assms(4) using length_sorted_rows [of collate cols data s] by (metis length_0_conv)
  moreover have "distinct (selected s)" using inv by (simp add: table_inv_def)
  ultimately show ?thesis using pages_of [OF inv, of rows] by blast
qed

theorem pages_partition_witness:
  "let s = tbl (run (table_act by_length default_row_id [text_column ''n''] [''a'', ''b'', ''c''])
                  (initial_table_ui 2 [text_column ''n'']) [Next, Search (ChangeText ''b'')])
   in page s = 2 \<and> paged s (sorted_rows by_length [text_column ''n''] [''a'', ''b'', ''c''] s) \<noteq> []"
proof -
  define as :: "unit table_action list" where "as = [Next, Search (ChangeText ''b'')]"
  define s where "s = tbl (run (table_act by_length default_row_id [text_column ''n''] [''a'', ''b'', ''c''])
                  (initial_table_ui 2 [text_column ''n'']) as)"
  have "\<forall>a \<in> set as. offered_size a" by (simp add: as_def offered_size_def)
  note pages_partition [OF _ this s_def refl]
  moreover have "page s = 2" unfolding s_def as_def by code_simp
  moreover have "filtered_rows [text_column ''n''] [''a'', ''b'', ''c''] s = [''b'']"
    unfolding s_def as_def by code_simp
  ultimately show ?thesis unfolding s_def as_def Let_def by simp
qed

text \<open>After a search has shortened the table below the page that was open, the button for the
  previous page works on the old page number: while that number is beyond the last page by
  more than one, pressing it changes nothing on the screen.\<close>

theorem previous_page_stuck:
  assumes "totalPages (pageSize s) rows < page s - 1"
  shows "safePage (previousPage s) rows = safePage s rows \<and> paged (previousPage s) rows = paged s rows \<and>
    page (previousPage s) = page s - 1"
  using assms by (simp add: safePage_def previousPage_def paged_def)

theorem previous_page_stuck_witness:
  "paged (previousPage ((initial_table 2 [text_column ''n''])\<lparr>page := 9\<rparr>)) [''a'', ''b'', ''c''] = [''c'']"
proof -
  let ?s = "(initial_table 2 [text_column ''n''])\<lparr>page := 9\<rparr>"
  have "totalPages (pageSize ?s) [''a'', ''b'', ''c''] < page ?s - 1"
    by (simp add: totalPages_def initial_table_def)
  from previous_page_stuck [OF this] show ?thesis
    by (simp add: paged_def page_rows_def safePage_def totalPages_def initial_table_def previousPage_def)
qed

subsection \<open>Selection\<close>

interpretation row_selection: membership_toggle "\<lambda>s i. List.member (selected s) i" toggleRow
  by unfold_locales (auto simp: toggleRow_def set_toggle_def set_add_def set_delete_def)

interpretation column_toggle: membership_toggle "\<lambda>s i. List.member (hiddenCols s) i" toggleColumn
  by unfold_locales (auto simp: toggleColumn_def set_toggle_def set_add_def set_delete_def)

lemma set_fold_add: "set (foldl (\<lambda>xs i. set_add i xs) xs is) = set xs \<union> set is"
  by (induction "is" arbitrary: xs) (auto simp: set_add_def)

lemma set_fold_delete: "set (foldl (\<lambda>xs i. set_delete i xs) xs is) = set xs - set is"
  by (induction "is" arbitrary: xs) (auto simp: set_delete_def)

lemma toggleAll_selected:
  "set (selected (toggleAll getRowId rows s)) =
     (if allSelected getRowId s rows then set (selected s) - set (paged_ids getRowId s rows)
      else set (selected s) \<union> set (paged_ids getRowId s rows))"
  by (simp add: toggleAll_def Let_def set_fold_add set_fold_delete)

lemma toggleAll_frame:
  "paged_ids getRowId (toggleAll g rows s) rows' = paged_ids getRowId s rows'"
  "paged (toggleAll g rows s) rows' = paged s rows'"
  by (simp_all add: toggleAll_def paged_ids_def paged_def safePage_def Let_def)

lemma selected_rows_by_key:
  "selected_rows (\<lambda>r i. key r) data s = filter (\<lambda>r. List.member (selected s) (key r)) data"
proof -
  have "map snd (filter (\<lambda>(i, r). List.member (selected s) (key r)) (zip [n..<n + length data] data)) =
      filter (\<lambda>r. List.member (selected s) (key r)) data" for n
  proof (induction data arbitrary: n)
    case (Cons d ds)
    have "[n..<n + length (d # ds)] = n # [Suc n..<Suc n + length ds]" by (simp add: upt_rec)
    then show ?case using Cons [of "Suc n"] by simp
  qed simp
  from this [of 0] show ?thesis by (simp add: selected_rows_def)
qed

text \<open>The box in the header selects the rows of the page, or deselects them when all are
  selected, and touches no row of another page; a row's box flips that row only. The owner
  gets exactly the rows whose key is selected when the key depends on the row alone.\<close>

theorem table_selection:
  "set (selected (toggleAll getRowId rows s)) =
     (if allSelected getRowId s rows then set (selected s) - set (paged_ids getRowId s rows)
      else set (selected s) \<union> set (paged_ids getRowId s rows)) \<and>
   (paged s rows \<noteq> [] \<and> \<not> allSelected getRowId s rows \<longrightarrow> allSelected getRowId (toggleAll getRowId rows s) rows) \<and>
   (List.member (selected (toggleRow i s)) j = (if j = i then \<not> List.member (selected s) i else List.member (selected s) j)) \<and>
   selected_rows (\<lambda>r k. key r) data s = filter (\<lambda>r. List.member (selected s) (key r)) data"
proof -
  have "allSelected getRowId (toggleAll getRowId rows s) rows"
    if "paged s rows \<noteq> []" "\<not> allSelected getRowId s rows"
    using that toggleAll_selected [of getRowId rows s]
    by (simp add: allSelected_def [of getRowId "toggleAll getRowId rows s"] toggleAll_frame list_all_iff)
  then show ?thesis
    using toggleAll_selected [of getRowId rows s] row_selection.member_toggle [of i s j] selected_rows_by_key [of key data s]
    by blast
qed

theorem table_selection_witness:
  "allSelected default_row_id (toggleAll default_row_id [''a'', ''b''] (initial_table 10 [text_column ''n''])) [''a'', ''b'']"
proof -
  let ?s = "initial_table 10 [text_column ''n'']"
  have "paged ?s [''a'', ''b''] \<noteq> [] \<and> \<not> allSelected default_row_id ?s [''a'', ''b'']"
    by (simp add: paged_def page_rows_def safePage_def totalPages_def initial_table_def allSelected_def
        paged_ids_def default_row_id_def upt_rec)
  then show ?thesis using table_selection by blast
qed

text \<open>With the default row identifiers, the positions, the boxes and the report disagree: the
  box of a row counts its position in the sorted table, the report its position in the data.
  Ticking the only row shown for the search \<open>b\<close> reports another row.\<close>

theorem default_ids_misreport:
  "let cols = [text_column ''n'']; data = [''a'', ''b'']; s = (initial_table 10 cols)\<lparr>search := ''b''\<rparr>;
       rows = sorted_rows by_length cols data s; s' = toggleRow (hd (paged_ids default_row_id s rows)) s
   in paged s' rows = [''b''] \<and> selected_rows default_row_id data s' = [''a'']"
  by code_simp

subsection \<open>The exported text\<close>

text \<open>A reader of quoted CSV: the finished records, the current record, the current cell, and
  whether it is outside quotes, inside, or after a quote inside.\<close>

datatype csv_mode = Outside | Inside | AfterQuote

type_synonym csv_reader = "jsstring list list \<times> jsstring list \<times> jsstring \<times> csv_mode"

fun csv_read :: "csv_reader \<Rightarrow> char \<Rightarrow> csv_reader" where
  "csv_read (rs, r, c, Inside) x = (if x = dquote then (rs, r, c, AfterQuote) else (rs, r, c @ [x], Inside))"
| "csv_read (rs, r, c, m) x =
     (if x = dquote then (rs, r, if m = AfterQuote then c @ [dquote] else c, Inside)
      else if x = CHR '','' then (rs, r @ [c], [], Outside)
      else if x = newline then (rs @ [r @ [c]], [], [], Outside)
      else (rs, r, c @ [x], Outside))"

definition csv_records :: "jsstring \<Rightarrow> jsstring list list" where
  "csv_records s = (let (rs, r, c, m) = foldl csv_read ([], [], [], Outside) s in rs @ [r @ [c]])"

lemma read_quoted:
  "foldl csv_read (rs, r, c, Inside) (concat (map (\<lambda>x. if x = dquote then [dquote, dquote] else [x]) s)) =
     (rs, r, c @ s, Inside)"
  by (induction s arbitrary: c) auto

lemma read_cell: "foldl csv_read (rs, r, [], Outside) (csv_cell s) = (rs, r, s, AfterQuote)"
  by (simp add: csv_cell_def read_quoted)

lemma read_row:
  "cells \<noteq> [] \<Longrightarrow> foldl csv_read (rs, r, [], Outside) (join '','' (map csv_cell cells)) =
     (rs, r @ butlast cells, last cells, AfterQuote)"
proof (induction cells arbitrary: r)
  case (Cons s cells)
  then show ?case by (cases cells) (simp_all add: read_cell)
qed simp

lemma read_rows:
  "rows \<noteq> [] \<Longrightarrow> \<forall>cells \<in> set rows. cells \<noteq> [] \<Longrightarrow>
   foldl csv_read (rs, [], [], Outside) (join [newline] (map (\<lambda>cells. join '','' (map csv_cell cells)) rows)) =
     (rs @ butlast rows, butlast (last rows), last (last rows), AfterQuote)"
proof (induction rows arbitrary: rs)
  case (Cons cells rows)
  then show ?case by (cases rows) (simp_all add: read_row)
qed simp

lemma read_plain:
  "set s \<inter> {dquote, CHR '','', newline} = {} \<Longrightarrow> foldl csv_read (rs, r, c, Outside) s = (rs, r, c @ s, Outside)"
  by (induction s arbitrary: c) auto

lemma read_headers:
  "\<forall>h \<in> set hs. set h \<inter> {dquote, CHR '','', newline} = {} \<Longrightarrow> hs \<noteq> [] \<Longrightarrow>
   foldl csv_read (rs, r, [], Outside) (join '','' hs) = (rs, r @ butlast hs, last hs, Outside)"
proof (induction hs arbitrary: r)
  case (Cons h hs)
  then show ?case by (cases hs) (simp_all add: read_plain)
qed simp

lemma csv_read_back:
  assumes "visibleColumns cols s \<noteq> []" "rows \<noteq> []"
    and "\<forall>c \<in> set (visibleColumns cols s). set (header c) \<inter> {dquote, CHR '','', newline} = {}"
  shows "csv_records (exportCSV cols rows s) =
    map header (visibleColumns cols s) #
    map (\<lambda>row. map (\<lambda>c. cell_string (accessor c row)) (visibleColumns cols s)) rows"
proof -
  define heads where "heads = map header (visibleColumns cols s)"
  define cells where "cells = map (\<lambda>row. map (\<lambda>c. cell_string (accessor c row)) (visibleColumns cols s)) rows"
  have ne: "heads \<noteq> []" "cells \<noteq> []" "\<forall>cs \<in> set cells. cs \<noteq> []"
    using assms(1,2) by (auto simp: heads_def cells_def)
  have plain: "\<forall>h \<in> set heads. set h \<inter> {dquote, CHR '','', newline} = {}"
    using assms(3) by (simp add: heads_def)
  have last: "last cells \<noteq> []" using ne(2,3) last_in_set by blast
  have "exportCSV cols rows s =
      join '','' heads @ [newline] @ join [newline] (map (\<lambda>cs. join '','' (map csv_cell cs)) cells)"
    by (simp add: exportCSV_def Let_def comp_def heads_def cells_def)
  then have "csv_records (exportCSV cols rows s) = heads # butlast cells @ [butlast (last cells) @ [last (last cells)]]"
    using ne(1) by (simp add: csv_records_def read_headers [OF plain ne(1)] read_rows [OF ne(2,3)])
  also have "\<dots> = heads # cells"
    using last ne(2) by simp
  finally show ?thesis by (simp only: heads_def cells_def)
qed

text \<open>C12. Reading the exported file back gives the headers and, cell by cell, the texts of the
  visible columns of every row of the search, not only of the page, whatever quotes, commas
  and line ends the cells contain; the headers must be free of them, as they are exported
  without quotes.\<close>

theorem csv_round_trip:
  assumes "visibleColumns cols s \<noteq> []" "rows \<noteq> []"
    and "\<forall>c \<in> set (visibleColumns cols s). set (header c) \<inter> {dquote, CHR '','', newline} = {}"
  shows "csv_records (exportCSV cols rows s) =
    map header (visibleColumns cols s) #
    map (\<lambda>row. map (\<lambda>c. cell_string (accessor c row)) (visibleColumns cols s)) rows"
  by (rule csv_read_back [OF assms])

theorem csv_round_trip_witness:
  "csv_records (exportCSV [text_column ''n''] [[CHR ''a'', dquote, CHR '','', newline]] (initial_table 10 [text_column ''n''])) =
     [[''n''], [[CHR ''a'', dquote, CHR '','', newline]]]"
proof -
  let ?s = "initial_table 10 [text_column ''n'']"
  have v: "visibleColumns [text_column ''n''] ?s = [text_column ''n'']"
    by (simp add: visibleColumns_def initial_table_def text_column_def)
  have h: "\<forall>c \<in> set (visibleColumns [text_column ''n''] ?s). set (header c) \<inter> {dquote, CHR '','', newline} = {}"
    by (simp only: v) (simp add: text_column_def)
  have n: "visibleColumns [text_column ''n''] ?s \<noteq> []" "[[CHR ''a'', dquote, CHR '','', newline]] \<noteq> []"
    by (simp_all only: v) simp_all
  show ?thesis unfolding csv_round_trip [OF n h] v by (simp add: text_column_def)
qed

text \<open>So the file that the button downloads has every row the search leaves, in the order of the table, whatever page is shown.\<close>

lemma export_downloads:
  assumes "visibleColumns cols (tbl u) \<noteq> []" "filtered_rows cols data (tbl u) \<noteq> []"
    and "\<forall>c \<in> set (visibleColumns cols (tbl u)). set (header c) \<inter> {dquote, CHR '','', newline} = {}"
  shows "map_option (tl \<circ> csv_records) (table_download collate cols data u Export) =
    Some (map (\<lambda>row. map (\<lambda>c. cell_string (accessor c row)) (visibleColumns cols (tbl u))) (sorted_rows collate cols data (tbl u)))"
proof -
  have "sorted_rows collate cols data (tbl u) \<noteq> []"
    using assms(2) length_sorted_rows [of collate cols data "tbl u"] by auto
  then show ?thesis using csv_read_back [OF assms(1) _ assms(3)] by (simp add: table_download_def)
qed

end
