(* ===== verification/Command_Palette.thy ===== *)
theory Command_Palette
  imports Fuzzy_Search Small_Stores Jsx
begin

text \<open>
  The command palette, \<open>frontend/src/components/CommandPalette.tsx\<close>: the list of commands,
  the global key listener, the keys of its input, the pointer, and what it renders. The
  search history is the state of \<open>searchStore\<close>; the route is where \<open>navigate\<close> was last
  called with. Focus handling is in \<open>Ui_Overlays\<close>.
\<close>

subsection \<open>State and operations\<close>

record command =
  cmd_name :: jsstring
  cmd_path :: jsstring
  cmd_icon :: jsstring
  cmd_category :: jsstring

definition commands :: "command list" where
  "commands =
     [\<lparr>cmd_name = ''Browse Products Catalog'', cmd_path = ''/products'', cmd_icon = ''ShoppingBag'', cmd_category = ''Navigation''\<rparr>,
      \<lparr>cmd_name = ''Checkout Cart'', cmd_path = ''/checkout'', cmd_icon = ''ShoppingBag'', cmd_category = ''Navigation''\<rparr>,
      \<lparr>cmd_name = ''Orders Transaction History'', cmd_path = ''/orders'', cmd_icon = ''Layers'', cmd_category = ''Navigation''\<rparr>,
      \<lparr>cmd_name = ''Warehouse Inventory levels'', cmd_path = ''/inventory'', cmd_icon = ''Layers'', cmd_category = ''Navigation''\<rparr>,
      \<lparr>cmd_name = ''User Account Profiles'', cmd_path = ''/users'', cmd_icon = ''ShieldCheck'', cmd_category = ''Admin''\<rparr>,
      \<lparr>cmd_name = ''SaaS Systems Admin Dashboard'', cmd_path = ''/admin'', cmd_icon = ''ShieldCheck'', cmd_category = ''Admin''\<rparr>]"

record palette =
  pal_open :: bool
  pal_query :: jsstring
  activeIndex :: nat
  pal_history :: search_state
  pal_route :: jsstring

definition initial_palette :: "search_state \<Rightarrow> jsstring \<Rightarrow> palette" where
  "initial_palette history route =
     \<lparr>pal_open = False, pal_query = '''', activeIndex = 0, pal_history = history, pal_route = route\<rparr>"

definition filteredCommands :: "jsstring \<Rightarrow> command search_result list" where
  "filteredCommands q =
     (if q = [] then map (\<lambda>c. \<lparr>result_item = c, score = 1\<rparr>) commands
      else fuzzySearch commands q (\<lambda>cmd. [cmd_name cmd, cmd_category cmd]))"

definition shown_commands :: "palette \<Rightarrow> command list" where
  "shown_commands s = map result_item (filteredCommands (pal_query s))"

definition activate_command :: "command \<Rightarrow> palette \<Rightarrow> palette" where
  "activate_command cmd s =
     s\<lparr>pal_history := addSearch (if pal_query s \<noteq> [] then pal_query s else cmd_name cmd) (pal_history s),
       pal_route := cmd_path cmd, pal_open := False\<rparr>"

datatype input_key = ArrowDown | ArrowUp | EnterKey

fun input_keydown :: "input_key \<Rightarrow> palette \<Rightarrow> palette" where
  "input_keydown k s =
     (let n = length (shown_commands s) in
      if n = 0 then s
      else case k of
          ArrowDown \<Rightarrow> s\<lparr>activeIndex := (activeIndex s + 1) mod n\<rparr>
        | ArrowUp \<Rightarrow> s\<lparr>activeIndex := (activeIndex s + n - 1) mod n\<rparr>
        | EnterKey \<Rightarrow>
            if activeIndex s < n then activate_command (shown_commands s ! activeIndex s) s else s)"

datatype palette_action =
    CtrlK
  | EscapeKey
  | InputKey input_key
  | TypeQuery jsstring
  | ClosePalette
  | ClearRecent
  | SelectRecent jsstring
  | PickCommand command
  | HoverCommand nat

fun palette_step :: "palette \<Rightarrow> palette_action \<Rightarrow> palette" where
  "palette_step s CtrlK = s\<lparr>pal_open := \<not> pal_open s, pal_query := '''', activeIndex := 0\<rparr>"
| "palette_step s EscapeKey = (if pal_open s then s\<lparr>pal_open := False\<rparr> else s)"
| "palette_step s (InputKey k) = input_keydown k s"
| "palette_step s (TypeQuery q) = s\<lparr>pal_query := q, activeIndex := 0\<rparr>"
| "palette_step s ClosePalette = s\<lparr>pal_open := False\<rparr>"
| "palette_step s ClearRecent = s\<lparr>pal_history := clearHistory (pal_history s)\<rparr>"
| "palette_step s (SelectRecent t) = s\<lparr>pal_query := t\<rparr>"
| "palette_step s (PickCommand cmd) = activate_command cmd s"
| "palette_step s (HoverCommand i) = s\<lparr>activeIndex := i\<rparr>"

subsection \<open>The view\<close>

definition item_id :: "nat \<Rightarrow> jsstring" where
  "item_id i = ''cmd-item-'' @ show_nat i"

definition command_option :: "palette \<Rightarrow> nat \<Rightarrow> command \<Rightarrow> palette_action node" where
  "command_option s i cmd =
     El ''button'' [Attr ''id'' (item_id i), Attr ''role'' ''option'', Flag ''aria-selected'' (i = activeIndex s),
         On ''click'' (PickCommand cmd), On ''mouseenter'' (HoverCommand i)]
       [Icon (cmd_icon cmd), El ''span'' [] [Txt (cmd_name cmd)], El ''span'' [] [Txt (cmd_category cmd)]]"

definition recent_view :: "search_state \<Rightarrow> palette_action node" where
  "recent_view h =
     El ''div'' []
       [El ''div'' []
          [El ''span'' [] [Icon ''History'', Txt ''Recent Searches''],
           El ''button'' [On ''click'' ClearRecent] [Icon ''Trash2'', Txt ''Clear History'']],
        El ''div'' [] (map (\<lambda>t. El ''button'' [On ''click'' (SelectRecent t)] [Txt t]) (recentSearches h))]"

definition input_header :: "palette \<Rightarrow> palette_action node" where
  "input_header s =
     El ''div'' []
       [Icon ''Search'',
        El ''input''
          ([Attr ''type'' ''text'', Attr ''placeholder'' ''Search commands, pages... (Ctrl + K to close)'',
            Attr ''value'' (pal_query s), OnText ''change'' TypeQuery,
            On ''keydown.ArrowDown'' (InputKey ArrowDown), On ''keydown.ArrowUp'' (InputKey ArrowUp),
            On ''keydown.Enter'' (InputKey EnterKey),
            Attr ''aria-autocomplete'' ''list'', Attr ''aria-controls'' ''command-listbox'']
           @ show_if (activeIndex s < length (shown_commands s)) [Attr ''aria-activedescendant'' (item_id (activeIndex s))]) [],
        El ''button'' [On ''click'' ClosePalette, Attr ''aria-label'' ''Close search''] [Icon ''X'']]"

definition palette_view :: "palette \<Rightarrow> palette_action node list" where
  "palette_view s =
     show_if (pal_open s)
       [El ''div'' []
         [El ''div'' [Attr ''role'' ''combobox'', Flag ''aria-expanded'' (pal_open s), Attr ''aria-haspopup'' ''listbox'',
             Attr ''aria-controls'' ''command-listbox'']
           ([input_header s]
            @ show_if (pal_query s = [] \<and> recentSearches (pal_history s) \<noteq> []) [recent_view (pal_history s)]
            @ [El ''div'' [Attr ''id'' ''command-listbox'', Attr ''role'' ''listbox'']
                 (if shown_commands s = [] then [El ''div'' [] [Txt ''No matching pages or commands found.'']]
                  else map (\<lambda>(i, cmd). command_option s i cmd) (zip [0..<length (shown_commands s)] (shown_commands s)))])]]"

text \<open>What can happen next: a global key at any time, anything else only through the tree that
  is shown.\<close>

definition palette_offers :: "palette \<Rightarrow> palette_action \<Rightarrow> bool" where
  "palette_offers s a =
     (case a of CtrlK \<Rightarrow> True | EscapeKey \<Rightarrow> True | TypeQuery q \<Rightarrow> pal_open s
      | _ \<Rightarrow> List.member (forest_actions (palette_view s)) a)"

definition palette_event :: "palette \<Rightarrow> palette_action \<Rightarrow> palette" where
  "palette_event s a = (if palette_offers s a then palette_step s a else s)"

subsection \<open>Facts on the shown commands\<close>

lemma set_shown: "set (shown_commands s) \<subseteq> set commands"
  by (auto simp: shown_commands_def filteredCommands_def fuzzySearch_def)

lemma mset_found:
  "pal_query s \<noteq> [] \<Longrightarrow> mset (shown_commands s) =
     mset (filter (\<lambda>c. \<exists>t \<in> set [cmd_name c, cmd_category c]. subseq (normal (pal_query s)) (normal t)) commands)"
  unfolding shown_commands_def filteredCommands_def
  using fuzzySearch_items [of "pal_query s" commands "\<lambda>cmd. [cmd_name cmd, cmd_category cmd]"] by simp

lemma length_shown: "length (shown_commands s) \<le> length commands"
proof -
  have "length (filter P (map f commands)) \<le> length commands" for P and f :: "command \<Rightarrow> command search_result"
    using length_filter_le [of P "map f commands"] by simp
  then show ?thesis by (simp add: shown_commands_def filteredCommands_def fuzzySearch_def)
qed

lemma actions_input_header:
  "actions (input_header s) = [InputKey ArrowDown, InputKey ArrowUp, InputKey EnterKey, ClosePalette]"
  by (simp add: input_header_def show_if_def)

lemma actions_recent_view: "actions (recent_view h) = ClearRecent # map SelectRecent (recentSearches h)"
proof -
  have "concat (map (actions \<circ> (\<lambda>t. El ''button'' [On ''click'' (SelectRecent t)] [Txt t])) ts) = map SelectRecent ts" for ts
    by (induction ts) simp_all
  then show ?thesis by (simp add: recent_view_def)
qed

lemma actions_command_option: "actions (command_option s i cmd) = [PickCommand cmd, HoverCommand i]"
  by (simp add: command_option_def)

definition option_actions :: "command list \<Rightarrow> palette_action list" where
  "option_actions cs = concat (map (\<lambda>(i, cmd). [PickCommand cmd, HoverCommand i]) (zip [0..<length cs] cs))"

lemma actions_options:
  "concat (map actions (map (\<lambda>(i, cmd). command_option s i cmd) (zip [0..<length cs] cs))) = option_actions cs"
proof -
  have "map actions (map (\<lambda>(i, cmd). command_option s i cmd) ps) = map (\<lambda>(i, cmd). [PickCommand cmd, HoverCommand i]) ps" for ps
    by (simp add: actions_command_option split_def)
  then show ?thesis by (simp only: option_actions_def)
qed

lemma palette_actions:
  "forest_actions (palette_view s) =
     show_if (pal_open s)
       ([InputKey ArrowDown, InputKey ArrowUp, InputKey EnterKey, ClosePalette] @
        show_if (pal_query s = [] \<and> recentSearches (pal_history s) \<noteq> [])
          (ClearRecent # map SelectRecent (recentSearches (pal_history s))) @
        option_actions (shown_commands s))"
proof -
  have "concat (map actions (if shown_commands s = [] then [El ''div'' [] [Txt ''No matching pages or commands found.'']]
      else map (\<lambda>(i, cmd). command_option s i cmd) (zip [0..<length (shown_commands s)] (shown_commands s)))) =
      option_actions (shown_commands s)"
    by (cases "shown_commands s = []") (simp_all add: option_actions_def actions_options [unfolded option_actions_def] del: map_map)
  then show ?thesis
    by (simp add: palette_view_def forest_actions_def actions_input_header actions_recent_view del: map_map)
qed

lemma set_option_actions:
  "set (option_actions cs) = (\<Union>i \<in> {..<length cs}. {PickCommand (cs ! i), HoverCommand i})"
  by (auto simp: option_actions_def set_zip)

lemma palette_offers_cases:
  assumes "palette_offers s a"
  obtains "a = CtrlK" | "a = EscapeKey" | k where "a = InputKey k" | q where "a = TypeQuery q" | "a = ClosePalette" | "a = ClearRecent"
  | t where "a = SelectRecent t" | cmd where "a = PickCommand cmd" "cmd \<in> set commands"
  | i where "a = HoverCommand i" "i < length (shown_commands s)"
  using assms set_shown [of s, THEN subsetD, OF nth_mem]
  by (auto simp: palette_offers_def palette_actions set_option_actions show_if_def
      split: if_splits palette_action.splits)

subsection \<open>Runs\<close>

definition palette_inv :: "jsstring \<Rightarrow> palette \<Rightarrow> bool" where
  "palette_inv route s \<longleftrightarrow> activeIndex s < length commands \<and> search_inv (pal_history s) \<and>
     (pal_route s = route \<or> pal_route s \<in> cmd_path ` set commands)"

lemma activate_inv:
  "palette_inv route s \<Longrightarrow> cmd \<in> set commands \<Longrightarrow> palette_inv route (activate_command cmd s)"
  by (simp add: palette_inv_def activate_command_def addSearch_inv)

lemma input_keydown_inv:
  assumes "palette_inv route s" shows "palette_inv route (input_keydown k s)"
proof (cases "length (shown_commands s) = 0")
  case False
  then have n: "x mod length (shown_commands s) < length commands" for x
    using length_shown [of s] mod_less_divisor [of "length (shown_commands s)" x] by linarith
  have "palette_inv route (s\<lparr>activeIndex := x mod length (shown_commands s)\<rparr>)" for x
    using assms n by (simp add: palette_inv_def)
  moreover have "activeIndex s < length (shown_commands s) \<Longrightarrow>
      palette_inv route (activate_command (shown_commands s ! activeIndex s) s)"
    using assms activate_inv set_shown [of s, THEN subsetD, OF nth_mem] by blast
  ultimately show ?thesis using assms by (cases k) (auto simp: Let_def)
qed (use assms in simp)

interpretation palette: state_machine "initial_palette initial_search route" palette_event "palette_inv route" for route
proof unfold_locales
  show "palette_inv route (initial_palette initial_search route)"
    by (simp add: palette_inv_def initial_palette_def commands_def initial_search_def search_inv_def)
  show "palette_inv route (palette_event s a)" if i: "palette_inv route s" for s a
  proof (cases "palette_offers s a")
    case True
    then show ?thesis
    proof (cases rule: palette_offers_cases)
      case (3 k)
      then show ?thesis using True input_keydown_inv [OF i, of k]
        by (simp only: palette_event_def if_True palette_step.simps)
    next
      case (8 cmd)
      then show ?thesis using True activate_inv [OF i, of cmd] by (simp add: palette_event_def)
    next
      case (9 j)
      then have "j < length commands" using length_shown [of s] by linarith
      then show ?thesis using 9 True i by (simp add: palette_event_def palette_inv_def)
    qed (use True i in \<open>auto simp: palette_event_def palette_inv_def commands_def clearHistory_def search_inv_def\<close>)
  qed (use i in \<open>simp add: palette_event_def\<close>)
qed

text \<open>Over any run of the palette through its keys and its tree: the highlighted position is
  one of the six commands, the history keeps its bounds and is free of repetitions, and the
  palette leads nowhere but to the pages of its commands.\<close>

theorem palette_run:
  "(let s = run palette_event (initial_palette initial_search route) es in
     activeIndex s < length commands \<and> length (recentSearches (pal_history s)) \<le> 8 \<and>
     distinct (map toLowerCase (recentSearches (pal_history s))) \<and>
     (pal_route s = route \<or> pal_route s \<in> {''/products'', ''/checkout'', ''/orders'', ''/inventory'', ''/users'', ''/admin''}))"
  using palette.inv_run [of route es]
  by (auto simp: palette_inv_def search_inv_def commands_def Let_def)

subsection \<open>The keys of the input\<close>

lemma shown_commands_active [simp]: "shown_commands (s\<lparr>activeIndex := i\<rparr>) = shown_commands s"
  by (simp add: shown_commands_def)

lemma arrows_down:
  "activeIndex s < length (shown_commands s) \<Longrightarrow>
   run palette_step s (replicate k (InputKey ArrowDown)) =
     s\<lparr>activeIndex := (activeIndex s + k) mod length (shown_commands s)\<rparr>"
proof (induction k)
  case (Suc k)
  have "run palette_step s (replicate (Suc k) (InputKey ArrowDown)) =
      palette_step (run palette_step s (replicate k (InputKey ArrowDown))) (InputKey ArrowDown)"
    by (simp only: replicate_append_same [symmetric] replicate_Suc run_append run_Cons run_Nil)
  also have "\<dots> = s\<lparr>activeIndex := ((activeIndex s + k) mod length (shown_commands s) + 1) mod length (shown_commands s)\<rparr>"
    using Suc by (auto simp: Let_def)
  finally show ?case by (simp add: mod_Suc_eq)
qed simp

lemma up_after_down:
  assumes "i < n" shows "((i + 1) mod n + n - 1) mod n = (i::nat)"
proof (cases "i + 1 = n")
  case False
  with assms have "(i + 1) mod n = i + 1" by simp
  with assms show ?thesis by simp
qed (use assms in auto)

text \<open>The keys of the input work on what is shown: pressing the down arrow as often as
  needed brings the highlight to every command of the list, going round at the end; up
  undoes down; and Enter does what clicking the highlighted command does: it goes to its
  page, closes the palette and puts the query, or without one the command's name, in front
  of the history.\<close>

theorem palette_keys:
  assumes "activeIndex s < length (shown_commands s)" "j < length (shown_commands s)"
  shows "(\<exists>k. activeIndex (run palette_step s (replicate k (InputKey ArrowDown))) = j) \<and>
    palette_step (palette_step s (InputKey ArrowDown)) (InputKey ArrowUp) = s \<and>
    (let cmd = shown_commands s ! activeIndex s; s' = palette_step s (InputKey EnterKey) in
      s' = palette_step s (PickCommand cmd) \<and> pal_route s' = cmd_path cmd \<and> \<not> pal_open s' \<and>
      (pal_query s = [] \<longrightarrow> recentSearches (pal_history s') = recentSearches (addSearch (cmd_name cmd) (pal_history s))))"
proof (intro conjI)
  let ?n = "length (shown_commands s)"
  have "(activeIndex s + (?n - activeIndex s + j)) mod ?n = j" using assms by simp
  then show "\<exists>k. activeIndex (run palette_step s (replicate k (InputKey ArrowDown))) = j"
    using arrows_down [OF assms(1), of "?n - activeIndex s + j"]
    by (intro exI [of _ "?n - activeIndex s + j"]) simp
  have "0 < ?n" using assms(2) by linarith
  then show "palette_step (palette_step s (InputKey ArrowDown)) (InputKey ArrowUp) = s"
    using up_after_down [OF assms(1)] by (simp add: Let_def)
qed (use assms in \<open>auto simp: Let_def activate_command_def\<close>)

theorem palette_keys_witness:
  "pal_route (palette_step (run palette_step (initial_palette initial_search ''/cart'') [CtrlK, InputKey ArrowDown])
     (InputKey EnterKey)) = ''/checkout''"
proof -
  define s where "s = run palette_step (initial_palette initial_search ''/cart'') [CtrlK, InputKey ArrowDown]"
  have a: "activeIndex s < length (shown_commands s)" "cmd_path (shown_commands s ! activeIndex s) = ''/checkout''"
    unfolding s_def by code_simp+
  from palette_keys [OF a(1) a(1)]
  have "pal_route (palette_step s (InputKey EnterKey)) = cmd_path (shown_commands s ! activeIndex s)"
    unfolding Let_def by blast
  then show ?thesis using a(2) by (simp only: s_def)
qed

text \<open>Choosing a recent search keeps the highlighted position although the list gets shorter:
  if the position is beyond the new list, no command is highlighted and Enter does nothing,
  although commands are shown.\<close>

theorem recent_search_loses_highlight:
  assumes "length (shown_commands (s\<lparr>pal_query := t\<rparr>)) \<le> activeIndex s"
  shows "let s' = palette_step s (SelectRecent t) in
    palette_step s' (InputKey EnterKey) = s' \<and> \<not> activeIndex s' < length (shown_commands s')"
  using assms by (auto simp: Let_def)

theorem recent_search_loses_highlight_witness:
  "let s = run palette_event (initial_palette \<lparr>recentSearches = [''war'']\<rparr> ''/cart'')
      [CtrlK, InputKey ArrowUp, SelectRecent ''war''] in
   shown_commands s \<noteq> [] \<and> pal_open s \<and> palette_step s (InputKey EnterKey) = s"
proof -
  define s where "s = run palette_event (initial_palette \<lparr>recentSearches = [''war'']\<rparr> ''/cart'')
      [CtrlK, InputKey ArrowUp]"
  have i: "activeIndex s = 5" "pal_open s" "pal_query s = []" "recentSearches (pal_history s) = [''war'']"
    unfolding s_def by code_simp+
  have o: "palette_offers s (SelectRecent ''war'')"
    using i by (simp add: palette_offers_def palette_actions)
  define P where "P c = (\<exists>t \<in> set [cmd_name c, cmd_category c]. subseq (normal ''war'') (normal t))" for c :: command
  have "mset (shown_commands (s\<lparr>pal_query := ''war''\<rparr>)) = mset (filter P commands)"
    using mset_found [of "s\<lparr>pal_query := ''war''\<rparr>"] by (simp add: P_def)
  then have l: "length (shown_commands (s\<lparr>pal_query := ''war''\<rparr>)) = length (filter P commands)"
    by (rule mset_eq_length)
  have c: "commands ! 1 \<in> set commands" "commands ! 3 \<in> set commands" "length commands = 6"
    by (simp_all add: commands_def)
  have "\<not> P (commands ! 1)" unfolding P_def by code_simp
  with c have "length (filter P commands) < 6" using length_filter_less by metis
  then have a: "length (shown_commands (s\<lparr>pal_query := ''war''\<rparr>)) \<le> activeIndex s" using i(1) l by simp
  have "P (commands ! 3)" unfolding P_def by code_simp
  with c have "filter P commands \<noteq> []" by (auto simp: filter_empty_conv)
  then have b: "shown_commands (s\<lparr>pal_query := ''war''\<rparr>) \<noteq> []" using l by auto
  have "run palette_event (initial_palette \<lparr>recentSearches = [''war'']\<rparr> ''/cart'')
      [CtrlK, InputKey ArrowUp, SelectRecent ''war''] =
      palette_event s (SelectRecent ''war'')"
    unfolding s_def by (simp only: run_Cons run_Nil)
  also have "\<dots> = palette_step s (SelectRecent ''war'')"
    using o by (simp add: palette_event_def del: palette_step.simps)
  finally have r: "run palette_event (initial_palette \<lparr>recentSearches = [''war'']\<rparr> ''/cart'')
      [CtrlK, InputKey ArrowUp, SelectRecent ''war''] =
      palette_step s (SelectRecent ''war'')" .
  show ?thesis
    unfolding r Let_def using recent_search_loses_highlight [OF a] b i(2)
    by (simp add: Let_def del: input_keydown.simps)
qed

end
