(* ===== verification/Login_Page.thy ===== *)
theory Login_Page
  imports Api_Client Jsx
begin

text \<open>
  The login page, \<open>frontend/src/pages/Login.tsx\<close>, on top of the HTTP client: the form and
  its validation, the submission, which issues a call of the client and waits for its
  promise, and what the page does when the promise is settled. The page runs together with
  the client: an event of the network is a step of the client, after which the page goes on
  if its call has been settled.

  Parameters, for code outside the repository: \<open>is_email\<close>, the address test of the
  validation library, and \<open>parse\<close>, the parsing of a response body, which gives nothing for
  a body the page cannot take apart.
\<close>

subsection \<open>State and operations\<close>

record login_form =
  lf_email :: jsstring
  lf_password :: jsstring

record login_page =
  lp_client :: client
  lp_form :: login_form
  lp_email_error :: "jsstring option"
  lp_password_error :: "jsstring option"
  lp_loading :: bool
  lp_error :: "jsstring option"
  lp_call :: "nat option"
  lp_route :: jsstring

definition mount_login :: "client \<Rightarrow> login_page" where
  "mount_login c =
     \<lparr>lp_client = c, lp_form = \<lparr>lf_email = '''', lf_password = ''''\<rparr>, lp_email_error = None, lp_password_error = None,
      lp_loading = False, lp_error = None, lp_call = None, lp_route = ''/login''\<rparr>"

definition email_check :: "(jsstring \<Rightarrow> bool) \<Rightarrow> login_form \<Rightarrow> jsstring option" where
  "email_check is_email f = (if is_email (lf_email f) then None else Some ''Enter a valid email address'')"

definition password_check :: "login_form \<Rightarrow> jsstring option" where
  "password_check f =
     (if 6 \<le> length (lf_password f) then None else Some ''Password must be at least 6 characters'')"

definition login_submit :: "(jsstring \<Rightarrow> bool) \<Rightarrow> login_page \<Rightarrow> login_page" where
  \<comment> \<open>the form library calls the handler only when both checks pass\<close>
  "login_submit is_email s =
     (let e = email_check is_email (lp_form s); p = password_check (lp_form s); s1 = s\<lparr>lp_email_error := e, lp_password_error := p\<rparr>
      in if e \<noteq> None \<or> p \<noteq> None then s1
         else s1\<lparr>lp_loading := True, lp_error := None, lp_call := Some (next_call (lp_client s)),
                lp_client := api_call (new_request ''post'' ''/api/v1/auth/login'') (lp_client s)\<rparr>)"

definition login_failed :: "thrown \<Rightarrow> login_page \<Rightarrow> login_page" where
  \<comment> \<open>a rejection with null makes the handler throw before a message is set\<close>
  "login_failed e s =
     s\<lparr>lp_error := (if e = Nothing then lp_error s
          else Some (if truthy (response_detail e) then the (response_detail e) else ''Invalid email or password.'')),
       lp_loading := False, lp_call := None\<rparr>"

definition login_succeeded :: "refresh_data \<Rightarrow> login_page \<Rightarrow> login_page" where
  "login_succeeded d s =
     s\<lparr>lp_client := client_step (lp_client s) (SignIn (rd_user d) (rd_access d) (rd_refresh d)),
       lp_route := ''/'', lp_loading := False, lp_call := None\<rparr>"

definition login_resume :: "(jsstring \<Rightarrow> refresh_data option) \<Rightarrow> login_page \<Rightarrow> login_page" where
  "login_resume parse s =
     (case lp_call s of
        None \<Rightarrow> s
      | Some i \<Rightarrow>
          (case map_of (settled (lp_client s)) i of
             None \<Rightarrow> s
           | Some (Rejected e) \<Rightarrow> login_failed e s
           | Some (Resolved body) \<Rightarrow>
               (case parse body of None \<Rightarrow> login_failed OtherValue s | Some d \<Rightarrow> login_succeeded d s)))"

datatype login_action = TypeEmail jsstring | TypePassword jsstring | SubmitLogin

datatype login_event = LoginAct login_action | LoginNet client_event

fun login_act :: "(jsstring \<Rightarrow> bool) \<Rightarrow> login_page \<Rightarrow> login_action \<Rightarrow> login_page" where
  "login_act is_email s (TypeEmail t) = s\<lparr>lp_form := (lp_form s)\<lparr>lf_email := t\<rparr>\<rparr>"
| "login_act is_email s (TypePassword t) = s\<lparr>lp_form := (lp_form s)\<lparr>lf_password := t\<rparr>\<rparr>"
| "login_act is_email s SubmitLogin = (if lp_loading s then s else login_submit is_email s)"

fun login_step :: "(jsstring \<Rightarrow> bool) \<Rightarrow> (jsstring \<Rightarrow> refresh_data option) \<Rightarrow> login_page \<Rightarrow> login_event \<Rightarrow> login_page" where
  "login_step is_email parse s (LoginAct a) = login_act is_email s a"
| "login_step is_email parse s (LoginNet ev) =
     login_resume parse (s\<lparr>lp_client := client_step (lp_client s) ev\<rparr>)"

subsection \<open>The view\<close>

definition login_field ::
    "jsstring \<Rightarrow> jsstring \<Rightarrow> jsstring \<Rightarrow> (jsstring \<Rightarrow> login_action) \<Rightarrow> jsstring option \<Rightarrow> login_action node" where
  "login_field label typ name onText err =
     El ''div'' []
       ([El ''label'' [] [Txt label],
         El ''input'' [Attr ''type'' typ, Attr ''name'' name, OnText ''change'' onText] []]
        @ show_some err (\<lambda>m. [El ''p'' [] [Txt m]]))"

definition login_view :: "login_page \<Rightarrow> login_action node" where
  "login_view s =
     El ''form'' []
       (show_if (truthy (lp_error s)) [El ''div'' [] [Txt (str_or (lp_error s) '''')]]
        @ [login_field ''Email Address'' ''email'' ''email'' TypeEmail (lp_email_error s),
           login_field ''Password'' ''password'' ''password'' TypePassword (lp_password_error s),
           El ''button'' [Attr ''type'' ''submit'', Flag ''disabled'' (lp_loading s), On ''submit'' SubmitLogin]
             (if lp_loading s then [Icon ''Loader2''] else [Txt ''Sign In''])])"

subsection \<open>Runs of the page\<close>

text \<open>The page is loading exactly while it waits for a call that is not settled; it leaves for
  the landing page only when credentials are stored.\<close>

definition login_inv :: "login_page \<Rightarrow> bool" where
  "login_inv s \<longleftrightarrow> client_inv (lp_client s) \<and> (lp_loading s \<longleftrightarrow> lp_call s \<noteq> None) \<and>
     (\<forall>i. lp_call s = Some i \<longrightarrow> i < next_call (lp_client s) \<and> i \<notin> fst ` set (settled (lp_client s))) \<and>
     lp_route s \<in> {''/login'', ''/''}"

lemma client_inv_step: "client_inv c \<Longrightarrow> client_inv (client_step c ev)"
  by (rule client.inv_step)

lemma next_call_settled: "client_inv c \<Longrightarrow> next_call c \<notin> fst ` set (settled c)"
proof
  assume i: "client_inv c" and m: "next_call c \<in> fst ` set (settled c)"
  then have "next_call c \<in> set (all_calls c)" by (simp add: all_calls_def image_iff)
  then have "next_call c \<in># numbers_below (next_call c)"
    using i by (metis calls_inv_def client_inv_def set_mset_mset)
  then show False by (simp add: numbers_below_def)
qed

lemma api_call_eq: "api_call (new_request m u) c = client_step c (Call m u)"
  by simp

lemma settled_Call [simp]: "settled (client_step c (Call m u)) = settled c"
  by (simp add: api_call_def issue_def)

lemma map_of_None_fst: "map_of xs i = None \<longleftrightarrow> i \<notin> fst ` set xs"
  by (simp add: map_of_eq_None_iff)

lemma login_submit_inv:
  assumes "login_inv s" "\<not> lp_loading s"
  shows "login_inv (login_submit is_email s)"
proof -
  have "client_inv (api_call (new_request m u) (lp_client s))" for m u
    using assms(1) client_inv_step [of "lp_client s" "Call m u"] by (simp add: login_inv_def)
  moreover have "next_call (lp_client s) \<notin> fst ` set (settled (lp_client s))"
    using assms(1) next_call_settled by (simp add: login_inv_def)
  ultimately show ?thesis using assms
    by (auto simp: login_inv_def login_submit_def Let_def api_call_def issue_def)
qed

lemma resume_cases:
  obtains "login_resume parse s = s" "\<forall>i. lp_call s = Some i \<longrightarrow> i \<notin> fst ` set (settled (lp_client s))"
  | e where "login_resume parse s = login_failed e s"
  | d where "login_resume parse s = login_succeeded d s"
proof (cases "lp_call s")
  case None
  then show thesis by (intro that(1)) (simp_all add: login_resume_def)
next
  case (Some i)
  show thesis
  proof (cases "map_of (settled (lp_client s)) i")
    case None
    then have "login_resume parse s = s" using Some by (simp add: login_resume_def)
    moreover have "i \<notin> fst ` set (settled (lp_client s))" using None map_of_None_fst by metis
    ultimately show thesis using Some by (intro that(1)) simp_all
  next
    case out: (Some out)
    show thesis
    proof (cases out)
      case (Resolved body)
      then show thesis using Some out that(2) [of OtherValue] that(3)
        by (cases "parse body") (simp_all add: login_resume_def)
    next
      case (Rejected e)
      then show thesis using Some out that(2) [of e] by (simp add: login_resume_def)
    qed
  qed
qed

lemma login_resume_inv:
  assumes "client_inv (lp_client s)" "lp_loading s \<longleftrightarrow> lp_call s \<noteq> None" "lp_route s \<in> {''/login'', ''/''}"
    and "\<forall>i. lp_call s = Some i \<longrightarrow> i < next_call (lp_client s)"
  shows "login_inv (login_resume parse s)"
proof (cases rule: resume_cases [of parse s])
  case 1
  then show ?thesis using assms by (simp add: login_inv_def)
next
  case (2 e)
  then show ?thesis using assms by (simp add: login_inv_def login_failed_def)
next
  case (3 d)
  then show ?thesis using client_inv_step [OF assms(1), of "SignIn (rd_user d) (rd_access d) (rd_refresh d)"]
    by (simp add: login_inv_def login_succeeded_def)
qed

lemma next_call_mono: "next_call c \<le> next_call (client_step c ev)"
proof (cases ev)
  case (Failure i e)
  then show ?thesis
    by (auto simp: on_error_def settle_def logout_def api_call_def issue_def drop_inflight_def Let_def split: option.splits)
next
  case (Refreshed d)
  then show ?thesis by (auto simp: on_refreshed_def processQueue_eq issue_def Let_def split: option.splits)
next
  case (RefreshFailed e)
  then show ?thesis
    by (auto simp: on_refresh_failed_def processQueue_eq settle_def logout_def api_call_def issue_def Let_def split: option.splits)
qed (auto simp: api_call_def issue_def settle_def logout_def send_next_def drop_inflight_def Let_def
    split: option.splits list.splits)

interpretation login: state_machine "mount_login (initial_client cid)" "login_step is_email parse" login_inv
  for cid is_email parse
proof unfold_locales
  have "client_inv (initial_client cid)" by (rule client.inv_init)
  then show "login_inv (mount_login (initial_client cid))" by (simp add: login_inv_def mount_login_def)
  show "login_inv (login_step is_email parse s e)" if i: "login_inv s" for s e
  proof (cases e)
    case (LoginAct a)
    then show ?thesis using i login_submit_inv [OF i] by (cases a) (auto simp: login_inv_def)
  next
    case (LoginNet ev)
    have "login_inv (login_resume parse (s\<lparr>lp_client := client_step (lp_client s) ev\<rparr>))"
    proof (rule login_resume_inv)
      have "client_inv (lp_client s)" using i by (simp add: login_inv_def)
      from client_inv_step [OF this]
      show "client_inv (lp_client (s\<lparr>lp_client := client_step (lp_client s) ev\<rparr>))" by simp
      show "\<forall>j. lp_call (s\<lparr>lp_client := client_step (lp_client s) ev\<rparr>) = Some j \<longrightarrow>
          j < next_call (lp_client (s\<lparr>lp_client := client_step (lp_client s) ev\<rparr>))"
        using i next_call_mono [of "lp_client s" ev] by (auto simp: login_inv_def)
    qed (use i in \<open>auto simp: login_inv_def\<close>)
    then show ?thesis using LoginNet by simp
  qed
qed

subsection \<open>What a run shows\<close>

text \<open>C32. Over any run of the page and the network: the page is loading exactly while it waits for
  a call that the client has not settled, so it never goes on before the answer nor stays
  loading after it; every call of the client is accounted for; and no second submission
  starts while one is under way.\<close>

theorem login_run:
  assumes "s = run (login_step is_email parse) (mount_login (initial_client cid)) es"
  shows "client_inv (lp_client s) \<and> (lp_loading s \<longleftrightarrow> lp_call s \<noteq> None) \<and>
    (\<forall>i. lp_call s = Some i \<longrightarrow> map_of (settled (lp_client s)) i = None) \<and>
    (lp_loading s \<longrightarrow> login_step is_email parse s (LoginAct SubmitLogin) = s)"
proof -
  have "login_inv s" unfolding assms by (rule login.inv_run)
  then show ?thesis by (auto simp: login_inv_def map_of_eq_None_iff)
qed

text \<open>A user who types an address and a password and submits.\<close>

definition sign_in_as :: "jsstring \<Rightarrow> jsstring \<Rightarrow> login_event list" where
  "sign_in_as e p = [LoginAct (TypeEmail e), LoginAct (TypePassword p), LoginAct SubmitLogin]"

definition first_attempt :: login_page where
  \<comment> \<open>the request of the first attempt is under way; every address passes, no body can be read\<close>
  "first_attempt = run (login_step (\<lambda>_. True) (\<lambda>_. None)) (mount_login (initial_client ''cid''))
     (sign_in_as ''a@b.c'' ''secret'' @ [LoginNet (SendNext ''u0'')])"

lemma first_attempt_inv: "client_inv (lp_client first_attempt)"
  using login.inv_run [of "\<lambda>_. True" "\<lambda>_. None" "''cid''"] unfolding first_attempt_def login_inv_def by blast

theorem login_run_witness:
  "lp_loading first_attempt \<and>
   login_step (\<lambda>_. True) (\<lambda>_. None) first_attempt (LoginAct SubmitLogin) = first_attempt"
proof -
  have "lp_loading first_attempt" by code_simp
  then show ?thesis using login_run [OF first_attempt_def] by blast
qed

lemma inflight_unsettled:
  assumes "client_inv c" "map_of (inflight c) i = Some r"
  shows "map_of (settled c) i = None"
proof -
  have "i \<in> set (map fst (inflight c))" using assms(2) by (metis image_set in_set_zipE map_of_SomeD zip_map_fst_snd)
  moreover have "distinct (all_calls c)" using assms(1) by (simp add: client_inv_def calls_inv_distinct)
  ultimately have "i \<notin> fst ` set (settled c)" by (auto simp: all_calls_def)
  then show ?thesis by (simp add: map_of_None_fst)
qed

lemma failed_call:
  assumes "client_inv c" "map_of (inflight c) i = Some r" "response_status e \<noteq> Some 401 \<or> retried r \<or>
    \<not> isRefreshing c \<and> \<not> usable (refreshToken (auth c))"
  shows "\<exists>e'. map_of (settled (client_step c (Failure i e))) i = Some (Rejected e') \<and>
    (e' = (if response_status e = Some 401 \<and> \<not> retried r then e else MappedError (mapAPIError e)))"
  using inflight_unsettled [OF assms(1,2)] assms(2,3)
  by (auto simp: on_error_def settle_def drop_inflight_def logout_def api_call_def issue_def usable_def Let_def
      map_add_Some_iff split: option.splits)

lemma answered_call:
  assumes "client_inv c" "map_of (inflight c) i = Some r"
  shows "map_of (settled (client_step c (Answer i body))) i = Some (Resolved body)"
  using inflight_unsettled [OF assms] assms(2) by (simp add: settle_def drop_inflight_def map_add_Some_iff)

text \<open>The answer to the login request decides what the page shows: on success the credentials
  are stored and the user is taken to the landing page; a 401 shows the server's text, or a
  general one; every other failure, a server that is down or a network that is gone as well,
  shows \<open>Invalid email or password.\<close>. In each case the page stops loading.\<close>

theorem login_answers:
  assumes "client_inv (lp_client s)" "lp_call s = Some i" "map_of (inflight (lp_client s)) i = Some r"
    and "\<not> retried r" "\<not> isRefreshing (lp_client s)" "\<not> usable (refreshToken (auth (lp_client s)))"
  shows "(let s' = login_step is_email parse s (LoginNet (Failure i e)) in
      \<not> lp_loading s' \<and> lp_route s' = lp_route s \<and>
      lp_error s' = Some (if response_status e = Some 401 \<and> truthy (response_detail e)
        then the (response_detail e) else ''Invalid email or password.'')) \<and>
    (\<forall>d. parse body = Some d \<longrightarrow>
      (let s' = login_step is_email parse s (LoginNet (Answer i body)) in
        \<not> lp_loading s' \<and> lp_route s' = ''/'' \<and>
        auth (lp_client s') = setCredentials (rd_user d) (rd_access d) (rd_refresh d) (auth (lp_client s)) \<and>
        isAuthenticated (auth (lp_client s'))))"
proof (intro conjI allI impI)
  obtain e' where e: "map_of (settled (client_step (lp_client s) (Failure i e))) i = Some (Rejected e')"
    "e' = (if response_status e = Some 401 \<and> \<not> retried r then e else MappedError (mapAPIError e))"
    using failed_call [OF assms(1,3), of e] assms(5,6) by blast
  have "login_step is_email parse s (LoginNet (Failure i e)) =
      login_failed e' (s\<lparr>lp_client := client_step (lp_client s) (Failure i e)\<rparr>)"
    using e(1) assms(2) by (simp add: login_resume_def del: client_step.simps)
  then show "let s' = login_step is_email parse s (LoginNet (Failure i e)) in
      \<not> lp_loading s' \<and> lp_route s' = lp_route s \<and>
      lp_error s' = Some (if response_status e = Some 401 \<and> truthy (response_detail e)
        then the (response_detail e) else ''Invalid email or password.'')"
    using e(2) assms(4) by (auto simp: Let_def login_failed_def truthy_def)
  fix d assume d: "parse body = Some d"
  have "login_step is_email parse s (LoginNet (Answer i body)) =
      login_succeeded d (s\<lparr>lp_client := client_step (lp_client s) (Answer i body)\<rparr>)"
    using answered_call [OF assms(1,3), of body] d assms(2) by (simp add: login_resume_def del: client_step.simps)
  then show "let s' = login_step is_email parse s (LoginNet (Answer i body)) in
        \<not> lp_loading s' \<and> lp_route s' = ''/'' \<and>
        auth (lp_client s') = setCredentials (rd_user d) (rd_access d) (rd_refresh d) (auth (lp_client s)) \<and>
        isAuthenticated (auth (lp_client s'))"
    using assms(3) by (simp add: Let_def login_succeeded_def settle_def drop_inflight_def setCredentials_def)
qed

theorem login_answers_witness:
  "lp_error (login_step (\<lambda>_. True) (\<lambda>_. None) first_attempt (LoginNet (Failure 0 (AxiosFailure (Some 503) None ''m'')))) =
     Some ''Invalid email or password.''"
proof -
  have c: "lp_call first_attempt = Some 0" by code_simp
  have "map_option retried (map_of (inflight (lp_client first_attempt)) 0) = Some False" by code_simp
  then obtain r where r: "map_of (inflight (lp_client first_attempt)) 0 = Some r" "\<not> retried r" by auto
  have n: "\<not> isRefreshing (lp_client first_attempt)" by code_simp
  have "refreshToken (auth (lp_client first_attempt)) = None" by code_simp
  then have u: "\<not> usable (refreshToken (auth (lp_client first_attempt)))" by (simp add: usable_def)
  show ?thesis
    using login_answers [OF first_attempt_inv c r n u, of "\<lambda>_. True" "\<lambda>_. None" "AxiosFailure (Some 503) None ''m''"]
    by (simp add: Let_def del: login_step.simps)
qed

subsection \<open>The second wrong password\<close>

definition hanging :: "nat \<Rightarrow> request \<Rightarrow> login_page \<Rightarrow> bool" where
  "hanging j q s \<longleftrightarrow> client_inv (lp_client s) \<and> wedged (lp_client s) \<and> (j, q) \<in> set (failedQueue (lp_client s)) \<and>
     lp_call s = Some j \<and> lp_loading s"

lemma hanging_resume: "hanging j q s \<Longrightarrow> login_resume parse s = s"
  using parked_unsettled [of "lp_client s" j q]
  by (auto simp: hanging_def login_resume_def map_of_None_fst [symmetric])

lemma hanging_step: "hanging j q s \<Longrightarrow> hanging j q (login_step is_email parse s ev)"
proof (cases ev)
  case (LoginAct a)
  assume "hanging j q s"
  then show ?thesis using LoginAct by (cases a) (simp_all add: hanging_def)
next
  case (LoginNet nev)
  assume h: "hanging j q s"
  let ?s = "s\<lparr>lp_client := client_step (lp_client s) nev\<rparr>"
  have "client_inv (client_step (lp_client s) nev)" using h client_inv_step by (simp add: hanging_def)
  moreover have "wedged (client_step (lp_client s) nev)" "(j, q) \<in> set (failedQueue (client_step (lp_client s) nev))"
    using h wedged_step [of "lp_client s" nev] by (auto simp: hanging_def)
  ultimately have "hanging j q ?s" using h by (simp add: hanging_def)
  then show ?thesis using LoginNet hanging_resume by simp
qed

lemma hanging_run: "hanging j q s \<Longrightarrow> hanging j q (run (login_step is_email parse) s es)"
  by (induction es arbitrary: s) (simp_all add: hanging_step del: login_step.simps)

text \<open>C31. Once a 401 has found the client without a refresh token, as the first wrong password
  does, a login request that is answered with a 401 never ends: whatever the user, the
  network and the other pages do afterwards, the page goes on loading, shows no message and
  takes no further submission, although the server has answered.\<close>

theorem login_hangs:
  assumes "client_inv (lp_client s)" "wedged (lp_client s)" "lp_loading s" "lp_call s = Some j"
    and "map_of (inflight (lp_client s)) j = Some q" "\<not> retried q" "response_status e = Some 401"
  shows "(let s' = run (login_step is_email parse) s (LoginNet (Failure j e) # es) in
    lp_loading s' \<and> lp_call s' = Some j \<and> login_step is_email parse s' (LoginAct SubmitLogin) = s')"
proof -
  let ?s = "s\<lparr>lp_client := client_step (lp_client s) (Failure j e)\<rparr>"
  have "hanging j q ?s"
    using assms client_inv_step [OF assms(1)] wedged_step [OF assms(2), of "Failure j e"] wedged_parks [OF assms(2,5,6,7)]
    by (simp add: hanging_def del: client_step.simps)
  then have "hanging j q (login_step is_email parse s (LoginNet (Failure j e)))"
    using hanging_resume by (simp del: client_step.simps)
  then have "hanging j q (run (login_step is_email parse) s (LoginNet (Failure j e) # es))"
    using hanging_run by (simp del: login_step.simps)
  then show ?thesis by (simp add: hanging_def Let_def del: run_Cons)
qed

text \<open>Two wrong passwords in a row, on a page that was just opened.\<close>

definition second_attempt :: login_page where
  "second_attempt = run (login_step (\<lambda>_. True) (\<lambda>_. None)) (mount_login (initial_client ''cid''))
     ((sign_in_as ''a@b.c'' ''secret'' @ [LoginNet (SendNext ''u0'')]) @
      LoginNet (Failure 0 (AxiosFailure (Some 401) None ''m'')) #
      sign_in_as ''a@b.c'' ''Secret'' @ [LoginNet (SendNext ''u1''), LoginNet (SendNext ''u2'')])"

theorem login_hangs_witness:
  "lp_error (login_step (\<lambda>_. True) (\<lambda>_. None) first_attempt (LoginNet (Failure 0 (AxiosFailure (Some 401) None ''m'')))) =
     Some ''Invalid email or password.'' \<and>
   (\<forall>es. lp_loading (run (login_step (\<lambda>_. True) (\<lambda>_. None)) second_attempt
     (LoginNet (Failure 2 (AxiosFailure (Some 401) None ''m'')) # es)))"
proof
  show "lp_error (login_step (\<lambda>_. True) (\<lambda>_. None) first_attempt (LoginNet (Failure 0 (AxiosFailure (Some 401) None ''m'')))) =
     Some ''Invalid email or password.''" by code_simp
  have i: "client_inv (lp_client second_attempt)"
    using login.inv_run [of "\<lambda>_. True" "\<lambda>_. None" "''cid''"] unfolding second_attempt_def login_inv_def by blast
  have "isRefreshing (lp_client second_attempt)" "map_option fst (refreshing (lp_client second_attempt)) = None" by code_simp+
  then have w: "wedged (lp_client second_attempt)" by (simp add: wedged_def)
  have l: "lp_loading second_attempt" "lp_call second_attempt = Some 2" by code_simp+
  have "map_option retried (map_of (inflight (lp_client second_attempt)) 2) = Some False" by code_simp
  then obtain q where q: "map_of (inflight (lp_client second_attempt)) 2 = Some q" "\<not> retried q" by auto
  have e: "response_status (AxiosFailure (Some 401) None ''m'') = Some 401" by simp
  show "\<forall>es. lp_loading (run (login_step (\<lambda>_. True) (\<lambda>_. None)) second_attempt
     (LoginNet (Failure 2 (AxiosFailure (Some 401) None ''m'')) # es))"
    using login_hangs [OF i w l q e] unfolding Let_def by blast
qed

end
