(* ===== verification/App_Routes.thy ===== *)
theory App_Routes
  imports Api_Client Notifications Command_Palette
begin

text \<open>
  Which page is shown where: the route table of \<open>frontend/src/App.tsx\<close>, the guard
  \<open>components/ProtectedRoute.tsx\<close>, the two layouts, the keyboard shortcuts of
  \<open>hooks/useKeyboardShortcuts.ts\<close> and the two small pages \<open>NotFound\<close> and
  \<open>Unauthorized\<close>; then a session, in which navigation, shortcuts, the command palette, the
  HTTP client and signing out act on one location. A location is a path as the router
  matches it: without query, fragment and trailing slash, in lower case.
\<close>

subsection \<open>The route table\<close>

datatype app_page =
    LandingPage | LoginScreen | DashboardPage | CatalogPage | CartScreen | CheckoutPage | OrdersPage | InventoryPage
  | UsersPage | AdminPage | WorkspacePage | SettingsPage | UnauthorizedPage | NotFoundPage

datatype frame = Bare | GuestFrame | AppFrame

definition routes :: "(jsstring \<times> frame \<times> app_page) list" where
  "routes =
     [(''/'', Bare, LandingPage),
      (''/login'', GuestFrame, LoginScreen),
      (''/dashboard'', AppFrame, DashboardPage),
      (''/products'', AppFrame, CatalogPage),
      (''/cart'', AppFrame, CartScreen),
      (''/checkout'', AppFrame, CheckoutPage),
      (''/orders'', AppFrame, OrdersPage),
      (''/inventory'', AppFrame, InventoryPage),
      (''/users'', AppFrame, UsersPage),
      (''/admin'', AppFrame, AdminPage),
      (''/workspace'', AppFrame, WorkspacePage),
      (''/settings'', AppFrame, SettingsPage),
      (''/unauthorized'', AppFrame, UnauthorizedPage),
      (''/404'', Bare, NotFoundPage)]"

definition protected_route :: "jsstring list option \<Rightarrow> auth_state \<Rightarrow> jsstring option" where
  \<comment> \<open>where the guard redirects to, or nothing when it lets the page through\<close>
  "protected_route allowedRoles a =
     (if \<not> isAuthenticated a then Some ''/login''
      else case (allowedRoles, auth_user a) of
          (Some rs, Some u) \<Rightarrow> if List.member rs (role u) then None else Some ''/unauthorized''
        | _ \<Rightarrow> None)"

definition match_route :: "auth_state \<Rightarrow> jsstring \<Rightarrow> jsstring + (frame \<times> app_page)" where
  "match_route a loc =
     (case map_of routes loc of
        None \<Rightarrow> Inl ''/404''
      | Some (AppFrame, p) \<Rightarrow> (case protected_route None a of Some to \<Rightarrow> Inl to | None \<Rightarrow> Inr (AppFrame, p))
      | Some fp \<Rightarrow> Inr fp)"

lemma redirect_target: "match_route a loc = Inl to \<Longrightarrow> to = ''/404'' \<or> to = ''/login''"
  by (auto simp: match_route_def protected_route_def split: option.splits frame.splits if_splits)

lemma match_404: "match_route a ''/404'' = Inr (Bare, NotFoundPage)"
  by (simp add: match_route_def routes_def)

lemma match_login: "match_route a ''/login'' = Inr (GuestFrame, LoginScreen)"
  by (simp add: match_route_def routes_def)

text \<open>The router renders a redirect by navigating again.\<close>

function follow :: "auth_state \<Rightarrow> jsstring \<Rightarrow> jsstring \<times> frame \<times> app_page" where
  "follow a loc = (case match_route a loc of Inl to \<Rightarrow> follow a to | Inr fp \<Rightarrow> (loc, fp))"
  by pat_completeness auto

termination
proof (relation "measure (\<lambda>(a, loc). case match_route a loc of Inl _ \<Rightarrow> 1 | Inr _ \<Rightarrow> 0)")
  fix a loc to assume m: "match_route a loc = Inl to"
  then have "to = ''/404'' \<or> to = ''/login''" by (rule redirect_target)
  then have "\<exists>fp. match_route a to = Inr fp" using match_404 match_login by blast
  then show "((a, to), (a, loc)) \<in> measure (\<lambda>(a, loc). case match_route a loc of Inl _ \<Rightarrow> 1 | Inr _ \<Rightarrow> 0)"
    using m by auto
qed simp

declare follow.simps [simp del]

subsection \<open>Layouts and small pages\<close>

definition shortcut :: "bool \<Rightarrow> jsstring \<Rightarrow> jsstring option" where
  "shortcut altKey key =
     (if \<not> altKey then None
      else let k = toLowerCase key in
        if k = ''d'' then Some ''/''
        else if k = ''p'' then Some ''/products''
        else if k = ''c'' then Some ''/cart''
        else if k = ''o'' then Some ''/orders''
        else if k = ''i'' then Some ''/inventory''
        else if k = ''u'' then Some ''/users''
        else None)"

datatype 'x layout_action = ToggleSidebar | ToggleTheme | Logout | FollowLink jsstring | InPage 'x | InPalette palette_action

definition nav_links :: "(jsstring \<times> jsstring \<times> jsstring) list" where
  "nav_links =
     [(''/dashboard'', ''LayoutDashboard'', ''Dashboard''), (''/products'', ''List'', ''Catalog''),
      (''/cart'', ''ShoppingCart'', ''Shopping Cart''), (''/orders'', ''Layers'', ''Orders''),
      (''/inventory'', ''Warehouse'', ''Inventory''), (''/users'', ''Users'', ''Users''),
      (''/admin'', ''BarChart3'', ''Admin KPIs''), (''/workspace'', ''Layers'', ''Workspace''),
      (''/settings'', ''Settings'', ''Settings'')]"

definition link_to :: "jsstring \<Rightarrow> 'x layout_action node list \<Rightarrow> 'x layout_action node" where
  "link_to to children = El ''a'' [Attr ''to'' to, On ''click'' (FollowLink to)] children"

definition sidebar_view :: "bool \<Rightarrow> 'x layout_action node" where
  "sidebar_view wide =
     El ''aside'' [Attr ''role'' ''navigation'', Attr ''aria-label'' ''Main navigation'']
       [El ''div'' []
          [link_to ''/'' (Icon ''ShoppingBag'' # show_if wide [El ''span'' [] [Txt ''CloudScale'']]),
           El ''button'' [On ''click'' ToggleSidebar] [Icon (if wide then ''X'' else ''Menu'')]],
        El ''nav'' []
          (map (\<lambda>(to, icon, label). link_to to (Icon icon # show_if wide [El ''span'' [] [Txt label]])) nav_links)]"

definition navbar_view :: "theme_choice \<Rightarrow> nat \<Rightarrow> user option \<Rightarrow> 'x layout_action node" where
  "navbar_view th unreadCount u =
     El ''header'' []
       [El ''div'' [] [El ''span'' [] [Icon ''Search''], El ''input'' [Attr ''type'' ''text'', Attr ''placeholder'' ''Search...''] []],
        El ''div'' []
          [El ''button'' [On ''click'' ToggleTheme] [Icon (if th = Dark then ''Sun'' else ''Moon'')],
           El ''button'' [Attr ''aria-label'' (''Notifications, '' @ show_nat unreadCount @ '' unread'')]
             (Icon ''Bell'' # show_if (unreadCount > 0)
                [El ''span'' [] [if unreadCount > 9 then Txt ''9+'' else Num (of_nat unreadCount)]]),
           El ''div'' []
             [El ''div'' []
                [El ''p'' [] (show_some u (\<lambda>u. [Txt (full_name u)])), El ''p'' [] (show_some u (\<lambda>u. [Txt (role u)]))],
              El ''button'' [On ''click'' Logout, Attr ''title'' ''Logout''] [Icon ''LogOut'']]]]"

definition app_layout ::
    "palette \<Rightarrow> bool \<Rightarrow> theme_choice \<Rightarrow> notification_state \<Rightarrow> user option \<Rightarrow> 'x node \<Rightarrow> 'x layout_action node" where
  "app_layout pal wide th notifs u outlet =
     El ''div'' [Attr ''role'' ''application'']
       (map (map_node InPalette) (palette_view pal)
        @ [sidebar_view wide,
           El ''div'' []
             [navbar_view th (unread notifs) u,
              El ''main'' [Attr ''id'' ''main-content'', Attr ''role'' ''main''] [map_node InPage outlet]]])"

definition guest_layout :: "'x node \<Rightarrow> 'x layout_action node" where
  "guest_layout outlet =
     El ''div'' []
       [El ''div'' []
          [El ''div'' []
             [El ''div'' [] [Icon ''ShoppingBag''], El ''h2'' [] [Txt ''CloudScale Commerce''],
              El ''p'' [] [Txt ''Enterprise Cloud-Native Platform'']],
           map_node InPage outlet]]"

definition not_found_view :: "'x layout_action node" where
  "not_found_view =
     El ''div'' []
       [El ''div'' [] [Icon ''HelpCircle''], El ''h1'' [] [Txt ''Page Not Found''],
        El ''p'' [] [Txt ''The requested path does not exist on our server. Please check the spelling or link source.''],
        link_to ''/'' [Txt ''Go Home'']]"

definition unauthorized_view :: "'x layout_action node" where
  "unauthorized_view =
     El ''div'' []
       [El ''div'' [] [Icon ''ShieldAlert''], El ''h1'' [] [Txt ''Access Denied''],
        El ''p'' [] [Txt (''You do not possess the required RBAC permissions to access this page. '' @
          ''Please contact your administrator.'')],
        link_to ''/'' [Txt ''Go Home'']]"

subsection \<open>Sessions\<close>

text \<open>The browser's location together with the client and the palette. The palette and the
  shortcuts live in the layout of the guarded pages; when that is left, the palette's state is
  dropped, while the search history, which is a store, stays.\<close>

record session =
  ses_client :: client
  ses_palette :: palette
  ses_loc :: jsstring

definition frame_of :: "session \<Rightarrow> frame" where
  "frame_of s = fst (snd (follow (auth (ses_client s)) (ses_loc s)))"

definition page_of :: "session \<Rightarrow> app_page" where
  "page_of s = snd (snd (follow (auth (ses_client s)) (ses_loc s)))"

definition render_routes :: "session \<Rightarrow> session" where
  "render_routes s =
     (let (loc, fr, p) = follow (auth (ses_client s)) (ses_loc s); s1 = s\<lparr>ses_loc := loc\<rparr>
      in if fr = AppFrame then s1 else s1\<lparr>ses_palette := initial_palette (pal_history (ses_palette s)) loc\<rparr>)"

definition handleLogout :: "session \<Rightarrow> session" where
  "handleLogout s = s\<lparr>ses_client := client_step (ses_client s) SignOut, ses_loc := ''/login''\<rparr>"

datatype session_event =
    Visit jsstring
  | KeyDown bool jsstring
  | PaletteAct palette_action
  | LogoutClick
  | NetEvent client_event

fun session_act :: "session \<Rightarrow> session_event \<Rightarrow> session" where
  "session_act s (Visit loc) = s\<lparr>ses_loc := loc\<rparr>"
| "session_act s (KeyDown alt key) =
     (if frame_of s = AppFrame then case shortcut alt key of None \<Rightarrow> s | Some loc \<Rightarrow> s\<lparr>ses_loc := loc\<rparr> else s)"
| "session_act s (PaletteAct a) =
     (if frame_of s = AppFrame
      then let p = palette_event ((ses_palette s)\<lparr>pal_route := ses_loc s\<rparr>) a in s\<lparr>ses_palette := p, ses_loc := pal_route p\<rparr>
      else s)"
| "session_act s LogoutClick = (if frame_of s = AppFrame then handleLogout s else s)"
| "session_act s (NetEvent ev) = s\<lparr>ses_client := client_step (ses_client s) ev\<rparr>"

definition session_step :: "session \<Rightarrow> session_event \<Rightarrow> session" where
  "session_step s e = render_routes (session_act s e)"

definition mount_session :: "jsstring \<Rightarrow> search_state \<Rightarrow> jsstring \<Rightarrow> session" where
  "mount_session cid history loc =
     render_routes \<lparr>ses_client = initial_client cid, ses_palette = initial_palette history loc, ses_loc = loc\<rparr>"

subsection \<open>Redirects\<close>

lemma follow_Inr: "match_route a loc = Inr fp \<Longrightarrow> follow a loc = (loc, fp)"
  by (simp add: follow.simps)

lemma follow_Inl: "match_route a loc = Inl to \<Longrightarrow> follow a loc = follow a to"
  by (simp add: follow.simps [of a loc])

lemma redirect_settled: "match_route a loc = Inl to \<Longrightarrow> \<exists>fp. match_route a to = Inr fp"
  using redirect_target match_404 match_login by blast

lemma follow_matched: "match_route a (fst (follow a loc)) = Inr (snd (follow a loc))"
  using redirect_settled [of a loc] follow_Inr follow_Inl by (cases "match_route a loc") auto

lemma follow_fst [simp]: "follow a (fst (follow a loc)) = follow a loc"
  using follow_Inr [OF follow_matched] by simp

lemma match_guarded:
  "match_route a loc = Inr (AppFrame, p) \<Longrightarrow> isAuthenticated a \<and> map_of routes loc = Some (AppFrame, p)"
  by (auto simp: match_route_def protected_route_def split: option.splits frame.splits if_splits)

lemma match_in_table: "match_route a loc = Inr fp \<Longrightarrow> map_of routes loc = Some fp"
  by (auto simp: match_route_def split: option.splits frame.splits)

text \<open>C35. Every location settles: whatever is typed into the address bar and whoever is signed in,
  the router redirects at most once and then shows a page of the table; an unknown location
  shows the page for that, a guarded one the login page to a guest.\<close>

theorem redirects_settle:
  "(case match_route a loc of
      Inr fp \<Rightarrow> follow a loc = (loc, fp)
    | Inl to \<Rightarrow> \<exists>fp. match_route a to = Inr fp \<and> follow a loc = (to, fp)) \<and>
   map_of routes (fst (follow a loc)) = Some (snd (follow a loc)) \<and>
   follow a loc =
     (case map_of routes loc of
        None \<Rightarrow> (''/404'', Bare, NotFoundPage)
      | Some (fr, p) \<Rightarrow> if fr = AppFrame \<and> \<not> isAuthenticated a then (''/login'', GuestFrame, LoginScreen) else (loc, fr, p))"
proof (intro conjI)
  show "case match_route a loc of
      Inr fp \<Rightarrow> follow a loc = (loc, fp)
    | Inl to \<Rightarrow> \<exists>fp. match_route a to = Inr fp \<and> follow a loc = (to, fp)"
  proof (cases "match_route a loc")
    case (Inl to)
    then obtain fp where "match_route a to = Inr fp" using redirect_settled by blast
    then show ?thesis using Inl follow_Inl follow_Inr by auto
  qed (simp add: follow_Inr)
  show "map_of routes (fst (follow a loc)) = Some (snd (follow a loc))"
    by (rule match_in_table [OF follow_matched])
  have "follow a ''/404'' = (''/404'', Bare, NotFoundPage)" "follow a ''/login'' = (''/login'', GuestFrame, LoginScreen)"
    using match_404 match_login follow_Inr by blast+
  then show "follow a loc =
     (case map_of routes loc of
        None \<Rightarrow> (''/404'', Bare, NotFoundPage)
      | Some (fr, p) \<Rightarrow> if fr = AppFrame \<and> \<not> isAuthenticated a then (''/login'', GuestFrame, LoginScreen) else (loc, fr, p))"
    by (subst follow.simps) (auto simp: match_route_def protected_route_def split: option.split frame.split)
qed

subsection \<open>The guard over a session\<close>

definition session_inv :: "session \<Rightarrow> bool" where
  "session_inv s \<longleftrightarrow> client_inv (ses_client s) \<and>
     match_route (auth (ses_client s)) (ses_loc s) = Inr (frame_of s, page_of s)"

lemma render_routes_simps [simp]:
  "ses_client (render_routes s) = ses_client s"
  "ses_loc (render_routes s) = fst (follow (auth (ses_client s)) (ses_loc s))"
  by (simp_all add: render_routes_def split_def Let_def)

lemma render_routes_inv: "client_inv (ses_client s) \<Longrightarrow> session_inv (render_routes s)"
  using follow_matched [of "auth (ses_client s)" "ses_loc s"]
  by (simp add: session_inv_def frame_of_def page_of_def)

lemma session_act_client:
  "client_inv (ses_client s) \<Longrightarrow> client_inv (ses_client (session_act s e))"
proof (cases e)
  case (NetEvent ev)
  assume "client_inv (ses_client s)"
  from client.inv_step [OF this, of ev] show ?thesis using NetEvent by simp
next
  case LogoutClick
  assume i: "client_inv (ses_client s)"
  from client.inv_step [OF this, of SignOut] show ?thesis using LogoutClick i by (simp add: handleLogout_def)
qed (auto simp: Let_def split: option.split)

interpretation session: state_machine "mount_session cid history loc" session_step session_inv for cid history loc
proof unfold_locales
  have "client_inv (initial_client cid)" by (rule client.inv_init)
  then show "session_inv (mount_session cid history loc)" by (simp add: mount_session_def render_routes_inv)
  show "session_inv (session_step s e)" if "session_inv s" for s e
    unfolding session_step_def using that by (intro render_routes_inv session_act_client) (simp add: session_inv_def)
qed

text \<open>C36. Over any session, however locations, shortcuts, the palette, answers of the server and
  signing out interleave: a page of the application is shown only while the user is
  authenticated, and the location in the address bar is the one of the page shown. When the
  credentials are gone, by signing out or by a failed token rotation, the very next thing
  shown is the login page, unless the page was a public one.\<close>

theorem guarded_pages:
  "let s = run session_step (mount_session cid history loc) es in
     (frame_of s = AppFrame \<longrightarrow> isAuthenticated (auth (ses_client s))) \<and>
     map_of routes (ses_loc s) = Some (frame_of s, page_of s) \<and>
     (frame_of s = AppFrame \<longrightarrow> page_of (session_step s LogoutClick) = LoginScreen) \<and>
     (\<not> isAuthenticated (auth (client_step (ses_client s) ev)) \<longrightarrow>
        page_of (session_step s (NetEvent ev)) \<in> {LoginScreen, LandingPage, NotFoundPage})"
proof -
  define s where "s = run session_step (mount_session cid history loc) es"
  have inv: "session_inv s" unfolding s_def by (rule session.inv_run)
  then have m: "match_route (auth (ses_client s)) (ses_loc s) = Inr (frame_of s, page_of s)"
    by (simp add: session_inv_def)
  have out: "page_of (render_routes u) = LoginScreen"
    if "\<not> isAuthenticated (auth (ses_client u))" "ses_loc u = ''/login''" for u
    using follow_Inr [OF match_login, of "auth (ses_client u)"] that by (simp add: page_of_def)
  have "\<not> isAuthenticated (auth (ses_client (handleLogout s)))" "ses_loc (handleLogout s) = ''/login''"
    by (simp_all add: handleLogout_def logout_def clear_auth_def api_call_def issue_def Let_def)
  then have 3: "frame_of s = AppFrame \<Longrightarrow> page_of (session_step s LogoutClick) = LoginScreen"
    using out [of "handleLogout s"] by (simp add: session_step_def)
  have "page_of u \<in> {LoginScreen, LandingPage, NotFoundPage}"
    if "session_inv u" "\<not> isAuthenticated (auth (ses_client u))" for u
  proof -
    have t: "match_route (auth (ses_client u)) (ses_loc u) = Inr (frame_of u, page_of u)"
      using that(1) by (simp add: session_inv_def)
    have "frame_of u \<noteq> AppFrame" using match_guarded t that(2) by metis
    moreover have "(ses_loc u, frame_of u, page_of u) \<in> set routes" using match_in_table [OF t] by (simp add: map_of_SomeD)
    ultimately show ?thesis by (auto simp: routes_def)
  qed
  note guest = this
  have 4: "page_of (session_step s (NetEvent ev)) \<in> {LoginScreen, LandingPage, NotFoundPage}"
    if "\<not> isAuthenticated (auth (client_step (ses_client s) ev))"
    using guest [of "session_step s (NetEvent ev)"] session.inv_step [OF inv, of "NetEvent ev"] that
    by (simp add: session_step_def)
  have "frame_of s = AppFrame \<Longrightarrow> isAuthenticated (auth (ses_client s))" using match_guarded m by metis
  then show ?thesis using match_in_table [OF m] 3 4 unfolding s_def [symmetric] Let_def by blast
qed

definition sample_user :: user where
  "sample_user = \<lparr>user_id = ''7'', email = ''a@b.c'', full_name = ''Ada'', role = ''customer''\<rparr>"

definition signed_in :: session_event where
  "signed_in = NetEvent (SignIn (Some sample_user) (Some ''t'') (Some ''r''))"

theorem guarded_pages_witness:
  "frame_of (run session_step (mount_session ''cid'' initial_search ''/login'') [signed_in, Visit ''/admin'']) = AppFrame \<and>
   page_of (session_step (run session_step (mount_session ''cid'' initial_search ''/login'') [signed_in, Visit ''/admin''])
     LogoutClick) = LoginScreen"
proof -
  have "frame_of (run session_step (mount_session ''cid'' initial_search ''/login'') [signed_in, Visit ''/admin'']) = AppFrame"
    by code_simp
  then show ?thesis
    using guarded_pages [of "''cid''" initial_search "''/login''" "[signed_in, Visit ''/admin'']"] unfolding Let_def by blast
qed

subsection \<open>Roles\<close>

text \<open>What the guard decides: a guest goes to the login page; without a list of roles everyone
  else passes; with a list, a user whose role is not in it is turned away, but someone
  signed in whose user is not known passes whatever the list is. The application gives the guard
  no list: the administration pages open for every authenticated user, whatever the role,
  and no page ever leads to \<open>/unauthorized\<close> by itself.\<close>

theorem guard_decides:
  "protected_route rs a =
     (if \<not> isAuthenticated a then Some ''/login''
      else if rs \<noteq> None \<and> auth_user a \<noteq> None \<and> role (the (auth_user a)) \<notin> set (the rs) then Some ''/unauthorized''
      else None) \<and>
   (loc = ''/admin'' \<or> loc = ''/users'' \<or> loc = ''/workspace'' \<longrightarrow>
      (fst (snd (follow a loc)) = AppFrame \<longleftrightarrow> isAuthenticated a)) \<and>
   match_route a l \<noteq> Inl ''/unauthorized''"
proof (intro conjI impI)
  show "protected_route rs a =
     (if \<not> isAuthenticated a then Some ''/login''
      else if rs \<noteq> None \<and> auth_user a \<noteq> None \<and> role (the (auth_user a)) \<notin> set (the rs) then Some ''/unauthorized''
      else None)"
    by (auto simp: protected_route_def split: option.split)
  show "fst (snd (follow a loc)) = AppFrame \<longleftrightarrow> isAuthenticated a"
    if "loc = ''/admin'' \<or> loc = ''/users'' \<or> loc = ''/workspace''"
  proof -
    have "\<exists>p. map_of routes loc = Some (AppFrame, p)" using that by (auto simp: routes_def)
    then obtain p where p: "map_of routes loc = Some (AppFrame, p)" by blast
    show ?thesis
    proof (cases "isAuthenticated a")
      case True
      then have "match_route a loc = Inr (AppFrame, p)" using p by (simp add: match_route_def protected_route_def)
      then show ?thesis using True follow_Inr by simp
    next
      case False
      then have "match_route a loc = Inl ''/login''" using p by (simp add: match_route_def protected_route_def)
      then show ?thesis using False follow_Inl follow_Inr [OF match_login] by simp
    qed
  qed
  show "match_route a l \<noteq> Inl ''/unauthorized''" using redirect_target by auto
qed

theorem guard_decides_witness:
  "fst (snd (follow (auth (ses_client (session_step (mount_session ''cid'' initial_search ''/'') signed_in))) ''/admin'')) = AppFrame"
proof -
  have "isAuthenticated (auth (ses_client (session_step (mount_session ''cid'' initial_search ''/'') signed_in)))" by code_simp
  then show ?thesis using guard_decides by blast
qed

text \<open>Every place the application offers to go to exists: for a signed-in user the links of the
  sidebar and of the two small pages, the shortcuts and the commands of the palette lead to a
  page of the table and never to the page for unknown locations; only the first shortcut
  and the logo leave the application's frame, for the landing page.\<close>

theorem offered_locations_exist:
  assumes "isAuthenticated a"
    and "List.member (map fst nav_links @ map cmd_path commands @ [''/'']) to \<or> shortcut alt key = Some to"
  shows "\<exists>fr p. follow a to = (to, fr, p) \<and> p \<noteq> NotFoundPage \<and> (fr = AppFrame \<longleftrightarrow> to \<noteq> ''/'')"
proof -
  have "to \<in> set (map fst nav_links @ map cmd_path commands @ [''/''])"
    using assms(2) by (auto simp: shortcut_def nav_links_def commands_def Let_def split: if_splits)
  moreover have "list_all (\<lambda>to. \<exists>p. map_of routes to = Some (if to = ''/'' then Bare else AppFrame, p) \<and> p \<noteq> NotFoundPage)
      (map fst nav_links @ map cmd_path commands @ [''/''])"
    by (simp add: nav_links_def commands_def routes_def)
  ultimately obtain p where p: "map_of routes to = Some (if to = ''/'' then Bare else AppFrame, p)" "p \<noteq> NotFoundPage"
    by (auto simp: list_all_iff)
  then have "match_route a to = Inr (if to = ''/'' then Bare else AppFrame, p)"
    using assms(1) by (simp add: match_route_def protected_route_def)
  from follow_Inr [OF this] p(2) show ?thesis by auto
qed

theorem offered_locations_exist_witness:
  "\<exists>fr p. follow (auth (ses_client (session_step (mount_session ''cid'' initial_search ''/'') signed_in))) ''/checkout'' =
     (''/checkout'', fr, p) \<and> p \<noteq> NotFoundPage"
proof -
  have a: "isAuthenticated (auth (ses_client (session_step (mount_session ''cid'' initial_search ''/'') signed_in)))" by code_simp
  have "List.member (map fst nav_links @ map cmd_path commands @ [''/'']) ''/checkout''" by code_simp
  from offered_locations_exist [OF a disjI1 [OF this]] show ?thesis by blast
qed

end
