(* ===== verification/App_Shell.thy ===== *)
theory App_Shell
  imports App_Config Ui_Fields
begin

text \<open>
  What surrounds the pages: \<open>components/RetryBoundary.tsx\<close>, \<open>components/ErrorBoundary.tsx\<close>,
  \<open>components/OfflineBanner.tsx\<close>, \<open>components/OnboardingTour.tsx\<close>, the skeletons, spinners
  and the skip link of \<open>components/ui\<close>, and the root component of \<open>App.tsx\<close> with the flags it reads.
\<close>

subsection \<open>Error boundaries\<close>

record retry_boundary =
  rb_error :: "jsstring option option"
  retryCount :: nat

text \<open>\<open>rb_error\<close> is \<open>None\<close> while there is no error and the error's message, as far as it has
  one, when there is: the flag \<open>hasError\<close> and the error are always set together.\<close>

definition initial_retry_boundary :: retry_boundary where
  "initial_retry_boundary = \<lparr>rb_error = None, retryCount = 0\<rparr>"

datatype boundary_event = Throws "jsstring option" | Retry | FullReload

definition handleRetry :: "nat \<Rightarrow> retry_boundary \<Rightarrow> retry_boundary" where
  "handleRetry maxRetries s =
     (if retryCount s < maxRetries then s\<lparr>rb_error := None, retryCount := retryCount s + 1\<rparr> else s)"

fun retry_boundary_step :: "nat \<Rightarrow> retry_boundary \<Rightarrow> boundary_event \<Rightarrow> retry_boundary" where
  "retry_boundary_step maxRetries s (Throws m) = s\<lparr>rb_error := Some m\<rparr>"
| "retry_boundary_step maxRetries s Retry = handleRetry maxRetries s"
| "retry_boundary_step maxRetries s FullReload = initial_retry_boundary"

definition retry_boundary_view ::
    "nat \<Rightarrow> boundary_event node option \<Rightarrow> boundary_event node \<Rightarrow> retry_boundary \<Rightarrow> boundary_event node" where
  "retry_boundary_view maxRetries fallback children s =
     (case rb_error s of
        None \<Rightarrow> children
      | Some m \<Rightarrow>
          (case fallback of
             Some f \<Rightarrow> f
           | None \<Rightarrow>
               El ''div'' [Attr ''role'' ''alert'']
                 [El ''div'' [] [Icon ''AlertTriangle''],
                  El ''div'' []
                    [El ''h3'' [] [Txt ''Something went wrong''],
                     El ''p'' [] [Txt (str_or m ''An unexpected error occurred in this section.'')]],
                  if retryCount s < maxRetries
                  then El ''button'' [On ''click'' Retry]
                    [Icon ''RefreshCw'', Txt ''Retry ('', Num (of_nat (retryCount s)), Txt ''/'', Num (of_nat maxRetries), Txt '')'']
                  else El ''p'' [] [Txt ''Maximum retry attempts reached. Please refresh the page.'']]))"

record error_boundary =
  eb_error :: "jsstring option option"
  errorCount :: nat

definition initial_error_boundary :: error_boundary where
  "initial_error_boundary = \<lparr>eb_error = None, errorCount = 0\<rparr>"

fun error_boundary_step :: "error_boundary \<Rightarrow> boundary_event \<Rightarrow> error_boundary" where
  "error_boundary_step s (Throws m) = s\<lparr>eb_error := Some m, errorCount := errorCount s + 1\<rparr>"
| "error_boundary_step s Retry = s\<lparr>eb_error := None\<rparr>"
| "error_boundary_step s FullReload = \<lparr>eb_error = None, errorCount = 0\<rparr>"

definition error_boundary_view ::
    "boundary_event node option \<Rightarrow> boundary_event node \<Rightarrow> error_boundary \<Rightarrow> boundary_event node" where
  "error_boundary_view fallback children s =
     (case eb_error s of
        None \<Rightarrow> children
      | Some m \<Rightarrow>
          (case fallback of
             Some f \<Rightarrow> f
           | None \<Rightarrow>
               El ''div'' [Attr ''role'' ''alert'', Attr ''aria-live'' ''assertive'']
                 ([El ''div'' [] [Icon ''AlertTriangle''],
                   El ''h2'' [] [Txt ''Something went wrong''],
                   El ''p'' [] [Txt ''An unexpected error occurred in the application. Your data is safe.'']]
                  @ show_if (truthy m)
                      [El ''details'' [] [El ''summary'' [] [Txt ''Technical details''], El ''code'' [] [Txt (str_or m '''')]]]
                  @ [El ''div'' []
                       (show_if (errorCount s < 3) [El ''button'' [On ''click'' Retry] [Icon ''RotateCcw'', Txt ''Try Again'']]
                        @ [El ''button'' [On ''click'' FullReload] [Icon ''RefreshCw'', Txt ''Reload Page'']])]
                  @ show_if (errorCount s \<ge> 3)
                      [El ''p'' [] [Txt ''This error has occurred multiple times. A full page reload is recommended.'']])))"

subsection \<open>Offline banner\<close>

text \<open>Pending timers are the milliseconds they still have to wait. The function an event
  listener returns is not called by anyone, so nothing clears a timer of \<open>handleOnline\<close>.\<close>

record offline_banner =
  isOnline :: bool
  showStatus :: bool
  hide_timers :: "nat list"

definition initial_banner :: "bool \<Rightarrow> offline_banner" where
  "initial_banner onLine = \<lparr>isOnline = onLine, showStatus = False, hide_timers = []\<rparr>"

datatype banner_event = GoesOnline | GoesOffline | Elapses nat

fun banner_step :: "offline_banner \<Rightarrow> banner_event \<Rightarrow> offline_banner" where
  "banner_step s GoesOnline = s\<lparr>isOnline := True, showStatus := True, hide_timers := hide_timers s @ [4000]\<rparr>"
| "banner_step s GoesOffline = s\<lparr>isOnline := False, showStatus := True\<rparr>"
| "banner_step s (Elapses t) =
     s\<lparr>showStatus := showStatus s \<and> list_all (\<lambda>d. t < d) (hide_timers s),
       hide_timers := map (\<lambda>d. d - t) (filter (\<lambda>d. t < d) (hide_timers s))\<rparr>"

definition banner_visible :: "offline_banner \<Rightarrow> bool" where
  "banner_visible s = (showStatus s \<or> \<not> isOnline s)"

definition banner_view :: "offline_banner \<Rightarrow> 'a node list" where
  "banner_view s =
     show_if (banner_visible s)
       [El ''div'' [Attr ''role'' ''status'', Attr ''aria-live'' ''polite'']
          (if isOnline s
           then [Icon ''Wifi'', El ''div'' []
                  [El ''span'' [] [Txt ''Online Connection Restored''], El ''p'' [] [Txt ''All real-time actions are operational.'']]]
           else [Icon ''WifiOff'', El ''div'' []
                  [El ''span'' [] [Txt ''Working Offline Mode''],
                   El ''p'' [] [Txt ''Changes will synchronize when connection resolves.'']]])]"

subsection \<open>Onboarding tour\<close>

definition TOUR_STEPS :: "(jsstring \<times> jsstring \<times> jsstring) list" where
  "TOUR_STEPS =
     [(''dashboard-link'', ''Real-time Metrics'',
       ''Welcome! This dashboard logs spending metrics, orders completed, and monthly growths.''),
      (''catalog-link'', ''Unified Catalog'',
       ''View, filter, and buy merchandise. Add items directly to your shopping cart.''),
      (''command-link'', ''Command Shortcuts'',
       ''Type Ctrl + K anywhere on the platform to search pages, inventory records, or users.'')]"

record tour =
  tour_step :: nat
  tour_visible :: bool
  tour_timer :: bool
  tour_complete :: bool

definition mount_tour :: "bool \<Rightarrow> tour" where
  \<comment> \<open>with what \<open>localStorage\<close> says; a timer is set unless the tour is complete\<close>
  "mount_tour completed = \<lparr>tour_step = 0, tour_visible = False, tour_timer = \<not> completed, tour_complete = completed\<rparr>"

definition handleComplete :: "tour \<Rightarrow> tour" where
  "handleComplete s = s\<lparr>tour_complete := True, tour_visible := False\<rparr>"

definition handleNext :: "tour \<Rightarrow> tour" where
  "handleNext s = (if tour_step s < length TOUR_STEPS - 1 then s\<lparr>tour_step := tour_step s + 1\<rparr> else handleComplete s)"

datatype tour_event = TourTimer | TourNext | TourSkip | Revisit

fun tour_event_step :: "tour \<Rightarrow> tour_event \<Rightarrow> tour" where
  "tour_event_step s TourTimer = (if tour_timer s then s\<lparr>tour_visible := True, tour_timer := False\<rparr> else s)"
| "tour_event_step s TourNext = (if tour_visible s then handleNext s else s)"
| "tour_event_step s TourSkip = (if tour_visible s then handleComplete s else s)"
| "tour_event_step s Revisit = mount_tour (tour_complete s)"

definition tour_view :: "tour \<Rightarrow> tour_event node list" where
  "tour_view s =
     show_if (tour_visible s)
       [El ''div'' [Attr ''role'' ''dialog'', Attr ''aria-modal'' ''true'', Attr ''aria-label'' ''Welcome Tour'']
         [El ''div'' []
            [El ''h4'' [] [Icon ''HelpCircle'', Txt (fst (snd (TOUR_STEPS ! tour_step s)))],
             El ''button'' [On ''click'' TourSkip, Attr ''aria-label'' ''Skip tour''] [Icon ''X'']],
          El ''p'' [] [Txt (snd (snd (TOUR_STEPS ! tour_step s)))],
          El ''div'' []
            [El ''div'' [] [Txt ''Step '', Num (of_nat (tour_step s + 1)), Txt '' of '', Num (of_nat (length TOUR_STEPS))],
             button_view False False (Some (Icon ''ArrowRight'')) [On ''click'' TourNext]
               [Txt (if tour_step s = length TOUR_STEPS - 1 then ''Complete'' else ''Next'')]]]]"

subsection \<open>Skeletons, spinners, skip link\<close>

definition skeleton_bar :: "'a node" where
  "skeleton_bar = El ''div'' [] []"

definition skeleton_view :: "nat \<Rightarrow> 'a node" where
  "skeleton_view n = (if n > 1 then El ''div'' [] (replicate n skeleton_bar) else skeleton_bar)"

definition skeleton_card :: "'a node" where
  "skeleton_card =
     El ''div'' []
       [skeleton_view 1, skeleton_view 1, skeleton_view 1, El ''div'' [] [skeleton_view 1, skeleton_view 1]]"

definition skeleton_table :: "nat \<Rightarrow> nat \<Rightarrow> 'a node" where
  "skeleton_table rows cols =
     El ''div'' []
       (El ''div'' [] (replicate cols (skeleton_view 1))
        # replicate rows (El ''div'' [] (replicate cols (skeleton_view 1))))"

definition spinner_view :: "jsstring \<Rightarrow> 'a node" where
  "spinner_view label =
     El ''span'' [Attr ''role'' ''status''] [Icon ''Loader2'', El ''span'' [] [Txt label]]"

definition full_page_spinner :: "jsstring option \<Rightarrow> 'a node" where
  "full_page_spinner label =
     El ''div'' []
       [El ''div'' [] (spinner_view ''Loading'' # show_if (truthy label) [El ''p'' [] [Txt (str_or label '''')]])]"

definition skip_link :: "jsstring \<Rightarrow> jsstring node" where
  \<comment> \<open>the action is the identifier of the element to focus\<close>
  "skip_link targetId = El ''a'' [Attr ''href'' (''#'' @ targetId), On ''click'' targetId] [Txt ''Skip to content'']"

subsection \<open>The root component\<close>

record app_root =
  app_cfg :: app_config
  sw_registered :: bool
  offline_mounted :: bool
  tour_mounted :: bool

definition render_app :: "app_root \<Rightarrow> app_root" where
  "render_app s = s\<lparr>offline_mounted := isFeatureEnabled (app_cfg s) EnableOfflineBanner,
     tour_mounted := isFeatureEnabled (app_cfg s) EnableOnboarding\<rparr>"

definition mount_app :: app_root where
  \<comment> \<open>the first rendering, then the effect, which starts the loading of the configuration\<close>
  "mount_app =
     (let s = render_app \<lparr>app_cfg = initial_config, sw_registered = False, offline_mounted = False, tour_mounted = False\<rparr>
      in s\<lparr>sw_registered := isFeatureEnabled (app_cfg s) EnablePWA\<rparr>)"

datatype app_event = ConfigArrives "feature_flag fetched" "kill_switch fetched" | ThemeChanges

fun app_step :: "app_root \<Rightarrow> app_event \<Rightarrow> app_root" where
  "app_step s (ConfigArrives f k) = s\<lparr>app_cfg := initializeConfig f k (app_cfg s)\<rparr>"
| "app_step s ThemeChanges = render_app s"

subsection \<open>Recovery from errors\<close>

lemma retry_run_bound:
  "retryCount s \<le> m \<Longrightarrow> retryCount (run (retry_boundary_step m) s es) \<le> m"
proof (induction es arbitrary: s)
  case (Cons e es)
  have "retryCount (retry_boundary_step m s e) \<le> m"
    using Cons.prems by (cases e) (simp_all add: handleRetry_def initial_retry_boundary_def)
  then show ?case using Cons.IH by simp
qed simp

lemma error_count_run:
  "list_all (\<lambda>e. e \<noteq> FullReload) es \<Longrightarrow>
   errorCount (run error_boundary_step s es) = errorCount s + length (filter (\<lambda>e. \<exists>m. e = Throws m) es)"
proof (induction es arbitrary: s)
  case (Cons e es)
  then show ?case by (cases e) simp_all
qed simp

text \<open>The two boundaries let the user try again, but not for ever. Around a part that keeps
  failing, the retry boundary offers a retry at most as often as it is allowed and then
  none; the error boundary offers one after the first two errors since the page was loaded,
  and from the third on only a reload. While there is no error both show exactly their
  children.\<close>

theorem boundaries_bound_retries:
  "retryCount (run (retry_boundary_step m) initial_retry_boundary es) \<le> m \<and>
   (let s = run (retry_boundary_step m) initial_retry_boundary (es @ [Throws e]) in
      actions (retry_boundary_view m None children s) = (if retryCount s < m then [Retry] else []) \<and>
      (retryCount s < m \<longrightarrow> retry_boundary_view m fallback children (retry_boundary_step m s Retry) = children)) \<and>
   (list_all (\<lambda>e. e \<noteq> FullReload) fs \<longrightarrow>
      (let s = run error_boundary_step initial_error_boundary (fs @ [Throws e]) in
        actions (error_boundary_view None children s) =
          (if length (filter (\<lambda>e. \<exists>m. e = Throws m) fs) < 2 then [Retry, FullReload] else [FullReload]) \<and>
        error_boundary_view fallback children (error_boundary_step s Retry) = children))"
proof (intro conjI impI)
  show "retryCount (run (retry_boundary_step m) initial_retry_boundary es) \<le> m"
    by (rule retry_run_bound) (simp add: initial_retry_boundary_def)
  show "let s = run (retry_boundary_step m) initial_retry_boundary (es @ [Throws e]) in
      actions (retry_boundary_view m None children s) = (if retryCount s < m then [Retry] else []) \<and>
      (retryCount s < m \<longrightarrow> retry_boundary_view m fallback children (retry_boundary_step m s Retry) = children)"
    by (simp add: Let_def retry_boundary_view_def handleRetry_def)
  assume "list_all (\<lambda>e. e \<noteq> FullReload) fs"
  then have "errorCount (run error_boundary_step initial_error_boundary fs) = length (filter (\<lambda>e. \<exists>m. e = Throws m) fs)"
    by (simp add: error_count_run initial_error_boundary_def)
  then show "let s = run error_boundary_step initial_error_boundary (fs @ [Throws e]) in
        actions (error_boundary_view None children s) =
          (if length (filter (\<lambda>e. \<exists>m. e = Throws m) fs) < 2 then [Retry, FullReload] else [FullReload]) \<and>
        error_boundary_view fallback children (error_boundary_step s Retry) = children"
    by (simp add: Let_def error_boundary_view_def show_if_def)
qed

theorem boundaries_bound_retries_witness:
  "actions (error_boundary_view None (Txt ''x'') (run error_boundary_step initial_error_boundary
     ([Throws None, Retry, Throws None, Retry] @ [Throws None]))) = [FullReload]"
proof -
  have "list_all (\<lambda>e. e \<noteq> FullReload) [Throws None, Retry, Throws None, Retry]" by simp
  then show ?thesis
    using boundaries_bound_retries [of m es None "Txt ''x''" fb "[Throws None, Retry, Throws None, Retry]" for m es fb]
    by (simp add: Let_def)
qed

subsection \<open>The banner\<close>

definition banner_inv :: "offline_banner \<Rightarrow> bool" where
  "banner_inv s \<longleftrightarrow> list_all (\<lambda>d. 0 < d \<and> d \<le> 4000) (hide_timers s) \<and>
     (isOnline s \<and> showStatus s \<longrightarrow> hide_timers s \<noteq> [])"

interpretation banner: state_machine "initial_banner onLine" banner_step banner_inv for onLine
proof unfold_locales
  show "banner_inv (initial_banner onLine)" by (simp add: banner_inv_def initial_banner_def)
  show "banner_inv (banner_step s e)" if "banner_inv s" for s e
  proof (cases e)
    case (Elapses t)
    then show ?thesis using that
      by (cases "hide_timers s") (auto simp: banner_inv_def list_all_iff)
  qed (use that in \<open>auto simp: banner_inv_def\<close>)
qed

text \<open>The banner never hides that the browser is offline, and the message that the connection
  is back goes away within four seconds if nothing else happens. But it can go away earlier: a timer of
  an earlier reconnection is still running when the connection is lost and comes back
  within its four seconds, and it hides the new message too soon.\<close>

theorem banner_shows_offline:
  "let s = run banner_step (initial_banner onLine) es in
     (isOnline s \<or> banner_visible s) \<and>
     (isOnline s \<longrightarrow> \<not> banner_visible (banner_step s (Elapses 4000))) \<and>
     (0 < t \<and> t < 4000 \<longrightarrow>
        banner_visible (run banner_step (s\<lparr>hide_timers := []\<rparr>) [GoesOnline, Elapses t, GoesOffline, GoesOnline]) \<and>
        \<not> banner_visible (run banner_step (s\<lparr>hide_timers := []\<rparr>)
          [GoesOnline, Elapses t, GoesOffline, GoesOnline, Elapses (4000 - t)]))"
proof -
  define s where "s = run banner_step (initial_banner onLine) es"
  have "banner_inv s" unfolding s_def by (rule banner.inv_run)
  then have "isOnline s \<longrightarrow> \<not> banner_visible (banner_step s (Elapses 4000))"
    by (cases "hide_timers s") (auto simp: banner_inv_def banner_visible_def)
  moreover have "0 < t \<and> t < 4000 \<longrightarrow>
        banner_visible (run banner_step (s\<lparr>hide_timers := []\<rparr>) [GoesOnline, Elapses t, GoesOffline, GoesOnline]) \<and>
        \<not> banner_visible (run banner_step (s\<lparr>hide_timers := []\<rparr>)
          [GoesOnline, Elapses t, GoesOffline, GoesOnline, Elapses (4000 - t)])"
    by (auto simp: banner_visible_def)
  moreover have "isOnline s \<or> banner_visible s" by (auto simp: banner_visible_def)
  ultimately show ?thesis unfolding s_def [symmetric] Let_def by blast
qed

theorem banner_shows_offline_witness:
  "\<not> banner_visible (run banner_step (initial_banner True) [GoesOnline, Elapses 3000, GoesOffline, GoesOnline, Elapses 1000])"
  using banner_shows_offline [of True "[]" 3000] by (simp add: Let_def initial_banner_def)

subsection \<open>The tour\<close>

definition tour_inv :: "tour \<Rightarrow> bool" where
  "tour_inv s \<longleftrightarrow> tour_step s < length TOUR_STEPS \<and> (tour_complete s \<longrightarrow> \<not> tour_visible s \<and> \<not> tour_timer s) \<and>
     (tour_visible s \<longrightarrow> \<not> tour_timer s)"

lemma length_TOUR_STEPS: "length TOUR_STEPS = 3"
  by (simp add: TOUR_STEPS_def)

interpretation tour: state_machine "mount_tour completed" tour_event_step tour_inv for completed
proof unfold_locales
  show "tour_inv (mount_tour completed)" by (simp add: tour_inv_def mount_tour_def length_TOUR_STEPS)
  show "tour_inv (tour_event_step s e)" if "tour_inv s" for s e
    using that by (cases e) (auto simp: tour_inv_def mount_tour_def handleNext_def handleComplete_def length_TOUR_STEPS)
qed

lemma complete_for_good: "tour_complete s \<Longrightarrow> tour_complete (run tour_event_step s es)"
proof (induction es arbitrary: s)
  case (Cons e es)
  have "tour_complete (tour_event_step s e)"
    using Cons.prems by (cases e) (simp_all add: mount_tour_def handleNext_def handleComplete_def)
  then show ?case using Cons.IH by simp
qed simp

text \<open>The tour always shows one of its three steps, ends after the third, and once it was
  finished or skipped it never appears again, however often the page is opened.\<close>

theorem tour_run:
  "let s = run tour_event_step (mount_tour completed) es in
     tour_step s < length TOUR_STEPS \<and>
     (tour_visible s \<longrightarrow> tour_complete (tour_event_step s TourSkip) \<and>
        tour_complete (run tour_event_step s (replicate (length TOUR_STEPS - tour_step s) TourNext))) \<and>
     (tour_complete s \<longrightarrow> tour_view (run tour_event_step s fs) = [])"
proof -
  define s where "s = run tour_event_step (mount_tour completed) es"
  have inv: "tour_inv s" unfolding s_def by (rule tour.inv_run)
  have "tour_complete (run tour_event_step s (replicate (length TOUR_STEPS - tour_step s) TourNext))" if "tour_visible s"
  proof -
    have "tour_step s = 0 \<or> tour_step s = 1 \<or> tour_step s = 2"
      using inv by (auto simp: tour_inv_def length_TOUR_STEPS)
    then show ?thesis using that
      by (auto simp: length_TOUR_STEPS eval_nat_numeral handleNext_def handleComplete_def)
  qed
  moreover have "tour_view (run tour_event_step s fs) = []" if "tour_complete s"
    using complete_for_good [OF that, of fs] tour.inv_run_from [OF inv, of fs] by (simp add: tour_inv_def tour_view_def)
  ultimately show ?thesis using inv unfolding s_def [symmetric] Let_def
    by (simp add: tour_inv_def handleComplete_def)
qed

theorem tour_run_witness:
  "tour_view (run tour_event_step (run tour_event_step (mount_tour False) [TourTimer, TourNext, TourSkip]) [Revisit, TourTimer]) = []"
proof -
  have "tour_complete (run tour_event_step (mount_tour False) [TourTimer, TourNext, TourSkip])" by code_simp
  then show ?thesis using tour_run [of False "[TourTimer, TourNext, TourSkip]" "[Revisit, TourTimer]"]
    unfolding Let_def by blast
qed

subsection \<open>Flags that arrive after the first rendering\<close>

text \<open>The flags the root component reads are the built-in ones: the service worker is
  registered whatever the configuration says, since the effect that decides it runs before
  the loading starts and never again; and the two overlays stay mounted, whatever flags have
  arrived, until the theme is changed, which renders the root anew.\<close>

theorem late_flags_ignored:
  "let s = run app_step mount_app es in
     sw_registered s \<and>
     (list_all (\<lambda>e. e \<noteq> ThemeChanges) es \<longrightarrow> offline_mounted s \<and> tour_mounted s) \<and>
     offline_mounted (app_step s ThemeChanges) = isFeatureEnabled (app_cfg s) EnableOfflineBanner"
proof -
  have on: "isFeatureEnabled initial_config f" for f
    by (simp add: isFeatureEnabled_def getFeatureFlags_def initial_config_def defaultFlags_def)
  have m: "sw_registered mount_app" "offline_mounted mount_app" "tour_mounted mount_app"
    using on by (simp_all add: mount_app_def render_app_def Let_def)
  have "sw_registered (run app_step s es) = sw_registered s" for s
  proof (induction es arbitrary: s)
    case (Cons e es)
    then show ?case by (cases e) (simp_all add: render_app_def)
  qed simp
  moreover have "offline_mounted (run app_step s es) = offline_mounted s \<and> tour_mounted (run app_step s es) = tour_mounted s"
    if "list_all (\<lambda>e. e \<noteq> ThemeChanges) es" for s
    using that
  proof (induction es arbitrary: s)
    case (Cons e es)
    then show ?case by (cases e) simp_all
  qed simp
  ultimately show ?thesis using m by (simp add: Let_def render_app_def)
qed

theorem late_flags_ignored_witness:
  "let s = run app_step mount_app [ConfigArrives (Body (\<lambda>_. Some False)) No_url] in
     \<not> isFeatureEnabled (app_cfg s) EnablePWA \<and> sw_registered s \<and>
     \<not> isFeatureEnabled (app_cfg s) EnableOnboarding \<and> tour_mounted s"
proof -
  have "list_all (\<lambda>e. e \<noteq> ThemeChanges) [ConfigArrives (Body (\<lambda>_. Some False)) No_url]" by simp
  moreover have "\<not> isFeatureEnabled (app_cfg (run app_step mount_app [ConfigArrives (Body (\<lambda>_. Some False)) No_url])) f" for f
    by (simp add: isFeatureEnabled_def getFeatureFlags_def initializeConfig_def loadFeatureFlags_def
        loadKillSwitches_def map_add_def)
  ultimately show ?thesis
    using late_flags_ignored [of "[ConfigArrives (Body (\<lambda>_. Some False)) No_url]"] unfolding Let_def by blast
qed

end
