(* ===== verification/Virtual_Table.thy ===== *)
theory Virtual_Table
  imports Data_Table Virtualizer "HOL-Library.List_Lexorder" "HOL-Library.Char_ord"
begin

text \<open>
  The virtual data table, \<open>frontend/src/components/data/VirtualDataTable.tsx\<close>: search,
  sorting and the rows it renders through the virtualizer, together with the container the
  virtualizer listens to. A column sorts by texts or by numbers; texts compare by code
  units, as the operators of the language do. \<open>show_number\<close>, how the language writes a
  number as text, is a parameter, used by the search only.

  The virtualizer's effect runs when the table is mounted and not again, since the reference
  it depends on stays the same object: it listens to the container that is on the page at
  that time, if there is one. \<open>vt_attached\<close> says that this container is still there.
\<close>

subsection \<open>Columns, search and sorting\<close>

datatype 'r sort_accessor = ByText "'r \<Rightarrow> jsstring" | ByNumber "'r \<Rightarrow> rat"

record ('r, 'x) virtual_column =
  vc_id :: jsstring
  vc_header :: jsstring
  vc_accessor :: "'r \<Rightarrow> 'x node"
  vc_sort :: "'r sort_accessor option"
  vc_searchable :: bool

definition search_text :: "(rat \<Rightarrow> jsstring) \<Rightarrow> 'r sort_accessor option \<Rightarrow> 'r \<Rightarrow> jsstring" where
  \<comment> \<open>\<open>String(val || "")\<close>\<close>
  "search_text show_number acc row =
     (case acc of None \<Rightarrow> [] | Some (ByText f) \<Rightarrow> f row | Some (ByNumber f) \<Rightarrow> if f row = 0 then [] else show_number (f row))"

definition vt_filtered ::
    "(rat \<Rightarrow> jsstring) \<Rightarrow> ('r, 'x) virtual_column list \<Rightarrow> 'r list \<Rightarrow> jsstring \<Rightarrow> 'r list" where
  "vt_filtered show_number columns data s =
     (if s = [] then data
      else let q = toLowerCase s; searchableIds = map vc_id (filter vc_searchable columns)
        in filter (\<lambda>row. list_ex (\<lambda>i.
             case List.find (\<lambda>c. vc_id c = i) columns of
               None \<Rightarrow> False
             | Some col \<Rightarrow> str_includes (toLowerCase (search_text show_number (vc_sort col) row)) q) searchableIds) data)"

definition by_key :: "sort_dir \<Rightarrow> ('r \<Rightarrow> 'k::linorder) \<Rightarrow> 'r \<Rightarrow> 'r \<Rightarrow> rat" where
  "by_key d key a b =
     (if key a < key b then (if d = Asc then - 1 else 1)
      else if key a > key b then (if d = Asc then 1 else - 1)
      else 0)"

definition vt_order :: "('r, 'x) virtual_column \<Rightarrow> sort_dir \<Rightarrow> 'r \<Rightarrow> 'r \<Rightarrow> rat" where
  "vt_order col d =
     (case vc_sort col of
        None \<Rightarrow> by_key d (\<lambda>_. [] :: jsstring)
      | Some (ByText f) \<Rightarrow> by_key d f
      | Some (ByNumber f) \<Rightarrow> by_key d f)"

record virtual_table =
  vt_search :: jsstring
  vt_sortCol :: "jsstring option"
  vt_sortDir :: "sort_dir option"
  vt_box :: search_box
  vt_window :: virtualizer
  vt_attached :: bool
  vt_scroll :: rat

definition vt_sorted ::
    "(rat \<Rightarrow> jsstring) \<Rightarrow> ('r, 'x) virtual_column list \<Rightarrow> 'r list \<Rightarrow> virtual_table \<Rightarrow> 'r list" where
  "vt_sorted show_number columns data s =
     (let rows = vt_filtered show_number columns data (vt_search s) in
      case (vt_sortCol s, vt_sortDir s) of
        (Some i, Some d) \<Rightarrow>
          if i = [] then rows
          else (case List.find (\<lambda>c. vc_id c = i) columns of
             None \<Rightarrow> rows
           | Some col \<Rightarrow> js_sort (vt_order col d) rows)
      | _ \<Rightarrow> rows)"

definition toggleSort :: "jsstring \<Rightarrow> virtual_table \<Rightarrow> virtual_table" where
  "toggleSort colId s =
     (if vt_sortCol s = Some colId then
        (case vt_sortDir s of
           Some Asc \<Rightarrow> s\<lparr>vt_sortDir := Some Desc\<rparr>
         | Some Desc \<Rightarrow> s\<lparr>vt_sortCol := None, vt_sortDir := None\<rparr>
         | None \<Rightarrow> s)
      else s\<lparr>vt_sortCol := Some colId, vt_sortDir := Some Asc\<rparr>)"

subsection \<open>The container and the events\<close>

text \<open>The table with its data: what its owner hands in may change at any time.\<close>

record 'r vt_props =
  vp_data :: "'r list"
  vp_loading :: bool

definition has_container ::
    "(rat \<Rightarrow> jsstring) \<Rightarrow> ('r, 'x) virtual_column list \<Rightarrow> 'r vt_props \<Rightarrow> virtual_table \<Rightarrow> bool" where
  "has_container show_number columns p s \<longleftrightarrow> \<not> vp_loading p \<and> vt_sorted show_number columns (vp_data p) s \<noteq> []"

definition mount_vt :: "(rat \<Rightarrow> jsstring) \<Rightarrow> ('r, 'x) virtual_column list \<Rightarrow> rat \<Rightarrow> 'r vt_props \<Rightarrow> virtual_table" where
  "mount_vt show_number columns shownHeight p =
     (let s = \<lparr>vt_search = '''', vt_sortCol = None, vt_sortDir = None, vt_box = initial_search_box (Some ''''),
               vt_window = initial_virtualizer, vt_attached = False, vt_scroll = 0\<rparr>
      in if has_container show_number columns p s
         then s\<lparr>vt_attached := True, vt_window := virtualizer_step (vt_window s) (Mount 0 shownHeight)\<rparr>
         else s)"

text \<open>What a rendering does to the container: when it goes, the observer of its size reports
  zero and nothing listens any more; when one comes, it stands at its top and nothing
  listens to it.\<close>

definition vt_commit :: "bool \<Rightarrow> bool \<Rightarrow> virtual_table \<Rightarrow> virtual_table" where
  "vt_commit was now s =
     (if was \<and> \<not> now then
        s\<lparr>vt_window := if vt_attached s then virtualizer_step (vt_window s) (Resize 0) else vt_window s, vt_attached := False\<rparr>
      else if \<not> was \<and> now then s\<lparr>vt_scroll := 0\<rparr>
      else s)"

datatype 'r vt_event =
    VtBox search_action
  | VtTimer
  | VtSort jsstring
  | VtScroll rat
  | VtProps "'r vt_props"

definition vt_calls :: "search_call list \<Rightarrow> virtual_table \<Rightarrow> virtual_table" where
  \<comment> \<open>the box calls \<open>onSearch\<close>; it has no \<open>onChange\<close>\<close>
  "vt_calls calls s = foldl (\<lambda>s c. case c of OnSearch v \<Rightarrow> s\<lparr>vt_search := v\<rparr> | OnChange v \<Rightarrow> s) s calls"

fun vt_act ::
    "(rat \<Rightarrow> jsstring) \<Rightarrow> ('r, 'x) virtual_column list \<Rightarrow> 'r vt_props \<times> virtual_table \<Rightarrow> 'r vt_event \<Rightarrow>
     'r vt_props \<times> virtual_table" where
  "vt_act show_number columns (p, s) (VtBox a) =
     (let (box, calls) = (case a of ChangeText v \<Rightarrow> handleChange v (vt_box s) | ClearText \<Rightarrow> clear_search (vt_box s))
      in (p, vt_calls calls (s\<lparr>vt_box := box\<rparr>)))"
| "vt_act show_number columns (p, s) VtTimer =
     (let (box, calls) = search_timer_fires (vt_box s) in (p, vt_calls calls (s\<lparr>vt_box := box\<rparr>)))"
| "vt_act show_number columns (p, s) (VtSort i) =
     (case List.find (\<lambda>c. vc_id c = i) columns of
        None \<Rightarrow> (p, s)
      | Some col \<Rightarrow> (p, if vc_sort col \<noteq> None then toggleSort i s else s))"
| "vt_act show_number columns (p, s) (VtScroll y) =
     (if has_container show_number columns p s
      then (p, s\<lparr>vt_scroll := y, vt_window := if vt_attached s then virtualizer_step (vt_window s) (Scroll y) else vt_window s\<rparr>)
      else (p, s))"
| "vt_act show_number columns (p, s) (VtProps p') = (p', s)"

definition vt_step ::
    "(rat \<Rightarrow> jsstring) \<Rightarrow> ('r, 'x) virtual_column list \<Rightarrow> 'r vt_props \<times> virtual_table \<Rightarrow> 'r vt_event \<Rightarrow>
     'r vt_props \<times> virtual_table" where
  "vt_step show_number columns ps e =
     (let (p', s') = vt_act show_number columns ps e
      in (p', vt_commit (has_container show_number columns (fst ps) (snd ps)) (has_container show_number columns p' s') s'))"

subsection \<open>The view\<close>

datatype 'x vt_action = VtSearch search_action | VtSortBy jsstring | VtCell 'x

definition vt_header :: "virtual_table \<Rightarrow> ('r, 'x) virtual_column \<Rightarrow> 'x vt_action node" where
  "vt_header s col =
     El ''div'' (show_if (vc_sort col \<noteq> None) [On ''click'' (VtSortBy (vc_id col))])
       ([El ''span'' [] [Txt (vc_header col)]]
        @ show_if (vc_sort col \<noteq> None \<and> vt_sortCol s = Some (vc_id col))
            [El ''span'' [] [Icon (if vt_sortDir s = Some Asc then ''ArrowUp'' else ''ArrowDown'')]]
        @ show_if (vc_sort col \<noteq> None \<and> vt_sortCol s \<noteq> Some (vc_id col)) [Icon ''ArrowUpDown''])"

definition vt_row ::
    "rat \<Rightarrow> ('r, 'x) virtual_column list \<Rightarrow> virtual_item \<Rightarrow> 'r \<Rightarrow> 'x vt_action node" where
  "vt_row rowHeight columns item row =
     El ''div'' [NumAttr ''height'' rowHeight, NumAttr ''translateY'' (offsetTop item)]
       (map (\<lambda>col. El ''div'' [] [map_node VtCell (vc_accessor col row)]) columns)"

definition vt_rows ::
    "rat \<Rightarrow> ('r, 'x) virtual_column list \<Rightarrow> 'r list \<Rightarrow> virtualizer \<Rightarrow> 'x vt_action node list" where
  "vt_rows rowHeight columns rows w =
     concat (map (\<lambda>item.
         if 0 \<le> item_index item \<and> nat (item_index item) < length rows
         then [vt_row rowHeight columns item (rows ! nat (item_index item))] else [])
       (virtualItems (int (length rows)) 5 rowHeight w))"

definition vt_view ::
    "(rat \<Rightarrow> jsstring) \<Rightarrow> rat \<Rightarrow> rat \<Rightarrow> jsstring \<Rightarrow> jsstring \<Rightarrow> ('r, 'x) virtual_column list \<Rightarrow> 'r vt_props \<Rightarrow>
     virtual_table \<Rightarrow> 'x vt_action node" where
  "vt_view show_number rowHeight shownHeight emptyTitle emptyDescription columns p s =
     (let rows = vt_sorted show_number columns (vp_data p) s in
      El ''div'' []
        [El ''div'' []
           [El ''div'' [] [map_node VtSearch (search_box_view (Some (vt_search s)) ''Search virtual records...'' False (vt_box s))],
            El ''div'' []
              [Txt ''Showing '', El ''span'' [] [Num (of_nat (length rows))], Txt '' / '',
               Num (of_nat (length (vp_data p))), Txt '' records'']],
         El ''div'' []
           [El ''div'' [] (map (vt_header s) columns),
            if vp_loading p then El ''div'' [] (replicate 3 (El ''div'' [] []))
            else if rows = [] then El ''div'' [] [empty_state_view EmptyDefault (Some emptyTitle) (Some emptyDescription) None []]
            else El ''div'' [NumAttr ''height'' shownHeight]
              [El ''div'' [NumAttr ''height'' (totalHeight (int (length rows)) rowHeight)]
                 (vt_rows rowHeight columns rows (vt_window s))]]])"

subsection \<open>Sorting\<close>

lemma by_key_consistent: "consistent_comparator (by_key d key)"
  by unfold_locales (auto simp: by_key_def split: if_splits)

lemma vt_order_consistent: "consistent_comparator (vt_order col d)"
  by (simp add: vt_order_def by_key_consistent split: option.split sort_accessor.split)

interpretation vt_order: consistent_comparator "vt_order col d" for col :: "('r, 'x) virtual_column" and d
  by (rule vt_order_consistent)

text \<open>Whatever is searched and sorted, the virtual table has exactly the matching rows, each as
  often as the data; sorted by a column they are in its order, rows with equal keys
  staying in the order of the data.\<close>

theorem virtual_table_sorted:
  "mset (vt_sorted show_number columns data s) = mset (vt_filtered show_number columns data (vt_search s)) \<and>
   (case (vt_sortCol s, vt_sortDir s) of
      (Some i, Some d) \<Rightarrow>
        (case List.find (\<lambda>c. vc_id c = i \<and> i \<noteq> []) columns of
           Some col \<Rightarrow>
             sorted_wrt (\<lambda>a b. vt_order col d a b \<le> 0) (vt_sorted show_number columns data s) \<and>
             (\<forall>a. filter (\<lambda>b. vt_order col d a b = 0) (vt_sorted show_number columns data s) =
                filter (\<lambda>b. vt_order col d a b = 0) (vt_filtered show_number columns data (vt_search s)))
         | None \<Rightarrow> vt_sorted show_number columns data s = vt_filtered show_number columns data (vt_search s))
    | _ \<Rightarrow> vt_sorted show_number columns data s = vt_filtered show_number columns data (vt_search s))"
proof -
  have "List.find (\<lambda>c. vc_id c = i \<and> i \<noteq> []) columns = (if i = [] then None else List.find (\<lambda>c. vc_id c = i) columns)" for i
    by (auto simp: find_None_iff)
  then show ?thesis
    by (auto simp: vt_sorted_def Let_def vt_order.sorted_js_sort vt_order.stable_js_sort split: option.split)
qed

subsection \<open>The two tables sort alike\<close>

definition same_sort :: "virtual_table \<Rightarrow> data_table \<Rightarrow> bool" where
  "same_sort s t \<longleftrightarrow> vt_sortCol s = sortCol t \<and> vt_sortDir s = sortDir t \<and> (sortCol t = None \<longleftrightarrow> sortDir t = None)"

lemma same_sort_step: "same_sort s t \<Longrightarrow> same_sort (toggleSort i s) (handleSort i t)"
  by (auto simp: same_sort_def toggleSort_def handleSort_def Let_def split: option.split sort_dir.split)

lemma same_sort_clicks:
  "same_sort s t \<Longrightarrow> same_sort (foldl (\<lambda>s i. toggleSort i s) s is) (foldl (\<lambda>t i. handleSort i t) t is)"
  by (induction "is" arbitrary: s t) (simp_all add: same_sort_step)

text \<open>The headers of the two tables work alike, though they are programmed differently: after
  the same clicks both sort by the same column in the same direction, or neither sorts.\<close>

theorem headers_agree:
  "let s = foldl (\<lambda>s i. toggleSort i s) (mount_vt show_number columns h p) is;
       t = foldl (\<lambda>t i. handleSort i t) (initial_table n cols) is
   in vt_sortCol s = sortCol t \<and> vt_sortDir s = sortDir t \<and> (sortCol t = None \<longleftrightarrow> sortDir t = None)"
proof -
  have "same_sort (mount_vt show_number columns h p) (initial_table n cols)"
    by (simp add: same_sort_def mount_vt_def initial_table_def Let_def)
  from same_sort_clicks [OF this, of "is"] show ?thesis by (simp add: same_sort_def Let_def)
qed

subsection \<open>The rows on the page\<close>

lemma concat_map_if_all:
  "\<forall>x \<in> set xs. P x \<Longrightarrow> concat (map (\<lambda>x. if P x then [f x] else []) xs) = map f xs"
  by (induction xs) auto

lemma vt_rows_eq:
  "vt_rows h columns rows w =
     map (\<lambda>item. vt_row h columns item (rows ! nat (item_index item))) (virtualItems (int (length rows)) 5 h w)"
  unfolding vt_rows_def
  by (rule concat_map_if_all) (auto simp: virtualItems_def start_row_def end_row_def)

text \<open>While the virtualizer listens to the container, every row whose band meets the part
  of the container that is scrolled into view is on the page, at its place, with its cells,
  whatever the search and the order.\<close>

theorem visible_rows_rendered:
  assumes "0 < h" "i < length rows" "int (length rows) < 2 ^ 53" "fl (of_nat i * h) = of_nat i * h"
    and "scrollTop w < of_nat (i + 1) * h" "of_nat i * h \<le> scrollTop w + containerHeight w"
  shows "vt_row h columns \<lparr>item_index = int i, offsetTop = of_nat i * h, item_height = h\<rparr> (rows ! i)
    \<in> set (vt_rows h columns rows w)"
proof -
  have "start_row 5 h w \<le> int i" using assms by (intro start_row_le) (auto simp: add.commute)
  moreover have "int i \<le> end_row (int (length rows)) 5 h w" using assms by (intro le_end_row) auto
  ultimately have "\<lparr>item_index = int i, offsetTop = of_nat i * h, item_height = h\<rparr> \<in> set (virtualItems (int (length rows)) 5 h w)"
    using assms(4) by (auto simp: virtualItems_def ntimes_def image_iff)
  from imageI [OF this, of "\<lambda>item. vt_row h columns item (rows ! nat (item_index item))"]
  show ?thesis by (simp add: vt_rows_eq)
qed

definition number_column :: "(rat, unit) virtual_column" where
  "number_column = \<lparr>vc_id = ''n'', vc_header = ''N'', vc_accessor = Num, vc_sort = Some (ByNumber (\<lambda>r. r)), vc_searchable = True\<rparr>"

theorem visible_rows_rendered_witness:
  "vt_row 52 [number_column] \<lparr>item_index = 20, offsetTop = 1040, item_height = 52\<rparr> 20 \<in>
     set (vt_rows 52 [number_column] (map of_nat [0..<100]) \<lparr>scrollTop = 1000, containerHeight = 400\<rparr>)"
proof -
  have "fl (of_nat 20 * 52) = (of_nat 20 * 52 :: rat)" by code_simp
  then show ?thesis
    using visible_rows_rendered [of 52 20 "map of_nat [0..<100]" "\<lparr>scrollTop = 1000, containerHeight = 400\<rparr>" "[number_column]"]
    by simp
qed

subsection \<open>When nothing listens to the container\<close>

lemma vt_calls_frame [simp]:
  "vt_window (vt_calls calls s) = vt_window s" "vt_attached (vt_calls calls s) = vt_attached s"
  "vt_scroll (vt_calls calls s) = vt_scroll s"
proof -
  have "vt_window (vt_calls calls s) = vt_window s \<and> vt_attached (vt_calls calls s) = vt_attached s \<and>
      vt_scroll (vt_calls calls s) = vt_scroll s"
    unfolding vt_calls_def by (induction calls arbitrary: s) (simp_all split: search_call.split)
  then show "vt_window (vt_calls calls s) = vt_window s" "vt_attached (vt_calls calls s) = vt_attached s"
    "vt_scroll (vt_calls calls s) = vt_scroll s" by simp_all
qed

lemma detached_act:
  "\<not> vt_attached (snd ps) \<Longrightarrow> \<not> vt_attached (snd (vt_act show_number columns ps e)) \<and>
     vt_window (snd (vt_act show_number columns ps e)) = vt_window (snd ps)"
  by (cases ps; cases e) (auto simp: Let_def split_def toggleSort_def split: option.split sort_dir.split)

lemma detached_step:
  assumes "\<not> vt_attached (snd ps)"
  shows "\<not> vt_attached (snd (vt_step show_number columns ps e)) \<and>
     vt_window (snd (vt_step show_number columns ps e)) = vt_window (snd ps)"
  using detached_act [OF assms, of show_number columns e]
  by (auto simp: vt_step_def vt_commit_def Let_def split_def)

lemma detached_run:
  "\<not> vt_attached (snd ps) \<Longrightarrow> \<not> vt_attached (snd (run (vt_step show_number columns) ps es)) \<and>
     vt_window (snd (run (vt_step show_number columns) ps es)) = vt_window (snd ps)"
proof (induction es arbitrary: ps)
  case (Cons e es)
  show ?case using Cons.IH [of "vt_step show_number columns ps e"] detached_step [OF Cons.prems, of show_number columns e] by simp
qed simp

lemma rows_at_origin:
  assumes "0 < h"
  shows "vt_rows h columns rows initial_virtualizer =
    map (\<lambda>i. vt_row h columns \<lparr>item_index = i, offsetTop = ntimes (of_int i) h, item_height = h\<rparr> (rows ! nat i))
      [0..min (int (length rows) - 1) 5]"
  by (simp add: vt_rows_eq virtualItems_def start_row_def end_row_def initial_virtualizer_def ndiv_def nplus_def comp_def)

text \<open>A table that is shown while its data are still loading never scrolls: the virtualizer finds
  no container when it starts and does not look again. Whatever data arrive and whatever
  the user does, at most the first six rows are ever rendered, although the container
  scrolls through the height of all of them.\<close>

theorem loading_table_shows_six:
  assumes "vp_loading p" "0 < h"
  shows "let (p', s) = run (vt_step show_number columns) (p, mount_vt show_number columns ch p) es in
    length (vt_rows h columns (vt_sorted show_number columns (vp_data p') s) (vt_window s)) \<le> 6"
proof -
  have m: "\<not> vt_attached (mount_vt show_number columns ch p)" "vt_window (mount_vt show_number columns ch p) = initial_virtualizer"
    using assms(1) by (simp_all add: mount_vt_def has_container_def Let_def)
  obtain p' s where r: "run (vt_step show_number columns) (p, mount_vt show_number columns ch p) es = (p', s)"
    by fastforce
  have "vt_window s = initial_virtualizer"
    using detached_run [of "(p, mount_vt show_number columns ch p)" show_number columns es] m r by simp
  then show ?thesis using assms(2) r by (simp add: rows_at_origin)
qed

theorem loading_table_shows_six_witness:
  "let (p', s) = run (vt_step (\<lambda>_. []) [number_column])
        (\<lparr>vp_data = [], vp_loading = True\<rparr>, mount_vt (\<lambda>_. []) [number_column] 400 \<lparr>vp_data = [], vp_loading = True\<rparr>)
        [VtProps \<lparr>vp_data = map of_nat [0..<1000], vp_loading = False\<rparr>, VtScroll 3000]
   in length (vt_rows 52 [number_column] (vt_sorted (\<lambda>_. []) [number_column] (vp_data p') s) (vt_window s)) \<le> 6"
  using loading_table_shows_six [of "\<lparr>vp_data = [], vp_loading = True\<rparr>" 52 "\<lambda>_. []" "[number_column]" 400
      "[VtProps \<lparr>vp_data = map of_nat [0..<1000], vp_loading = False\<rparr>, VtScroll 3000]"]
  by simp

text \<open>A search without a match does the same to a table that was scrolled: when the search is
  taken back, the new container stands at its top, while the rows rendered stay those of
  the old scroll position for ever, with a container height of zero.\<close>

theorem empty_search_detaches:
  assumes "has_container show_number columns p s" "vt_attached s" "vt_search s = []"
    and "q \<noteq> []" "vt_filtered show_number columns (vp_data p) q = []"
  shows "let (p1, s1) = run (vt_step show_number columns) (p, s) [VtBox (ChangeText q), VtTimer, VtBox ClearText];
             (p2, s2) = run (vt_step show_number columns) (p1, s1) es in
    vt_search s1 = [] \<and> vt_scroll s1 = 0 \<and>
    scrollTop (vt_window s2) = scrollTop (vt_window s) \<and> containerHeight (vt_window s2) = 0"
proof -
  let ?run = "run (vt_step show_number columns)"
  define s1 where "s1 = snd (?run (p, s) [VtBox (ChangeText q), VtTimer, VtBox ClearText])"
  have load: "\<not> vp_loading p" using assms(1) by (simp add: has_container_def)
  have data: "vp_data p \<noteq> []" using assms(1) by (auto simp: has_container_def vt_sorted_def vt_filtered_def split: option.splits if_splits)
  have empty: "vt_search t = q \<Longrightarrow> \<not> has_container show_number columns p t" for t
    using assms(5) by (auto simp: has_container_def vt_sorted_def split: option.splits if_splits)
  have full: "vt_search t = [] \<Longrightarrow> has_container show_number columns p t" for t
  proof -
    assume "vt_search t = []"
    then have "mset (vt_sorted show_number columns (vp_data p) t) = mset (vp_data p)"
      by (simp add: vt_sorted_def vt_filtered_def Let_def split: option.split)
    then show ?thesis using data load by (auto simp: has_container_def)
  qed
  have r: "?run (p, s) [VtBox (ChangeText q), VtTimer, VtBox ClearText] = (p, s1) \<and> vt_search s1 = [] \<and> vt_scroll s1 = 0 \<and>
      \<not> vt_attached s1 \<and> vt_window s1 = virtualizer_step (vt_window s) (Resize 0)"
    using assms(2,3) by (simp add: s1_def vt_step_def handleChange_def clear_search_def search_timer_fires_def vt_calls_def
        vt_commit_def full empty)
  obtain p2 s2 where r2: "?run (p, s1) es = (p2, s2)" by fastforce
  have "vt_window s2 = vt_window s1" using detached_run [of "(p, s1)" show_number columns es] r r2 by simp
  then show ?thesis using r r2 by simp
qed

theorem empty_search_detaches_witness:
  "let s = snd (run (vt_step (\<lambda>_. ''1'') [number_column])
              (\<lparr>vp_data = map of_nat [0..<100], vp_loading = False\<rparr>,
               mount_vt (\<lambda>_. ''1'') [number_column] 400 \<lparr>vp_data = map of_nat [0..<100], vp_loading = False\<rparr>)
              [VtScroll 3000, VtBox (ChangeText ''x''), VtTimer, VtBox ClearText])
   in vt_scroll s = 0 \<and> scrollTop (vt_window s) = 3000 \<and> vt_search s = []"
proof -
  define p :: "rat vt_props" where "p = \<lparr>vp_data = map of_nat [0..<100], vp_loading = False\<rparr>"
  define s where "s = snd (run (vt_step (\<lambda>_. ''1'') [number_column]) (p, mount_vt (\<lambda>_. ''1'') [number_column] 400 p) [VtScroll 3000])"
  have r: "run (vt_step (\<lambda>_. ''1'') [number_column]) (p, mount_vt (\<lambda>_. ''1'') [number_column] 400 p) [VtScroll 3000] = (p, s)"
    by (simp add: s_def vt_step_def Let_def split_def)
  have c: "has_container (\<lambda>_. ''1'') [number_column] p s" "vt_attached s" "vt_search s = []"
    and w: "scrollTop (vt_window s) = 3000"
    by (simp_all add: s_def p_def vt_step_def vt_commit_def mount_vt_def has_container_def vt_sorted_def vt_filtered_def)
  have "vt_filtered (\<lambda>_. ''1'') [number_column] (vp_data p) ''x'' = []"
    by (simp add: vt_filtered_def number_column_def search_text_def toLowerCase_def lower_char_def code_unit_def filter_empty_conv)
  note d = empty_search_detaches [OF c _ this, of "[]"]
  have "run (vt_step (\<lambda>_. ''1'') [number_column]) (p, mount_vt (\<lambda>_. ''1'') [number_column] 400 p)
      [VtScroll 3000, VtBox (ChangeText ''x''), VtTimer, VtBox ClearText] =
      run (vt_step (\<lambda>_. ''1'') [number_column]) (p, s) [VtBox (ChangeText ''x''), VtTimer, VtBox ClearText]"
    using r by simp
  then show ?thesis using d w unfolding p_def [symmetric] by (simp add: Let_def split_def del: run_Cons)
qed

end
