(* ===== verification/Catalog_Page.thy ===== *)
theory Catalog_Page
  imports Cart_Store Small_Stores Notifications Error_Mapper Js_Sort I18n Ui_Widgets Ui_Overlays
begin

text \<open>
  The catalog page, \<open>frontend/src/pages/Catalog.tsx\<close>: loading the products, the filters and
  the sorting, adding to the cart, the wishlist, the quick view with its recommendations,
  and the bulk import. The page works on the cart, the wishlist and the toast store; the
  answers of the two requests are events.

  Parameters: \<open>collate\<close>, the collation of \<open>localeCompare\<close>; \<open>money\<close>, the currency text of
  \<open>formatCurrency\<close>; and \<open>json_kind\<close>, what \<open>JSON.parse\<close> makes of a text as far as the page
  tells the results apart.
\<close>

subsection \<open>Products\<close>

record product =
  pr_id :: jsstring
  pr_sku :: jsstring
  pr_name :: jsstring
  pr_description :: jsstring
  pr_price :: rat
  pr_active :: bool
  pr_category :: "jsstring option"

definition mock_categories :: "jsstring list" where
  "mock_categories = [''Electronics'', ''Apparel'', ''Furniture'', ''Accessories'']"

definition with_categories :: "product list \<Rightarrow> product list" where
  "with_categories ps =
     map (\<lambda>(i, p). p\<lparr>pr_category := Some (str_or (pr_category p) (mock_categories ! (i mod length mock_categories)))\<rparr>)
       (zip [0..<length ps] ps)"

definition unsplash :: "jsstring \<Rightarrow> jsstring" where
  "unsplash photo = ''https://images.unsplash.com/photo-'' @ photo @ ''?w=500&auto=format&fit=crop&q=60''"

datatype image_set = Apparel | Electronics | Furniture | DefaultImages

fun mockImages :: "image_set \<Rightarrow> jsstring list" where
  "mockImages Apparel =
     map unsplash [''1521572267360-ee0c2909d518'', ''1583743814966-8936f5b7be1a'', ''1489987707025-afc232f7ea0f'']"
| "mockImages Electronics =
     map unsplash [''1505740420928-5e560c06d30e'', ''1583394838336-acd977736f90'', ''1484704849700-f032a568e944'']"
| "mockImages Furniture =
     map unsplash [''1524758631624-e2822e304c36'', ''1505691938895-1758d7feb511'', ''1581428982868-e410dd047a90'']"
| "mockImages DefaultImages =
     map unsplash [''1523275335684-37898b6baf30'', ''1542291026-7eec264c27ff'', ''1572635196237-14b3f281503f'']"

definition image_set_of :: "jsstring \<Rightarrow> image_set" where
  "image_set_of name =
     (if list_ex (str_includes name) [''shirt'', ''jacket'', ''hoodie'', ''pant''] then Apparel
      else if list_ex (str_includes name) [''headphone'', ''watch'', ''camera'', ''phone''] then Electronics
      else if list_ex (str_includes name) [''chair'', ''desk'', ''table'', ''lamp''] then Furniture
      else DefaultImages)"

definition getProductImages :: "product \<Rightarrow> jsstring list" where
  "getProductImages p = mockImages (image_set_of (toLowerCase (pr_name p)))"

subsection \<open>State\<close>

datatype catalog_sort = SortDefault | PriceAsc | PriceDesc | ByName

record catalog =
  ct_products :: "product list"
  ct_loading :: bool
  ct_error :: "jsstring option"
  ct_search :: jsstring
  ct_box :: search_box
  ct_category :: jsstring
  maxPrice :: rat
  sortBy :: catalog_sort
  selectedProduct :: "product option"
  activeImageIndex :: nat
  isBulkOpen :: bool
  bulkInput :: jsstring
  bulkSubmitting :: bool
  ct_price_open :: bool
  ct_cart :: cart_state
  ct_wishlist :: wishlist_state
  ct_toasts :: toast_store
  ct_fetches :: nat
  ct_importing :: "nat option"

text \<open>\<open>ct_fetches\<close> counts the product requests that are not answered yet; \<open>ct_importing\<close> is the
  number of objects of an import that is under way.\<close>

datatype json_kind = JsonError jsstring | JsonArray nat | JsonOther

definition notify :: "env \<Rightarrow> jsstring \<Rightarrow> jsstring \<Rightarrow> toast_variant \<Rightarrow> catalog \<Rightarrow> catalog" where
  "notify e title descr v c =
     c\<lparr>ct_toasts := show_toast (clock e) (uuid1 e) title (toast_opts.make (Some descr) (Some v) None) (ct_toasts c)\<rparr>"

subsection \<open>Operations\<close>

definition fetch_start :: "catalog \<Rightarrow> catalog" where
  "fetch_start c = c\<lparr>ct_loading := True, ct_fetches := ct_fetches c + 1\<rparr>"

definition mount_catalog :: "jsstring \<Rightarrow> cart_state \<Rightarrow> wishlist_state \<Rightarrow> toast_store \<Rightarrow> catalog" where
  "mount_catalog sample cart wish ts =
     fetch_start \<lparr>ct_products = [], ct_loading = True, ct_error = None, ct_search = '''',
       ct_box = initial_search_box (Some ''''), ct_category = ''All'', maxPrice = 2000, sortBy = SortDefault,
       selectedProduct = None, activeImageIndex = 0, isBulkOpen = False, bulkInput = sample, bulkSubmitting = False,
       ct_price_open = False, ct_cart = cart, ct_wishlist = wish, ct_toasts = ts, ct_fetches = 0, ct_importing = None\<rparr>"

definition fetch_answered :: "product list option \<Rightarrow> catalog \<Rightarrow> catalog" where
  \<comment> \<open>the products of the answer, or nothing when the request or the reading of the answer failed\<close>
  "fetch_answered res c =
     (if ct_fetches c = 0 then c
      else let c1 = c\<lparr>ct_fetches := ct_fetches c - 1, ct_loading := False\<rparr>
        in case res of
             None \<Rightarrow> c1\<lparr>ct_error := Some ''Failed to load catalog products.''\<rparr>
           | Some ps \<Rightarrow> c1\<lparr>ct_products := with_categories ps\<rparr>)"

definition handleBulkImport :: "env \<Rightarrow> (jsstring \<Rightarrow> json_kind) \<Rightarrow> catalog \<Rightarrow> catalog" where
  "handleBulkImport e json_kind c =
     (case json_kind (bulkInput c) of
        JsonError m \<Rightarrow>
          notify e ''Import Error'' (if m = [] then ''Failed to bulk import products.'' else m) Info (c\<lparr>bulkSubmitting := False\<rparr>)
      | JsonOther \<Rightarrow>
          notify e ''Invalid Payload'' ''Bulk import payload must be a JSON array of product objects.'' Warning
            (c\<lparr>bulkSubmitting := False\<rparr>)
      | JsonArray n \<Rightarrow> c\<lparr>bulkSubmitting := True, ct_importing := Some n\<rparr>)"

definition import_answered :: "env \<Rightarrow> thrown + nat option \<Rightarrow> catalog \<Rightarrow> catalog" where
  \<comment> \<open>the length of the body, if it has one; a rejection with null makes the handler throw before the toast\<close>
  "import_answered e res c =
     (case ct_importing c of
        None \<Rightarrow> c
      | Some n \<Rightarrow>
          let c1 = c\<lparr>ct_importing := None, bulkSubmitting := False\<rparr> in
          case res of
            Inr len \<Rightarrow>
              fetch_start ((notify e ''Bulk Import Completed''
                (''Successfully imported '' @ show_nat (case len of Some k \<Rightarrow> if k = 0 then n else k | None \<Rightarrow> n)
                  @ '' items into the catalog database.'') Success c1)\<lparr>isBulkOpen := False\<rparr>)
          | Inl err \<Rightarrow>
              if err = Nothing then c1 else
              notify e ''Import Error''
                (if truthy (response_detail err) then the (response_detail err)
                 else js_or (thrown_message err) ''Failed to bulk import products.'') Info c1)"

definition handleAddToCart :: "env \<Rightarrow> product \<Rightarrow> catalog \<Rightarrow> catalog" where
  "handleAddToCart e p c =
     notify e ''Added to Cart'' (pr_name p @ '' has been added to your shopping cart.'') Success
       (c\<lparr>ct_cart := addItem \<lparr>product_id = pr_id p, sku = pr_sku p, item_name = pr_name p, price = pr_price p\<rparr> (ct_cart c)\<rparr>)"

definition handleToggleWishlist :: "env \<Rightarrow> jsstring \<Rightarrow> catalog \<Rightarrow> catalog" where
  "handleToggleWishlist e pid c =
     (let c1 = c\<lparr>ct_wishlist := toggleWishlist pid (ct_wishlist c)\<rparr>;
          wish = isWishlisted (ct_wishlist c1) pid
      in notify e (if wish then ''Removed from Wishlist'' else ''Added to Wishlist'')
           (if wish then ''Item removed from your favorites list.'' else ''Item saved to your favorites list.'')
           (if wish then Info else Success) c1)"

subsection \<open>What is shown\<close>

fun unique :: "jsstring list \<Rightarrow> jsstring list \<Rightarrow> jsstring list" where
  \<comment> \<open>the elements of a \<open>Set\<close> filled in this order\<close>
  "unique seen [] = []"
| "unique seen (x # xs) = (if List.member seen x then unique seen xs else x # unique (x # seen) xs)"

definition catalog_categories :: "product list \<Rightarrow> jsstring list" where
  "catalog_categories ps = ''All'' # unique [] (map (\<lambda>p. str_or (pr_category p) ''General'') ps)"

definition search_matches :: "jsstring \<Rightarrow> product \<Rightarrow> bool" where
  "search_matches s p =
     (s = [] \<or> (let q = toLowerCase s in
        str_includes (toLowerCase (pr_name p)) q \<or> str_includes (toLowerCase (pr_sku p)) q \<or>
        str_includes (toLowerCase (pr_description p)) q))"

definition passes_filters :: "catalog \<Rightarrow> product \<Rightarrow> bool" where
  "passes_filters c p =
     (search_matches (ct_search c) p \<and> (ct_category c \<noteq> ''All'' \<longrightarrow> pr_category p = Some (ct_category c)) \<and>
      pr_price p \<le> maxPrice c)"

definition product_order :: "(jsstring \<Rightarrow> jsstring \<Rightarrow> rat) \<Rightarrow> catalog_sort \<Rightarrow> product \<Rightarrow> product \<Rightarrow> rat" where
  "product_order collate k a b =
     (case k of
        SortDefault \<Rightarrow> 0
      | PriceAsc \<Rightarrow> nminus (pr_price a) (pr_price b)
      | PriceDesc \<Rightarrow> nminus (pr_price b) (pr_price a)
      | ByName \<Rightarrow> collate (pr_name a) (pr_name b))"

definition processedProducts :: "(jsstring \<Rightarrow> jsstring \<Rightarrow> rat) \<Rightarrow> catalog \<Rightarrow> product list" where
  "processedProducts collate c =
     (let r0 = ct_products c;
          r1 = (if ct_search c \<noteq> [] then filter (search_matches (ct_search c)) r0 else r0);
          r2 = (if ct_category c \<noteq> ''All'' then filter (\<lambda>p. pr_category p = Some (ct_category c)) r1 else r1);
          r3 = filter (\<lambda>p. pr_price p \<le> maxPrice c) r2
      in if sortBy c = SortDefault then r3 else js_sort (product_order collate (sortBy c)) r3)"

definition recommendations :: "catalog \<Rightarrow> product list" where
  "recommendations c =
     (case selectedProduct c of
        None \<Rightarrow> []
      | Some s \<Rightarrow> take 3 (filter (\<lambda>p. pr_category p = pr_category s \<and> pr_id p \<noteq> pr_id s) (ct_products c)))"

subsection \<open>Events\<close>

datatype catalog_action =
    ResetFilters
  | OpenBulk
  | CatalogSearch search_action
  | PickCategory jsstring
  | PricePopup "jsstring popup_action"
  | SortText jsstring
  | QuickView product
  | ClickWishlist jsstring
  | ClickAdd product
  | CloseQuickView
  | PickImage nat
  | CloseBulk
  | TypeBulk jsstring
  | SubmitBulk

datatype catalog_event =
    CatalogAct env catalog_action
  | SearchTimer
  | FetchAnswered "product list option"
  | ImportAnswered env "thrown + nat option"

definition catalog_calls :: "search_call list \<Rightarrow> catalog \<Rightarrow> catalog" where
  \<comment> \<open>the box calls \<open>onSearch\<close>; it has no \<open>onChange\<close>\<close>
  "catalog_calls calls c = foldl (\<lambda>c k. case k of OnSearch v \<Rightarrow> c\<lparr>ct_search := v\<rparr> | OnChange v \<Rightarrow> c) c calls"

definition sort_of :: "jsstring \<Rightarrow> catalog_sort" where
  "sort_of t = (if t = ''price-asc'' then PriceAsc else if t = ''price-desc'' then PriceDesc
     else if t = ''name'' then ByName else SortDefault)"

fun catalog_act :: "(jsstring \<Rightarrow> json_kind) \<Rightarrow> env \<Rightarrow> catalog \<Rightarrow> catalog_action \<Rightarrow> catalog" where
  "catalog_act json e c ResetFilters = c\<lparr>ct_category := ''All'', ct_search := '''', maxPrice := 2000\<rparr>"
| "catalog_act json e c OpenBulk = c\<lparr>isBulkOpen := True\<rparr>"
| "catalog_act json e c (CatalogSearch a) =
     (let (box, calls) = (case a of ChangeText v \<Rightarrow> handleChange v (ct_box c) | ClearText \<Rightarrow> clear_search (ct_box c))
      in catalog_calls calls (c\<lparr>ct_box := box\<rparr>))"
| "catalog_act json e c (PickCategory k) = c\<lparr>ct_category := k\<rparr>"
| "catalog_act json e c (PricePopup a) =
     (let (is_open, texts) = popup_step (ct_price_open c) a
      in foldl (\<lambda>c t. c\<lparr>maxPrice := of_nat (read_nat t)\<rparr>) (c\<lparr>ct_price_open := is_open\<rparr>) texts)"
| "catalog_act json e c (SortText t) = c\<lparr>sortBy := sort_of t\<rparr>"
| "catalog_act json e c (QuickView p) = c\<lparr>selectedProduct := Some p, activeImageIndex := 0\<rparr>"
| "catalog_act json e c (ClickWishlist i) = handleToggleWishlist e i c"
| "catalog_act json e c (ClickAdd p) = handleAddToCart e p c"
| "catalog_act json e c CloseQuickView = c\<lparr>selectedProduct := None\<rparr>"
| "catalog_act json e c (PickImage i) = c\<lparr>activeImageIndex := i\<rparr>"
| "catalog_act json e c CloseBulk = c\<lparr>isBulkOpen := False\<rparr>"
| "catalog_act json e c (TypeBulk t) = c\<lparr>bulkInput := t\<rparr>"
| "catalog_act json e c SubmitBulk = (if bulkSubmitting c then c else handleBulkImport e json c)"

fun catalog_step :: "(jsstring \<Rightarrow> json_kind) \<Rightarrow> catalog \<Rightarrow> catalog_event \<Rightarrow> catalog" where
  "catalog_step json c (CatalogAct e a) = catalog_act json e c a"
| "catalog_step json c SearchTimer =
     (let (box, calls) = search_timer_fires (ct_box c) in catalog_calls calls (c\<lparr>ct_box := box\<rparr>))"
| "catalog_step json c (FetchAnswered res) = fetch_answered res c"
| "catalog_step json c (ImportAnswered e res) = import_answered e res c"

subsection \<open>The view\<close>

definition catalog_header :: "i18n_state \<Rightarrow> catalog_action node" where
  "catalog_header st =
     El ''div'' []
       [El ''div'' []
          [El ''h1'' [] [Txt (str_or (Some (translate st ''catalog.title'' [])) ''Product Catalog'')],
           El ''p'' [] [Txt ''Browse merchandise, configure catalogs, and add premium selections to your inventory.'']],
        El ''div'' []
          [button_view False False (Some (Icon ''SlidersHorizontal'')) [On ''click'' ResetFilters] [Txt ''Reset Filters''],
           button_view False False (Some (Icon ''Upload'')) [On ''click'' OpenBulk] [Txt ''Bulk Import''],
           button_view False False (Some (Icon ''Plus'')) [] [Txt ''Add Product'']]]"

definition price_slider :: "(rat \<Rightarrow> jsstring) \<Rightarrow> catalog \<Rightarrow> jsstring node" where
  "price_slider money c =
     El ''div'' []
       [El ''h4'' [] [Txt ''Filter by Price''],
        El ''div'' []
          [El ''input'' [Attr ''type'' ''range'', Attr ''min'' ''0'', Attr ''max'' ''2000'', Attr ''step'' ''50'',
              NumAttr ''value'' (maxPrice c), OnText ''change'' id] [],
           El ''div'' []
             [El ''span'' [] [Txt ''$0''], El ''span'' [] [Txt (money (maxPrice c))], El ''span'' [] [Txt ''$2,000'']]]]"

definition catalog_filters :: "(rat \<Rightarrow> jsstring) \<Rightarrow> catalog \<Rightarrow> catalog_action node" where
  "catalog_filters money c =
     El ''div'' []
       [El ''div'' []
          [El ''div'' [] [map_node CatalogSearch (search_box_view (Some (ct_search c)) ''Search by name, SKU...'' False (ct_box c))],
           El ''div'' []
             (map (\<lambda>k. chip_view (Some (PickCategory k)) None None False [] [Txt k]) (catalog_categories (ct_products c)))],
        El ''div'' []
          [map_node PricePopup
             (popover_view (button_view False False (Some (Icon ''SlidersHorizontal'')) []
                [Txt ''Price: Max '', Txt (money (maxPrice c))])
               [price_slider money c] (ct_price_open c)),
           El ''select'' [OnText ''change'' SortText]
             [El ''option'' [Attr ''value'' ''default''] [Txt ''Sort by: Default''],
              El ''option'' [Attr ''value'' ''price-asc''] [Txt ''Price: Low to High''],
              El ''option'' [Attr ''value'' ''price-desc''] [Txt ''Price: High to Low''],
              El ''option'' [Attr ''value'' ''name''] [Txt ''Alphabetical'']]]]"

definition product_card :: "(rat \<Rightarrow> jsstring) \<Rightarrow> product \<Rightarrow> catalog_action node" where
  "product_card money p =
     El ''div'' [On ''click'' (QuickView p)]
       [El ''button'' [Attr ''type'' ''button'', On ''click'' (ClickWishlist (pr_id p))] [Icon ''Heart''],
        El ''div'' []
          [El ''img'' [Attr ''src'' (getProductImages p ! 0), Attr ''alt'' (pr_name p)] [],
           El ''div'' [] [badge_view False None False None [] [Txt (str_or (pr_category p) ''General'')]]],
        El ''div'' []
          [El ''div'' []
             [El ''div'' [] [El ''span'' [] [Txt ''SKU: '', Txt (pr_sku p)], El ''span'' [] [Txt (money (pr_price p))]],
              El ''h3'' [] [Txt (pr_name p)], El ''p'' [] [Txt (pr_description p)]],
           El ''div'' []
             [button_view False False (Some (Icon ''Eye'')) [On ''click'' (QuickView p)] [Txt ''Quick View''],
              button_view False False (Some (Icon ''ShoppingCart'')) [On ''click'' (ClickAdd p)] [Txt ''Add'']]]]"

definition product_grid ::
    "(jsstring \<Rightarrow> jsstring \<Rightarrow> rat) \<Rightarrow> (rat \<Rightarrow> jsstring) \<Rightarrow> catalog \<Rightarrow> catalog_action node" where
  "product_grid collate money c =
     (if ct_loading c then El ''div'' [] (replicate 6 (El ''div'' [] (replicate 4 (El ''div'' [] []))))
      else if truthy (ct_error c) then El ''div'' [] [Txt (str_or (ct_error c) '''')]
      else if processedProducts collate c = []
      then El ''div'' [] [Icon ''Package'', El ''h3'' [] [Txt ''No Products Found''],
             El ''p'' [] [Txt ''Try adjusting your search filters or selected category options.'']]
      else El ''div'' [] (map (product_card money) (processedProducts collate c)))"

definition recommendation_view :: "(rat \<Rightarrow> jsstring) \<Rightarrow> product list \<Rightarrow> catalog_action node list" where
  "recommendation_view money recs =
     show_if (recs \<noteq> [])
       [El ''div'' []
         [El ''h4'' [] [Icon ''TrendingUp'', Txt '' Recommended for You''],
          El ''div'' []
            (map (\<lambda>r. El ''div'' [On ''click'' (QuickView r)]
               [El ''img'' [Attr ''src'' (getProductImages r ! 0), Attr ''alt'' (pr_name r)] [],
                El ''h5'' [] [Txt (pr_name r)], El ''span'' [] [Txt (money (pr_price r))]]) recs)]]"

definition quick_view :: "(rat \<Rightarrow> jsstring) \<Rightarrow> catalog \<Rightarrow> product \<Rightarrow> catalog_action node" where
  "quick_view money c p =
     El ''div'' []
       ([El ''div'' []
           [El ''div'' [] [El ''img'' [Attr ''src'' (getProductImages p ! activeImageIndex c), Attr ''alt'' (pr_name p)] []],
            El ''div'' []
              (map (\<lambda>(i, img). El ''button'' [On ''click'' (PickImage i)]
                 [El ''img'' [Attr ''src'' img, Attr ''alt'' ''thumbnail''] []])
                (zip [0..<length (getProductImages p)] (getProductImages p)))],
         El ''div'' []
           [El ''div'' []
              [badge_view False None False None [] [Txt (str_or (pr_category p) '''')], El ''span'' [] [Txt (money (pr_price p))]],
            El ''p'' [] [Txt (pr_description p)]],
         El ''div'' []
           [button_view False False (Some (Icon ''ShoppingCart'')) [On ''click'' (ClickAdd p)] [Txt ''Add to Shopping Cart''],
            button_view False False (Some (Icon (if isWishlisted (ct_wishlist c) (pr_id p) then ''HeartOff'' else ''Heart'')))
              [On ''click'' (ClickWishlist (pr_id p))] []],
         El ''div'' []
           [El ''h4'' [] [Icon ''Tag'', Txt '' Technical Specifications''],
            El ''div'' []
              [El ''div'' [] [El ''span'' [] [Txt ''SKU Reference''], El ''span'' [] [Txt (pr_sku p)]],
               El ''div'' [] [El ''span'' [] [Txt ''Saga Availability''], El ''span'' [] [Txt ''In Stock (Healthy)'']]]]]
        @ recommendation_view money (recommendations c))"

definition bulk_modal :: "catalog \<Rightarrow> catalog_action node list" where
  "bulk_modal c =
     modal_view (isBulkOpen c) CloseBulk (Some ''Batched Bulk Product Import'') None
       [El ''div'' []
         [El ''p'' []
            [Txt ''Provide a JSON array of product objects containing '', El ''code'' [] [Txt ''sku''], Txt '', '',
             El ''code'' [] [Txt ''name''], Txt '', '', El ''code'' [] [Txt ''price''], Txt '', and optional '',
             El ''code'' [] [Txt ''description''],
             Txt ''. Imported items execute in atomic 500-item transactions under backend validation.''],
          El ''textarea'' [Attr ''value'' (bulkInput c), OnText ''change'' TypeBulk, Attr ''placeholder'' ''Paste JSON array here...''] [],
          El ''div'' []
            [button_view False False None [On ''click'' CloseBulk] [Txt ''Cancel''],
             button_view (bulkSubmitting c) False (Some (Icon ''Upload'')) [On ''click'' SubmitBulk] [Txt ''Submit Batch Import'']]]]"

definition catalog_view ::
    "(jsstring \<Rightarrow> jsstring \<Rightarrow> rat) \<Rightarrow> (rat \<Rightarrow> jsstring) \<Rightarrow> i18n_state \<Rightarrow> catalog \<Rightarrow> catalog_action node" where
  "catalog_view collate money st c =
     El ''div'' []
       ([catalog_header st, catalog_filters money c, product_grid collate money c]
        @ drawer_view (selectedProduct c \<noteq> None) CloseQuickView
            (Some (case selectedProduct c of Some p \<Rightarrow> str_or (Some (pr_name p)) ''Product Quick View''
               | None \<Rightarrow> ''Product Quick View'')) None
            (show_some (selectedProduct c) (\<lambda>p. [quick_view money c p]))
        @ bulk_modal c)"

subsection \<open>The products shown\<close>

interpretation price_asc: consistent_comparator "product_order collate PriceAsc"
  by unfold_locales (auto simp: product_order_def)

interpretation price_desc: consistent_comparator "product_order collate PriceDesc"
  by unfold_locales (auto simp: product_order_def)

lemma product_order_consistent:
  assumes "consistent_comparator (\<lambda>a b :: product. collate (pr_name a) (pr_name b))"
  shows "consistent_comparator (product_order collate k)"
proof (cases k)
  case ByName
  then show ?thesis using assms by (simp add: product_order_def [abs_def])
next
  case SortDefault
  then show ?thesis by unfold_locales (simp_all add: product_order_def)
qed (simp_all add: price_asc.consistent_comparator_axioms price_desc.consistent_comparator_axioms)

lemma processed_eq:
  "processedProducts collate c =
     (if sortBy c = SortDefault then filter (passes_filters c) (ct_products c)
      else js_sort (product_order collate (sortBy c)) (filter (passes_filters c) (ct_products c)))"
proof -
  have "filter (\<lambda>p. pr_price p \<le> maxPrice c)
      (if ct_category c \<noteq> ''All'' then filter (\<lambda>p. pr_category p = Some (ct_category c))
           (if ct_search c \<noteq> [] then filter (search_matches (ct_search c)) (ct_products c) else ct_products c)
       else (if ct_search c \<noteq> [] then filter (search_matches (ct_search c)) (ct_products c) else ct_products c)) =
      filter (passes_filters c) (ct_products c)"
    by (auto simp: passes_filters_def search_matches_def intro!: filter_cong)
  then show ?thesis by (simp add: processedProducts_def Let_def)
qed

lemma mset_processed: "mset (processedProducts collate c) = mset (filter (passes_filters c) (ct_products c))"
  by (simp add: processed_eq)

text \<open>C11. The grid shows exactly the products that pass the three filters, none twice and none
  lost; sorted by price or by name when that is asked for, where products that compare equal keep
  the order of the server, and in the order of the server otherwise. The comparison of names
  is only asked to be a consistent one.\<close>

theorem catalog_shows:
  assumes "consistent_comparator (\<lambda>a b :: product. collate (pr_name a) (pr_name b))"
  shows "mset (processedProducts collate c) = mset (filter (passes_filters c) (ct_products c)) \<and>
    sorted_wrt (\<lambda>a b. product_order collate (sortBy c) a b \<le> 0) (processedProducts collate c) \<and>
    filter (\<lambda>p. product_order collate (sortBy c) a p = 0) (processedProducts collate c) =
      filter (\<lambda>p. product_order collate (sortBy c) a p = 0) (filter (passes_filters c) (ct_products c))"
proof -
  note order = product_order_consistent [OF assms, of "sortBy c"]
  have "sorted_wrt (\<lambda>a b. product_order collate (sortBy c) a b \<le> 0) (processedProducts collate c)"
    using consistent_comparator.sorted_js_sort [OF order]
    by (simp add: processed_eq) (simp add: product_order_def sorted_wrt_iff_nth_less)
  moreover have "filter (\<lambda>p. product_order collate (sortBy c) a p = 0) (processedProducts collate c) =
      filter (\<lambda>p. product_order collate (sortBy c) a p = 0) (filter (passes_filters c) (ct_products c))"
    using consistent_comparator.stable_js_sort [OF order] by (simp add: processed_eq)
  ultimately show ?thesis by (simp add: mset_processed)
qed

definition sample_product :: "jsstring \<Rightarrow> rat \<Rightarrow> product" where
  "sample_product name cost =
     \<lparr>pr_id = name, pr_sku = name, pr_name = name, pr_description = [], pr_price = cost, pr_active = True,
      pr_category = None\<rparr>"

definition sample_page :: "product list \<Rightarrow> catalog" where
  "sample_page ps = fetch_answered (Some ps) (mount_catalog [] initial_cart initial_wishlist initial_toasts)"

definition name_length_order :: "jsstring \<Rightarrow> jsstring \<Rightarrow> rat" where
  "name_length_order s t = of_nat (length s) - of_nat (length t)"

lemma name_length_consistent: "consistent_comparator (\<lambda>a b :: product. name_length_order (pr_name a) (pr_name b))"
  unfolding name_length_order_def by (rule key_asc_consistent)

lemma sample_page_simps [simp]:
  "ct_products (sample_page ps) = with_categories ps" "ct_search (sample_page ps) = []"
  "ct_category (sample_page ps) = ''All''" "maxPrice (sample_page ps) = 2000" "sortBy (sample_page ps) = SortDefault"
  by (simp_all add: sample_page_def fetch_answered_def mount_catalog_def fetch_start_def)

lemma sample_product_simps [simp]:
  "pr_name (sample_product n x) = n" "pr_price (sample_product n x) = x" "pr_id (sample_product n x) = n"
  by (simp_all add: sample_product_def)

theorem catalog_shows_witness:
  "let c = (sample_page [sample_product ''lamp'' 30, sample_product ''desk'' 3000, sample_product ''tea'' 5])\<lparr>sortBy := PriceAsc\<rparr> in
   mset (map pr_name (processedProducts name_length_order c)) = {#''lamp'', ''tea''#} \<and>
   map pr_name (processedProducts name_length_order c) = [''tea'', ''lamp'']"
proof -
  define c where "c = (sample_page [sample_product ''lamp'' 30, sample_product ''desk'' 3000, sample_product ''tea'' 5])\<lparr>sortBy := PriceAsc\<rparr>"
  have c: "ct_products c = with_categories [sample_product ''lamp'' 30, sample_product ''desk'' 3000, sample_product ''tea'' 5]"
    "ct_search c = []" "ct_category c = ''All''" "maxPrice c = 2000" "sortBy c = PriceAsc"
    by (simp_all add: c_def)
  have f: "map pr_name (filter (passes_filters c) (ct_products c)) = [''lamp'', ''tea'']"
    and s: "map pr_name (processedProducts name_length_order c) = [''tea'', ''lamp'']"
    by (simp_all add: processed_eq with_categories_def passes_filters_def search_matches_def product_order_def c)
  have "mset (map pr_name (processedProducts name_length_order c)) = mset [''lamp'', ''tea'']"
    unfolding f [symmetric] using catalog_shows [OF name_length_consistent, of c] by (metis mset_map)
  then have "mset (map pr_name (processedProducts name_length_order c)) = {#''lamp'', ''tea''#}" by simp
  then show ?thesis unfolding Let_def c_def [symmetric] by (rule conjI) (rule s)
qed

subsection \<open>Frames\<close>

lemma notify_frame [simp]:
  "ct_products (notify e t d v c) = ct_products c" "ct_error (notify e t d v c) = ct_error c"
  "ct_loading (notify e t d v c) = ct_loading c" "ct_fetches (notify e t d v c) = ct_fetches c"
  "ct_importing (notify e t d v c) = ct_importing c" "bulkSubmitting (notify e t d v c) = bulkSubmitting c"
  "ct_cart (notify e t d v c) = ct_cart c" "ct_wishlist (notify e t d v c) = ct_wishlist c"
  "maxPrice (notify e t d v c) = maxPrice c" "activeImageIndex (notify e t d v c) = activeImageIndex c"
  by (simp_all add: notify_def)

lemma catalog_calls_frame [simp]:
  "ct_products (catalog_calls calls c) = ct_products c" "ct_error (catalog_calls calls c) = ct_error c"
  "ct_loading (catalog_calls calls c) = ct_loading c" "ct_fetches (catalog_calls calls c) = ct_fetches c"
  "ct_importing (catalog_calls calls c) = ct_importing c" "bulkSubmitting (catalog_calls calls c) = bulkSubmitting c"
  "ct_cart (catalog_calls calls c) = ct_cart c" "ct_wishlist (catalog_calls calls c) = ct_wishlist c"
  "maxPrice (catalog_calls calls c) = maxPrice c" "activeImageIndex (catalog_calls calls c) = activeImageIndex c"
  unfolding catalog_calls_def by (induction calls arbitrary: c) (simp_all split: search_call.split)

lemma slider_frame [simp]:
  "ct_products (foldl (\<lambda>c t. c\<lparr>maxPrice := f t\<rparr>) c ts) = ct_products c"
  "ct_error (foldl (\<lambda>c t. c\<lparr>maxPrice := f t\<rparr>) c ts) = ct_error c"
  "ct_loading (foldl (\<lambda>c t. c\<lparr>maxPrice := f t\<rparr>) c ts) = ct_loading c"
  "ct_fetches (foldl (\<lambda>c t. c\<lparr>maxPrice := f t\<rparr>) c ts) = ct_fetches c"
  "ct_importing (foldl (\<lambda>c t. c\<lparr>maxPrice := f t\<rparr>) c ts) = ct_importing c"
  "bulkSubmitting (foldl (\<lambda>c t. c\<lparr>maxPrice := f t\<rparr>) c ts) = bulkSubmitting c"
  "ct_cart (foldl (\<lambda>c t. c\<lparr>maxPrice := f t\<rparr>) c ts) = ct_cart c"
  "ct_wishlist (foldl (\<lambda>c t. c\<lparr>maxPrice := f t\<rparr>) c ts) = ct_wishlist c"
  "activeImageIndex (foldl (\<lambda>c t. c\<lparr>maxPrice := f t\<rparr>) c ts) = activeImageIndex c"
  by (induction ts arbitrary: c) simp_all

lemma catalog_act_frame:
  "ct_products (catalog_act json e c a) = ct_products c \<and> ct_error (catalog_act json e c a) = ct_error c \<and>
   ct_loading (catalog_act json e c a) = ct_loading c \<and> ct_fetches (catalog_act json e c a) = ct_fetches c"
  by (cases a) (auto simp: handleToggleWishlist_def handleAddToCart_def handleBulkImport_def Let_def split_def
      split: json_kind.split)

subsection \<open>Runs of the page\<close>

definition catalog_inv :: "catalog \<Rightarrow> bool" where
  "catalog_inv c \<longleftrightarrow> cart_inv (ct_cart c) \<and> distinct (itemIds (ct_wishlist c)) \<and>
     (bulkSubmitting c \<longleftrightarrow> ct_importing c \<noteq> None) \<and> (ct_loading c \<longrightarrow> 0 < ct_fetches c) \<and>
     list_all (\<lambda>p. truthy (pr_category p)) (ct_products c)"

lemma with_categories_truthy: "list_all (\<lambda>p. truthy (pr_category p)) (with_categories ps)"
proof -
  have "mock_categories ! (i mod length mock_categories) \<noteq> []" for i
  proof -
    have "i mod 4 \<in> {0, 1, 2, 3 :: nat}" by auto
    then show ?thesis by (auto simp: mock_categories_def)
  qed
  then have "str_or x (mock_categories ! (i mod length mock_categories)) \<noteq> []" for x i
    by (simp add: str_or_def split: option.split)
  then show ?thesis by (auto simp: with_categories_def list_all_iff truthy_def)
qed

lemma addItem_inv: "cart_inv s \<Longrightarrow> cart_inv (addItem n s)"
  using cart_step_inv [of s "AddItem n"] by simp

lemma toggleWishlist_distinct: "distinct (itemIds s) \<Longrightarrow> distinct (itemIds (toggleWishlist p s))"
  using wish_distinct.inv_step [of s "ToggleWishlist p"] by simp

lemma catalog_step_inv: "catalog_inv c \<Longrightarrow> catalog_inv (catalog_step json c e)"
proof (cases e)
  case (CatalogAct env a)
  assume "catalog_inv c"
  then show ?thesis unfolding CatalogAct
    by (cases a) (auto simp: catalog_inv_def handleToggleWishlist_def handleAddToCart_def handleBulkImport_def Let_def
        split_def addItem_inv toggleWishlist_distinct split: json_kind.split)
next
  case (FetchAnswered res)
  assume "catalog_inv c"
  then show ?thesis unfolding FetchAnswered
    by (auto simp: catalog_inv_def fetch_answered_def Let_def with_categories_truthy split: option.split)
next
  case (ImportAnswered env res)
  assume "catalog_inv c"
  then show ?thesis unfolding ImportAnswered
    by (auto simp: catalog_inv_def import_answered_def fetch_start_def Let_def split: option.split sum.split)
qed (auto simp: catalog_inv_def split_def Let_def)

lemma catalog_run_inv: "catalog_inv c \<Longrightarrow> catalog_inv (run (catalog_step json) c es)"
  by (induction es arbitrary: c) (simp_all add: catalog_step_inv)

text \<open>Over any session of the catalog page, whatever the user does and whatever the server
  answers: the cart and the wishlist keep their invariants, the import button is disabled exactly while an
  import is under way, skeletons are shown only while an answer is awaited, and every product
  shown has a category, so that it is reached by one of the chips.\<close>

theorem catalog_session:
  assumes "cart_inv cart" "distinct (itemIds wish)"
  shows "let c = run (catalog_step json) (mount_catalog sample cart wish ts) es in
    cart_inv (ct_cart c) \<and> distinct (itemIds (ct_wishlist c)) \<and>
    (bulkSubmitting c \<longleftrightarrow> ct_importing c \<noteq> None) \<and> (ct_loading c \<longrightarrow> 0 < ct_fetches c) \<and>
    (\<forall>p \<in> set (ct_products c). \<exists>k. pr_category p = Some k \<and> k \<in> set (catalog_categories (ct_products c)))"
proof -
  have unique: "set (unique seen xs) = set xs - set seen" for seen xs
    by (induction xs arbitrary: seen) auto
  have "catalog_inv (mount_catalog sample cart wish ts)"
    using assms by (simp add: catalog_inv_def mount_catalog_def fetch_start_def)
  from catalog_run_inv [OF this, of json es]
  have inv: "catalog_inv (run (catalog_step json) (mount_catalog sample cart wish ts) es)" .
  have "\<exists>k. pr_category p = Some k \<and> k \<in> set (catalog_categories ps)"
    if "p \<in> set ps" "truthy (pr_category p)" for p and ps :: "product list"
    using that by (cases "pr_category p") (auto simp: truthy_def catalog_categories_def unique str_or_def image_iff
        intro!: bexI [of _ p] split: if_splits)
  with inv show ?thesis by (auto simp: catalog_inv_def Let_def list_all_iff)
qed

theorem catalog_session_witness:
  "let c = run (catalog_step (\<lambda>_. JsonOther)) (mount_catalog [] initial_cart initial_wishlist initial_toasts)
     [FetchAnswered (Some [sample_product ''lamp'' 30])] in
   cart_inv (ct_cart c) \<and> \<not> ct_loading c \<and> pr_category (hd (ct_products c)) = Some ''Electronics''"
proof -
  have w: "distinct (itemIds initial_wishlist)" by (simp add: initial_wishlist_def)
  have d: "(\<lambda>c. \<not> ct_loading c \<and> pr_category (hd (ct_products c)) = Some ''Electronics'')
    (run (catalog_step (\<lambda>_. JsonOther)) (mount_catalog [] initial_cart initial_wishlist initial_toasts)
     [FetchAnswered (Some [sample_product ''lamp'' 30])])"
    by (simp add: fetch_answered_def mount_catalog_def fetch_start_def with_categories_def sample_product_def str_or_def
        mock_categories_def)
  show ?thesis
    using catalog_session [OF cart.inv_init w, of "\<lambda>_. JsonOther" "[]" initial_toasts "[FetchAnswered (Some [sample_product ''lamp'' 30])]"] d
    unfolding Let_def by blast
qed

subsection \<open>What stays\<close>

lemma error_step:
  assumes "ct_error c = Some ''Failed to load catalog products.''"
  shows "ct_error (catalog_step json c e) = Some ''Failed to load catalog products.''"
  using assms catalog_act_frame
  by (cases e) (auto simp: split_def fetch_answered_def import_answered_def fetch_start_def Let_def
      split: option.split sum.split)

lemma error_run:
  "ct_error c = Some ''Failed to load catalog products.'' \<Longrightarrow>
   ct_error (run (catalog_step json) c es) = Some ''Failed to load catalog products.''"
  by (induction es arbitrary: c) (simp_all add: error_step)

text \<open>Once a request for the products has failed, the page shows the failure for ever: nothing takes
  the message back, so whenever the page is not loading it shows the message instead of the products, also
  after an import that made it load the products successfully.\<close>

theorem catalog_error_sticks:
  assumes "0 < ct_fetches c"
  shows "let d = run (catalog_step json) (fetch_answered None c) es in
    ct_loading d \<or> product_grid collate money d = El ''div'' [] [Txt ''Failed to load catalog products.'']"
proof -
  have "ct_error (fetch_answered None c) = Some ''Failed to load catalog products.''"
    using assms by (simp add: fetch_answered_def)
  from error_run [OF this, of json es] show ?thesis
    by (simp add: Let_def product_grid_def truthy_def str_or_def)
qed

definition recovered :: catalog where
  \<comment> \<open>the first request fails, an import succeeds, and the second request gives a product\<close>
  "recovered = run (catalog_step (\<lambda>_. JsonArray 1))
     (fetch_answered None (mount_catalog [] initial_cart initial_wishlist initial_toasts))
     [CatalogAct sample_env SubmitBulk, ImportAnswered sample_env (Inr None), FetchAnswered (Some [sample_product ''lamp'' 30])]"

lemma recovered_loaded: "\<not> ct_loading recovered \<and> map pr_name (ct_products recovered) = [''lamp'']"
  by (simp add: recovered_def fetch_answered_def mount_catalog_def fetch_start_def with_categories_def
      handleBulkImport_def import_answered_def Let_def)

theorem catalog_error_sticks_witness:
  "map pr_name (ct_products recovered) = [''lamp''] \<and>
   product_grid name_length_order (\<lambda>_. []) recovered = El ''div'' [] [Txt ''Failed to load catalog products.'']"
proof -
  have "0 < ct_fetches (mount_catalog [] initial_cart initial_wishlist initial_toasts)"
    by (simp add: mount_catalog_def fetch_start_def)
  from catalog_error_sticks [OF this, of "\<lambda>_. JsonArray 1"
      "[CatalogAct sample_env SubmitBulk, ImportAnswered sample_env (Inr None), FetchAnswered (Some [sample_product ''lamp'' 30])]"
      name_length_order "\<lambda>_. []"]
  show ?thesis using recovered_loaded unfolding Let_def recovered_def [symmetric] by blast
qed

subsection \<open>The price filter\<close>

definition slider_gives :: "catalog_event \<Rightarrow> bool" where
  \<comment> \<open>the slider runs from 0 to 2000\<close>
  "slider_gives e = (case e of CatalogAct _ (PricePopup (InPopup t)) \<Rightarrow> read_nat t \<le> 2000
     | CatalogAct _ (PricePopup (PickItem (Some t))) \<Rightarrow> read_nat t \<le> 2000 | _ \<Rightarrow> True)"

lemma slider_step:
  assumes "maxPrice c \<le> 2000" "slider_gives e"
  shows "maxPrice (catalog_step json c e) \<le> 2000"
proof (cases e)
  case (CatalogAct env a)
  have le: "(of_nat n :: rat) \<le> 2000" if "n \<le> 2000" for n
    using that of_nat_le_iff [of n 2000, where 'a = rat] by simp
  show ?thesis
  proof (cases a)
    case (PricePopup p)
    then show ?thesis using assms CatalogAct
      by (cases p) (auto simp: slider_gives_def le split: option.splits)
  qed (use assms CatalogAct in \<open>auto simp: handleToggleWishlist_def handleAddToCart_def handleBulkImport_def Let_def
      split_def split: json_kind.split\<close>)
qed (use assms in \<open>auto simp: split_def fetch_answered_def import_answered_def fetch_start_def Let_def
      split: option.split sum.split\<close>)

lemma slider_run:
  "maxPrice c \<le> 2000 \<Longrightarrow> list_all slider_gives es \<Longrightarrow> maxPrice (run (catalog_step json) c es) \<le> 2000"
  by (induction es arbitrary: c) (simp_all add: slider_step)

text \<open>A product that costs more than 2000 is never shown by the catalog page, whatever the user does and
  whatever the server answers: the price filter starts at 2000, the slider ends there, and
  resetting the filters goes back to it.\<close>

theorem expensive_products_hidden:
  assumes "list_all slider_gives es"
    and "p \<in> set (processedProducts collate (run (catalog_step json) (mount_catalog sample cart wish ts) es))"
  shows "pr_price p \<le> 2000"
proof -
  let ?c = "run (catalog_step json) (mount_catalog sample cart wish ts) es"
  have "maxPrice ?c \<le> 2000"
    using assms(1) by (intro slider_run) (simp_all add: mount_catalog_def fetch_start_def)
  moreover have "p \<in> set (filter (passes_filters ?c) (ct_products ?c))"
    using assms(2) mset_processed [of collate ?c] by (metis set_mset_mset)
  ultimately show ?thesis by (simp add: passes_filters_def)
qed

theorem expensive_products_hidden_witness:
  "let c = run (catalog_step (\<lambda>_. JsonOther)) (mount_catalog [] initial_cart initial_wishlist initial_toasts)
       [FetchAnswered (Some [sample_product ''lamp'' 30, sample_product ''desk'' 3000]), CatalogAct sample_env ResetFilters] in
   map pr_name (ct_products c) = [''lamp'', ''desk''] \<and> (\<forall>p \<in> set (processedProducts name_length_order c). pr_price p \<le> 2000)"
proof -
  have ok: "list_all slider_gives [FetchAnswered (Some [sample_product ''lamp'' 30, sample_product ''desk'' 3000]), CatalogAct sample_env ResetFilters]"
    by (simp add: slider_gives_def)
  have "map pr_name (ct_products (run (catalog_step (\<lambda>_. JsonOther)) (mount_catalog [] initial_cart initial_wishlist initial_toasts)
       [FetchAnswered (Some [sample_product ''lamp'' 30, sample_product ''desk'' 3000]), CatalogAct sample_env ResetFilters]))
      = [''lamp'', ''desk'']"
    by (simp add: fetch_answered_def mount_catalog_def fetch_start_def with_categories_def)
  then show ?thesis using expensive_products_hidden [OF ok] unfolding Let_def by blast
qed

subsection \<open>The wishlist button\<close>

text \<open>The heart of a product adds it to the wishlist exactly when it was not in it, but the message says the
  opposite: the page asks the store after the change, so the message is that the product was removed
  exactly when it has just been added. Clicking twice restores every membership.\<close>

theorem wishlist_toast_inverted:
  "let d = handleToggleWishlist e i c; m = toasts (ct_toasts d) in
   (isWishlisted (ct_wishlist d) i \<longleftrightarrow> \<not> isWishlisted (ct_wishlist c) i) \<and>
   (toast_title (List.last m) = ''Removed from Wishlist'' \<longleftrightarrow> isWishlisted (ct_wishlist d) i) \<and>
   (toast_title (List.last m) = ''Added to Wishlist'' \<longleftrightarrow> \<not> isWishlisted (ct_wishlist d) i) \<and>
   isWishlisted (ct_wishlist (handleToggleWishlist e' i d)) j = isWishlisted (ct_wishlist c) j"
  by (auto simp: handleToggleWishlist_def notify_def show_toast_def add_toast_def Let_def isWishlisted_toggle)

subsection \<open>Recommendations\<close>

text \<open>The quick view recommends at most three products, of the category of the one viewed and never the product
  itself; fewer than three only if there are no more.\<close>

theorem recommendations_related:
  assumes "selectedProduct c = Some s"
  shows "length (recommendations c) \<le> 3 \<and>
    (\<forall>p \<in> set (recommendations c). p \<in> set (ct_products c) \<and> pr_category p = pr_category s \<and> pr_id p \<noteq> pr_id s) \<and>
    (length (recommendations c) < 3 \<longrightarrow>
      set (recommendations c) = {p \<in> set (ct_products c). pr_category p = pr_category s \<and> pr_id p \<noteq> pr_id s})"
  using assms by (auto simp: recommendations_def dest: in_set_takeD)

theorem recommendations_related_witness:
  "let c = (sample_page [])\<lparr>ct_products := [sample_product ''lamp'' 30, sample_product ''tea'' 5], selectedProduct := Some (sample_product ''tea'' 5)\<rparr>
   in map pr_name (recommendations c) = [''lamp''] \<and> length (recommendations c) \<le> 3"
proof -
  let ?c = "(sample_page [])\<lparr>ct_products := [sample_product ''lamp'' 30, sample_product ''tea'' 5], selectedProduct := Some (sample_product ''tea'' 5)\<rparr>"
  have "map pr_name (recommendations ?c) = [''lamp'']"
    by (simp add: recommendations_def sample_product_def)
  moreover have "selectedProduct ?c = Some (sample_product ''tea'' 5)" by simp
  ultimately show ?thesis using recommendations_related [of ?c "sample_product ''tea'' 5"] unfolding Let_def by blast
qed

end
