(* ===== verification/Data_Pages.thy ===== *)
theory Data_Pages
  imports Data_Table Notifications I18n Ui_Overlays
begin

text \<open>
  The three pages that show a data table: \<open>pages/Orders.tsx\<close>, \<open>pages/Inventory.tsx\<close> with its
  restock dialog, and \<open>pages/Users.tsx\<close>. A page loads its rows with a request whose answer is
  an event; requests overlap when the user refreshes twice or switches the language, and
  may be answered in any order. The data table keeps its own state while it is mounted.

  Parameters: \<open>num\<close>, the text \<open>String(n)\<close> of a number; \<open>money\<close> and \<open>date\<close>, the texts of
  \<open>formatCurrency\<close> and \<open>formatDate\<close>; \<open>collate\<close>, the collation of \<open>localeCompare\<close>.
\<close>

subsection \<open>Loading rows\<close>

record 'r data_page =
  dp_rows :: "'r list"
  dp_loading :: bool
  dp_error :: "jsstring option"
  dp_requests :: "(locale_code \<times> bool) list"
  dp_table :: table_ui
  dp_i18n :: i18n_state

text \<open>A request that is under way has the language its error message will be in (the \<open>t\<close> its
  callback closed over), and whether the restock handler waits for it. The table is unmounted while an
  error is shown, and starts anew after it; while the page is loading, the table is mounted
  but its search box and its column menu are not.\<close>

definition reload_table :: "table_ui \<Rightarrow> table_ui" where
  "reload_table u = u\<lparr>tbl_box := initial_search_box (Some (search (tbl u))), tbl_menu := False\<rparr>"

definition start_fetch ::
    "locale_code \<Rightarrow> bool \<Rightarrow> ('r, 'x) data_column list \<Rightarrow> ('r, 'm) data_page_scheme \<Rightarrow> ('r, 'm) data_page_scheme" where
  "start_fetch l waits cols p =
     p\<lparr>dp_loading := True, dp_error := None, dp_requests := dp_requests p @ [(l, waits)],
       dp_table := (if truthy (dp_error p) then initial_table_ui 10 cols else reload_table (dp_table p))\<rparr>"

definition finish_fetch :: "nat \<Rightarrow> 'r list option \<Rightarrow> ('r, 'm) data_page_scheme \<Rightarrow> ('r, 'm) data_page_scheme" where
  \<comment> \<open>the answer to the \<open>i\<close>-th request under way: its rows, or nothing when it failed\<close>
  "finish_fetch i res p =
     (if i < length (dp_requests p) then
        let l = fst (dp_requests p ! i);
            p1 = p\<lparr>dp_requests := take i (dp_requests p) @ drop (Suc i) (dp_requests p), dp_loading := False\<rparr>
        in case res of
             None \<Rightarrow> p1\<lparr>dp_error := Some (getNestedValue (table l) ''common.error'')\<rparr>
           | Some rows \<Rightarrow> p1\<lparr>dp_rows := rows\<rparr>
      else p)"

definition tr :: "('r, 'm) data_page_scheme \<Rightarrow> jsstring \<Rightarrow> jsstring" where
  "tr p key = translate (dp_i18n p) key []"

definition unmounted_page :: "i18n_state \<Rightarrow> ('r, 'x) data_column list \<Rightarrow> 'r data_page" where
  "unmounted_page st cols =
     \<lparr>dp_rows = [], dp_loading = True, dp_error = None, dp_requests = [], dp_table = initial_table_ui 10 cols, dp_i18n = st\<rparr>"

datatype 'x rows_action = PageRefresh | PageTable "'x table_action"

definition data_page_body ::
    "(jsstring \<Rightarrow> jsstring \<Rightarrow> rat) \<Rightarrow> ('r \<Rightarrow> jsstring) \<Rightarrow> ('r, 'x) data_column list \<Rightarrow> jsstring \<Rightarrow> jsstring \<Rightarrow>
     ('r, 'm) data_page_scheme \<Rightarrow> 'x rows_action node" where
  \<comment> \<open>the failure with its retry button, or the table\<close>
  "data_page_body collate getId cols emptyTitle emptyDescription p =
     (if truthy (dp_error p)
      then alert_view AlertError None None False None
        [El ''div'' []
          [El ''span'' [] [Txt (str_or (dp_error p) '''')],
           button_view False False None [On ''click'' PageRefresh] [Txt ''Retry'']]]
      else map_node PageTable
        (table_view collate (\<lambda>r i. getId r) cols (dp_rows p) (dp_loading p) False None (Some emptyTitle)
          (Some emptyDescription) (tbl_menu (dp_table p)) (tbl_box (dp_table p)) (tbl (dp_table p))))"

definition refresh_button :: "'x rows_action node" where
  "refresh_button = button_view False False (Some (Icon ''RefreshCw'')) [On ''click'' PageRefresh] [Txt ''Refresh'']"

subsection \<open>Orders\<close>

record order =
  ord_id :: jsstring
  ord_status :: jsstring
  total_amount :: rat
  created_at :: jsstring

definition text_or :: "jsstring \<Rightarrow> jsstring \<Rightarrow> jsstring" where
  "text_or s d = (if s = [] then d else s)"

datatype badge_variant = BadgeInfo | BadgeSuccess | BadgeWarning | BadgeDestructive | BadgeSecondary

definition order_variant :: "jsstring \<Rightarrow> badge_variant" where
  \<comment> \<open>the colour of the badge\<close>
  "order_variant status =
     (let s = toLowerCase status in
      if s = ''success'' \<or> s = ''completed'' then BadgeSuccess
      else if s = ''pending'' \<or> s = ''processing'' then BadgeWarning
      else if s = ''failed'' then BadgeDestructive
      else BadgeInfo)"

definition order_label :: "i18n_state \<Rightarrow> jsstring \<Rightarrow> jsstring" where
  "order_label st status = text_or (translate st (''orders.'' @ toLowerCase status) []) status"

definition order_columns ::
    "(rat \<Rightarrow> jsstring) \<Rightarrow> (rat \<Rightarrow> jsstring) \<Rightarrow> (jsstring \<Rightarrow> jsstring) \<Rightarrow> i18n_state \<Rightarrow> (order, unit) data_column list" where
  "order_columns num money date st =
     [\<lparr>col_id = ''id'', header = translate st ''orders.orderId'' [],
       accessor = (\<lambda>r. ElementCell (El ''span'' [] [Txt (ord_id r)])), sortAccessor = Some ord_id,
       searchable = True, col_hidden = False\<rparr>,
      \<lparr>col_id = ''created_at'', header = translate st ''orders.date'' [],
       accessor = (\<lambda>r. ElementCell (El ''span'' [] [Txt (date (created_at r))])), sortAccessor = Some created_at,
       searchable = True, col_hidden = False\<rparr>,
      \<lparr>col_id = ''status'', header = translate st ''orders.status'' [],
       accessor = (\<lambda>r. ElementCell (badge_view True None False None [] [Txt (order_label st (ord_status r))])),
       sortAccessor = Some ord_status, searchable = True, col_hidden = False\<rparr>,
      \<lparr>col_id = ''amount'', header = translate st ''orders.amount'' [],
       accessor = (\<lambda>r. ElementCell (El ''span'' [] [Txt (money (total_amount r))])),
       sortAccessor = Some (\<lambda>r. num (total_amount r)), searchable = True, col_hidden = False\<rparr>]"

datatype orders_event =
    OrdersAct "unit rows_action"
  | OrdersAnswered nat "order list option"
  | OrdersLocale locale_code

definition fetchOrders ::
    "(i18n_state \<Rightarrow> (order, unit) data_column list) \<Rightarrow> order data_page \<Rightarrow> order data_page" where
  "fetchOrders cols p = start_fetch (current_locale (dp_i18n p)) False (cols (dp_i18n p)) p"

definition mount_orders :: "(i18n_state \<Rightarrow> (order, unit) data_column list) \<Rightarrow> i18n_state \<Rightarrow> order data_page" where
  "mount_orders cols st = fetchOrders cols (unmounted_page st (cols st))"

fun orders_step ::
    "(jsstring \<Rightarrow> jsstring \<Rightarrow> rat) \<Rightarrow> (i18n_state \<Rightarrow> (order, unit) data_column list) \<Rightarrow> order data_page \<Rightarrow> orders_event \<Rightarrow>
     order data_page" where
  "orders_step collate cols p (OrdersAct PageRefresh) = fetchOrders cols p"
| "orders_step collate cols p (OrdersAct (PageTable a)) =
     p\<lparr>dp_table := table_act collate (\<lambda>r i. ord_id r) (cols (dp_i18n p)) (dp_rows p) (dp_table p) a\<rparr>"
| "orders_step collate cols p (OrdersAnswered i res) = finish_fetch i res p"
| "orders_step collate cols p (OrdersLocale l) =
     (if l = current_locale (dp_i18n p) then p\<lparr>dp_i18n := setLocale l (dp_i18n p)\<rparr>
      else fetchOrders cols (p\<lparr>dp_i18n := setLocale l (dp_i18n p)\<rparr>))"

definition orders_view ::
    "(jsstring \<Rightarrow> jsstring \<Rightarrow> rat) \<Rightarrow> (i18n_state \<Rightarrow> (order, unit) data_column list) \<Rightarrow> order data_page \<Rightarrow>
     unit rows_action node" where
  "orders_view collate cols p =
     El ''div'' []
       [page_header_view (tr p ''orders.title'') (Some ''Review details of your transactions and checkout saga states'') []
          [refresh_button],
        data_page_body collate ord_id (cols (dp_i18n p)) (tr p ''orders.noOrders'') (tr p ''cart.emptyDescription'') p]"

subsection \<open>Users\<close>

record listed_user =
  lu_id :: jsstring
  lu_email :: jsstring
  lu_name :: jsstring
  lu_role :: jsstring
  lu_active :: bool

definition fallback_users :: "listed_user list" where
  "fallback_users =
     [\<lparr>lu_id = ''1'', lu_email = ''admin@cloudscale.io'', lu_name = ''Super Admin'', lu_role = ''admin'', lu_active = True\<rparr>,
      \<lparr>lu_id = ''2'', lu_email = ''merchant@cloudscale.io'', lu_name = ''Cloud Merchant'', lu_role = ''merchant'', lu_active = True\<rparr>,
      \<lparr>lu_id = ''3'', lu_email = ''customer@cloudscale.io'', lu_name = ''John Doe'', lu_role = ''customer'', lu_active = True\<rparr>]"

definition users_answered :: "listed_user list option \<Rightarrow> listed_user data_page \<Rightarrow> listed_user data_page" where
  \<comment> \<open>the page asks once\<close>
  "users_answered res p =
     (if dp_requests p = [] then p
      else p\<lparr>dp_requests := [], dp_loading := False,
             dp_rows := (case res of Some us \<Rightarrow> us | None \<Rightarrow> fallback_users)\<rparr>)"

definition role_variant :: "jsstring \<Rightarrow> badge_variant" where
  "role_variant r = (if r = ''admin'' then BadgeDestructive else if r = ''merchant'' then BadgeWarning else BadgeInfo)"

definition user_columns :: "i18n_state \<Rightarrow> (listed_user, unit) data_column list" where
  "user_columns st =
     [\<lparr>col_id = ''name'', header = translate st ''users.name'' [],
       accessor = (\<lambda>r. ElementCell (El ''span'' [] [Txt (lu_name r)])), sortAccessor = Some lu_name,
       searchable = True, col_hidden = False\<rparr>,
      \<lparr>col_id = ''email'', header = translate st ''users.email'' [],
       accessor = (\<lambda>r. ElementCell (El ''span'' [] [Icon ''Mail'', Txt '' '', Txt (lu_email r)])), sortAccessor = Some lu_email,
       searchable = True, col_hidden = False\<rparr>,
      \<lparr>col_id = ''role'', header = translate st ''users.role'' [],
       accessor = (\<lambda>r. ElementCell (badge_view False (Some (Icon ''ShieldCheck'')) False None [] [Txt (lu_role r)])),
       sortAccessor = Some lu_role, searchable = True, col_hidden = False\<rparr>,
      \<lparr>col_id = ''status'', header = translate st ''users.status'' [],
       accessor = (\<lambda>r. ElementCell (badge_view False None False None []
         [Txt (if lu_active r then translate st ''users.active'' [] else translate st ''users.inactive'' [])])),
       sortAccessor = Some (\<lambda>r. if lu_active r then ''1'' else ''0''), searchable = True, col_hidden = False\<rparr>]"

definition mount_users :: "i18n_state \<Rightarrow> listed_user data_page" where
  "mount_users st = (unmounted_page st (user_columns st))\<lparr>dp_requests := [(current_locale st, False)]\<rparr>"

datatype users_event = UsersTable "unit table_action" | UsersAnswered "listed_user list option" | UsersLocale locale_code

fun users_step ::
    "(jsstring \<Rightarrow> jsstring \<Rightarrow> rat) \<Rightarrow> listed_user data_page \<Rightarrow> users_event \<Rightarrow> listed_user data_page" where
  "users_step collate p (UsersTable a) =
     p\<lparr>dp_table := table_act collate (\<lambda>r i. lu_id r) (user_columns (dp_i18n p)) (dp_rows p) (dp_table p) a\<rparr>"
| "users_step collate p (UsersAnswered res) = users_answered res p"
| "users_step collate p (UsersLocale l) = p\<lparr>dp_i18n := setLocale l (dp_i18n p)\<rparr>"

definition users_view ::
    "(jsstring \<Rightarrow> jsstring \<Rightarrow> rat) \<Rightarrow> listed_user data_page \<Rightarrow> unit table_action node" where
  "users_view collate p =
     El ''div'' []
       [El ''div'' []
          [El ''h1'' [] [Txt (tr p ''users.title'')],
           El ''p'' [] [Txt ''Review user roles, authentication profiles, and system access rights'']],
        table_view collate (\<lambda>r i. lu_id r) (user_columns (dp_i18n p)) (dp_rows p) (dp_loading p) False None
          (Some ''No users found'') (Some ''System user accounts will be listed here'')
          (tbl_menu (dp_table p)) (tbl_box (dp_table p)) (tbl (dp_table p))]"

subsection \<open>Inventory\<close>

record inventory_item =
  it_id :: jsstring
  it_sku :: jsstring
  it_quantity :: rat
  it_reserved :: rat

text \<open>\<open>parseInt(s)\<close> of the text of a number field: leading white space, a sign and the digits
  that follow; \<open>NaN\<close>, here \<open>None\<close>, when there is no digit.\<close>

definition is_digit_char :: "char \<Rightarrow> bool" where
  "is_digit_char c = (48 \<le> code_unit c \<and> code_unit c \<le> 57)"

definition digits_value :: "jsstring \<Rightarrow> rat option" where
  "digits_value s =
     (let ds = takeWhile is_digit_char s in if ds = [] then None else Some (fl (of_nat (read_nat ds))))"

definition parse_int :: "jsstring \<Rightarrow> rat option" where
  "parse_int s =
     (case dropWhile is_white s of
        [] \<Rightarrow> None
      | c # r \<Rightarrow> if c = CHR ''-'' then map_option uminus (digits_value r)
          else if c = CHR ''+'' then digits_value r else digits_value (c # r))"

record inventory_page = "inventory_item data_page" +
  restock_item :: "inventory_item option"
  restockQty :: "rat option"
  updating :: bool
  restocking :: "(jsstring \<times> rat option \<times> locale_code) option"
  inv_notes :: notification_state

text \<open>\<open>restocking\<close> is the request of the restock dialog while it is under way: the SKU and the
  quantity posted, and the language of the page when it was sent.\<close>

definition number_text :: "(rat \<Rightarrow> jsstring) \<Rightarrow> rat option \<Rightarrow> jsstring" where
  "number_text num q = (case q of None \<Rightarrow> ''NaN'' | Some n \<Rightarrow> num n)"

definition is_low :: "inventory_item \<Rightarrow> bool" where
  "is_low r = (it_quantity r \<le> 5)"

definition inventory_columns :: "(rat \<Rightarrow> jsstring) \<Rightarrow> i18n_state \<Rightarrow> (inventory_item, inventory_item) data_column list" where
  "inventory_columns num st =
     [\<lparr>col_id = ''sku'', header = translate st ''inventory.sku'' [],
       accessor = (\<lambda>r. ElementCell (El ''span'' [] [Txt (it_sku r)])), sortAccessor = Some it_sku,
       searchable = True, col_hidden = False\<rparr>,
      \<lparr>col_id = ''quantity'', header = translate st ''inventory.quantity'' [],
       accessor = (\<lambda>r. ElementCell (El ''span'' [] [Num (it_quantity r)])), sortAccessor = Some (\<lambda>r. num (it_quantity r)),
       searchable = True, col_hidden = False\<rparr>,
      \<lparr>col_id = ''reserved'', header = ''Reserved Stock'',
       accessor = (\<lambda>r. ElementCell (El ''span'' [] [Num (it_reserved r)])), sortAccessor = Some (\<lambda>r. num (it_reserved r)),
       searchable = True, col_hidden = False\<rparr>,
      \<lparr>col_id = ''status'', header = translate st ''inventory.status'' [],
       accessor = (\<lambda>r. ElementCell
         (if is_low r
          then badge_view True (Some (Icon ''AlertTriangle'')) False None [] [Txt (translate st ''inventory.lowStock'' [])]
          else badge_view True (Some (Icon ''CheckCircle2'')) False None [] [Txt (translate st ''inventory.inStock'' [])])),
       sortAccessor = Some (\<lambda>r. if is_low r then ''0'' else ''1''), searchable = True, col_hidden = False\<rparr>,
      \<lparr>col_id = ''actions'', header = translate st ''common.actions'' [],
       accessor = (\<lambda>r. ElementCell
         (button_view False False (Some (Icon ''RefreshCw'')) [On ''click'' r] [Txt (translate st ''inventory.restock'' [])])),
       sortAccessor = None, searchable = True, col_hidden = False\<rparr>]"

definition fetchInventory :: "(rat \<Rightarrow> jsstring) \<Rightarrow> locale_code \<Rightarrow> bool \<Rightarrow> inventory_page \<Rightarrow> inventory_page" where
  "fetchInventory num l waits p = start_fetch l waits (inventory_columns num (dp_i18n p)) p"

definition mount_inventory :: "(rat \<Rightarrow> jsstring) \<Rightarrow> i18n_state \<Rightarrow> notification_state \<Rightarrow> inventory_page" where
  "mount_inventory num st notes =
     fetchInventory num (current_locale st) False
       (data_page.extend (unmounted_page st (inventory_columns num st))
         \<lparr>restock_item = None, restockQty = Some 10, updating = False, restocking = None, inv_notes = notes\<rparr>)"

definition inventory_answered :: "nat \<Rightarrow> inventory_item list option \<Rightarrow> inventory_page \<Rightarrow> inventory_page" where
  \<comment> \<open>the restock handler goes on when the request it waits for is answered\<close>
  "inventory_answered i res p =
     (let p1 = finish_fetch i res p
      in if i < length (dp_requests p) \<and> snd (dp_requests p ! i) then p1\<lparr>updating := False\<rparr> else p1)"

definition handleRestock :: "inventory_page \<Rightarrow> inventory_page" where
  "handleRestock p =
     (case restock_item p of
        None \<Rightarrow> p
      | Some it \<Rightarrow>
          p\<lparr>updating := True, restocking := Some (it_sku it, restockQty p, current_locale (dp_i18n p))\<rparr>)"

definition restock_answered :: "(rat \<Rightarrow> jsstring) \<Rightarrow> env \<Rightarrow> bool \<Rightarrow> inventory_page \<Rightarrow> inventory_page" where
  "restock_answered num e ok p =
     (case restocking p of
        None \<Rightarrow> p
      | Some (s, q, l) \<Rightarrow>
          let p1 = p\<lparr>restocking := None\<rparr> in
          if ok then
            fetchInventory num l True
              (p1\<lparr>inv_notes := addNotification e ''Stock Updated''
                    (''Successfully restocked SKU: '' @ s @ '' by '' @ number_text num q @ ''.'') ''inventory'' (inv_notes p),
                  restock_item := None\<rparr>)
          else
            p1\<lparr>inv_notes := addNotification e ''Restock Failed'' ''Failed to restock inventory item. Please try again.''
                 ''inventory'' (inv_notes p), updating := False\<rparr>)"

datatype inventory_action =
    InvPage "inventory_item rows_action"
  | TypeQuantity jsstring
  | CancelRestock
  | ConfirmRestock

datatype inventory_event =
    InvAct inventory_action
  | InvAnswered nat "inventory_item list option"
  | RestockAnswered env bool
  | InvLocale locale_code

fun inventory_act ::
    "(jsstring \<Rightarrow> jsstring \<Rightarrow> rat) \<Rightarrow> (rat \<Rightarrow> jsstring) \<Rightarrow> inventory_page \<Rightarrow> inventory_action \<Rightarrow> inventory_page" where
  "inventory_act collate num p (InvPage PageRefresh) = fetchInventory num (current_locale (dp_i18n p)) False p"
| "inventory_act collate num p (InvPage (PageTable (InCell r))) = p\<lparr>restock_item := Some r\<rparr>"
| "inventory_act collate num p (InvPage (PageTable a)) =
     p\<lparr>dp_table := table_act collate (\<lambda>r i. it_id r) (inventory_columns num (dp_i18n p)) (dp_rows p) (dp_table p) a\<rparr>"
| "inventory_act collate num p (TypeQuantity t) = p\<lparr>restockQty := parse_int t\<rparr>"
| "inventory_act collate num p CancelRestock = p\<lparr>restock_item := None\<rparr>"
| "inventory_act collate num p ConfirmRestock = (if updating p then p else handleRestock p)"

fun inventory_step ::
    "(jsstring \<Rightarrow> jsstring \<Rightarrow> rat) \<Rightarrow> (rat \<Rightarrow> jsstring) \<Rightarrow> inventory_page \<Rightarrow> inventory_event \<Rightarrow> inventory_page" where
  "inventory_step collate num p (InvAct a) = inventory_act collate num p a"
| "inventory_step collate num p (InvAnswered i res) = inventory_answered i res p"
| "inventory_step collate num p (RestockAnswered e ok) = restock_answered num e ok p"
| "inventory_step collate num p (InvLocale l) =
     (let p1 = p\<lparr>dp_i18n := setLocale l (dp_i18n p)\<rparr>
      in if l = current_locale (dp_i18n p) then p1 else fetchInventory num l False p1)"

definition quantity_field :: "(rat \<Rightarrow> jsstring) \<Rightarrow> inventory_page \<Rightarrow> inventory_action input_field" where
  "quantity_field num p =
     field.extend
       \<lparr>fld_id = None, fld_label = Some ''Quantity to Add'', fld_error = None, fld_hint = None, fld_required = True,
        fld_props = [Attr ''value'' (number_text num (restockQty p)), OnText ''change'' TypeQuantity]\<rparr>
       \<lparr>fld_type = Some ''number'', fld_success = None, fld_icon = None, fld_right_icon = None\<rparr>"

definition restock_modal :: "(rat \<Rightarrow> jsstring) \<Rightarrow> inventory_page \<Rightarrow> inventory_action node list" where
  "restock_modal num p =
     modal_view (restock_item p \<noteq> None) CancelRestock
       (Some (''Restock SKU: '' @ (case restock_item p of None \<Rightarrow> '''' | Some it \<Rightarrow> it_sku it))) None
       [El ''div'' []
         [input_view False CancelRestock (quantity_field num p),
          El ''div'' []
            [button_view False False None [On ''click'' CancelRestock] [Txt (tr p ''common.cancel'')],
             button_view (updating p) False None [On ''click'' ConfirmRestock] [Txt (tr p ''common.confirm'')]]]]"

definition inventory_view ::
    "(jsstring \<Rightarrow> jsstring \<Rightarrow> rat) \<Rightarrow> (rat \<Rightarrow> jsstring) \<Rightarrow> inventory_page \<Rightarrow> inventory_action node" where
  "inventory_view collate num p =
     El ''div'' []
       ([page_header_view (tr p ''inventory.title'')
           (Some ''Monitor warehouse stock balances, item reservations, and low stock warnings'') []
           [map_node InvPage refresh_button],
         map_node InvPage
           (data_page_body collate it_id (inventory_columns num (dp_i18n p)) ''No inventory found''
             ''Add products or update stock to view inventory'' p)]
        @ restock_modal num p)"

subsection \<open>Cells that are elements\<close>

definition element_columns :: "('r, 'x) data_column list \<Rightarrow> bool" where
  "element_columns cols \<longleftrightarrow> cols \<noteq> [] \<and> distinct (map col_id cols) \<and>
     (\<forall>c \<in> set cols. searchable c \<and> (\<forall>r. cell_string (accessor c r) = ''[object Object]''))"

lemma element_text: "toLowerCase ''[object Object]'' = ''[object object]''"
  by code_simp

lemma element_columns_search:
  assumes "element_columns cols"
  shows "filtered_rows cols data s =
    (if search s = [] \<or> str_includes ''[object object]'' (toLowerCase (search s)) then data else [])"
proof -
  have find: "List.find (\<lambda>c. col_id c = col_id d) cols = Some d" if "d \<in> set cols" for d
    using assms that by (intro find_unique) (simp_all add: element_columns_def)
  have srch: "filter searchable cols = cols"
    using assms by (auto simp: element_columns_def intro: filter_True)
  have "(\<exists>c \<in> set cols. str_includes (toLowerCase (cell_string (accessor c row))) q) \<longleftrightarrow> str_includes ''[object object]'' q" for row q
    using assms by (cases cols) (auto simp: element_columns_def element_text)
  then show ?thesis
    by (simp add: filtered_rows_def srch list_ex_iff find Let_def cong: bex_cong)
qed

lemma element_columns_export:
  assumes "element_columns cols"
  shows "exportCSV cols rows s =
    join '','' (map header (visibleColumns cols s)) @ [newline] @
    join [newline] (replicate (length rows) (join '','' (replicate (length (visibleColumns cols s)) (csv_cell ''[object Object]''))))"
proof -
  have "map (\<lambda>c. csv_cell (cell_string (accessor c row))) (visibleColumns cols s) =
      replicate (length (visibleColumns cols s)) (csv_cell ''[object Object]'')" for row
    using assms by (intro replicate_eqI) (auto simp: element_columns_def visibleColumns_def)
  then show ?thesis by (simp add: exportCSV_def Let_def map_replicate_const)
qed

lemma pages_element_columns:
  "element_columns (order_columns num money date st)" "element_columns (user_columns st)"
  "element_columns (inventory_columns num st)"
  by (simp_all add: element_columns_def order_columns_def user_columns_def inventory_columns_def)

text \<open>The search of the order, user and inventory tables does not look at the data: every cell is an
  element, and the text of an element is always the same. A search for an order number, a name or a SKU shows
  the empty table, whatever the rows are; a search for a part of that text shows every row.\<close>

theorem table_pages_search_blind:
  "filtered_rows (order_columns num money date st) os s =
     (if search s = [] \<or> str_includes ''[object object]'' (toLowerCase (search s)) then os else []) \<and>
   filtered_rows (user_columns st) us s =
     (if search s = [] \<or> str_includes ''[object object]'' (toLowerCase (search s)) then us else []) \<and>
   filtered_rows (inventory_columns num st) ins s =
     (if search s = [] \<or> str_includes ''[object object]'' (toLowerCase (search s)) then ins else [])"
  by (intro conjI element_columns_search pages_element_columns)

text \<open>The CSV exports of the three pages have the right shape and no data: under the headers stands one
  line per row, and every cell of it is the same text.\<close>

theorem table_pages_export_empty:
  "exportCSV (order_columns num money date st) os s =
     join '','' (map header (visibleColumns (order_columns num money date st) s)) @ [newline] @
     join [newline] (replicate (length os) (join '',''
       (replicate (length (visibleColumns (order_columns num money date st) s)) (csv_cell ''[object Object]'')))) \<and>
   exportCSV (user_columns st) us s =
     join '','' (map header (visibleColumns (user_columns st) s)) @ [newline] @
     join [newline] (replicate (length us) (join '',''
       (replicate (length (visibleColumns (user_columns st) s)) (csv_cell ''[object Object]'')))) \<and>
   exportCSV (inventory_columns num st) ins s =
     join '','' (map header (visibleColumns (inventory_columns num st) s)) @ [newline] @
     join [newline] (replicate (length ins) (join '',''
       (replicate (length (visibleColumns (inventory_columns num st) s)) (csv_cell ''[object Object]''))))"
  by (intro conjI element_columns_export pages_element_columns)

subsection \<open>Order states\<close>

text \<open>The states of an order, of the saga of the order service (\<open>services/order/app/models.py\<close>).\<close>

definition saga_statuses :: "jsstring list" where
  "saga_statuses = [''PENDING'', ''STOCK_RESERVED'', ''CONFIRMED'', ''CANCELLED'', ''CANCELLED_NO_STOCK'', ''CANCELLING'']"

lemma lower_statuses:
  "map toLowerCase saga_statuses =
     [''pending'', ''stock_reserved'', ''confirmed'', ''cancelled'', ''cancelled_no_stock'', ''cancelling'']"
  by (simp add: saga_statuses_def toLowerCase_def lower_char_def code_unit_def char_of_def bit_0 bit_Suc Let_def)

lemma status_texts:
  "map (\<lambda>s. getNestedValue (table En) (''orders.'' @ s))
     [''pending'', ''stock_reserved'', ''confirmed'', ''cancelled'', ''cancelled_no_stock'', ''cancelling''] =
   [''Pending'', ''orders.stock_reserved'', ''orders.confirmed'', ''orders.cancelled'', ''orders.cancelled_no_stock'', ''orders.cancelling'']"
  "map (\<lambda>s. getNestedValue (table Es) (''orders.'' @ s))
     [''pending'', ''stock_reserved'', ''confirmed'', ''cancelled'', ''cancelled_no_stock'', ''cancelling''] =
   [''Pendiente'', ''orders.stock_reserved'', ''orders.confirmed'', ''orders.cancelled'', ''orders.cancelled_no_stock'', ''orders.cancelling'']"
  by code_simp+

text \<open>Of the six states an order of the order service can have, only the first has a text: the others are
  shown as the key of the missing text, in both languages, and not as the state itself, since the
  translation of a missing key is the key, which is never empty. A confirmed order and a
  cancelled one get the same neutral badge.\<close>

theorem order_states_untranslated:
  "map (order_label st) saga_statuses =
     [if current_locale st = En then ''Pending'' else ''Pendiente'', ''orders.stock_reserved'', ''orders.confirmed'',
      ''orders.cancelled'', ''orders.cancelled_no_stock'', ''orders.cancelling''] \<and>
   map order_variant saga_statuses = [BadgeWarning, BadgeInfo, BadgeInfo, BadgeInfo, BadgeInfo, BadgeInfo]"
proof -
  have "map (order_label st) saga_statuses =
      map (\<lambda>(s, l). text_or (getNestedValue (table (current_locale st)) (''orders.'' @ l)) s)
        (zip saga_statuses (map toLowerCase saga_statuses))"
    by (simp add: order_label_def translate_def saga_statuses_def)
  moreover have "map order_variant saga_statuses =
      map (\<lambda>s. if s = ''success'' \<or> s = ''completed'' then BadgeSuccess
        else if s = ''pending'' \<or> s = ''processing'' then BadgeWarning else if s = ''failed'' then BadgeDestructive else BadgeInfo)
        (map toLowerCase saga_statuses)"
    by (simp add: order_variant_def Let_def comp_def)
  ultimately show ?thesis
    using status_texts unfolding lower_statuses
    by (cases "current_locale st") (simp_all add: saga_statuses_def text_or_def)
qed

subsection \<open>Overlapping requests\<close>

lemma common_error: "truthy (Some (getNestedValue (table l) ''common.error''))"
proof -
  have "list_all (has_string (table l)) (table_keys en_translations)" using table_complete by blast
  moreover have "''common.error'' \<in> set (table_keys en_translations)" by code_simp
  ultimately have "has_string (table l) ''common.error''" by (simp add: list_all_iff)
  from has_string_value [OF this] show ?thesis by (auto simp: truthy_def)
qed

text \<open>When two requests for the orders are under way (a refresh while the page still loads, or a
  change of the language), and one fails and the other succeeds, the page has the rows and is no longer loading,
  but shows the failure instead of the table, in whatever order the answers come: a success does
  not take back the failure of another request.\<close>

theorem failure_hides_later_success:
  assumes "length (dp_requests p) = 2" "i < 2"
  shows "let f = run (orders_step collate cols) p [OrdersAnswered i None, OrdersAnswered 0 (Some rows)];
             s = run (orders_step collate cols) p [OrdersAnswered i (Some rows), OrdersAnswered 0 None]
         in dp_rows f = rows \<and> \<not> dp_loading f \<and> truthy (dp_error f) \<and>
            dp_rows s = rows \<and> \<not> dp_loading s \<and> truthy (dp_error s)"
  using assms common_error by (simp add: finish_fetch_def Let_def)

definition plain_order_columns :: "i18n_state \<Rightarrow> (order, unit) data_column list" where
  "plain_order_columns st = order_columns (\<lambda>n. ''1'') (\<lambda>n. ''1'') (\<lambda>d. d) st"

definition sample_order :: order where
  "sample_order = \<lparr>ord_id = ''o1'', ord_status = ''PENDING'', total_amount = 5, created_at = ''2026-01-01''\<rparr>"

definition refreshed_orders :: "order data_page" where
  "refreshed_orders = orders_step (\<lambda>a b. 0) plain_order_columns
     (mount_orders plain_order_columns (initial_i18n None)) (OrdersAct PageRefresh)"

theorem failure_hides_later_success_witness:
  "let f = run (orders_step (\<lambda>a b. 0) plain_order_columns) refreshed_orders [OrdersAnswered 0 None, OrdersAnswered 0 (Some [sample_order])]
   in dp_rows f = [sample_order] \<and> truthy (dp_error f)"
proof -
  have "length (dp_requests refreshed_orders) = 2"
    by (simp add: refreshed_orders_def mount_orders_def fetchOrders_def start_fetch_def unmounted_page_def)
  from failure_hides_later_success [OF this, of 0 "\<lambda>a b. 0" plain_order_columns "[sample_order]"]
  show ?thesis unfolding Let_def by simp
qed

subsection \<open>Restocking\<close>

definition inventory_inv :: "inventory_page \<Rightarrow> bool" where
  "inventory_inv p \<longleftrightarrow> (dp_loading p \<longrightarrow> dp_requests p \<noteq> []) \<and>
     (updating p \<longleftrightarrow> restocking p \<noteq> None \<or> list_ex snd (dp_requests p)) \<and>
     length (filter snd (dp_requests p)) + (if restocking p = None then 0 else 1) \<le> 1"

lemma filter_split_at:
  "i < length xs \<Longrightarrow> length (filter P xs) =
     length (filter P (take i xs @ drop (Suc i) xs)) + (if P (xs ! i) then 1 else 0)"
  by (subst id_take_nth_drop [of i xs]) simp_all

lemma list_ex_count: "list_ex P xs \<longleftrightarrow> 0 < length (filter P xs)"
  by (auto simp: list_ex_iff filter_empty_conv)

lemma inventory_answered_inv:
  assumes "inventory_inv p" shows "inventory_inv (inventory_answered i res p)"
proof (cases "i < length (dp_requests p)")
  case True
  from filter_split_at [OF this, of snd] assms True show ?thesis
    by (auto simp: inventory_inv_def inventory_answered_def finish_fetch_def Let_def list_ex_count
        split: option.split if_splits)
qed (use assms in \<open>simp add: inventory_answered_def finish_fetch_def\<close>)

lemma inventory_act_inv:
  assumes "inventory_inv p" shows "inventory_inv (inventory_act collate num p a)"
proof (cases a)
  case (InvPage b)
  show ?thesis
  proof (cases b)
    case (PageTable c)
    then show ?thesis using assms InvPage by (cases c) (simp_all add: inventory_inv_def)
  qed (use assms InvPage in \<open>simp add: inventory_inv_def fetchInventory_def start_fetch_def\<close>)
qed (use assms in \<open>auto simp: inventory_inv_def handleRestock_def list_ex_count split: option.split\<close>)

lemma inventory_step_inv:
  assumes "inventory_inv p" shows "inventory_inv (inventory_step collate num p e)"
proof (cases e)
  case (RestockAnswered env ok)
  then show ?thesis using assms
    by (auto simp: inventory_inv_def restock_answered_def fetchInventory_def start_fetch_def Let_def list_ex_count
        split: option.split)
next
  case (InvLocale l)
  then show ?thesis using assms by (auto simp: inventory_inv_def fetchInventory_def start_fetch_def Let_def)
qed (use assms in \<open>simp_all add: inventory_act_inv inventory_answered_inv\<close>)

lemma inventory_run_inv: "inventory_inv p \<Longrightarrow> inventory_inv (run (inventory_step collate num) p es)"
  by (induction es arbitrary: p) (simp_all add: inventory_step_inv)

text \<open>Over any session of the inventory page, whatever is clicked and however the answers come: the confirm
  button is disabled exactly while a restock request, or the reload that follows it, is under way, there
  is at most one of these at a time, so no restock is posted twice, and the page is loading
  only while an answer is awaited.\<close>

theorem restock_session:
  "let p = run (inventory_step collate num) (mount_inventory num st notes) es in
   updating p = (case restocking p of None \<Rightarrow> list_ex snd (dp_requests p) | Some _ \<Rightarrow> True) \<and>
   length (filter snd (dp_requests p)) + (if restocking p = None then 0 else 1) \<le> 1 \<and>
   \<not> (dp_loading p \<and> dp_requests p = [])"
proof -
  have "inventory_inv (mount_inventory num st notes)"
    by (simp add: inventory_inv_def mount_inventory_def fetchInventory_def start_fetch_def unmounted_page_def data_page.extend_def)
  from inventory_run_inv [OF this, of collate num es] show ?thesis
    by (auto simp: inventory_inv_def Let_def split: option.split)
qed

text \<open>What the answer of a restock does. Success notifies with what was posted, closes whatever dialog is open
  by then, also the one of another item, and reloads; failure notifies and leaves the dialog open for another try.
  With notifications of the inventory switched off nothing is said in either case. What is posted is the number
  that was typed, unchecked: nothing, zero and negative quantities included.\<close>

theorem restock_outcome:
  assumes "restock_item p = Some it" "\<not> updating p"
  shows "let q = inventory_act collate num (inventory_act collate num p (TypeQuantity t)) ConfirmRestock;
             q' = (case other of None \<Rightarrow> q | Some it' \<Rightarrow> inventory_act collate num q (InvPage (PageTable (InCell it'))));
             s = restock_answered num e True q'; f = restock_answered num e False q'
         in restocking q = Some (it_sku it, parse_int t, current_locale (dp_i18n p)) \<and> updating q \<and>
            restock_item s = None \<and> updating s \<and> dp_loading s \<and>
            inv_notes s = addNotification e ''Stock Updated''
              (''Successfully restocked SKU: '' @ it_sku it @ '' by '' @ number_text num (parse_int t) @ ''.'') ''inventory'' (inv_notes p) \<and>
            restock_item f = (case other of None \<Rightarrow> Some it | Some it' \<Rightarrow> Some it') \<and> \<not> updating f \<and>
            inv_notes f = (if pref_inventory (preferences (inv_notes p))
              then addNotification e ''Restock Failed'' ''Failed to restock inventory item. Please try again.'' ''inventory'' (inv_notes p)
              else inv_notes p)"
  using assms
  by (auto simp: handleRestock_def restock_answered_def fetchInventory_def start_fetch_def Let_def addNotification_def
      preference_def split: option.split)

definition sample_stock :: inventory_item where
  "sample_stock = \<lparr>it_id = ''i1'', it_sku = ''SKU1'', it_quantity = 3, it_reserved = 0\<rparr>"

definition stock_page :: inventory_page where
  "stock_page = (mount_inventory (\<lambda>n. ''1'') (initial_i18n None) (initial_notifications [] []))\<lparr>restock_item := Some sample_stock\<rparr>"

theorem restock_outcome_witness:
  "restocking (inventory_act (\<lambda>a b. 0) (\<lambda>n. ''1'') (inventory_act (\<lambda>a b. 0) (\<lambda>n. ''1'') stock_page (TypeQuantity ''-5'')) ConfirmRestock)
     = Some (''SKU1'', Some (- 5), En)"
proof -
  have "restock_item stock_page = Some sample_stock" "\<not> updating stock_page"
    by (simp_all add: stock_page_def mount_inventory_def fetchInventory_def start_fetch_def data_page.extend_def)
  note r = restock_outcome [OF this, of "\<lambda>a b. 0" "\<lambda>n. ''1''" "''-5''" None]
  have "parse_int ''-5'' = Some (- 5)" by code_simp
  moreover have "current_locale (dp_i18n stock_page) = En"
    by (simp add: stock_page_def mount_inventory_def fetchInventory_def start_fetch_def unmounted_page_def
        data_page.extend_def initial_i18n_def)
  ultimately show ?thesis using r by (simp add: Let_def sample_stock_def)
qed

end
