(* ===== verification/Tenant_Page.thy ===== *)
theory Tenant_Page
  imports Small_Stores Js_Number Api_Client Jsx
begin

text \<open>
  The workspace page, \<open>pages/TenantAdmin.tsx\<close>: the plans, the usage meters, the change of the
  plan, which takes effect after a delay, the tenant switcher, and the three tabs. The page works on
  the tenant store; a delayed change belongs to the mounting of the page in which it was asked for, and
  reaches the store also when the page was left meanwhile.

  Parameter: \<open>grouped\<close>, the text of \<open>toLocaleString\<close>. The warning sign of the quota alert is
  written as an exclamation mark.
\<close>

subsection \<open>Plans\<close>

record plan =
  pln_id :: plan_tier
  pln_name :: jsstring
  pln_price :: nat
  pln_icon :: string
  pln_popular :: bool
  pln_features :: "jsstring list"
  pln_limits :: tenant_limits

definition PLANS :: "plan list" where
  "PLANS =
     [\<lparr>pln_id = Free, pln_name = ''Starter'', pln_price = 0, pln_icon = ''Zap'', pln_popular = False,
       pln_features = [''Up to 10 products'', ''Up to 15 orders/month'', ''Basic analytics'', ''Email support'', ''Single workspace''],
       pln_limits = \<lparr>maxProducts = 10, maxOrders = 15\<rparr>\<rparr>,
      \<lparr>pln_id = Growth, pln_name = ''Growth'', pln_price = 49, pln_icon = ''Rocket'', pln_popular = True,
       pln_features = [''Up to 100 products'', ''Up to 200 orders/month'', ''Advanced analytics & AI'', ''Priority support'',
         ''3 workspaces'', ''Custom domain''],
       pln_limits = \<lparr>maxProducts = 100, maxOrders = 200\<rparr>\<rparr>,
      \<lparr>pln_id = Enterprise, pln_name = ''Enterprise'', pln_price = 199, pln_icon = ''Crown'', pln_popular = False,
       pln_features = [''Up to 10,000 products'', ''Up to 20,000 orders/month'', ''Full AI & recommendation engine'',
         ''Dedicated account manager'', ''Unlimited workspaces'', ''SSO & SAML'', ''SLA guarantee'', ''Audit logs''],
       pln_limits = \<lparr>maxProducts = 10000, maxOrders = 20000\<rparr>\<rparr>]"

definition currentPlan :: "tenant_state \<Rightarrow> plan" where
  "currentPlan s = (case List.find (\<lambda>p. pln_id p = planTier s) PLANS of Some p \<Rightarrow> p | None \<Rightarrow> PLANS ! 0)"

record audit_event =
  ev_action :: jsstring
  ev_actor :: jsstring
  ev_detail :: jsstring
  ev_ts :: jsstring

definition AUDIT_EVENTS :: "audit_event list" where
  "AUDIT_EVENTS =
     [\<lparr>ev_action = ''plan.upgraded'', ev_actor = ''admin@company.com'',
       ev_detail = ''Plan upgraded from Starter to Growth'', ev_ts = ''2 hours ago''\<rparr>,
      \<lparr>ev_action = ''user.invited'', ev_actor = ''admin@company.com'',
       ev_detail = ''Invited dev@company.com as Editor'', ev_ts = ''5 hours ago''\<rparr>,
      \<lparr>ev_action = ''product.bulk_import'', ev_actor = ''ops@company.com'',
       ev_detail = ''Imported 47 products via CSV'', ev_ts = ''1 day ago''\<rparr>,
      \<lparr>ev_action = ''security.mfa_enabled'', ev_actor = ''admin@company.com'',
       ev_detail = ''Enabled MFA for organization'', ev_ts = ''2 days ago''\<rparr>,
      \<lparr>ev_action = ''billing.invoice_paid'', ev_actor = ''system'',
       ev_detail = ''Invoice #INV-2026-0042 paid - $49.00'', ev_ts = ''3 days ago''\<rparr>,
      \<lparr>ev_action = ''quota.warning'', ev_actor = ''system'',
       ev_detail = ''Product catalog at 87% capacity'', ev_ts = ''4 days ago''\<rparr>]"

subsection \<open>Usage\<close>

definition usage :: "rat \<Rightarrow> int \<Rightarrow> int" where
  \<comment> \<open>\<open>Math.min(Math.floor(limit * share), limit)\<close>\<close>
  "usage share limit = min \<lfloor>ntimes (of_int limit) share\<rfloor> limit"

definition usage_products :: "tenant_state \<Rightarrow> int" where
  "usage_products s = usage (fl (63 / 100)) (maxProducts (limits s))"

definition usage_orders :: "tenant_state \<Rightarrow> int" where
  "usage_orders s = usage (fl (41 / 100)) (maxOrders (limits s))"

definition usage_percentage :: "int \<Rightarrow> int \<Rightarrow> rat" where
  "usage_percentage current limit = min (ntimes (ndiv (of_int current) (of_int limit)) 100) 100"

definition usage_meter :: "(rat \<Rightarrow> jsstring) \<Rightarrow> jsstring \<Rightarrow> int \<Rightarrow> int \<Rightarrow> jsstring \<Rightarrow> 'a node" where
  "usage_meter grouped label current limit unit_name =
     El ''div'' []
       ([El ''div'' []
           [El ''span'' [] [Txt label],
            El ''span'' [] [Txt (grouped (of_int current)), Txt '' / '', Txt (grouped (of_int limit)), Txt '' '', Txt unit_name]],
         El ''div'' []
           [El ''div'' [NumAttr ''style.width%'' (usage_percentage current limit), Attr ''role'' ''progressbar'',
              NumAttr ''aria-valuenow'' (of_int current), NumAttr ''aria-valuemin'' 0, NumAttr ''aria-valuemax'' (of_int limit)] []]]
        @ show_if (usage_percentage current limit \<ge> 90)
            [El ''p'' [] [Txt ''! Critical Quota Alert - upgrade plan immediately'']])"

subsection \<open>State and operations\<close>

datatype admin_tab = OverviewTab | BillingTab | AuditTab

record tenant_page =
  tp_tab :: admin_tab
  isUpgrading :: bool
  tp_mount :: nat
  tp_timers :: "(nat \<times> plan_tier) list"
  tp_tenant :: tenant_state

text \<open>\<open>tp_mount\<close> numbers the mountings of the page; \<open>tp_timers\<close> are the changes of the plan that wait
  for their 800 milliseconds, oldest first, each with the mounting it belongs to.\<close>

definition mount_tenant :: "tenant_state \<Rightarrow> tenant_page" where
  "mount_tenant t = \<lparr>tp_tab = OverviewTab, isUpgrading = False, tp_mount = 0, tp_timers = [], tp_tenant = t\<rparr>"

definition handlePlanUpgrade :: "plan_tier \<Rightarrow> tenant_page \<Rightarrow> tenant_page" where
  "handlePlanUpgrade tier p =
     (if tier = planTier (tp_tenant p) then p
      else p\<lparr>isUpgrading := True, tp_timers := tp_timers p @ [(tp_mount p, tier)]\<rparr>)"

definition upgrade_timer :: "tenant_page \<Rightarrow> tenant_page" where
  "upgrade_timer p =
     (case tp_timers p of
        [] \<Rightarrow> p
      | (m, tier) # r \<Rightarrow>
          p\<lparr>tp_timers := r, tp_tenant := upgradePlan tier (tp_tenant p),
            isUpgrading := (isUpgrading p \<and> m \<noteq> tp_mount p)\<rparr>)"

datatype tenant_action = SelectAdminTab admin_tab | ChoosePlan plan_tier | SwitchTo jsstring

datatype tenant_page_event =
    TenantAct tenant_action
  | UpgradeTimer
  | LeaveAndReturn
  | TenantElsewhere tenant_event

definition plan_disabled :: "tenant_page \<Rightarrow> plan_tier \<Rightarrow> bool" where
  "plan_disabled p tier = (tier = planTier (tp_tenant p) \<or> isUpgrading p)"

fun tenant_page_act :: "tenant_page \<Rightarrow> tenant_action \<Rightarrow> tenant_page" where
  "tenant_page_act p (SelectAdminTab t) = p\<lparr>tp_tab := t\<rparr>"
| "tenant_page_act p (ChoosePlan tier) = (if plan_disabled p tier then p else handlePlanUpgrade tier p)"
| "tenant_page_act p (SwitchTo tid) = p\<lparr>tp_tenant := switchTenant tid (tp_tenant p)\<rparr>"

fun tenant_page_step :: "tenant_page \<Rightarrow> tenant_page_event \<Rightarrow> tenant_page" where
  "tenant_page_step p (TenantAct a) = tenant_page_act p a"
| "tenant_page_step p UpgradeTimer = upgrade_timer p"
| "tenant_page_step p LeaveAndReturn = p\<lparr>tp_tab := OverviewTab, isUpgrading := False, tp_mount := tp_mount p + 1\<rparr>"
| "tenant_page_step p (TenantElsewhere e) = p\<lparr>tp_tenant := tenant_step (tp_tenant p) e\<rparr>"

subsection \<open>The view\<close>

definition admin_tabs :: "(admin_tab \<times> jsstring \<times> string) list" where
  "admin_tabs = [(OverviewTab, ''Overview'', ''BarChart3''), (BillingTab, ''Billing & Plans'', ''CreditCard''),
     (AuditTab, ''Audit Log'', ''Shield'')]"

definition tenant_header :: "tenant_page \<Rightarrow> tenant_action node" where
  "tenant_header p =
     El ''div'' []
       [El ''div'' []
          [El ''h1'' [] [Icon ''Building2'', Txt ''Workspace Administration''],
           El ''p'' [] [Txt ''Configure multi-tenant routing, plan tiers, limits, and security logs'']],
        El ''div'' []
          [El ''span'' [] [Icon (pln_icon (currentPlan (tp_tenant p))), Txt (pln_name (currentPlan (tp_tenant p))), Txt '' Plan''],
           El ''span'' [] [Txt (activeTenantId (tp_tenant p))]]]"

definition tenant_tabs :: "tenant_page \<Rightarrow> tenant_action node" where
  "tenant_tabs p =
     El ''div'' []
       [El ''nav'' [Attr ''aria-label'' ''Admin sections'']
         (map (\<lambda>(t, label, icon).
            El ''button'' ([On ''click'' (SelectAdminTab t)] @ show_if (tp_tab p = t) [Attr ''aria-current'' ''page''])
              (show_if (tp_tab p = t) [El ''span'' [] []] @ [Icon icon, Txt label])) admin_tabs)]"

definition workspace_details :: "(rat \<Rightarrow> jsstring) \<Rightarrow> user option \<Rightarrow> tenant_page \<Rightarrow> tenant_action node" where
  "workspace_details grouped user p =
     (let detail = (\<lambda>label text. El ''div'' [] [El ''label'' [] [Txt label], El ''p'' [] [Txt text]])
      in El ''div'' []
        [El ''div'' [] [],
         El ''div'' [] [El ''h2'' [] [Icon ''Sparkles'', Txt ''Workspace Details''], Icon ''Activity''],
         El ''div'' []
           [detail ''Workspace Name'' ''CloudScale Commerce'',
            detail ''Administrator'' (case user of None \<Rightarrow> ''Administrator'' | Some u \<Rightarrow> full_name u),
            detail ''Tenant Context ID'' (activeTenantId (tp_tenant p)),
            detail ''Region'' ''us-east-1 (Virginia)''],
         El ''hr'' [] [],
         El ''div'' []
           [El ''h3'' [] [Txt ''Resource Utilization Limits''],
            usage_meter grouped ''Products Catalog Limit'' (usage_products (tp_tenant p)) (maxProducts (limits (tp_tenant p))) ''items'',
            usage_meter grouped ''Monthly Orders Quota'' (usage_orders (tp_tenant p)) (maxOrders (limits (tp_tenant p))) ''orders'']])"

definition tenant_sidebar :: "tenant_page \<Rightarrow> tenant_action node" where
  "tenant_sidebar p =
     (let plan = currentPlan (tp_tenant p)
      in El ''div'' []
        [El ''div'' []
           [El ''div'' [] [],
            El ''div'' []
              [El ''div'' [] [Icon (pln_icon plan)],
               El ''div'' []
                 [El ''p'' [] [Txt (pln_name plan)],
                  El ''p'' [] [Txt (if pln_price plan = 0 then ''Free forever'' else ''$'' @ show_nat (pln_price plan) @ ''/mo'')]]],
            El ''button'' [On ''click'' (SelectAdminTab BillingTab)] [Txt ''Manage Plan '', Icon ''ArrowRight'']],
         El ''div'' []
           [El ''div'' [] [],
            El ''h3'' [] [Txt ''Active Tenant Switcher''],
            El ''div'' []
              (map (\<lambda>tid. El ''button'' [On ''click'' (SwitchTo tid)]
                 ([Icon ''Building2'', El ''span'' [] [Txt tid]]
                  @ show_if (activeTenantId (tp_tenant p) = tid) [Icon ''CheckCircle2'']))
                [''default-tenant'', ''acme-corp'', ''demo-sandbox''])]])"

definition plan_card :: "tenant_page \<Rightarrow> plan \<Rightarrow> tenant_action node" where
  "plan_card p plan =
     (let active = (pln_id plan = planTier (tp_tenant p))
      in El ''div'' []
        (show_if (pln_popular plan) [El ''span'' [] [Txt ''Most Popular'']]
         @ [El ''div'' []
              [El ''div'' [] [Icon (pln_icon plan)],
               El ''div'' []
                 [El ''h3'' [] [Txt (pln_name plan)],
                  El ''p'' []
                    (Txt (if pln_price plan = 0 then ''Free'' else ''$'' @ show_nat (pln_price plan))
                     # show_if (pln_price plan > 0) [El ''span'' [] [Txt ''/mo'']])]],
            El ''ul'' [] (map (\<lambda>f. El ''li'' [] [Icon ''CheckCircle2'', Txt f]) (pln_features plan)),
            El ''button'' [On ''click'' (ChoosePlan (pln_id plan)), Flag ''disabled'' (plan_disabled p (pln_id plan))]
              [Txt (if active then ''Current Plan'' else if isUpgrading p then ''Upgrading...'' else ''Select Plan'')]]))"

definition invoices :: "(jsstring \<times> jsstring \<times> jsstring \<times> nat \<times> jsstring) list" where
  "invoices =
     [(''INV-2026-0042'', ''Jul 1, 2026'', ''Growth'', 49, ''paid''),
      (''INV-2026-0035'', ''Jun 1, 2026'', ''Growth'', 49, ''paid''),
      (''INV-2026-0028'', ''May 1, 2026'', ''Starter'', 0, ''free'')]"

definition invoice_row :: "jsstring \<times> jsstring \<times> jsstring \<times> nat \<times> jsstring \<Rightarrow> 'a node" where
  \<comment> \<open>\<open>toFixed(2)\<close> of a whole amount\<close>
  "invoice_row iv =
     (case iv of (i, date, plan, amount, status) \<Rightarrow>
        El ''tr'' []
          [El ''td'' [] [Txt i], El ''td'' [] [Txt date], El ''td'' [] [Txt plan],
           El ''td'' [] [Txt (if amount = 0 then ''-'' else ''$'' @ show_nat amount @ ''.00'')],
           El ''td'' [] [El ''span'' [] [Txt (if status = ''paid'' then ''Paid'' else ''Free Tier'')]]])"

definition billing_tab :: "tenant_page \<Rightarrow> tenant_action node" where
  "billing_tab p =
     El ''div'' []
       [El ''div'' [] (map (plan_card p) PLANS),
        El ''div'' []
          [El ''div'' [] [],
           El ''h3'' [] [Icon ''FileText'', Txt ''Invoice History''],
           El ''div'' []
             [El ''table'' []
               [El ''thead'' []
                 [El ''tr'' [] (map (\<lambda>h. El ''th'' [] [Txt h]) [''Invoice'', ''Date'', ''Plan'', ''Amount'', ''Status''])],
                El ''tbody'' [] (map invoice_row invoices)]]]]"

definition audit_tab :: "'a node" where
  "audit_tab =
     El ''div'' []
       [El ''div'' [] [],
        El ''h3'' [] [Icon ''Shield'', Txt ''Security & Audit Timeline''],
        El ''div'' []
          (map (\<lambda>(i, e).
             El ''div'' []
               [El ''div'' [] (El ''span'' [] [] # show_if (i < length AUDIT_EVENTS - 1) [El ''div'' [] []]),
                El ''div'' []
                  [El ''p'' [] [Txt (ev_detail e)],
                   El ''div'' []
                     [El ''span'' [] [Txt (ev_action e)], El ''span'' [] [Txt ''-''], El ''span'' [] [Txt (ev_actor e)],
                      El ''span'' [] [Txt ''-''], El ''span'' [] [Icon ''Clock'', Txt (ev_ts e)]]]])
             (zip [0..<length AUDIT_EVENTS] AUDIT_EVENTS))]"

definition tenant_view :: "(rat \<Rightarrow> jsstring) \<Rightarrow> user option \<Rightarrow> tenant_page \<Rightarrow> tenant_action node" where
  "tenant_view grouped user p =
     El ''div'' []
       [El ''div'' [] [El ''div'' [] [], El ''div'' [] []],
        El ''div'' []
          ([tenant_header p, tenant_tabs p]
           @ show_if (tp_tab p = OverviewTab) [El ''div'' [] [workspace_details grouped user p, tenant_sidebar p]]
           @ show_if (tp_tab p = BillingTab) [billing_tab p]
           @ show_if (tp_tab p = AuditTab) [audit_tab])]"

subsection \<open>The plan in force\<close>

definition plan_goal :: "tenant_page \<Rightarrow> plan_tier" where
  "plan_goal p = (if tp_timers p = [] then planTier (tp_tenant p) else snd (last (tp_timers p)))"

lemma upgrade_timer_goal: "tp_timers p \<noteq> [] \<Longrightarrow> plan_goal (upgrade_timer p) = plan_goal p"
  by (auto simp: plan_goal_def upgrade_timer_def upgradePlan_def split: list.split)

lemma timers_settle:
  "planTier (tp_tenant (run tenant_page_step p (replicate (length (tp_timers p)) UpgradeTimer))) = plan_goal p"
proof (induction "length (tp_timers p)" arbitrary: p)
  case 0
  then show ?case by (simp add: plan_goal_def)
next
  case (Suc n)
  then have ne: "tp_timers p \<noteq> []" by auto
  then have "n = length (tp_timers (upgrade_timer p))"
    using Suc(2) by (auto simp: upgrade_timer_def split: list.split)
  with Suc(1) [OF this] Suc(2) show ?case
    using upgrade_timer_goal [OF ne] by (simp flip: Suc(2))
qed

definition tenant_page_inv :: "tenant_page \<Rightarrow> bool" where
  "tenant_page_inv p \<longleftrightarrow> tenant_inv (tp_tenant p) \<and> list_all (\<lambda>(m, t). m \<le> tp_mount p) (tp_timers p) \<and>
     length (filter (\<lambda>(m, t). m = tp_mount p) (tp_timers p)) = (if isUpgrading p then 1 else 0)"

lemma tenant_page_step_inv:
  assumes "tenant_page_inv p" shows "tenant_page_inv (tenant_page_step p e)"
proof (cases e)
  case (TenantAct a)
  then show ?thesis using assms tenant.inv_step [of "tp_tenant p" "SwitchTenant _"]
    by (cases a) (auto simp: tenant_page_inv_def plan_disabled_def handlePlanUpgrade_def)
next
  case UpgradeTimer
  then show ?thesis using assms tenant.inv_step [of "tp_tenant p" "UpgradePlan _"]
    by (auto simp: tenant_page_inv_def upgrade_timer_def split: list.split if_splits)
next
  case LeaveAndReturn
  have "filter (\<lambda>(m, t). m = Suc (tp_mount p)) (tp_timers p) = []"
    using assms by (auto simp: tenant_page_inv_def list_all_iff filter_empty_conv)
  then show ?thesis using assms LeaveAndReturn by (auto simp: tenant_page_inv_def list_all_iff)
next
  case (TenantElsewhere t)
  then show ?thesis using assms tenant.inv_step by (simp add: tenant_page_inv_def)
qed

lemma tenant_page_run_inv: "tenant_page_inv p \<Longrightarrow> tenant_page_inv (run tenant_page_step p es)"
  by (induction es arbitrary: p) (simp_all add: tenant_page_step_inv)

lemma mount_tenant_inv: "tenant_inv t \<Longrightarrow> tenant_page_inv (mount_tenant t)"
  by (simp add: tenant_page_inv_def mount_tenant_def)

text \<open>Over any session with the workspace page, also when it is left and visited again while a change of the
  plan is waiting, and when other parts of the program change the tenant: the limits are always those of the plan;
  the buttons say that a change is under way exactly while one that was asked for since the page was opened waits, and never two;
  once all waiting changes have happened, the plan is the one asked for last.\<close>

theorem upgrade_session:
  assumes "tenant_inv t"
  shows "let p = run tenant_page_step (mount_tenant t) es;
             q = run tenant_page_step p (replicate (length (tp_timers p)) UpgradeTimer)
         in limits (tp_tenant p) = plan_limits (planTier (tp_tenant p)) \<and>
            length (filter (\<lambda>(m, tier). m = tp_mount p) (tp_timers p)) = (if isUpgrading p then 1 else 0) \<and>
            planTier (tp_tenant q) = (if tp_timers p = [] then planTier (tp_tenant p) else snd (last (tp_timers p))) \<and>
            limits (tp_tenant q) = plan_limits (planTier (tp_tenant q))"
proof -
  let ?p = "run tenant_page_step (mount_tenant t) es"
  have p: "tenant_page_inv ?p" by (rule tenant_page_run_inv [OF mount_tenant_inv [OF assms]])
  have q: "tenant_page_inv (run tenant_page_step ?p (replicate (length (tp_timers ?p)) UpgradeTimer))"
    by (rule tenant_page_run_inv [OF p])
  show ?thesis
    using p q timers_settle [of ?p] by (simp add: Let_def tenant_page_inv_def tenant_inv_def plan_goal_def)
qed

theorem upgrade_session_witness:
  "planTier (tp_tenant (run tenant_page_step (mount_tenant initial_tenant)
     [TenantAct (ChoosePlan Growth), LeaveAndReturn, TenantAct (ChoosePlan Enterprise), UpgradeTimer, UpgradeTimer])) = Enterprise"
proof -
  define p where "p = run tenant_page_step (mount_tenant initial_tenant)
     [TenantAct (ChoosePlan Growth), LeaveAndReturn, TenantAct (ChoosePlan Enterprise)]"
  have t: "tp_timers p = [(0, Growth), (1, Enterprise)]"
    by (simp add: p_def mount_tenant_def plan_disabled_def handlePlanUpgrade_def initial_tenant_def)
  have "run tenant_page_step (mount_tenant initial_tenant)
     [TenantAct (ChoosePlan Growth), LeaveAndReturn, TenantAct (ChoosePlan Enterprise), UpgradeTimer, UpgradeTimer] =
     run tenant_page_step p (replicate (length (tp_timers p)) UpgradeTimer)"
    unfolding t by (simp add: p_def numeral_eq_Suc)
  then show ?thesis
    using upgrade_session [OF tenant.inv_init, of "[TenantAct (ChoosePlan Growth), LeaveAndReturn, TenantAct (ChoosePlan Enterprise)]"] t
    unfolding Let_def p_def [symmetric] by simp
qed

subsection \<open>Plans shown and plans in force\<close>

text \<open>The plans of the page and the limits of the store agree, though they are written down twice: every tier
  is one of the plans, exactly once, with the limits the store sets; so the plan shown is always the
  one in force. The usage shown is a fixed share of the limit, so that the quota alert of the meters is never
  shown, on whatever plan.\<close>

theorem plans_agree:
  assumes "tenant_inv s"
  shows "map pln_id PLANS = [Free, Growth, Enterprise] \<and>
    pln_id (currentPlan s) = planTier s \<and> pln_limits (currentPlan s) = limits s \<and>
    usage_percentage (usage_products s) (maxProducts (limits s)) < 90 \<and>
    usage_percentage (usage_orders s) (maxOrders (limits s)) < 90"
proof -
  have pct: "usage_percentage (usage (fl (63 / 100)) (maxProducts (plan_limits t))) (maxProducts (plan_limits t)) < 90 \<and>
      usage_percentage (usage (fl (41 / 100)) (maxOrders (plan_limits t))) (maxOrders (plan_limits t)) < 90" for t
    by (cases t) (simp only: plan_limits.simps tenant_limits.simps, code_simp)+
  have "pln_id (currentPlan s) = planTier s \<and> pln_limits (currentPlan s) = plan_limits (planTier s)"
    by (cases "planTier s") (simp_all add: currentPlan_def PLANS_def)
  then show ?thesis
    using pct assms by (simp add: PLANS_def usage_products_def usage_orders_def tenant_inv_def)
qed

theorem plans_agree_witness:
  "pln_name (currentPlan initial_tenant) = ''Starter'' \<and> pln_limits (currentPlan initial_tenant) = limits initial_tenant"
  using plans_agree [OF tenant.inv_init]
  by (simp add: currentPlan_def PLANS_def initial_tenant_def)

end
