(* ===== verification/Dashboard_Page.thy ===== *)
theory Dashboard_Page
  imports Js_Number Api_Client Ui_Overlays Text_Security
begin

text \<open>
  The two dashboards: \<open>pages/Dashboard.tsx\<close>, with its data sets, the figures mixed from them and
  from the server, the drill-down and the export, and \<open>pages/AdminDashboard.tsx\<close>, which is
  static. Charts are drawn by a library; the model keeps the data and the series they get.

  Parameter: \<open>money\<close>, the currency text of \<open>formatCurrency\<close>.
\<close>

subsection \<open>Data sets\<close>

datatype time_range = Days7 | Days30 | Months12

fun range_name :: "time_range \<Rightarrow> jsstring" where
  "range_name Days7 = ''7d''"
| "range_name Days30 = ''30d''"
| "range_name Months12 = ''12m''"

record datum =
  month :: jsstring
  spend :: nat
  refund :: nat

definition data_row :: "jsstring \<times> nat \<times> nat \<Rightarrow> datum" where
  "data_row r = (case r of (m, s, f) \<Rightarrow> \<lparr>month = m, spend = s, refund = f\<rparr>)"

fun mockDatasets :: "time_range \<Rightarrow> datum list" where
  "mockDatasets Days7 = map data_row
     [(''Mon'', 40, 5), (''Tue'', 95, 10), (''Wed'', 80, 20), (''Thu'', 140, 15), (''Fri'', 210, 40), (''Sat'', 160, 10),
      (''Sun'', 220, 25)]"
| "mockDatasets Days30 = map data_row
     [(''Week 1'', 450, 30), (''Week 2'', 620, 50), (''Week 3'', 580, 40), (''Week 4'', 710, 90)]"
| "mockDatasets Months12 = map data_row
     [(''Jan'', 120, 10), (''Feb'', 350, 25), (''Mar'', 210, 15), (''Apr'', 450, 50), (''May'', 600, 45), (''Jun'', 320, 20),
      (''Jul'', 510, 35), (''Aug'', 420, 30), (''Sep'', 680, 70), (''Oct'', 590, 55), (''Nov'', 820, 90), (''Dec'', 950, 110)]"

record analytics =
  total_orders :: rat
  total_revenue :: rat
  average_order_value :: rat

subsection \<open>State\<close>

record dashboard =
  timeRange :: time_range
  isRefreshing :: bool
  drillDownMetric :: "jsstring option"
  analyticsData :: "analytics option"
  db_requests :: nat
  db_console :: "jsstring list"
  db_downloads :: "(jsstring \<times> jsstring) list"

text \<open>\<open>db_requests\<close> counts the requests that are not answered; \<open>db_console\<close> are the lines written to the
  console, \<open>db_downloads\<close> the addresses and file names of the exports, newest first.\<close>

definition fetchAnalytics :: "dashboard \<Rightarrow> dashboard" where
  "fetchAnalytics d = d\<lparr>isRefreshing := True, db_requests := db_requests d + 1\<rparr>"

definition analytics_answered :: "analytics option \<Rightarrow> dashboard \<Rightarrow> dashboard" where
  "analytics_answered res d =
     (if db_requests d = 0 then d
      else let d1 = d\<lparr>db_requests := db_requests d - 1, isRefreshing := False\<rparr>
        in case res of Some a \<Rightarrow> d1\<lparr>analyticsData := Some a\<rparr> | None \<Rightarrow> d1)"

definition mount_dashboard :: dashboard where
  "mount_dashboard = fetchAnalytics
     \<lparr>timeRange = Days30, isRefreshing = False, drillDownMetric = None, analyticsData = None, db_requests = 0,
      db_console = [], db_downloads = []\<rparr>"

definition activeData :: "dashboard \<Rightarrow> datum list" where
  "activeData d = mockDatasets (timeRange d)"

record figures =
  totalSpend :: rat
  totalRefund :: rat
  ordersCount :: rat
  aov :: rat
  growth :: jsstring

definition num_or_one :: "rat \<Rightarrow> rat" where
  "num_or_one x = (if x = 0 then 1 else x)"

definition aggregates :: "dashboard \<Rightarrow> figures" where
  \<comment> \<open>the sums are whole numbers far below the bound of exact ones\<close>
  "aggregates d =
     (let spent = (case analyticsData d of Some a \<Rightarrow> total_revenue a
            | None \<Rightarrow> of_nat (sum_list (map spend (activeData d))));
          refunded = of_nat (sum_list (map refund (activeData d)));
          orders = (case analyticsData d of Some a \<Rightarrow> total_orders a
            | None \<Rightarrow> (case timeRange d of Days7 \<Rightarrow> 18 | Days30 \<Rightarrow> 64 | Months12 \<Rightarrow> 842))
      in \<lparr>totalSpend = spent, totalRefund = refunded, ordersCount = orders,
          aov = (case analyticsData d of Some a \<Rightarrow> average_order_value a | None \<Rightarrow> ndiv spent (num_or_one orders)),
          growth = (case timeRange d of Days7 \<Rightarrow> ''+4.2%'' | Days30 \<Rightarrow> ''+14.8%'' | Months12 \<Rightarrow> ''+28.4%'')\<rparr>)"

subsection \<open>Export\<close>

text \<open>\<open>encodeURI\<close>: reserved and unreserved characters and the number sign stay, every other
  character becomes the percent escapes of its bytes in UTF-8.\<close>

definition uri_digit :: "nat \<Rightarrow> char" where
  "uri_digit n = ''0123456789ABCDEF'' ! n"

definition escape_byte :: "char \<Rightarrow> jsstring" where
  "escape_byte b = [CHR ''%'', uri_digit (code_unit b div 16), uri_digit (code_unit b mod 16)]"

definition uri_char :: "char \<Rightarrow> bool" where
  "uri_char c = (let n = code_unit c in 65 \<le> n \<and> n \<le> 90 \<or> 97 \<le> n \<and> n \<le> 122 \<or> 48 \<le> n \<and> n \<le> 57
     \<or> List.member '';,/?:@&=+$-_.!~*()#'' c \<or> n = 39)"

definition encode_char :: "char \<Rightarrow> jsstring" where
  "encode_char c = (if uri_char c then [c] else concat (map escape_byte (utf8_char c)))"

definition encodeURI :: "jsstring \<Rightarrow> jsstring" where
  "encodeURI s = concat (map encode_char s)"

definition csv_line :: "datum \<Rightarrow> jsstring" where
  "csv_line e = month e @ '','' @ show_nat (spend e) @ '','' @ show_nat (refund e)"

fun join_lines :: "jsstring list \<Rightarrow> jsstring" where
  "join_lines [] = []"
| "join_lines [l] = l"
| "join_lines (l # m # r) = l @ [CHR 0x0A] @ join_lines (m # r)"

definition csvContent :: "datum list \<Rightarrow> jsstring" where
  "csvContent ds =
     ''data:text/csv;charset=utf-8,'' @ ''Period,Spending,Refunds'' @ [CHR 0x0A] @ join_lines (map csv_line ds)"

definition handleExport :: "dashboard \<Rightarrow> dashboard" where
  "handleExport d =
     d\<lparr>db_downloads := (encodeURI (csvContent (activeData d)),
         ''cloudscale-spending-'' @ range_name (timeRange d) @ ''.csv'') # db_downloads d\<rparr>"

definition handleRefresh :: "dashboard \<Rightarrow> dashboard" where
  \<comment> \<open>the page's own \<open>toast\<close> writes to the console\<close>
  "handleRefresh d =
     (let d1 = fetchAnalytics d
      in d1\<lparr>db_console := ''[Toast] Metrics Synchronized: Live order analytics synchronized from backend server. (success)''
           # db_console d1\<rparr>)"

subsection \<open>Events\<close>

datatype dashboard_action = SetRange time_range | Sync | ExportData | DrillDown jsstring | CloseDrillDown

datatype dashboard_event = DashAct dashboard_action | AnalyticsAnswered "analytics option"

fun dashboard_act :: "dashboard \<Rightarrow> dashboard_action \<Rightarrow> dashboard" where
  "dashboard_act d (SetRange r) = d\<lparr>timeRange := r\<rparr>"
| "dashboard_act d Sync = handleRefresh d"
| "dashboard_act d ExportData = handleExport d"
| "dashboard_act d (DrillDown m) = d\<lparr>drillDownMetric := Some m\<rparr>"
| "dashboard_act d CloseDrillDown = d\<lparr>drillDownMetric := None\<rparr>"

fun dashboard_step :: "dashboard \<Rightarrow> dashboard_event \<Rightarrow> dashboard" where
  "dashboard_step d (DashAct a) = dashboard_act d a"
| "dashboard_step d (AnalyticsAnswered res) = analytics_answered res d"

subsection \<open>The view\<close>

definition fixed1 :: "rat \<Rightarrow> jsstring" where
  "fixed1 x = (if x < 0 then ''-'' @ to_fixed1 (- x) else to_fixed1 x)"

definition refund_trend :: "figures \<Rightarrow> jsstring" where
  "refund_trend f = ''-'' @ fixed1 (ntimes (ndiv (totalRefund f) (num_or_one (totalSpend f))) 100) @ ''%''"

definition welcome_banner :: "user option \<Rightarrow> 'a node" where
  "welcome_banner u =
     El ''div'' []
       [El ''div'' []
          [El ''h1'' [] [Txt ''Welcome back, '', Txt (str_or (map_option full_name u) ''Enterprise User''), Txt ''!''],
           El ''p'' [] [Txt ''Monitor real-time checkout activities, system performance indicators, and commerce operations.'']],
        El ''div'' [] [Icon ''TrendingUp'']]"

definition dashboard_controls :: "dashboard_action node" where
  "dashboard_controls =
     El ''div'' []
       [El ''div'' []
          [Icon ''Calendar'', El ''span'' [] [Txt ''Reporting Interval:''],
           El ''div'' []
             [chip_view (Some (SetRange Days7)) None None False [] [Txt ''7 Days''],
              chip_view (Some (SetRange Days30)) None None False [] [Txt ''30 Days''],
              chip_view (Some (SetRange Months12)) None None False [] [Txt ''12 Months'']]],
        El ''div'' []
          [button_view False False (Some (Icon ''RefreshCw'')) [On ''click'' Sync] [Txt ''Sync''],
           button_view False False (Some (Icon ''Download'')) [On ''click'' ExportData] [Txt ''Export'']]]"

definition kpi_cards :: "(rat \<Rightarrow> jsstring) \<Rightarrow> dashboard \<Rightarrow> dashboard_action node" where
  "kpi_cards money d =
     (let f = aggregates d
      in El ''div'' []
        [metric_card_view \<lparr>mc_title = ''Total Spending'', mc_value = Txt (money (totalSpend f)),
           mc_subtitle = Some ''vs previous period'', mc_icon = Some (Icon ''ShoppingCart''), mc_badge = Some ''Active'',
           mc_trend = Some (growth f), mc_click = Some (DrillDown ''spending''), mc_loading = False\<rparr>,
         metric_card_view \<lparr>mc_title = ''Checkout Success'', mc_value = Num (ordersCount f),
           mc_subtitle = Some ''SLA transaction success rate'', mc_icon = Some (Icon ''Package''), mc_badge = Some ''Healthy'',
           mc_trend = Some ''99.8%'', mc_click = Some (DrillDown ''orders''), mc_loading = False\<rparr>,
         metric_card_view \<lparr>mc_title = ''Refund Deductions'', mc_value = Txt (money (totalRefund f)),
           mc_subtitle = Some ''from gross spend'', mc_icon = Some (Icon ''TrendingUp''), mc_badge = Some ''Controlled'',
           mc_trend = Some (refund_trend f), mc_click = Some (DrillDown ''refunds''), mc_loading = False\<rparr>])"

definition chart_data :: "datum list \<Rightarrow> 'a node" where
  "chart_data ds =
     El ''data'' [] (map (\<lambda>e. El ''datum''
       [Attr ''month'' (month e), NumAttr ''spend'' (of_nat (spend e)), NumAttr ''refund'' (of_nat (refund e))] []) ds)"

definition spending_chart :: "dashboard \<Rightarrow> 'a node" where
  "spending_chart d =
     (let axes = [El ''CartesianGrid'' [] [], El ''XAxis'' [Attr ''dataKey'' ''month''] [], El ''YAxis'' [] [],
                  El ''ChartTooltip'' [] [], El ''Legend'' [] []];
          series = (\<lambda>kind. [El kind [Attr ''dataKey'' ''spend'', Attr ''name'' ''Spend''] [],
                            El kind [Attr ''dataKey'' ''refund'', Attr ''name'' ''Refund''] []])
      in El ''div'' []
        [El ''div'' []
           [El ''h3'' [] [Txt ''Spending Trends''], El ''span'' [] [Icon ''Info'', Txt '' Real-time active data'']],
         El ''div'' []
           [El ''ResponsiveContainer'' []
              [if timeRange d = Days7 then El ''BarChart'' [] (chart_data (activeData d) # axes @ series ''Bar'')
               else El ''AreaChart'' [] (chart_data (activeData d) # axes @ series ''Area'')]]])"

definition operations_feed :: "'a node" where
  "operations_feed =
     (let entry = (\<lambda>title text.
        El ''div'' [] [El ''div'' [] [Icon ''Clock''], El ''div'' [] [El ''p'' [] [Txt title], El ''p'' [] [Txt text]]])
      in El ''div'' []
        [El ''div'' []
           [El ''h3'' [] [Txt ''Operations Feed''],
            El ''div'' []
              [entry ''Order completed successfully'' ''Order ID #20412 has reached terminal state.'',
               entry ''Catalog sync triggered'' ''Stock quantities rebalanced in central warehouse.'',
               entry ''Saga checkpoint reached'' ''Payment credentials verified for shipping.'']],
         El ''div'' [] [button_view False False None [] [Txt ''View All Operations'']]])"

definition drill_value :: "(rat \<Rightarrow> jsstring) \<Rightarrow> jsstring option \<Rightarrow> datum \<Rightarrow> 'a node" where
  "drill_value money m e =
     (if m = Some ''spending'' then Txt (money (of_nat (spend e)))
      else if m = Some ''refunds'' then Txt (money (of_nat (refund e)))
      else Num (of_int \<lceil>ndiv (of_nat (spend e)) 15\<rceil>))"

definition drill_down :: "(rat \<Rightarrow> jsstring) \<Rightarrow> dashboard \<Rightarrow> dashboard_action node list" where
  "drill_down money d =
     modal_view (truthy (drillDownMetric d)) CloseDrillDown
       (Some (''Metric Breakdown: '' @ (case drillDownMetric d of None \<Rightarrow> '''' | Some m \<Rightarrow> toUpperCase m))) None
       [El ''div'' []
         [El ''p'' [] [Txt ''Granular breakdown of the historical metric trends under reporting period ('',
            Txt (range_name (timeRange d)), Txt '').''],
          El ''div'' []
            (map (\<lambda>e. El ''div'' [] [El ''span'' [] [Txt (month e)], El ''span'' [] [drill_value money (drillDownMetric d) e]])
              (activeData d))]]"

definition dashboard_view :: "(rat \<Rightarrow> jsstring) \<Rightarrow> user option \<Rightarrow> dashboard \<Rightarrow> dashboard_action node" where
  "dashboard_view money u d =
     El ''div'' []
       ([welcome_banner u, dashboard_controls, kpi_cards money d,
         El ''div'' [] [spending_chart d, operations_feed]]
        @ drill_down money d)"

subsection \<open>The admin dashboard\<close>

definition metricsData :: "(jsstring \<times> nat \<times> nat) list" where
  "metricsData = [(''12:00'', 20, 5), (''13:00'', 45, 15), (''14:00'', 32, 10), (''15:00'', 85, 55), (''16:00'', 55, 30),
     (''17:00'', 40, 12)]"

definition kpi_tile :: "string \<Rightarrow> jsstring \<Rightarrow> jsstring \<Rightarrow> 'a node" where
  "kpi_tile icon label text =
     El ''div'' [] [El ''div'' [] [Icon icon], El ''div'' [] [El ''p'' [] [Txt label], El ''h3'' [] [Txt text]]]"

definition admin_dashboard_view :: "'a node" where
  "admin_dashboard_view =
     El ''div'' []
       [El ''div'' []
          [El ''div'' []
             [El ''h1'' [] [Txt ''Admin Operations''],
              El ''p'' [] [Txt ''Real-time monitor of microservice queues, caches, and cluster loads'']]],
        El ''div'' []
          [kpi_tile ''Cpu'' ''EKS Node CPU'' ''38%'', kpi_tile ''Database'' ''Postgres Pools'' ''12 / 60'',
           kpi_tile ''Activity'' ''Kafka Queue Lag'' ''0 msg'', kpi_tile ''ShieldCheck'' ''Service Health'' ''100%''],
        El ''div'' []
          [El ''h3'' [] [Txt ''Kubernetes Pod Performance''],
           El ''div'' []
             [El ''ResponsiveContainer'' []
               [El ''LineChart'' []
                 [El ''data'' [] (map (\<lambda>(t, cpu, kafka). El ''datum''
                    [Attr ''time'' t, NumAttr ''cpu'' (of_nat cpu), NumAttr ''kafka'' (of_nat kafka)] []) metricsData),
                  El ''CartesianGrid'' [] [], El ''XAxis'' [Attr ''dataKey'' ''time''] [], El ''YAxis'' [] [], El ''Tooltip'' [] [],
                  El ''Line'' [Attr ''dataKey'' ''cpu'', Attr ''name'' ''Node CPU (%)''] [],
                  El ''Line'' [Attr ''dataKey'' ''kafka'', Attr ''name'' ''Kafka Lag (k)''] []]]]]]"

subsection \<open>Reading an export\<close>

text \<open>What a browser reads in an address: the bytes behind the percent escapes, in UTF-8.\<close>

definition hex_value :: "char \<Rightarrow> nat" where
  "hex_value c = (let n = code_unit c in if n < 58 then n - 48 else n - 55)"

fun percent_decode :: "jsstring \<Rightarrow> jsstring" where
  "percent_decode [] = []"
| "percent_decode (c # s) =
     (if c = CHR ''%'' then
        (case s of h # l # r \<Rightarrow> char_of (16 * hex_value h + hex_value l) # percent_decode r | _ \<Rightarrow> [])
      else c # percent_decode s)"

lemma digits_ok: "n < 16 \<Longrightarrow> hex_value (uri_digit n) = n \<and> uri_char (uri_digit n)"
proof -
  assume "n < 16"
  then have "n \<in> set [0..<16]" by simp
  moreover have "list_all (\<lambda>n. hex_value (uri_digit n) = n \<and> uri_char (uri_digit n)) [0..<16]" by code_simp
  ultimately show ?thesis by (simp only: list_all_iff)
qed

lemma byte_digits: "code_unit b div 16 < 16" "code_unit b mod 16 < 16"
  using code_unit_less [of b] by auto

lemma decode_escape: "percent_decode (escape_byte b @ r) = b # percent_decode r"
  using digits_ok byte_digits [of b] by (simp add: escape_byte_def)

lemma decode_escapes: "percent_decode (concat (map escape_byte bs) @ r) = bs @ percent_decode r"
  by (induction bs) (simp_all add: decode_escape)

lemma decode_char: "percent_decode (encode_char c @ r) = utf8_char c @ percent_decode r"
proof -
  have "c \<noteq> CHR ''%'' \<and> code_unit c < 128" if "uri_char c"
    using that by (auto simp: uri_char_def Let_def code_unit_def)
  then show ?thesis by (auto simp: encode_char_def decode_escapes utf8_char_def)
qed

lemma encodeURI_decodes: "utf8_decode (percent_decode (encodeURI s)) = Some s"
proof -
  have "percent_decode (encodeURI s) = utf8_encode s"
    unfolding encodeURI_def utf8_encode_def by (induction s) (simp_all add: decode_char)
  then show ?thesis by (simp add: utf8_round_trip)
qed

lemma encodeURI_chars: "c \<in> set (encodeURI s) \<Longrightarrow> uri_char c \<or> c = CHR ''%''"
  using digits_ok byte_digits by (auto simp: encodeURI_def encode_char_def escape_byte_def split: if_splits)

text \<open>An export is an address without any character that an address may not have, and what the
  browser reads in it is the CSV text of the data of the chosen interval, every character of
  it, under a file name that names the interval.\<close>

theorem dashboard_export_round_trip:
  "let d' = dashboard_act d ExportData; (uri, name) = hd (db_downloads d') in
   utf8_decode (percent_decode uri) = Some (''data:text/csv;charset=utf-8,'' @ ''Period,Spending,Refunds'' @ [CHR 0x0A] @
     join_lines (map (\<lambda>e. month e @ '','' @ show_nat (spend e) @ '','' @ show_nat (refund e)) (mockDatasets (timeRange d)))) \<and>
   {c \<in> set uri. \<not> uri_char c} \<subseteq> {CHR ''%''} \<and>
   name = ''cloudscale-spending-'' @ range_name (timeRange d) @ ''.csv'' \<and> tl (db_downloads d') = db_downloads d"
  by (auto simp: handleExport_def activeData_def encodeURI_decodes csvContent_def csv_line_def [abs_def] Let_def
      dest: encodeURI_chars)

subsection \<open>Where the figures come from\<close>

definition no_new_figures :: "dashboard_event \<Rightarrow> bool" where
  "no_new_figures e = (case e of AnalyticsAnswered (Some a) \<Rightarrow> False | _ \<Rightarrow> True)"

lemma figures_stay:
  "list_all no_new_figures es \<Longrightarrow> analyticsData (run dashboard_step d es) = analyticsData d"
proof (induction es arbitrary: d)
  case (Cons e es)
  have "analyticsData (dashboard_step d e) = analyticsData d"
  proof (cases e)
    case (DashAct a)
    then show ?thesis by (cases a) (simp_all add: handleRefresh_def handleExport_def fetchAnalytics_def Let_def)
  next
    case (AnalyticsAnswered res)
    then show ?thesis using Cons.prems by (cases res) (simp_all add: no_new_figures_def analytics_answered_def Let_def)
  qed
  then show ?case using Cons by simp
qed simp

text \<open>Once the server has answered, the dashboard mixes two sources: spending and orders are
  the server's, the same for every interval, while the refunds, the growth, the chart and the rows of the breakdown
  stay those of the built-in data of the interval. A failed answer changes nothing but the spinner.\<close>

theorem dashboard_mixes_sources:
  assumes "0 < db_requests c" "list_all no_new_figures es"
  shows "let d = run dashboard_step (analytics_answered (Some a) c) es; f = aggregates d in
    totalSpend f = total_revenue a \<and> ordersCount f = total_orders a \<and>
    totalRefund f = of_nat (sum_list (map refund (mockDatasets (timeRange d)))) \<and>
    activeData d = mockDatasets (timeRange d) \<and>
    analytics_answered None d = (if db_requests d = 0 then d
      else d\<lparr>db_requests := db_requests d - 1, isRefreshing := False\<rparr>)"
proof -
  have "analyticsData (run dashboard_step (analytics_answered (Some a) c) es) = Some a"
    using assms by (simp add: figures_stay analytics_answered_def Let_def)
  then show ?thesis
    by (simp add: Let_def aggregates_def activeData_def) (simp add: analytics_answered_def Let_def)
qed

theorem dashboard_mixes_sources_witness:
  "let d = run dashboard_step (analytics_answered (Some \<lparr>total_orders = 3, total_revenue = 100, average_order_value = 33\<rparr>) mount_dashboard)
       [DashAct (SetRange Days7)]
   in totalSpend (aggregates d) = 100 \<and> totalRefund (aggregates d) = 125"
proof -
  have "0 < db_requests mount_dashboard" "list_all no_new_figures [DashAct (SetRange Days7)]"
    by (simp_all add: mount_dashboard_def fetchAnalytics_def no_new_figures_def)
  from dashboard_mixes_sources [OF this, of "\<lparr>total_orders = 3, total_revenue = 100, average_order_value = 33\<rparr>"]
  show ?thesis by (simp add: Let_def data_row_def)
qed

end
