(* ===== verification/Showcase.thy ===== *)
theory Showcase
  imports App_Routes Notifications Small_Stores
begin

text \<open>
  The showcase panel, \<open>components/ShowcasePanel.tsx\<close>: its personas, which write a user into the
  auth store, and the seeding of a demo workspace, which changes the tenant store at once and
  reports after a delay. The panel works on the auth, the tenant and the notification store.
\<close>

subsection \<open>Personas\<close>

record persona =
  ps_id :: jsstring
  ps_name :: jsstring
  ps_email :: jsstring
  ps_role :: jsstring
  ps_icon :: string
  ps_description :: jsstring

definition DEMO_PERSONAS :: "persona list" where
  "DEMO_PERSONAS =
     [\<lparr>ps_id = ''admin'', ps_name = ''Platform Admin'', ps_email = ''admin@cloudscale.io'', ps_role = ''admin'',
       ps_icon = ''ShieldCheck'',
       ps_description = ''Full platform access - workspace management, billing, user administration, and audit logs.''\<rparr>,
      \<lparr>ps_id = ''merchant'', ps_name = ''Merchant Operator'', ps_email = ''merchant@acme-store.com'', ps_role = ''merchant'',
       ps_icon = ''Store'',
       ps_description = ''Catalog management, order fulfillment, inventory tracking, and analytics dashboards.''\<rparr>,
      \<lparr>ps_id = ''customer'', ps_name = ''End Customer'', ps_email = ''jane@example.com'', ps_role = ''customer'',
       ps_icon = ''User'',
       ps_description = ''Product browsing, cart management, checkout flow, and order history.''\<rparr>]"

definition ARCHITECTURE_HIGHLIGHTS :: "(string \<times> jsstring \<times> jsstring) list" where
  "ARCHITECTURE_HIGHLIGHTS =
     [(''Layers'', ''Event-Driven Microservices'', ''Saga orchestration, inbox/outbox, DLQ''),
      (''Database'', ''CQRS + Read Replicas'', ''Write/read engine split, Redis caching''),
      (''Globe'', ''Multi-Tenant Isolation'', ''Context-var middleware, row-level security''),
      (''Fingerprint'', ''Zero-Trust Auth'', ''JWT rotation, RBAC, CSRF, MFA-ready''),
      (''Zap'', ''AI Recommendation Engine'', ''Cosine similarity, Jaccard scoring''),
      (''RefreshCw'', ''Observability Stack'', ''OpenTelemetry, Prometheus, structured logs'')]"

subsection \<open>State and operations\<close>

record showcase =
  sc_open :: bool
  activePersona :: "jsstring option"
  seedingData :: bool
  sc_timers :: nat
  sc_auth :: auth_state
  sc_tenant :: tenant_state
  sc_notes :: notification_state

text \<open>\<open>sc_timers\<close> counts the seedings that wait for their delay.\<close>

definition mount_showcase :: "auth_state \<Rightarrow> tenant_state \<Rightarrow> notification_state \<Rightarrow> showcase" where
  "mount_showcase a t n =
     \<lparr>sc_open = False, activePersona = None, seedingData = False, sc_timers = 0, sc_auth = a, sc_tenant = t, sc_notes = n\<rparr>"

definition handlePersonaSwitch :: "env \<Rightarrow> persona \<Rightarrow> showcase \<Rightarrow> showcase" where
  "handlePersonaSwitch e p s =
     s\<lparr>activePersona := Some (ps_id p),
       sc_auth := setUser \<lparr>user_id = ps_id p, email = ps_email p, full_name = ps_name p, role = ps_role p\<rparr> (sc_auth s),
       sc_notes := addNotification e ''Demo Context Switched''
         (''Now viewing as '' @ ps_name p @ '' ('' @ ps_role p @ '')'') ''system'' (sc_notes s)\<rparr>"

definition handleSeedData :: "showcase \<Rightarrow> showcase" where
  "handleSeedData s =
     s\<lparr>seedingData := True, sc_tenant := upgradePlan Growth (switchTenant ''demo-sandbox'' (sc_tenant s)),
       sc_timers := sc_timers s + 1\<rparr>"

definition seed_timer :: "env \<Rightarrow> showcase \<Rightarrow> showcase" where
  "seed_timer e s =
     (if sc_timers s = 0 then s
      else s\<lparr>sc_timers := sc_timers s - 1,
             sc_notes := addNotification e ''Demo Data Seeded''
               ''Sample products, orders, and inventory populated in demo-sandbox workspace'' ''system'' (sc_notes s),
             seedingData := False\<rparr>)"

datatype showcase_action = OpenShowcase | CloseShowcase | PickPersona persona | SeedData

datatype showcase_event =
    ShowcaseAct env showcase_action
  | SeedTimer env
  | OtherTenant tenant_event

fun showcase_act :: "env \<Rightarrow> showcase \<Rightarrow> showcase_action \<Rightarrow> showcase" where
  "showcase_act e s OpenShowcase = s\<lparr>sc_open := True\<rparr>"
| "showcase_act e s CloseShowcase = s\<lparr>sc_open := False\<rparr>"
| "showcase_act e s (PickPersona p) = handlePersonaSwitch e p s"
| "showcase_act e s SeedData = (if seedingData s then s else handleSeedData s)"

fun showcase_step :: "showcase \<Rightarrow> showcase_event \<Rightarrow> showcase" where
  "showcase_step s (ShowcaseAct e a) = showcase_act e s a"
| "showcase_step s (SeedTimer e) = seed_timer e s"
| "showcase_step s (OtherTenant t) = s\<lparr>sc_tenant := tenant_step (sc_tenant s) t\<rparr>"

subsection \<open>The view\<close>

definition persona_button :: "jsstring option \<Rightarrow> persona \<Rightarrow> showcase_action node" where
  "persona_button active p =
     El ''button'' [On ''click'' (PickPersona p)]
       [El ''div'' [] [Icon (ps_icon p)],
        El ''div'' [] [El ''p'' [] [Txt (ps_name p)], El ''p'' [] [Txt (ps_description p)]],
        Icon (if active = Some (ps_id p) then ''Check'' else ''ChevronRight'')]"

definition tech_stack :: "jsstring list" where
  "tech_stack = [''React 19'', ''TypeScript'', ''Tailwind v4'', ''Zustand'', ''TanStack Query'', ''FastAPI'', ''SQLAlchemy'',
     ''PostgreSQL'', ''Redis'', ''Kafka'', ''gRPC'', ''Docker'', ''Kubernetes'', ''OpenTelemetry'', ''Prometheus'']"

definition showcase_sections :: "showcase \<Rightarrow> showcase_action node list" where
  "showcase_sections s =
     [El ''section'' []
        [El ''h3'' [] [Txt ''Demo Personas''],
         El ''p'' [] [Txt ''Switch between user roles to experience different permission levels and UI views.''],
         El ''div'' [] (map (persona_button (activePersona s)) DEMO_PERSONAS)],
      El ''section'' []
        [El ''h3'' [] [Txt ''Quick Actions''],
         El ''button'' [On ''click'' SeedData, Flag ''disabled'' (seedingData s)]
           (if seedingData s then [Icon ''RefreshCw'', Txt ''Seeding Demo Data...'']
            else [Icon ''Play'', Txt ''Seed Sample Data & Switch Workspace''])],
      El ''section'' []
        [El ''h3'' [] [Txt ''Architecture Highlights''],
         El ''div'' []
           (map (\<lambda>(icon, label, detail). El ''div'' [] [Icon icon, El ''div'' [] [El ''p'' [] [Txt label], El ''p'' [] [Txt detail]]])
             ARCHITECTURE_HIGHLIGHTS)],
      El ''section'' []
        [El ''h3'' [] [Txt ''Technology Stack''],
         El ''div'' [] (map (\<lambda>t. El ''span'' [] [Txt t]) tech_stack)]]"

definition showcase_view :: "showcase \<Rightarrow> showcase_action node list" where
  "showcase_view s =
     [El ''button'' [On ''click'' OpenShowcase, Attr ''aria-label'' ''Open portfolio showcase panel'']
        [Icon ''Sparkles'', El ''span'' [] [Txt ''Showcase'']]]
     @ show_if (sc_open s)
       [El ''div'' [On ''click'' CloseShowcase, Attr ''aria-hidden'' ''true''] [],
        El ''aside'' [Attr ''role'' ''dialog'', Attr ''aria-label'' ''Portfolio showcase panel'']
          [El ''div'' []
             [El ''div'' []
                [El ''div'' []
                   [El ''h2'' [] [Icon ''Sparkles'', Txt ''CloudScale Commerce''],
                    El ''p'' [] [Txt ''Enterprise SaaS Platform Demo'']],
                 El ''button'' [On ''click'' CloseShowcase, Attr ''aria-label'' ''Close showcase panel''] [Icon ''X'']]],
           El ''div'' [] (showcase_sections s)]]"

subsection \<open>Sessions with the panel\<close>

definition showcase_inv :: "auth_state \<Rightarrow> showcase \<Rightarrow> bool" where
  "showcase_inv a s \<longleftrightarrow> isAuthenticated (sc_auth s) = isAuthenticated a \<and> accessToken (sc_auth s) = accessToken a \<and>
     refreshToken (sc_auth s) = refreshToken a \<and> sc_timers s = (if seedingData s then 1 else 0) \<and> tenant_inv (sc_tenant s)"

lemma showcase_step_inv: "showcase_inv a s \<Longrightarrow> showcase_inv a (showcase_step s ev)"
proof (cases ev)
  case (ShowcaseAct e b)
  assume "showcase_inv a s"
  then show ?thesis using ShowcaseAct
    by (cases b) (auto simp: showcase_inv_def handlePersonaSwitch_def handleSeedData_def setUser_def tenant_inv_def
        upgradePlan_def)
next
  case (OtherTenant t)
  assume "showcase_inv a s"
  then show ?thesis using OtherTenant tenant.inv_step [of "sc_tenant s" t] by (simp add: showcase_inv_def)
qed (auto simp: showcase_inv_def seed_timer_def)

lemma showcase_run_inv: "showcase_inv a s \<Longrightarrow> showcase_inv a (run showcase_step s es)"
  by (induction es arbitrary: s) (simp_all add: showcase_step_inv)

text \<open>Nothing the showcase panel does signs anybody in or out or touches a token: a persona is only a name,
  so a visitor who is not signed in is sent to the login page from every guarded page whatever persona
  is chosen, while one who is signed in passes every check of the role of the persona. The panel never
  seeds twice at the same time, and the limits stay those of the plan.\<close>

theorem showcase_signs_nobody_in:
  assumes "tenant_inv t"
  shows "let s = run showcase_step (mount_showcase a t n) es in
    isAuthenticated (sc_auth s) = isAuthenticated a \<and> accessToken (sc_auth s) = accessToken a \<and>
    refreshToken (sc_auth s) = refreshToken a \<and>
    sc_timers s = (if seedingData s then 1 else 0) \<and> limits (sc_tenant s) = plan_limits (planTier (sc_tenant s)) \<and>
    protected_route roles (sc_auth (showcase_step s (ShowcaseAct e (PickPersona p)))) =
      (if \<not> isAuthenticated a then Some ''/login''
       else case roles of None \<Rightarrow> None
         | Some rs \<Rightarrow> if List.member rs (ps_role p) then None else Some ''/unauthorized'')"
proof -
  have "showcase_inv a (mount_showcase a t n)"
    using assms by (simp add: showcase_inv_def mount_showcase_def)
  from showcase_run_inv [OF this, of es] show ?thesis
    by (auto simp: showcase_inv_def Let_def tenant_inv_def protected_route_def handlePersonaSwitch_def setUser_def
        split: option.split)
qed

theorem showcase_signs_nobody_in_witness:
  "protected_route (Some [''admin'']) (sc_auth (showcase_step
     (run showcase_step (mount_showcase initial_auth initial_tenant (initial_notifications [] [])) [])
     (ShowcaseAct \<lparr>clock = 0, stamp = [], uuid1 = ''a'', uuid2 = ''b''\<rparr> (PickPersona (DEMO_PERSONAS ! 0))))) = Some ''/login''"
  using showcase_signs_nobody_in [OF tenant.inv_init, of initial_auth "initial_notifications [] []" "[]" "Some [''admin'']"
      "\<lparr>clock = 0, stamp = [], uuid1 = ''a'', uuid2 = ''b''\<rparr>" "DEMO_PERSONAS ! 0"]
  by (simp add: Let_def initial_auth_def)

end
