(* ===== verification/Shopping.thy ===== *)
theory Shopping
  imports Catalog_Page Cart_Page Checkout
begin

text \<open>
  The pages of a purchase together: the catalog, the cart and the checkout page share the cart, the
  wishlist, the notification and toast stores and the saved draft. One of them is open at a
  time, or another page, \<open>Elsewhere\<close>, which touches neither the cart nor the wishlist nor the draft; leaving it writes nothing new, since the stores live outside the pages, but a submission that is
  under way goes on without its page and still empties the cart when its order
  succeeds. The routes of the three pages are those of \<open>App.tsx\<close>.

  A page of the model holds the stores it works on; \<open>leave\<close> reads them back and \<open>put_stores\<close>
  writes a change from elsewhere into the open page. Answers to the catalog's own requests that arrive
  after the catalog was left are not part of the model: they change no store but the toasts.
\<close>

subsection \<open>State\<close>

record stores =
  so_cart :: cart_state
  so_wishlist :: wishlist_state
  so_notes :: notification_state
  so_draft :: "checkout_form option"

datatype open_page = AtCatalog catalog | AtCart cart_page | AtCheckout checkout | Elsewhere

datatype target = ToCatalog | ToCart | ToCheckout | ToElsewhere

record shop =
  sh_page :: open_page
  sh_stores :: stores
  sh_waiting :: "phase list"
  sh_sent :: "sent_request list"

text \<open>\<open>sh_waiting\<close> are the submissions that went on after their page was left, \<open>sh_sent\<close> the requests
  of pages that were left; the requests of the open checkout page are in its own state.\<close>

fun leave :: "open_page \<Rightarrow> stores \<Rightarrow> stores" where
  "leave (AtCatalog c) so =
     so\<lparr>so_cart := ct_cart c, so_wishlist := ct_wishlist c, so_notes := (so_notes so)\<lparr>toast_store := ct_toasts c\<rparr>\<rparr>"
| "leave (AtCart p) so = so\<lparr>so_cart := cart p\<rparr>"
| "leave (AtCheckout c) so =
     so\<lparr>so_cart := ck_cart c, so_notes := ck_notifications c, so_draft := saved_draft (ck_autosave c)\<rparr>"
| "leave Elsewhere so = so"

fun enter :: "jsstring \<Rightarrow> target \<Rightarrow> stores \<Rightarrow> open_page" where
  "enter sample ToCatalog so = AtCatalog (mount_catalog sample (so_cart so) (so_wishlist so) (toast_store (so_notes so)))"
| "enter sample ToCart so = AtCart \<lparr>cart = so_cart so, couponInput = ''''\<rparr>"
| "enter sample ToCheckout so = AtCheckout (mount_checkout (so_cart so) (so_notes so) (so_draft so))"
| "enter sample ToElsewhere so = Elsewhere"

fun put_stores :: "stores \<Rightarrow> open_page \<Rightarrow> open_page" where
  "put_stores so (AtCatalog c) =
     AtCatalog (c\<lparr>ct_cart := so_cart so, ct_wishlist := so_wishlist so, ct_toasts := toast_store (so_notes so)\<rparr>)"
| "put_stores so (AtCart p) = AtCart (p\<lparr>cart := so_cart so\<rparr>)"
| "put_stores so (AtCheckout c) =
     AtCheckout (rerender (c\<lparr>ck_cart := so_cart so, ck_notifications := so_notes so,
       ck_autosave := (ck_autosave c)\<lparr>saved_draft := so_draft so\<rparr>\<rparr>))"
| "put_stores so Elsewhere = Elsewhere"

definition shop_stores :: "shop \<Rightarrow> stores" where
  "shop_stores s = leave (sh_page s) (sh_stores s)"

definition page_sent :: "open_page \<Rightarrow> sent_request list" where
  "page_sent p = (case p of AtCheckout c \<Rightarrow> ck_sent c | _ \<Rightarrow> [])"

definition page_waiting :: "open_page \<Rightarrow> phase list" where
  "page_waiting p = (case p of AtCheckout c \<Rightarrow> if ck_phase c = Idle then [] else [ck_phase c] | _ \<Rightarrow> [])"

definition shop_sent :: "shop \<Rightarrow> sent_request list" where
  "shop_sent s = sh_sent s @ page_sent (sh_page s)"

definition open_shop :: "jsstring \<Rightarrow> notification_state \<Rightarrow> shop" where
  "open_shop sample ns =
     (let so = \<lparr>so_cart = initial_cart, so_wishlist = initial_wishlist, so_notes = ns, so_draft = None\<rparr>
      in \<lparr>sh_page = enter sample ToCatalog so, sh_stores = so, sh_waiting = [], sh_sent = []\<rparr>)"

subsection \<open>Steps\<close>

definition go_to :: "jsstring \<Rightarrow> target \<Rightarrow> shop \<Rightarrow> shop" where
  "go_to sample to s =
     \<lparr>sh_page = enter sample to (shop_stores s), sh_stores = shop_stores s,
      sh_waiting = sh_waiting s @ page_waiting (sh_page s), sh_sent = sh_sent s @ page_sent (sh_page s)\<rparr>"

definition late_order :: "env \<Rightarrow> shop \<Rightarrow> shop" where
  \<comment> \<open>an order succeeded whose page was left\<close>
  "late_order e s =
     (let so = shop_stores s;
          so' = so\<lparr>so_notes := addNotification e ''Order Placed'' ''Your checkout transaction completed successfully.'' ''order''
                     (so_notes so),
                   so_cart := clearCart (so_cart so), so_draft := None\<rparr>
      in s\<lparr>sh_page := put_stores so' (sh_page s), sh_stores := so'\<rparr>)"

definition late_answer :: "nat \<Rightarrow> env \<Rightarrow> bool \<Rightarrow> shop \<Rightarrow> shop" where
  "late_answer i e ok s =
     (if i < length (sh_waiting s) then
        (case sh_waiting s ! i of
           Reserving its d \<Rightarrow>
             s\<lparr>sh_waiting := (sh_waiting s)[i := Ordering its d],
               sh_sent := sh_sent s @ [PlaceOrder its (full_address d) (payment d)]\<rparr>
         | Ordering its d \<Rightarrow>
             let s1 = s\<lparr>sh_waiting := take i (sh_waiting s) @ drop (Suc i) (sh_waiting s)\<rparr>
             in if ok then late_order e s1 else s1
         | Idle \<Rightarrow> s)
      else s)"

datatype shop_event =
    InCatalog catalog_event
  | InCart cart_action
  | InCheckout checkout_event
  | GoTo target
  | LateAnswer nat env bool

fun shop_step :: "jsstring \<Rightarrow> (jsstring \<Rightarrow> json_kind) \<Rightarrow> shop \<Rightarrow> shop_event \<Rightarrow> shop" where
  "shop_step sample json s (InCatalog e) =
     (case sh_page s of AtCatalog c \<Rightarrow> s\<lparr>sh_page := AtCatalog (catalog_step json c e)\<rparr> | _ \<Rightarrow> s)"
| "shop_step sample json s (InCart a) =
     (case sh_page s of AtCart p \<Rightarrow> s\<lparr>sh_page := AtCart (cart_page_step p a)\<rparr> | _ \<Rightarrow> s)"
| "shop_step sample json s (InCheckout e) =
     (case sh_page s of AtCheckout c \<Rightarrow> s\<lparr>sh_page := AtCheckout (checkout_step c e)\<rparr> | _ \<Rightarrow> s)"
| "shop_step sample json s (GoTo to) = go_to sample to s"
| "shop_step sample json s (LateAnswer i e ok) = late_answer i e ok s"

subsection \<open>Well-formed orders\<close>

definition items_ok :: "reserve_item list \<Rightarrow> bool" where
  "items_ok its \<longleftrightarrow> distinct (map ri_product its) \<and> list_all (\<lambda>i. 0 < ri_quantity i) its"

fun request_ok :: "sent_request \<Rightarrow> bool" where
  "request_ok (Reserve its) = items_ok its"
| "request_ok (PlaceOrder its address pay) = items_ok its"

definition phase_ok :: "phase \<Rightarrow> bool" where
  "phase_ok p = (case p of Idle \<Rightarrow> True | Reserving its d \<Rightarrow> items_ok its | Ordering its d \<Rightarrow> items_ok its)"

lemma reserve_items_ok: "cart_inv s \<Longrightarrow> items_ok (reserve_items s)"
  by (auto simp: items_ok_def reserve_items_def cart_inv_def list_all_iff comp_def)

lemma clearCart_inv: "cart_inv s \<Longrightarrow> cart_inv (clearCart s)"
  using cart_step_inv [of s ClearCart] by simp

definition checkout_orders_inv :: "checkout \<Rightarrow> bool" where
  "checkout_orders_inv c \<longleftrightarrow> cart_inv (ck_cart c) \<and> list_all request_ok (ck_sent c) \<and> phase_ok (ck_phase c)"

lemma checkout_orders_frame:
  "ck_cart c = ck_cart c' \<Longrightarrow> ck_sent c = ck_sent c' \<Longrightarrow> ck_phase c = ck_phase c' \<Longrightarrow>
   checkout_orders_inv c = checkout_orders_inv c'"
  by (simp add: checkout_orders_inv_def)

lemma checkout_orders_step:
  assumes "checkout_orders_inv c" shows "checkout_orders_inv (checkout_step c e)"
proof (cases e)
  case (Act a)
  then show ?thesis using assms
    by (cases a) (auto simp: checkout_orders_inv_def submit_start_def Let_def phase_ok_def reserve_items_ok)
next
  case (ReserveAnswered r)
  then show ?thesis using assms
    by (auto simp: checkout_orders_inv_def reserve_answered_def phase_ok_def split: phase.splits)
next
  case (OrderAnswered env r)
  then show ?thesis using assms
    by (auto simp: checkout_orders_inv_def order_answered_def phase_ok_def clearCart_inv split: phase.splits option.splits)
qed (use assms in \<open>simp add: checkout_orders_inv_def\<close>)

lemma mount_checkout_orders: "cart_inv s \<Longrightarrow> checkout_orders_inv (mount_checkout s ns draft)"
  by (auto simp: checkout_orders_inv_def mount_checkout_def Let_def phase_ok_def split: option.split)

definition page_ok :: "open_page \<Rightarrow> bool" where
  "page_ok p = (case p of AtCatalog c \<Rightarrow> catalog_inv c | AtCart q \<Rightarrow> cart_inv (cart q) | AtCheckout c \<Rightarrow> checkout_orders_inv c
     | Elsewhere \<Rightarrow> True)"

definition stores_ok :: "stores \<Rightarrow> bool" where
  "stores_ok so \<longleftrightarrow> cart_inv (so_cart so) \<and> distinct (itemIds (so_wishlist so))"

definition shop_inv :: "shop \<Rightarrow> bool" where
  "shop_inv s \<longleftrightarrow> page_ok (sh_page s) \<and> stores_ok (sh_stores s) \<and> list_all phase_ok (sh_waiting s) \<and>
     list_all request_ok (sh_sent s)"

lemma enter_ok: "stores_ok so \<Longrightarrow> page_ok (enter sample to so)"
  by (cases to) (simp_all add: stores_ok_def page_ok_def mount_checkout_orders catalog_inv_def mount_catalog_def fetch_start_def)

lemma leave_ok: "page_ok p \<Longrightarrow> stores_ok so \<Longrightarrow> stores_ok (leave p so)"
  by (cases p) (simp_all add: page_ok_def stores_ok_def catalog_inv_def checkout_orders_inv_def)

lemma put_stores_ok: "page_ok p \<Longrightarrow> stores_ok so \<Longrightarrow> page_ok (put_stores so p)"
  by (cases p) (simp_all add: page_ok_def stores_ok_def catalog_inv_def checkout_orders_inv_def)

lemma page_parts_ok:
  "page_ok p \<Longrightarrow> list_all request_ok (page_sent p) \<and> list_all phase_ok (page_waiting p)"
  by (cases p) (simp_all add: page_ok_def page_sent_def page_waiting_def checkout_orders_inv_def)

lemma late_answer_inv:
  assumes "shop_inv s" shows "shop_inv (late_answer i e ok s)"
proof (cases "i < length (sh_waiting s)")
  case True
  then have ph: "phase_ok (sh_waiting s ! i)" using assms by (simp add: shop_inv_def list_all_length)
  have upd: "list_all phase_ok ((sh_waiting s)[i := p])" if "phase_ok p" for p
    using assms that by (auto simp: shop_inv_def list_all_iff dest!: subsetD [OF set_update_subset_insert])
  have rest: "list_all phase_ok (take i (sh_waiting s) @ drop (Suc i) (sh_waiting s))"
    using assms by (auto simp: shop_inv_def list_all_iff dest: in_set_takeD in_set_dropD)
  have st: "stores_ok (shop_stores s)" using assms by (simp add: shop_inv_def shop_stores_def leave_ok)
  show ?thesis
  proof (cases "sh_waiting s ! i")
    case (Reserving its d)
    then show ?thesis using True ph upd [of "Ordering its d"] assms
      by (simp add: late_answer_def shop_inv_def phase_ok_def)
  next
    case (Ordering its d)
    have "shop_stores (s\<lparr>sh_waiting := ws\<rparr>) = shop_stores s" for ws by (simp add: shop_stores_def)
    then show ?thesis using True Ordering rest assms st
      by (auto simp: late_answer_def late_order_def shop_inv_def Let_def stores_ok_def clearCart_inv intro!: put_stores_ok)
  qed (use assms True in \<open>simp add: late_answer_def\<close>)
qed (use assms in \<open>simp add: late_answer_def\<close>)

lemma shop_step_inv:
  assumes "shop_inv s" shows "shop_inv (shop_step sample json s e)"
proof (cases e)
  case (InCatalog ev)
  then show ?thesis using assms by (auto simp: shop_inv_def page_ok_def catalog_step_inv split: open_page.split)
next
  case (InCart a)
  then show ?thesis using assms by (auto simp: shop_inv_def page_ok_def cart_page_step_inv split: open_page.split)
next
  case (InCheckout ev)
  then show ?thesis using assms by (auto simp: shop_inv_def page_ok_def checkout_orders_step split: open_page.split)
next
  case (GoTo to)
  have "stores_ok (shop_stores s)" using assms by (simp add: shop_inv_def shop_stores_def leave_ok)
  then show ?thesis using assms GoTo page_parts_ok [of "sh_page s"]
    by (simp add: shop_inv_def go_to_def enter_ok)
next
  case (LateAnswer i env ok)
  then show ?thesis using assms by (simp add: late_answer_inv)
qed

interpretation shop: state_machine "open_shop sample ns" "shop_step sample json" shop_inv for sample ns json
proof unfold_locales
  have "stores_ok \<lparr>so_cart = initial_cart, so_wishlist = initial_wishlist, so_notes = ns, so_draft = None\<rparr>"
    using cart.inv_init wish_distinct.inv_init by (simp add: stores_ok_def)
  then show "shop_inv (open_shop sample ns)"
    using enter_ok [of _ sample ToCatalog] by (simp add: shop_inv_def open_shop_def Let_def del: enter.simps)
qed (rule shop_step_inv)

text \<open>Over any session with the catalog, the cart and the checkout page, in any order of visits, clicks, timers and
  answers, also answers that come after their page was left: the cart keeps its invariant, the wishlist has no
  duplicates, and every reservation and order ever sent names each product at most once, with a
  positive quantity.\<close>

theorem shop_session:
  "let s = run (shop_step sample json) (open_shop sample ns) es in
   cart_inv (so_cart (shop_stores s)) \<and> distinct (itemIds (so_wishlist (shop_stores s))) \<and>
   list_all request_ok (shop_sent s)"
proof -
  have i: "shop_inv (run (shop_step sample json) (open_shop sample ns) es)" by (rule shop.inv_run)
  then show ?thesis
    using page_parts_ok leave_ok by (auto simp: Let_def shop_inv_def shop_stores_def shop_sent_def stores_ok_def)
qed

subsection \<open>An answer after the page was left\<close>

text \<open>A purchase is lost when the customer goes on shopping while an order is processed: a product put into the
  cart after the checkout page was left disappears when the order succeeds, and is part of no order
  sent, if it was not in the cart before. (The same answer on the checkout page itself cannot lose anything,
  because the page offers no way to add products.)\<close>

theorem late_answer_drops_new_items:
  assumes "sh_page s = AtCatalog c" "i < length (sh_waiting s)" "sh_waiting s ! i = Ordering its d"
  shows "let s1 = shop_step sample json s (InCatalog (CatalogAct e (ClickAdd p)));
             s2 = shop_step sample json s1 (LateAnswer i e' True)
         in pr_id p \<in> product_id ` set (items (so_cart (shop_stores s1))) \<and>
            items (so_cart (shop_stores s2)) = [] \<and> shop_sent s2 = shop_sent s"
proof -
  have added: "pr_id p \<in> product_id ` set (items (addItem \<lparr>product_id = pr_id p, sku = x, item_name = y, price = z\<rparr> s0))" for x y z s0
  proof -
    have "qty_map (addItem \<lparr>product_id = pr_id p, sku = x, item_name = y, price = z\<rparr> s0) (pr_id p) \<noteq> None"
      by (simp add: qty_map_addItem split: option.split)
    then show ?thesis by (auto simp: qty_map_def split: option.splits dest!: find_Some_mem intro: rev_image_eqI)
  qed
  then show ?thesis using assms
    by (simp add: Let_def shop_stores_def handleAddToCart_def late_answer_def late_order_def clearCart_def shop_sent_def page_sent_def)
qed

definition ordering_shop :: shop where
  \<comment> \<open>an order of one product is on its way while the catalog is open again\<close>
  "ordering_shop = run (shop_step [] (\<lambda>_. JsonOther)) (open_shop [] (initial_notifications [] []))
     [InCatalog (CatalogAct sample_env (ClickAdd (sample_product ''tea'' 5))), GoTo ToCheckout,
      InCheckout (Act (TypeAddress ''1 Main St'')), InCheckout (Act (TypeCity ''Pune'')), InCheckout (Act (TypeZip ''41100'')),
      InCheckout (Act Submit), InCheckout (ReserveAnswered None), GoTo ToCatalog]"

lemma ordering_shop_waits:
  "\<exists>c its d. sh_page ordering_shop = AtCatalog c \<and> sh_waiting ordering_shop = [Ordering its d]"
  by (simp add: ordering_shop_def open_shop_def go_to_def shop_stores_def page_waiting_def mount_checkout_def initial_autosave_def
      submit_start_def schema_valid valid_form_def empty_form_def reserve_answered_def handleAddToCart_def Let_def)

theorem late_answer_drops_new_items_witness:
  "let s1 = shop_step [] (\<lambda>_. JsonOther) ordering_shop (InCatalog (CatalogAct sample_env (ClickAdd (sample_product ''lamp'' 30))));
       s2 = shop_step [] (\<lambda>_. JsonOther) s1 (LateAnswer 0 sample_env True)
   in ''lamp'' \<in> product_id ` set (items (so_cart (shop_stores s1))) \<and> items (so_cart (shop_stores s2)) = []"
proof -
  obtain c its d where "sh_page ordering_shop = AtCatalog c" "0 < length (sh_waiting ordering_shop)"
      "sh_waiting ordering_shop ! 0 = Ordering its d"
    using ordering_shop_waits by auto
  from late_answer_drops_new_items [OF this, of "[]" "\<lambda>_. JsonOther" sample_env "sample_product ''lamp'' 30" sample_env]
  show ?thesis unfolding Let_def by simp
qed

subsection \<open>An order of nothing\<close>

text \<open>Nothing keeps an empty cart from being ordered: with an empty cart and a valid form, submitting the
  checkout page reserves nothing and then, whatever the answer, posts an order without items.\<close>

theorem empty_cart_ordered:
  assumes "items (ck_cart c) = []" "valid_form (ck_form c)" "\<not> ck_loading c" "\<not> ck_success c"
  shows "ck_sent (run checkout_step c [Act Submit, ReserveAnswered r]) =
    ck_sent c @ [Reserve [], PlaceOrder [] (full_address (ck_form c)) (payment (ck_form c))]"
  using assms by (simp add: submit_start_def schema_valid reserve_answered_def reserve_items_def Let_def)

theorem empty_cart_ordered_witness:
  "ck_sent (run checkout_step (mount_checkout initial_cart (initial_notifications [] [])
       (Some \<lparr>shipping_address = ''1 Main St'', city = ''Pune'', zip_code = ''41100'', payment = CreditCard\<rparr>))
     [Act Submit, ReserveAnswered None]) = [Reserve [], PlaceOrder [] ''1 Main St, Pune (41100)'' CreditCard]"
proof -
  let ?c = "mount_checkout initial_cart (initial_notifications [] [])
     (Some \<lparr>shipping_address = ''1 Main St'', city = ''Pune'', zip_code = ''41100'', payment = CreditCard\<rparr>)"
  have "items (ck_cart ?c) = []" "valid_form (ck_form ?c)" "\<not> ck_loading ?c" "\<not> ck_success ?c"
    "ck_form ?c = \<lparr>shipping_address = ''1 Main St'', city = ''Pune'', zip_code = ''41100'', payment = CreditCard\<rparr>" "ck_sent ?c = []"
    by (simp_all add: mount_checkout_def initial_autosave_def Let_def initial_cart_def valid_form_def)
  with empty_cart_ordered [OF this(1-4), of None] show ?thesis
    by (simp only: append_Nil) (simp add: full_address_def)
qed

end
