(* ===== verification/Secure_Storage.thy ===== *)
theory Secure_Storage
  imports Text_Security "HOL-Library.Word"
begin

unbundle bit_operations_syntax

text \<open>
  \<open>secureStorage\<close> of \<open>frontend/src/lib/security.ts\<close>: the checksum \<open>computeHash\<close>, on the 32 bit integers that
  the bitwise operators of the language work on, and the storage itself with the steps
  \<open>btoa(unescape(encodeURIComponent(...)))\<close> and back. Strings are the language's own, sequences of 16 bit code
  units, so that text outside Latin-1, surrogate pairs and lone surrogates are covered.

  A value is represented by its JSON text; where \<open>JSON.stringify\<close> throws there is none, and for \<open>undefined\<close> it is
  the text \<open>undefined\<close>, which is encoded and which \<open>JSON.parse\<close> rejects when it is read back. An entry of
  \<open>localStorage\<close> is represented by what \<open>JSON.parse\<close> makes of it: an object with the two strings, or something
  else. A full storage is not modelled.
\<close>

type_synonym utf16 = "16 word list"

definition units :: "jsstring \<Rightarrow> utf16" where
  "units s = map (\<lambda>c. of_nat (code_unit c)) s"

lemma units_inj: "units s = units t \<longleftrightarrow> s = t"
proof -
  have "(of_nat (code_unit c) :: 16 word) = of_nat (code_unit d) \<longleftrightarrow> c = d" for c d
    using code_unit_less [of c] code_unit_less [of d]
    by (simp add: word_of_nat_eq_iff take_bit_nat_eq_self code_unit_inj)
  then have "inj (\<lambda>c. of_nat (code_unit c) :: 16 word)" by (simp add: inj_def)
  then show ?thesis by (simp add: units_def inj_map_eq_map)
qed

subsection \<open>UTF-8 of any text\<close>

definition low_surrogate :: "nat \<Rightarrow> bool" where
  "low_surrogate n = (0xDC00 \<le> n \<and> n < 0xE000)"

definition high_surrogate :: "nat \<Rightarrow> bool" where
  "high_surrogate n = (0xD800 \<le> n \<and> n < 0xDC00)"

definition trail :: "nat \<Rightarrow> char" where
  "trail n = char_of (128 + n mod 64)"

fun encodeURIComponent_bytes :: "utf16 \<Rightarrow> jsstring option" where
  \<comment> \<open>\<open>unescape(encodeURIComponent(s))\<close>, one character per byte; a lone surrogate throws\<close>
  "encodeURIComponent_bytes [] = Some []"
| "encodeURIComponent_bytes (c # s) =
     (let n = unat c
      in if n < 0x80 then map_option (\<lambda>r. char_of n # r) (encodeURIComponent_bytes s)
         else if n < 0x800 then map_option (\<lambda>r. char_of (192 + n div 64) # trail n # r) (encodeURIComponent_bytes s)
         else if low_surrogate n then None
         else if high_surrogate n then
           (case s of
              [] \<Rightarrow> None
            | d # t \<Rightarrow>
                let l = unat d; p = 0x10000 + (n - 0xD800) * 0x400 + (l - 0xDC00)
                in if low_surrogate l
                   then map_option (\<lambda>r. char_of (240 + p div 262144) # trail (p div 4096) # trail (p div 64) # trail p # r)
                          (encodeURIComponent_bytes t)
                   else None)
         else map_option (\<lambda>r. char_of (224 + n div 4096) # trail (n div 64) # trail n # r) (encodeURIComponent_bytes s))"

definition trail_value :: "char \<Rightarrow> nat option" where
  "trail_value c = (let n = code_unit c in if 128 \<le> n \<and> n < 192 then Some (n - 128) else None)"

fun decodeURIComponent_bytes :: "jsstring \<Rightarrow> utf16 option" where
  \<comment> \<open>\<open>decodeURIComponent(escape(s))\<close>; bytes that are not UTF-8 throw\<close>
  "decodeURIComponent_bytes [] = Some []"
| "decodeURIComponent_bytes (b # s) =
     (let n = code_unit b
      in if n < 0x80 then map_option (\<lambda>r. of_nat n # r) (decodeURIComponent_bytes s)
         else if 194 \<le> n \<and> n < 224 then
           (case s of
              b1 # t \<Rightarrow>
                (case trail_value b1 of
                   Some v1 \<Rightarrow> map_option (\<lambda>r. of_nat ((n - 192) * 64 + v1) # r) (decodeURIComponent_bytes t)
                 | None \<Rightarrow> None)
            | [] \<Rightarrow> None)
         else if 224 \<le> n \<and> n < 240 then
           (case s of
              b1 # b2 # t \<Rightarrow>
                (case (trail_value b1, trail_value b2) of
                   (Some v1, Some v2) \<Rightarrow>
                     let p = (n - 224) * 4096 + v1 * 64 + v2
                     in if p < 0x800 \<or> high_surrogate p \<or> low_surrogate p then None
                        else map_option (\<lambda>r. of_nat p # r) (decodeURIComponent_bytes t)
                 | _ \<Rightarrow> None)
            | _ \<Rightarrow> None)
         else if 240 \<le> n \<and> n < 245 then
           (case s of
              b1 # b2 # b3 # t \<Rightarrow>
                (case (trail_value b1, trail_value b2, trail_value b3) of
                   (Some v1, Some v2, Some v3) \<Rightarrow>
                     let p = (n - 240) * 262144 + v1 * 4096 + v2 * 64 + v3
                     in if p < 0x10000 \<or> 0x10FFFF < p then None
                        else map_option (\<lambda>r. of_nat (0xD800 + (p - 0x10000) div 0x400) # of_nat (0xDC00 + (p - 0x10000) mod 0x400) # r)
                               (decodeURIComponent_bytes t)
                 | _ \<Rightarrow> None)
            | _ \<Rightarrow> None)
         else None)"

lemma trail_value_trail [simp]: "trail_value (trail n) = Some (n mod 64)"
proof -
  have "code_unit (trail n) = 128 + n mod 64"
    unfolding trail_def by (rule code_unit_char_of) (use mod_less_divisor [of 64 n] in linarith)
  then show ?thesis by (simp add: trail_value_def)
qed

text \<open>A text without lone surrogates has a UTF-8 form, and it is read back exactly.\<close>

fun well_formed16 :: "utf16 \<Rightarrow> bool" where
  "well_formed16 [] = True"
| "well_formed16 (c # s) =
     (if low_surrogate (unat c) then False
      else if high_surrogate (unat c) then (case s of [] \<Rightarrow> False | d # t \<Rightarrow> low_surrogate (unat d) \<and> well_formed16 t)
      else well_formed16 s)"

lemma split_three: "n div 4096 * 4096 + n div 64 mod 64 * 64 + n mod 64 = n" for n :: nat
proof -
  have "n div 64 div 64 = n div 4096" by (simp add: div_mult2_eq [symmetric])
  then show ?thesis using div_mult_mod_eq [of n 64] div_mult_mod_eq [of "n div 64" 64] by linarith
qed

lemma split_four: "n div 262144 * 262144 + n div 4096 mod 64 * 4096 + n div 64 mod 64 * 64 + n mod 64 = n" for n :: nat
proof -
  have "n div 4096 div 64 = n div 262144" by (simp add: div_mult2_eq [symmetric])
  then show ?thesis using split_three [of n] div_mult_mod_eq [of "n div 4096" 64] by linarith
qed

lemma unat16_less: "unat (c :: 16 word) < 0x10000"
  using unsigned_less [of c] by simp

definition pair_point :: "nat \<Rightarrow> nat \<Rightarrow> nat" where
  "pair_point h l = 0x10000 + (h - 0xD800) * 0x400 + (l - 0xDC00)"

lemma pair_point_back:
  assumes "high_surrogate h" "low_surrogate l"
  shows "0x10000 \<le> pair_point h l" "pair_point h l \<le> 0x10FFFF"
    "0xD800 + (pair_point h l - 0x10000) div 0x400 = h" "0xDC00 + (pair_point h l - 0x10000) mod 0x400 = l"
proof -
  have b: "h - 0xD800 < 0x400" "l - 0xDC00 < 0x400" "0xD800 \<le> h" "0xDC00 \<le> l"
    using assms by (auto simp: high_surrogate_def low_surrogate_def)
  show "0x10000 \<le> pair_point h l" "pair_point h l \<le> 0x10FFFF"
    using b unfolding pair_point_def by linarith+
  obtain x y where xy: "h = 0xD800 + x" "l = 0xDC00 + y" "x < 0x400" "y < 0x400"
    using b by (metis le_add_diff_inverse)
  then have "pair_point h l - 0x10000 = x * 0x400 + y" by (simp add: pair_point_def)
  then show "0xD800 + (pair_point h l - 0x10000) div 0x400 = h" "0xDC00 + (pair_point h l - 0x10000) mod 0x400 = l"
    using xy by simp_all
qed

lemma decode_two:
  assumes "0x80 \<le> n" "n < 0x800"
  shows "decodeURIComponent_bytes (char_of (192 + n div 64) # trail n # r) =
    map_option (\<lambda>t. of_nat n # t) (decodeURIComponent_bytes r)"
proof -
  have d: "2 \<le> n div 64" "n div 64 < 32" using assms by linarith+
  then have "code_unit (char_of (192 + n div 64)) = 192 + n div 64" by (intro code_unit_char_of) simp
  then show ?thesis using d div_mult_mod_eq [of n 64] by (simp add: Let_def del: of_nat_add of_nat_mult)
qed

lemma decode_three:
  assumes "0x800 \<le> n" "n < 0x10000" "\<not> high_surrogate n" "\<not> low_surrogate n"
  shows "decodeURIComponent_bytes (char_of (224 + n div 4096) # trail (n div 64) # trail n # r) =
    map_option (\<lambda>t. of_nat n # t) (decodeURIComponent_bytes r)"
proof -
  have d: "n div 4096 < 16" using assms(2) by linarith
  then have "code_unit (char_of (224 + n div 4096)) = 224 + n div 4096" by (intro code_unit_char_of) simp
  then show ?thesis using d assms split_three [of n] by (simp add: Let_def del: of_nat_add of_nat_mult)
qed

lemma decode_four:
  assumes "0x10000 \<le> n" "n \<le> 0x10FFFF"
  shows "decodeURIComponent_bytes (char_of (240 + n div 262144) # trail (n div 4096) # trail (n div 64) # trail n # r) =
    map_option (\<lambda>t. of_nat (0xD800 + (n - 0x10000) div 0x400) # of_nat (0xDC00 + (n - 0x10000) mod 0x400) # t)
      (decodeURIComponent_bytes r)"
proof -
  have d: "n div 262144 < 5" using assms(2) by linarith
  then have "code_unit (char_of (240 + n div 262144)) = 240 + n div 262144" by (intro code_unit_char_of) simp
  then show ?thesis using d assms split_four [of n] by (simp add: Let_def del: of_nat_add of_nat_mult)
qed

lemma encode_well_formed: "encodeURIComponent_bytes s \<noteq> None \<longleftrightarrow> well_formed16 s"
proof (induction s rule: well_formed16.induct)
  case (2 c s)
  then show ?case
    by (cases s) (auto simp: Let_def low_surrogate_def high_surrogate_def)
qed simp

lemma encode_decode: "encodeURIComponent_bytes s = Some b \<Longrightarrow> decodeURIComponent_bytes b = Some s"
proof (induction s arbitrary: b rule: encodeURIComponent_bytes.induct)
  case (2 c s)
  define n where "n = unat c"
  have n: "n < 0x10000" "of_nat n = c" by (simp_all add: n_def unat16_less)
  consider (one) "n < 0x80" | (two) "0x80 \<le> n" "n < 0x800" | (three) "0x800 \<le> n" "\<not> high_surrogate n" "\<not> low_surrogate n"
    | (low) "0x800 \<le> n" "low_surrogate n" | (high) "0x800 \<le> n" "\<not> low_surrogate n" "high_surrogate n"
    by (cases "n < 0x80"; cases "n < 0x800") auto
  then show ?case
  proof cases
    case one
    then obtain r where r: "encodeURIComponent_bytes s = Some r" "b = char_of n # r"
      using 2(5) by (auto simp: n_def [symmetric] Let_def)
    have "code_unit (char_of n) = n" by (rule code_unit_char_of) (use one in simp)
    then show ?thesis using 2(1) r one n by (simp add: n_def [symmetric] Let_def)
  next
    case two
    then obtain r where r: "encodeURIComponent_bytes s = Some r" "b = char_of (192 + n div 64) # trail n # r"
      using 2(5) by (auto simp: n_def [symmetric] Let_def)
    then show ?thesis using 2(2) two n by (simp add: n_def [symmetric] decode_two del: decodeURIComponent_bytes.simps)
  next
    case three
    then obtain r where r: "encodeURIComponent_bytes s = Some r" "b = char_of (224 + n div 4096) # trail (n div 64) # trail n # r"
      using 2(5) by (auto simp: n_def [symmetric] Let_def)
    then show ?thesis using 2(4) three n by (simp add: n_def [symmetric] decode_three del: decodeURIComponent_bytes.simps)
  next
    case low
    then show ?thesis using 2(5) by (simp add: n_def [symmetric] Let_def)
  next
    case high
    then obtain d t r where t: "s = d # t" "low_surrogate (unat d)" "encodeURIComponent_bytes t = Some r"
      "b = (let p = pair_point n (unat d) in char_of (240 + p div 262144) # trail (p div 4096) # trail (p div 64) # trail p # r)"
      using 2(5) by (auto simp: n_def [symmetric] Let_def pair_point_def split: list.splits if_splits)
    define p where "p = pair_point n (unat d)"
    have ih: "decodeURIComponent_bytes r = Some t"
      using 2(3) t high by (simp add: n_def [symmetric] Let_def)
    show ?thesis using t(4) pair_point_back [OF high(3) t(2)] ih n
      unfolding t(1) Let_def p_def [symmetric] by (simp add: decode_four del: decodeURIComponent_bytes.simps)
  qed
qed simp

subsection \<open>The checksum\<close>

fun hash_loop :: "32 word \<Rightarrow> utf16 \<Rightarrow> 32 word" where
  "hash_loop hash [] = hash"
| "hash_loop hash (c # s) = hash_loop ((hash * 33) XOR ucast c) s"

fun to_hex :: "nat \<Rightarrow> jsstring" where
  "to_hex n = (let d = n mod 16; c = char_of (if d < 10 then 48 + d else 87 + d)
     in if n < 16 then [c] else to_hex (n div 16) @ [c])"

declare to_hex.simps [simp del]

definition computeHash :: "utf16 \<Rightarrow> jsstring" where
  "computeHash s = to_hex (unat (hash_loop 5381 s))"

definition hex_digit :: "char \<Rightarrow> nat" where
  "hex_digit c = (if code_unit c < 58 then code_unit c - 48 else code_unit c - 87)"

lemma foldl_to_hex: "foldl (\<lambda>a c. 16 * a + hex_digit c) 0 (to_hex n) = n"
proof (induction n rule: to_hex.induct)
  case (1 n)
  have d: "hex_digit (char_of (if n mod 16 < 10 then 48 + n mod 16 else 87 + n mod 16)) = n mod 16"
    by (simp add: hex_digit_def code_unit_def)
  show ?case
  proof (cases "n < 16")
    case True
    then show ?thesis using d by (subst to_hex.simps) (auto simp: Let_def)
  next
    case False
    then have "foldl (\<lambda>a c. 16 * a + hex_digit c) 0 (to_hex (n div 16)) = n div 16"
      using 1 by simp
    then show ?thesis using d False by (subst to_hex.simps) (simp add: Let_def)
  qed
qed

lemma to_hex_inj: "to_hex a = to_hex b \<longleftrightarrow> a = b"
  by (metis foldl_to_hex)

lemma times_33_inj: "(a :: 32 word) * 33 = b * 33 \<longleftrightarrow> a = b"
proof
  assume "a * 33 = b * 33"
  then have "a * 33 * 1041204193 = b * 33 * 1041204193" by (rule arg_cong)
  moreover have "(33 :: 32 word) * 1041204193 = 1" by simp
  ultimately show "a = b" by (simp only: mult.assoc mult_1_right)
qed simp

lemma xor_cancel: "(a :: 32 word) XOR c = b XOR c \<longleftrightarrow> a = b"
proof
  assume "a XOR c = b XOR c"
  then have "(a XOR c) XOR c = (b XOR c) XOR c" by (simp only:)
  then show "a = b" by (simp only: xor.assoc xor_self_eq xor.right_neutral)
qed simp

lemma hash_loop_append: "hash_loop h (s @ t) = hash_loop (hash_loop h s) t"
  by (induction h s rule: hash_loop.induct) simp_all

lemma hash_loop_inj: "hash_loop a s = hash_loop b s \<longleftrightarrow> a = b"
  by (induction s arbitrary: a b) (simp_all add: xor_cancel times_33_inj)

lemma ucast_16_32_inj: "(ucast c :: 32 word) = ucast d \<longleftrightarrow> c = d" for c d :: "16 word"
proof
  assume "(ucast c :: 32 word) = ucast d"
  then have "(ucast (ucast c :: 32 word) :: 16 word) = ucast (ucast d :: 32 word)" by (rule arg_cong)
  then show "c = d" by (simp add: ucast_up_ucast_id is_up)
qed simp

lemma computeHash_change: "computeHash (s @ c # t) = computeHash (s @ d # t) \<longleftrightarrow> c = d"
proof -
  have "computeHash (s @ c # t) = computeHash (s @ d # t) \<longleftrightarrow>
      hash_loop 5381 (s @ c # t) = hash_loop 5381 (s @ d # t)"
    by (simp only: computeHash_def to_hex_inj word_unat_eq_iff)
  also have "\<dots> \<longleftrightarrow> c = d"
    using ucast_16_32_inj xor_cancel
    by (simp add: hash_loop_append hash_loop_inj) (metis xor.commute)
  finally show ?thesis .
qed

text \<open>The checksum notices every change of a single code unit, at any position of a text of
  any length, although it has only 32 bits: each step of the loop is a bijection on the 32
  bit words.\<close>

theorem single_change_detected:
  "computeHash (s @ c # t) = computeHash (s @ d # t) \<longleftrightarrow> c = d"
  by (rule computeHash_change)

subsection \<open>The storage\<close>

datatype stored =
    Envelope utf16 utf16
  | Other_json

type_synonym local_storage = "jsstring \<rightharpoonup> stored"

definition storage_key :: "jsstring \<Rightarrow> jsstring" where
  "storage_key k = ''cs_'' @ k"

definition secure_setItem :: "jsstring \<Rightarrow> utf16 option \<Rightarrow> local_storage \<Rightarrow> local_storage" where
  "secure_setItem key dataStr m =
     (case Option.bind dataStr encodeURIComponent_bytes of
        None \<Rightarrow> m(storage_key key \<mapsto> Envelope [] [])
      | Some bytes \<Rightarrow>
          let encoded = units (btoa bytes); checksum = units (computeHash encoded)
          in m(storage_key key \<mapsto> Envelope encoded checksum))"

definition latin1 :: "utf16 \<Rightarrow> jsstring option" where
  \<comment> \<open>\<open>atob\<close> throws at a character beyond Latin-1\<close>
  "latin1 s = (if list_all (\<lambda>u. unat u < 256) s then Some (map (\<lambda>u. char_of (unat u)) s) else None)"

definition secure_getItem :: "jsstring \<Rightarrow> local_storage \<Rightarrow> utf16 option" where
  \<comment> \<open>the text that \<open>JSON.parse\<close> then reads\<close>
  "secure_getItem key m =
     (case m (storage_key key) of
        Some (Envelope encoded checksum) \<Rightarrow>
          if checksum \<noteq> units (computeHash encoded) then None
          else Option.bind (Option.bind (latin1 encoded) atob) decodeURIComponent_bytes
      | _ \<Rightarrow> None)"

definition secure_removeItem :: "jsstring \<Rightarrow> local_storage \<Rightarrow> local_storage" where
  "secure_removeItem key m = m(storage_key key := None)"

lemma latin1_units [simp]: "latin1 (units s) = Some s"
proof -
  have "unat (of_nat (code_unit c) :: 16 word) = code_unit c" for c
    using code_unit_less [of c] by (simp add: unat_of_nat)
  then show ?thesis by (simp add: latin1_def units_def list_all_iff comp_def code_unit_less)
qed

lemma computeHash_not_empty: "computeHash s \<noteq> []"
  unfolding computeHash_def by (subst to_hex.simps) (simp add: Let_def)

lemma set_entry:
  "secure_setItem k' v m (storage_key k) = (if k = k' then
      Some (case Option.bind v encodeURIComponent_bytes of None \<Rightarrow> Envelope [] []
        | Some bytes \<Rightarrow> Envelope (units (btoa bytes)) (units (computeHash (units (btoa bytes))))) else m (storage_key k))"
  by (simp add: secure_setItem_def storage_key_def Let_def split: option.split)

lemma get_set_same:
  "secure_getItem k (secure_setItem k v m) =
     (case v of None \<Rightarrow> None | Some s \<Rightarrow> if well_formed16 s then Some s else None)"
proof (cases "Option.bind v encodeURIComponent_bytes")
  case None
  have empty: "units (computeHash []) \<noteq> []" using computeHash_not_empty by (simp add: units_def)
  have "(case v of None \<Rightarrow> None | Some s \<Rightarrow> if well_formed16 s then Some s else None) = None"
    using None encode_well_formed [of "the v"] by (cases v) simp_all
  then show ?thesis using None empty [symmetric] by (simp add: secure_getItem_def set_entry)
next
  case (Some bytes)
  then obtain s where s: "v = Some s" "encodeURIComponent_bytes s = Some bytes" by (cases v) auto
  then have "well_formed16 s" using encode_well_formed [of s] by simp
  then show ?thesis unfolding secure_getItem_def set_entry using s by (simp add: atob_btoa encode_decode)
qed

lemma get_set_other: "k \<noteq> k' \<Longrightarrow> secure_getItem k (secure_setItem k' v m) = secure_getItem k m"
  by (simp add: secure_getItem_def set_entry)

lemma get_removed: "secure_getItem k (secure_removeItem k' m) = (if k = k' then None else secure_getItem k m)"
  by (simp add: secure_getItem_def secure_removeItem_def storage_key_def)

text \<open>C38. What is stored under a key is read back exactly, whatever characters it has, until it is removed or
  stored anew, and operations on other keys do not interfere. Where nothing could be encoded, because the value could not be
  turned into JSON or its text has a lone surrogate, nothing is read back.\<close>

theorem secure_storage_round_trip:
  "secure_getItem k (secure_setItem k' v m) =
     (if k = k' then (case v of None \<Rightarrow> None | Some s \<Rightarrow> if well_formed16 s then Some s else None)
      else secure_getItem k m) \<and>
   secure_getItem k (secure_removeItem k' m) = (if k = k' then None else secure_getItem k m)"
  by (simp add: get_set_same get_set_other get_removed)

text \<open>The checksum rejects an entry in which one code unit of the data was changed, but it
  has no secret: an entry anybody writes with its checksum recomputed is accepted and read
  as the forger's value.\<close>

theorem storage_tampering:
  "(c \<noteq> d \<longrightarrow> secure_getItem k (m(storage_key k \<mapsto> Envelope (s @ d # t) (units (computeHash (s @ c # t))))) = None) \<and>
   (encodeURIComponent_bytes v = Some b \<longrightarrow>
    secure_getItem k (m(storage_key k \<mapsto> Envelope (units (btoa b)) (units (computeHash (units (btoa b)))))) = Some v)"
  using computeHash_change [of s c t d] by (auto simp: secure_getItem_def atob_btoa units_inj dest: encode_decode)

theorem storage_tampering_witness:
  "secure_getItem ''role'' [storage_key ''role'' \<mapsto> Envelope ([1] @ 2 # [3]) (units (computeHash ([1] @ 4 # [3])))] = None"
proof -
  have "(4 :: 16 word) \<noteq> 2" by simp
  then show ?thesis using storage_tampering [where m = Map.empty] by blast
qed

end
