(* ===== verification/Service_Worker.thy ===== *)
theory Service_Worker
  imports Prelude Js_String App_Config
begin

text \<open>
  The service worker: its registration by the page, \<open>frontend/src/lib/registerSW.ts\<close>, and the worker itself,
  \<open>frontend/public/sw.js\<close>, with its caches.

  The page part is a step function over what happens in a page: the call of
  \<open>registerServiceWorker\<close>, the \<open>load\<close> event of the window, the answer of \<open>register\<close>, and the life of
  an installing worker. The worker part is a step function over the events the browser sends: an
  \<open>install\<close> and an \<open>activate\<close> event, a \<open>fetch\<close> event, and the network's answer to a request the worker
  forwarded. What the network says is an argument of the event. A request is known by its address,
  as in the matching of the cache; answers that vary with request headers are not modelled. The
  promises of one event run to their end before the next event.
\<close>

subsection \<open>The registration\<close>

record sw_page =
  load_listeners :: nat
  page_loaded :: bool
  sw_registering :: nat
  sw_watching :: bool
  watched_workers :: "nat list"
  sw_updates :: nat

definition fresh_page :: sw_page where
  "fresh_page = \<lparr>load_listeners = 0, page_loaded = False, sw_registering = 0, sw_watching = False,
     watched_workers = [], sw_updates = 0\<rparr>"

definition registerServiceWorker :: "bool \<Rightarrow> bool \<Rightarrow> sw_page \<Rightarrow> sw_page" where
  \<comment> \<open>whether the browser has service workers, whether this is a production build\<close>
  "registerServiceWorker supported production p =
     (if supported \<and> production then p\<lparr>load_listeners := Suc (load_listeners p)\<rparr> else p)"

definition window_load :: "sw_page \<Rightarrow> sw_page" where
  \<comment> \<open>the event happens once; each listener calls \<open>register\<close>\<close>
  "window_load p = (if page_loaded p then p else p\<lparr>page_loaded := True, sw_registering := load_listeners p\<rparr>)"

definition register_answered :: "bool \<Rightarrow> sw_page \<Rightarrow> sw_page" where
  "register_answered ok p =
     (if sw_registering p = 0 then p
      else p\<lparr>sw_registering := sw_registering p - 1, sw_watching := (ok \<or> sw_watching p)\<rparr>)"

definition update_found :: "nat option \<Rightarrow> sw_page \<Rightarrow> sw_page" where
  \<comment> \<open>\<open>onupdatefound\<close>, with the registration's installing worker\<close>
  "update_found w p =
     (case w of None \<Rightarrow> p
      | Some n \<Rightarrow> if sw_watching p \<and> \<not> List.member (watched_workers p) n then p\<lparr>watched_workers := n # watched_workers p\<rparr> else p)"

definition worker_state_change :: "nat \<Rightarrow> jsstring \<Rightarrow> bool \<Rightarrow> sw_page \<Rightarrow> sw_page" where
  \<comment> \<open>\<open>onstatechange\<close>, with the new state and whether a worker controls the page: \<open>swUpdated\<close> is dispatched\<close>
  "worker_state_change w st controlled p =
     (if List.member (watched_workers p) w \<and> st = ''installed'' \<and> controlled
      then p\<lparr>sw_updates := Suc (sw_updates p)\<rparr> else p)"

datatype sw_page_event =
    MountApp bool bool
  | WindowLoad
  | RegisterAnswer bool
  | UpdateFound "nat option"
  | WorkerState nat jsstring bool

fun sw_page_step :: "sw_page \<Rightarrow> sw_page_event \<Rightarrow> sw_page" where
  "sw_page_step p (MountApp supported production) = registerServiceWorker supported production p"
| "sw_page_step p WindowLoad = window_load p"
| "sw_page_step p (RegisterAnswer ok) = register_answered ok p"
| "sw_page_step p (UpdateFound w) = update_found w p"
| "sw_page_step p (WorkerState w st c) = worker_state_change w st c p"

subsection \<open>The caches\<close>

record response =
  resp_status :: nat
  resp_type :: jsstring
  resp_body :: jsstring

type_synonym cache_storage = "(jsstring \<times> (jsstring \<rightharpoonup> response)) list"

definition open_cache :: "jsstring \<Rightarrow> cache_storage \<Rightarrow> cache_storage" where
  "open_cache name cs = (if List.member (map fst cs) name then cs else cs @ [(name, Map.empty)])"

definition put_cache :: "jsstring \<Rightarrow> jsstring \<Rightarrow> response \<Rightarrow> cache_storage \<Rightarrow> cache_storage" where
  "put_cache name url r cs = map (\<lambda>(n, c). (n, if n = name then c(url \<mapsto> r) else c)) cs"

fun caches_match :: "jsstring \<Rightarrow> cache_storage \<Rightarrow> response option" where
  \<comment> \<open>\<open>caches.match\<close>: the caches in the order of their creation\<close>
  "caches_match url [] = None"
| "caches_match url ((n, c) # cs) = (case c url of None \<Rightarrow> caches_match url cs | Some r \<Rightarrow> Some r)"

definition CACHE_NAME :: jsstring where
  "CACHE_NAME = ''cloudscale-v1''"

definition ASSETS :: "jsstring list" where
  "ASSETS = [''/'', ''/index.html'', ''/manifest.json'', ''/assets/index-BmAWwiwj.css'',
     ''/assets/index-B6ozg_s9.js'', ''/icons/icon-192x192.png'', ''/icons/icon-512x512.png'']"

definition addable :: "response option \<Rightarrow> bool" where
  \<comment> \<open>what \<open>addAll\<close> accepts\<close>
  "addable r = (case r of None \<Rightarrow> False | Some r \<Rightarrow> 200 \<le> resp_status r \<and> resp_status r \<le> 299 \<and> resp_status r \<noteq> 206)"

definition addAll :: "jsstring \<Rightarrow> jsstring list \<Rightarrow> (jsstring \<Rightarrow> response option) \<Rightarrow> cache_storage \<Rightarrow> cache_storage" where
  "addAll name urls net cs =
     (if list_all (\<lambda>u. addable (net u)) urls
      then foldl (\<lambda>cs u. case net u of None \<Rightarrow> cs | Some r \<Rightarrow> put_cache name u r cs) cs urls else cs)"

subsection \<open>The worker\<close>

datatype sw_answer =
    NotHandled
  | Served response
  | NoResponse

record worker =
  sw_caches :: cache_storage
  sw_pending :: "(nat \<times> jsstring) list"
  sw_answers :: "(nat \<times> sw_answer) list"

text \<open>\<open>sw_pending\<close> are the requests forwarded to the network, \<open>sw_answers\<close> what each fetch event came to:
  left to the browser, answered with a response, or answered with \<open>undefined\<close>, which the page sees as a network error.\<close>

definition answer_request :: "nat \<Rightarrow> sw_answer \<Rightarrow> worker \<Rightarrow> worker" where
  "answer_request i a s = s\<lparr>sw_answers := sw_answers s @ [(i, a)]\<rparr>"

definition sw_install :: "jsstring \<Rightarrow> (jsstring \<Rightarrow> response option) \<Rightarrow> worker \<Rightarrow> worker" where
  "sw_install origin net s =
     s\<lparr>sw_caches := addAll CACHE_NAME (map (\<lambda>a. origin @ a) ASSETS) net (open_cache CACHE_NAME (sw_caches s))\<rparr>"

definition sw_activate :: "worker \<Rightarrow> worker" where
  "sw_activate s = s\<lparr>sw_caches := filter (\<lambda>(n, c). n = CACHE_NAME) (sw_caches s)\<rparr>"

definition sw_fetch :: "jsstring \<Rightarrow> nat \<Rightarrow> jsstring \<Rightarrow> jsstring \<Rightarrow> worker \<Rightarrow> worker" where
  "sw_fetch origin i http_method url s =
     (if http_method \<noteq> ''GET'' \<or> \<not> starts_with url origin then answer_request i NotHandled s
      else case caches_match url (sw_caches s) of
        Some r \<Rightarrow> answer_request i (Served r) s
      | None \<Rightarrow> s\<lparr>sw_pending := sw_pending s @ [(i, url)]\<rparr>)"

definition root_page :: "jsstring \<Rightarrow> worker \<Rightarrow> sw_answer" where
  "root_page origin s = (case caches_match (origin @ ''/'') (sw_caches s) of None \<Rightarrow> NoResponse | Some r \<Rightarrow> Served r)"

definition sw_network :: "jsstring \<Rightarrow> nat \<Rightarrow> response option \<Rightarrow> worker \<Rightarrow> worker" where
  \<comment> \<open>the answer to a forwarded request; \<open>None\<close> when the network failed\<close>
  "sw_network origin i net s =
     (case map_of (sw_pending s) i of None \<Rightarrow> s
      | Some url \<Rightarrow>
          let s' = s\<lparr>sw_pending := filter (\<lambda>(j, u). j \<noteq> i) (sw_pending s)\<rparr>
          in case net of
               None \<Rightarrow> answer_request i (root_page origin s') s'
             | Some r \<Rightarrow>
                 if resp_status r \<noteq> 200 \<or> resp_type r \<noteq> ''basic'' then answer_request i (Served r) s'
                 else answer_request i (Served r)
                   (s'\<lparr>sw_caches := put_cache CACHE_NAME url r (open_cache CACHE_NAME (sw_caches s'))\<rparr>))"

datatype sw_event =
    SwInstall "jsstring \<Rightarrow> response option"
  | SwActivate
  | SwFetch nat jsstring jsstring
  | SwNetwork nat "response option"

fun sw_step :: "jsstring \<Rightarrow> worker \<Rightarrow> sw_event \<Rightarrow> worker" where
  "sw_step origin s (SwInstall net) = sw_install origin net s"
| "sw_step origin s SwActivate = sw_activate s"
| "sw_step origin s (SwFetch i m u) = sw_fetch origin i m u s"
| "sw_step origin s (SwNetwork i net) = sw_network origin i net s"

definition new_worker :: "cache_storage \<Rightarrow> worker" where
  "new_worker cs = \<lparr>sw_caches = cs, sw_pending = [], sw_answers = []\<rparr>"

subsection \<open>One cache\<close>

text \<open>Started without caches the worker has at most the one cache it opens.\<close>

definition own_cache :: "cache_storage \<Rightarrow> jsstring \<rightharpoonup> response" where
  "own_cache cs = (case cs of [] \<Rightarrow> Map.empty | (n, c) # _ \<Rightarrow> c)"

definition one_cache :: "cache_storage \<Rightarrow> bool" where
  "one_cache cs = (length cs \<le> 1 \<and> list_all (\<lambda>(n, c). n = CACHE_NAME) cs)"

lemma one_cache_cases:
  assumes "one_cache cs"
  obtains (none) "cs = []" | (one) c where "cs = [(CACHE_NAME, c)]"
  using assms by (cases cs) (auto simp: one_cache_def)

lemma one_cache_open [simp]:
  "one_cache cs \<Longrightarrow> open_cache CACHE_NAME cs = [(CACHE_NAME, own_cache cs)]"
  by (erule one_cache_cases) (simp_all add: open_cache_def own_cache_def)

lemma one_cache_match [simp]: "one_cache cs \<Longrightarrow> caches_match u cs = own_cache cs u"
  by (erule one_cache_cases) (simp_all add: own_cache_def split: option.split)

lemma one_cache_filter [simp]: "one_cache cs \<Longrightarrow> filter (\<lambda>(n, c). n = CACHE_NAME) cs = cs"
  by (erule one_cache_cases) simp_all

lemma put_one [simp]: "put_cache CACHE_NAME u r [(CACHE_NAME, c)] = [(CACHE_NAME, c(u \<mapsto> r))]"
  by (simp add: put_cache_def)

lemma own_cache_one [simp]: "own_cache [(n, c)] = c"
  by (simp add: own_cache_def)

lemma one_cache_one [simp]: "one_cache [(CACHE_NAME, c)]"
  by (simp add: one_cache_def)

definition added :: "(jsstring \<Rightarrow> response option) \<Rightarrow> jsstring list \<Rightarrow> (jsstring \<rightharpoonup> response) \<Rightarrow> jsstring \<rightharpoonup> response" where
  "added net urls c = (if list_all (\<lambda>u. addable (net u)) urls then (\<lambda>u. if List.member urls u then net u else c u) else c)"

lemma foldl_put:
  assumes "list_all (\<lambda>u. addable (net u)) urls"
  shows "foldl (\<lambda>cs u. case net u of None \<Rightarrow> cs | Some r \<Rightarrow> put_cache CACHE_NAME u r cs) [(CACHE_NAME, c)] urls
    = [(CACHE_NAME, \<lambda>u. if u \<in> set urls then net u else c u)]"
  using assms
proof (induction urls arbitrary: c)
  case (Cons v urls)
  then obtain r where r: "net v = Some r" by (auto simp: addable_def split: option.splits)
  have "(\<lambda>u. if u \<in> set urls then net u else (c(v \<mapsto> r)) u) = (\<lambda>u. if u \<in> set (v # urls) then net u else c u)"
    using r by auto
  then show ?case using Cons r by simp
qed simp

lemma addAll_one: "addAll CACHE_NAME urls net [(CACHE_NAME, c)] = [(CACHE_NAME, added net urls c)]"
  by (simp add: addAll_def added_def foldl_put List.member_iff)

subsection \<open>What is cached\<close>

definition cached_ok :: "jsstring \<Rightarrow> jsstring \<Rightarrow> response \<Rightarrow> bool" where
  "cached_ok origin u r =
     (starts_with u origin \<and> 200 \<le> resp_status r \<and> resp_status r \<le> 299 \<and>
      (u \<in> (@) origin ` set ASSETS \<or> resp_status r = 200 \<and> resp_type r = ''basic''))"

definition worker_inv :: "jsstring \<Rightarrow> worker \<Rightarrow> bool" where
  "worker_inv origin s =
     (one_cache (sw_caches s) \<and> (\<forall>u r. own_cache (sw_caches s) u = Some r \<longrightarrow> cached_ok origin u r) \<and>
      list_all (\<lambda>(i, u). starts_with u origin) (sw_pending s))"

lemma starts_with_append [simp]: "starts_with (a @ b) a"
  by (induction a) simp_all

lemma addable_status: "addable (Some r) \<Longrightarrow> 200 \<le> resp_status r \<and> resp_status r \<le> 299"
  by (simp add: addable_def)

lemma added_cases: "added net urls c u = Some r \<Longrightarrow> (u \<in> set urls \<and> addable (Some r)) \<or> c u = Some r"
  by (auto simp: added_def List.member_iff list_all_iff split: if_splits)

lemma answer_request_simps [simp]:
  "sw_caches (answer_request i a s) = sw_caches s" "sw_pending (answer_request i a s) = sw_pending s"
  "sw_answers (answer_request i a s) = sw_answers s @ [(i, a)]"
  by (simp_all add: answer_request_def)

lemma worker_inv_step: "worker_inv origin s \<Longrightarrow> worker_inv origin (sw_step origin s e)"
proof (cases e)
  case (SwInstall net)
  assume inv: "worker_inv origin s"
  have "cached_ok origin u r" if "added net (map ((@) origin) ASSETS) (own_cache (sw_caches s)) u = Some r" for u r
    using added_cases [OF that] inv by (auto simp: cached_ok_def worker_inv_def dest: addable_status)
  then show ?thesis using inv SwInstall by (simp add: worker_inv_def sw_install_def addAll_one)
next
  case (SwNetwork i net)
  assume inv: "worker_inv origin s"
  have p: "list_all (\<lambda>(i, u). starts_with u origin) (filter (\<lambda>(j, u). j \<noteq> i) (sw_pending s))"
    using inv by (auto simp: worker_inv_def list_all_iff)
  have own: "starts_with u origin" if "map_of (sw_pending s) i = Some u" for u
    using inv map_of_SomeD [OF that] by (auto simp: worker_inv_def list_all_iff)
  show ?thesis using inv p own SwNetwork
    by (auto simp: sw_network_def worker_inv_def cached_ok_def Let_def split: option.splits if_splits)
qed (auto simp: worker_inv_def sw_activate_def sw_fetch_def split: option.split)

lemma worker_inv_run: "worker_inv origin s \<Longrightarrow> worker_inv origin (run (sw_step origin) s es)"
  by (induction es arbitrary: s) (simp_all add: worker_inv_step)

lemma new_worker_inv: "worker_inv origin (new_worker [])"
  by (simp add: worker_inv_def new_worker_def one_cache_def own_cache_def)

text \<open>C34. What the worker keeps, over any sequence of events: one cache at most, and in it, beside its list of
  assets, only answers of status 200 and type \<open>basic\<close>, each under an address that begins with the page's
  origin. Nothing but a GET request for such an address is forwarded or answered by the worker.\<close>

theorem cache_holds_own_pages:
  "let s = run (sw_step origin) (new_worker []) es in
   length (sw_caches s) \<le> 1 \<and>
   (caches_match u (sw_caches s) = Some r \<longrightarrow> cached_ok origin u r) \<and>
   (http_method \<noteq> ''GET'' \<or> \<not> starts_with u origin \<longrightarrow>
      sw_step origin s (SwFetch i http_method u) = answer_request i NotHandled s)"
proof -
  define s where "s = run (sw_step origin) (new_worker []) es"
  have inv: "worker_inv origin s" unfolding s_def by (intro worker_inv_run new_worker_inv)
  then have "length (sw_caches s) \<le> 1" by (simp add: worker_inv_def one_cache_def)
  moreover have "cached_ok origin u r" if "caches_match u (sw_caches s) = Some r"
    using inv that by (simp add: worker_inv_def)
  ultimately show ?thesis by (auto simp: s_def [symmetric] Let_def sw_fetch_def)
qed

definition page_answer :: "jsstring \<Rightarrow> response" where
  "page_answer body = \<lparr>resp_status = 200, resp_type = ''basic'', resp_body = body\<rparr>"

lemma page_answer_simps [simp]:
  "resp_status (page_answer b) = 200" "resp_type (page_answer b) = ''basic''" "resp_body (page_answer b) = b"
  by (simp_all add: page_answer_def)

theorem cache_holds_own_pages_witness:
  "let s = run (sw_step ''http://shop'') (new_worker []) [SwFetch 0 ''GET'' ''http://shop/a'', SwNetwork 0 (Some (page_answer ''A''))]
   in caches_match ''http://shop/a'' (sw_caches s) = Some (page_answer ''A'') \<and> cached_ok ''http://shop'' ''http://shop/a'' (page_answer ''A'')"
proof -
  let ?es = "[SwFetch 0 ''GET'' ''http://shop/a'', SwNetwork 0 (Some (page_answer ''A''))]"
  have "caches_match ''http://shop/a'' (sw_caches (run (sw_step ''http://shop'') (new_worker []) ?es)) = Some (page_answer ''A'')"
    by (simp add: new_worker_def sw_fetch_def sw_network_def open_cache_def)
  then show ?thesis
    using cache_holds_own_pages [of "''http://shop''" ?es "''http://shop/a''" "page_answer ''A''" "''POST''" 3]
    by (simp add: Let_def)
qed

subsection \<open>Answers that never change\<close>

definition frozen :: "jsstring \<Rightarrow> jsstring \<Rightarrow> response \<Rightarrow> worker \<Rightarrow> bool" where
  "frozen origin u r s =
     (worker_inv origin s \<and> own_cache (sw_caches s) u = Some r \<and> \<not> List.member (map snd (sw_pending s)) u)"

lemma map_of_pending: "map_of ps i = Some u \<Longrightarrow> u \<in> snd ` set ps"
  by (auto dest: map_of_SomeD intro: image_eqI [rotated])

lemma pending_filter: "u \<notin> snd ` set ps \<Longrightarrow> u \<notin> snd ` set (filter P ps)"
  by auto

lemma frozen_step:
  assumes "frozen origin u r s" "u \<notin> (@) origin ` set ASSETS"
  shows "frozen origin u r (sw_step origin s e)"
proof -
  have w: "worker_inv origin s" using assms(1) by (simp add: frozen_def)
  then have inv: "worker_inv origin (sw_step origin s e)" "one_cache (sw_caches s)"
    by (simp_all only: worker_inv_step) (simp add: worker_inv_def)
  show ?thesis
  proof (cases e)
    case (SwInstall net)
    then show ?thesis using assms inv
      by (auto simp: frozen_def sw_install_def addAll_one added_def List.member_iff)
  next
    case (SwFetch i m v)
    then show ?thesis using assms inv
      by (auto simp: frozen_def sw_fetch_def List.member_iff split: option.split)
  next
    case (SwNetwork i net)
    then show ?thesis using assms inv map_of_pending [of "sw_pending s" i] pending_filter [of u "sw_pending s"]
      by (auto simp: frozen_def sw_network_def Let_def List.member_iff split: option.splits)
  qed (use assms inv in \<open>auto simp: frozen_def sw_activate_def\<close>)
qed

lemma frozen_run:
  "frozen origin u r s \<Longrightarrow> u \<notin> (@) origin ` set ASSETS \<Longrightarrow> frozen origin u r (run (sw_step origin) s es)"
  by (induction es arbitrary: s) (simp_all add: frozen_step)

lemma frozen_answer:
  "frozen origin u r s \<Longrightarrow> sw_step origin s (SwFetch i ''GET'' u) = answer_request i (Served r) s"
  by (simp add: frozen_def worker_inv_def sw_fetch_def cached_ok_def)

lemma answered_frozen:
  assumes "worker_inv origin s" "map_of (sw_pending s) i = Some u" "u \<notin> snd ` set (filter (\<lambda>(j, v). j \<noteq> i) (sw_pending s))"
    and "resp_status r = 200" "resp_type r = ''basic''"
  shows "frozen origin u r (sw_step origin s (SwNetwork i (Some r)))"
  using assms worker_inv_step [OF assms(1), of "SwNetwork i (Some r)"]
  by (auto simp: frozen_def sw_network_def Let_def worker_inv_def List.member_iff)

text \<open>What \<open>loadKillSwitches\<close> makes of an answer, with the page's reading of the body as a parameter.\<close>

definition fetched_of :: "(jsstring \<Rightarrow> ('k \<rightharpoonup> bool) option) \<Rightarrow> sw_answer \<Rightarrow> 'k fetched" where
  "fetched_of json a =
     (case a of
        Served r \<Rightarrow> if 200 \<le> resp_status r \<and> resp_status r \<le> 299
                    then (case json (resp_body r) of None \<Rightarrow> Bad_body | Some m \<Rightarrow> Body m) else Not_ok
      | _ \<Rightarrow> Unreachable)"

text \<open>Kill switches behind the worker. Once the address of the kill switches, an address of the page's origin, has
  been answered with a body, every later loading gets that same body: whatever the server answers from then on,
  whatever else is fetched, installed or activated, and although the page asks with \<open>cache: "no-store"\<close>.
  Maintenance mode can no longer be switched on or off.\<close>

theorem kill_switches_frozen:
  assumes "s = run (sw_step origin) (new_worker []) es"
    and "map_of (sw_pending s) i = Some u" "u \<notin> snd ` set (filter (\<lambda>(j, v). j \<noteq> i) (sw_pending s))"
    and "u \<notin> (@) origin ` set ASSETS" "resp_status r = 200" "resp_type r = ''basic''" "json (resp_body r) = Some m"
  shows "let s' = run (sw_step origin) s (SwNetwork i (Some r) # es' @ [SwFetch j ''GET'' u]);
             c' = loadKillSwitches (fetched_of json (snd (last (sw_answers s')))) c
         in fst (last (sw_answers s')) = j \<and> runtimeKillSwitches c' = m \<and> (isMaintenanceMode c' = (m MaintenanceMode = Some True))"
proof -
  have inv: "worker_inv origin s" unfolding assms(1) by (intro worker_inv_run new_worker_inv)
  define t where "t = run (sw_step origin) s (SwNetwork i (Some r) # es')"
  have "frozen origin u r t"
    unfolding t_def run_Cons by (intro frozen_run answered_frozen inv assms)
  then have f: "sw_step origin t (SwFetch j ''GET'' u) = answer_request j (Served r) t" by (rule frozen_answer)
  have "run (sw_step origin) s (SwNetwork i (Some r) # es' @ [SwFetch j ''GET'' u]) = answer_request j (Served r) t"
    using f by (simp add: t_def run_append)
  then show ?thesis using assms
    by (auto simp: Let_def fetched_of_def loadKillSwitches_def isMaintenanceMode_def getKillSwitches_def
        defaultKillSwitches_def map_add_def split: option.splits)
qed

definition switch_json :: "jsstring \<Rightarrow> (kill_switch \<rightharpoonup> bool) option" where
  "switch_json s = (if s = ''off'' then Some [MaintenanceMode \<mapsto> False] else if s = ''on'' then Some [MaintenanceMode \<mapsto> True] else None)"

theorem kill_switches_frozen_witness:
  "let s = run (sw_step ''http://shop'') (new_worker [])
             [SwFetch 0 ''GET'' ''http://shop/ks'', SwNetwork 0 (Some (page_answer ''off'')),
              SwInstall (\<lambda>u. Some (page_answer ''on'')), SwFetch 1 ''GET'' ''http://shop/ks'']
   in \<not> isMaintenanceMode (loadKillSwitches (fetched_of switch_json (snd (last (sw_answers s)))) initial_config)"
proof -
  define s where "s = run (sw_step ''http://shop'') (new_worker []) [SwFetch 0 ''GET'' ''http://shop/ks'']"
  have p: "sw_pending s = [(0, ''http://shop/ks'')]"
    by (simp add: s_def new_worker_def sw_fetch_def)
  have "map_of (sw_pending s) 0 = Some ''http://shop/ks''" "''http://shop/ks'' \<notin> snd ` set (filter (\<lambda>(j, v). j \<noteq> 0) (sw_pending s))"
    "''http://shop/ks'' \<notin> (@) ''http://shop'' ` set ASSETS" "resp_status (page_answer ''off'') = 200"
    "resp_type (page_answer ''off'') = ''basic''" "switch_json (resp_body (page_answer ''off'')) = Some [MaintenanceMode \<mapsto> False]"
    unfolding p by (simp_all add: ASSETS_def switch_json_def)
  from kill_switches_frozen [where json = switch_json, OF s_def this, of "[SwInstall (\<lambda>u. Some (page_answer ''on''))]" 1 initial_config]
  show ?thesis by (simp add: Let_def s_def)
qed

text \<open>A request that fails on the network is answered with the cached start page, status 200, whatever was
  asked for. The test of the address is a test for a prefix, so this includes the requests to an API whose
  address continues the page's origin, as \<open>http://localhost:8001\<close> continues \<open>http://localhost\<close>: the page gets HTML
  where it expects the products. Without the start page in the cache the request fails, as it would without a worker.\<close>

theorem offline_answer:
  assumes "s = run (sw_step origin) (new_worker []) es"
    and "starts_with u origin" "caches_match u (sw_caches s) = None" "map_of (sw_pending s) i = None"
  shows "let s' = run (sw_step origin) s [SwFetch i ''GET'' u, SwNetwork i None]
         in sw_caches s' = sw_caches s \<and>
            sw_answers s' = sw_answers s @ [(i, case caches_match (origin @ ''/'') (sw_caches s) of None \<Rightarrow> NoResponse | Some p \<Rightarrow> Served p)] \<and>
            sw_pending s' = sw_pending s"
proof -
  have "filter (\<lambda>(j, u). j \<noteq> i) (sw_pending s) = sw_pending s"
    using assms(4) by (auto simp: filter_id_conv map_of_eq_None_iff intro: rev_image_eqI)
  moreover have "map_of (sw_pending s @ [(i, u)]) i = Some u"
    using assms(4) by (simp add: map_add_def)
  ultimately show ?thesis using assms(2,3) by (simp add: sw_fetch_def sw_network_def root_page_def Let_def)
qed

lemma new_worker_install:
  "sw_step origin (new_worker []) (SwInstall net) =
   new_worker [(CACHE_NAME, added net (map ((@) origin) ASSETS) Map.empty)]"
  by (simp add: new_worker_def sw_install_def addAll_one one_cache_def own_cache_def)

theorem offline_answer_witness:
  "let s = run (sw_step ''http://localhost'') (new_worker []) [SwInstall (\<lambda>u. Some (page_answer ''<html>''))]
   in sw_answers (run (sw_step ''http://localhost'') s
        [SwFetch 0 ''GET'' ''http://localhost:8001/api/v1/products'', SwNetwork 0 None]) = [(0, Served (page_answer ''<html>''))]"
proof -
  let ?u = "''http://localhost:8001/api/v1/products''"
  define origin where "origin = ''http://localhost''"
  define s where "s = run (sw_step origin) (new_worker []) [SwInstall (\<lambda>u. Some (page_answer ''<html>''))]"
  have s: "s = new_worker [(CACHE_NAME, added (\<lambda>u. Some (page_answer ''<html>'')) (map ((@) origin) ASSETS) Map.empty)]"
    unfolding s_def run_Cons run_Nil by (rule new_worker_install)
  have r: "caches_match (origin @ ''/'') (sw_caches s) = Some (page_answer ''<html>'')" "sw_answers s = []"
    unfolding s by (simp_all add: new_worker_def added_def ASSETS_def addable_def)
  have "starts_with ?u origin" "caches_match ?u (sw_caches s) = None" "map_of (sw_pending s) 0 = None"
    unfolding s by (simp_all add: new_worker_def added_def ASSETS_def addable_def origin_def)
  from offline_answer [OF s_def this]
  have "sw_answers (run (sw_step origin) s [SwFetch 0 ''GET'' ?u, SwNetwork 0 None]) = [(0, Served (page_answer ''<html>''))]"
    by (simp add: Let_def r)
  then show ?thesis unfolding s_def origin_def Let_def .
qed

subsection \<open>Registering too late\<close>

text \<open>The page registers the worker from a listener for the window's \<open>load\<close> event, which happens once: a call
  after it never registers anything. Until a registration has been answered no update is announced.\<close>

lemma late_registration_step:
  "page_loaded p \<and> sw_registering p = 0 \<and> \<not> sw_watching p \<and> watched_workers p = [] \<and> sw_updates p = 0 \<Longrightarrow>
   let q = sw_page_step p e in
   page_loaded q \<and> sw_registering q = 0 \<and> \<not> sw_watching q \<and> watched_workers q = [] \<and> sw_updates q = 0"
  by (cases e) (auto simp: registerServiceWorker_def window_load_def register_answered_def update_found_def
      worker_state_change_def Let_def split: option.split)

lemma late_registration_run:
  "page_loaded p \<and> sw_registering p = 0 \<and> \<not> sw_watching p \<and> watched_workers p = [] \<and> sw_updates p = 0 \<Longrightarrow>
   sw_registering (run sw_page_step p es) = 0 \<and> sw_updates (run sw_page_step p es) = 0"
  by (induction es arbitrary: p) (use late_registration_step in \<open>simp_all add: Let_def\<close>)

text \<open>When the window has loaded before the application mounts, no worker is ever registered and no update
  announced, whatever follows; when it has not, the load registers one worker per call, in production builds
  of browsers that have them.\<close>

theorem late_registration:
  "sw_registering (run sw_page_step fresh_page (WindowLoad # es)) = 0 \<and>
   sw_updates (run sw_page_step fresh_page (WindowLoad # es)) = 0 \<and>
   sw_registering (run sw_page_step fresh_page [MountApp supported production, WindowLoad]) = (if supported \<and> production then 1 else 0)"
  using late_registration_run [of "window_load fresh_page" es]
  by (simp add: window_load_def fresh_page_def registerServiceWorker_def)

end
