(* ===== verification/Telemetry.thy ===== *)
theory Telemetry
  imports Prelude Js_Number Js_String
begin

text \<open>
  The observability manager, \<open>frontend/src/lib/observability.ts\<close>: the correlation identifier of the
  session, the log of events and errors, the handlers for uncaught errors, and the web vitals with their
  ratings. The console is the list of what was written to it. Identifiers and time stamps come from the
  environment and are arguments; the stack of an error is left out.
\<close>

subsection \<open>Ratings\<close>

datatype rating = Good | NeedsImprovement | Poor

definition rate :: "rat \<Rightarrow> rat \<Rightarrow> rat \<Rightarrow> rating" where
  "rate poor fair v = (if v > poor then Poor else if v > fair then NeedsImprovement else Good)"

definition metric_rating :: "jsstring \<Rightarrow> rat \<Rightarrow> rating" where
  "metric_rating name v =
     (if name = ''LCP'' then rate 4000 2500 v
      else if name = ''FID'' then rate 300 100 v
      else if name = ''CLS'' then rate (1 / 4) (fl (1 / 10)) v
      else Good)"

instantiation rating :: linorder
begin

definition less_eq_rating :: "rating \<Rightarrow> rating \<Rightarrow> bool" where
  \<comment> \<open>from good to poor\<close>
  "less_eq_rating r s = (r = Good \<or> s = Poor \<or> r = s)"

definition less_rating :: "rating \<Rightarrow> rating \<Rightarrow> bool" where
  "less_rating r s = (r \<noteq> s \<and> (r = Good \<or> s = Poor))"

instance
proof
  fix r s t :: rating
  show "r < s \<longleftrightarrow> r \<le> s \<and> \<not> s \<le> r" by (cases r; cases s) (simp_all add: less_eq_rating_def less_rating_def)
  show "r \<le> r" by (simp add: less_eq_rating_def)
  show "r \<le> s \<Longrightarrow> s \<le> t \<Longrightarrow> r \<le> t" by (cases r; cases s; cases t) (simp_all add: less_eq_rating_def)
  show "r \<le> s \<Longrightarrow> s \<le> r \<Longrightarrow> r = s" by (cases r; cases s) (simp_all add: less_eq_rating_def)
  show "r \<le> s \<or> s \<le> r" by (cases r; cases s) (simp_all add: less_eq_rating_def)
qed

end

lemma rate_mono: "fair \<le> poor \<Longrightarrow> v \<le> w \<Longrightarrow> rate poor fair v \<le> rate poor fair w"
  by (auto simp: rate_def less_eq_rating_def)

lemma fair_cls: "fl (1 / 10) \<le> 1 / 4"
  by code_simp

lemma metric_rating_mono: "v \<le> w \<Longrightarrow> metric_rating name v \<le> metric_rating name w"
  by (simp add: metric_rating_def rate_mono rate_mono [OF fair_cls])

subsection \<open>The manager\<close>

datatype telemetry_value =
    LogText jsstring
  | LogNumber rat
  | LogRating rating

datatype log_level = LogInfo | LogError

record log_entry =
  log_level :: log_level
  log_text :: jsstring
  log_attributes :: "jsstring \<rightharpoonup> telemetry_value"

record telemetry =
  correlation_id :: "jsstring option"
  exposed_id :: "jsstring option"
  cls_value :: rat
  telemetry_log :: "log_entry list"

text \<open>\<open>exposed_id\<close> is the copy of the identifier on the window. What a call needs from the environment:\<close>

record log_env =
  log_stamp :: jsstring
  log_uuid :: jsstring

definition generateCorrelationId :: "jsstring \<Rightarrow> telemetry \<Rightarrow> telemetry" where
  "generateCorrelationId uuid t = t\<lparr>correlation_id := Some uuid, exposed_id := Some uuid\<rparr>"

definition getCorrelationId :: "jsstring \<Rightarrow> telemetry \<Rightarrow> telemetry \<times> jsstring" where
  "getCorrelationId uuid t =
     (case correlation_id t of
        Some (c # cs) \<Rightarrow> (t, c # cs)
      | _ \<Rightarrow> (generateCorrelationId uuid t, uuid))"

definition write_log :: "log_level \<Rightarrow> jsstring \<Rightarrow> (jsstring \<rightharpoonup> telemetry_value) \<Rightarrow> log_env \<Rightarrow> telemetry \<Rightarrow> telemetry" where
  "write_log level text attributes e t =
     (let (t', i) = getCorrelationId (log_uuid e) t
      in t'\<lparr>telemetry_log := telemetry_log t' @
           [\<lparr>log_level = level, log_text = text,
             log_attributes = attributes(''correlationId'' \<mapsto> LogText i, ''timestamp'' \<mapsto> LogText (log_stamp e))\<rparr>]\<rparr>)"

definition logEvent :: "jsstring \<Rightarrow> (jsstring \<rightharpoonup> telemetry_value) \<Rightarrow> log_env \<Rightarrow> telemetry \<Rightarrow> telemetry" where
  "logEvent name attributes = write_log LogInfo (''[Telemetry Event] '' @ name @ '':'') attributes"

definition logError :: "jsstring \<Rightarrow> (jsstring \<rightharpoonup> telemetry_value) \<Rightarrow> log_env \<Rightarrow> telemetry \<Rightarrow> telemetry" where
  "logError message attributes = write_log LogError (''[Telemetry Error] '' @ message @ '':'') attributes"

definition logMetric :: "jsstring \<Rightarrow> rat \<Rightarrow> log_env \<Rightarrow> telemetry \<Rightarrow> telemetry" where
  "logMetric name v =
     logEvent ''web-vital''
       [''metricName'' \<mapsto> LogText name, ''metricValue'' \<mapsto> LogNumber v, ''rating'' \<mapsto> LogRating (metric_rating name v)]"

definition new_telemetry :: "jsstring \<Rightarrow> telemetry" where
  \<comment> \<open>the constructor, in a browser\<close>
  "new_telemetry uuid =
     generateCorrelationId uuid \<lparr>correlation_id = None, exposed_id = None, cls_value = 0, telemetry_log = []\<rparr>"

subsection \<open>Handlers and observers\<close>

text \<open>What was rejected: an error with its message, or another value with its text. The entries of
  a performance observer: start times, or the input's timing, or a layout shift.\<close>

datatype rejection_reason = ErrorReason jsstring | OtherReason jsstring

definition unhandled_rejection :: "rejection_reason \<Rightarrow> log_env \<Rightarrow> telemetry \<Rightarrow> telemetry" where
  "unhandled_rejection r =
     logError (case r of ErrorReason m \<Rightarrow> m | OtherReason s \<Rightarrow> s) [''type'' \<mapsto> LogText ''unhandled-promise-rejection'']"

definition window_error :: "jsstring option \<Rightarrow> jsstring \<Rightarrow> nat \<Rightarrow> log_env \<Rightarrow> telemetry \<Rightarrow> telemetry" where
  "window_error error filename lineno e t =
     (case error of None \<Rightarrow> t
      | Some m \<Rightarrow> logError m [''type'' \<mapsto> LogText ''uncaught-error'', ''filename'' \<mapsto> LogText filename,
                    ''lineno'' \<mapsto> LogNumber (of_nat lineno)] e t)"

record input_timing =
  startTime :: rat
  processingStart :: rat
  duration :: rat

record layout_shift =
  hadRecentInput :: bool
  shift_value :: rat

definition lcp_observed :: "rat list \<Rightarrow> log_env \<Rightarrow> telemetry \<Rightarrow> telemetry" where
  \<comment> \<open>start times; the observer is never called without entries\<close>
  "lcp_observed starts e t = (if starts = [] then t else logMetric ''LCP'' (last starts) e t)"

definition fid_observed :: "input_timing list \<Rightarrow> log_env \<Rightarrow> telemetry \<Rightarrow> telemetry" where
  "fid_observed entries e t = foldl (\<lambda>t entry. logMetric ''FID'' (duration entry) e t) t entries"

definition cls_observed :: "layout_shift list \<Rightarrow> log_env \<Rightarrow> telemetry \<Rightarrow> telemetry" where
  "cls_observed entries e t =
     (let v = foldl (\<lambda>v entry. if hadRecentInput entry then v else nplus v (shift_value entry)) (cls_value t) entries
      in logMetric ''CLS'' v e (t\<lparr>cls_value := v\<rparr>))"

datatype telemetry_event =
    Rejection rejection_reason
  | WindowError "jsstring option" jsstring nat
  | LargestPaint "rat list"
  | FirstInput "input_timing list"
  | LayoutShifts "layout_shift list"
  | AppEvent jsstring "jsstring \<rightharpoonup> telemetry_value"
  | AppError jsstring "jsstring \<rightharpoonup> telemetry_value"
  | AskCorrelationId

fun telemetry_step :: "telemetry \<Rightarrow> telemetry_event \<times> log_env \<Rightarrow> telemetry" where
  "telemetry_step t (Rejection r, e) = unhandled_rejection r e t"
| "telemetry_step t (WindowError m f l, e) = window_error m f l e t"
| "telemetry_step t (LargestPaint ss, e) = lcp_observed ss e t"
| "telemetry_step t (FirstInput es, e) = fid_observed es e t"
| "telemetry_step t (LayoutShifts ss, e) = cls_observed ss e t"
| "telemetry_step t (AppEvent n a, e) = logEvent n a e t"
| "telemetry_step t (AppError m a, e) = logError m a e t"
| "telemetry_step t (AskCorrelationId, e) = fst (getCorrelationId (log_uuid e) t)"

subsection \<open>One identifier for the session\<close>

definition telemetry_inv :: "jsstring \<Rightarrow> telemetry \<Rightarrow> bool" where
  "telemetry_inv uuid t =
     (correlation_id t = Some uuid \<and> exposed_id t = Some uuid \<and>
      list_all (\<lambda>l. log_attributes l ''correlationId'' = Some (LogText uuid)) (telemetry_log t))"

lemma telemetry_inv_write:
  "telemetry_inv uuid t \<Longrightarrow> uuid \<noteq> [] \<Longrightarrow> telemetry_inv uuid (write_log l x a e t)"
  by (cases uuid) (auto simp: telemetry_inv_def write_log_def getCorrelationId_def)

lemmas telemetry_calls = logEvent_def logError_def logMetric_def unhandled_rejection_def

lemma telemetry_inv_fid:
  "telemetry_inv uuid t \<Longrightarrow> uuid \<noteq> [] \<Longrightarrow> telemetry_inv uuid (fid_observed es e t)"
  unfolding fid_observed_def by (induction es arbitrary: t) (simp_all add: telemetry_calls telemetry_inv_write)

lemma telemetry_inv_cls: "telemetry_inv uuid t \<Longrightarrow> telemetry_inv uuid (t\<lparr>cls_value := v\<rparr>)"
  by (simp add: telemetry_inv_def)

lemma telemetry_inv_ask:
  "telemetry_inv uuid t \<Longrightarrow> uuid \<noteq> [] \<Longrightarrow> telemetry_inv uuid (fst (getCorrelationId i t))"
  by (cases uuid) (simp_all add: telemetry_inv_def getCorrelationId_def)

lemma telemetry_inv_step:
  "telemetry_inv uuid t \<Longrightarrow> uuid \<noteq> [] \<Longrightarrow> telemetry_inv uuid (telemetry_step t e)"
  by (cases "(t, e)" rule: telemetry_step.cases)
    (simp_all add: telemetry_calls telemetry_inv_write telemetry_inv_fid telemetry_inv_cls telemetry_inv_ask window_error_def
      lcp_observed_def cls_observed_def Let_def split: option.split)

lemma telemetry_inv_run:
  "telemetry_inv uuid t \<Longrightarrow> uuid \<noteq> [] \<Longrightarrow> telemetry_inv uuid (run telemetry_step t es)"
  by (induction es arbitrary: t) (simp_all add: telemetry_inv_step)

subsection \<open>The layout shift score\<close>

text \<open>The shifts that count among the events of a session, in their order.\<close>

definition counted :: "layout_shift list \<Rightarrow> rat list" where
  "counted ss = map shift_value (filter (\<lambda>s. \<not> hadRecentInput s) ss)"

definition session_shifts :: "(telemetry_event \<times> log_env) list \<Rightarrow> rat list" where
  "session_shifts es = concat (map (\<lambda>(e, l). case e of LayoutShifts ss \<Rightarrow> counted ss | _ \<Rightarrow> []) es)"

lemma foldl_counted:
  "foldl (\<lambda>v entry. if hadRecentInput entry then v else nplus v (shift_value entry)) v ss = foldl nplus v (counted ss)"
  by (induction ss arbitrary: v) (simp_all add: counted_def)

lemma cls_value_write [simp]: "cls_value (write_log l x a e t) = cls_value t"
  by (simp add: write_log_def getCorrelationId_def generateCorrelationId_def Let_def split: option.split list.split)

lemma cls_value_ask [simp]: "cls_value (fst (getCorrelationId i t)) = cls_value t"
  by (simp add: getCorrelationId_def generateCorrelationId_def split: option.split list.split)

lemma cls_value_fid [simp]: "cls_value (fid_observed es e t) = cls_value t"
  unfolding fid_observed_def by (induction es arbitrary: t) (simp_all add: telemetry_calls)

lemma cls_value_step:
  "cls_value (telemetry_step t e) = foldl nplus (cls_value t) (session_shifts [e])"
  by (cases "(t, e)" rule: telemetry_step.cases)
    (simp_all add: session_shifts_def telemetry_calls window_error_def lcp_observed_def cls_observed_def foldl_counted
      Let_def split: option.split)

lemma session_shifts_Cons: "session_shifts (e # es) = session_shifts [e] @ session_shifts es"
  by (simp add: session_shifts_def)

lemma cls_value_run:
  "cls_value (run telemetry_step t es) = foldl nplus (cls_value t) (session_shifts es)"
  by (induction es arbitrary: t)
    (simp_all add: session_shifts_Cons [of _ "_ # _"] session_shifts_Cons [of _ es for es] cls_value_step session_shifts_def)

lemma foldl_nplus_grows:
  "fl v = v \<Longrightarrow> list_all (\<lambda>x. 0 \<le> x) xs \<Longrightarrow> v \<le> foldl nplus v xs"
proof (induction xs arbitrary: v)
  case (Cons x xs)
  have "v \<le> nplus v x" using nplus_mono [of v v 0 x] Cons.prems by simp
  also have "\<dots> \<le> foldl nplus (nplus v x) xs" using Cons by simp
  finally show ?case by simp
qed simp

lemma fl_foldl_nplus: "fl v = v \<Longrightarrow> fl (foldl nplus v xs) = foldl nplus v xs"
  by (induction xs arbitrary: v) simp_all

lemma counted_nonneg: "list_all (\<lambda>s. 0 \<le> shift_value s) ss \<Longrightarrow> list_all (\<lambda>x. 0 \<le> x) (counted ss)"
  by (auto simp: counted_def list_all_iff)

text \<open>Over any session: the correlation identifier is the one made when the manager was made, the copy on the
  window agrees with it, every line of the log carries it, also where the caller passed an attribute of that name,
  and the layout shift score is the floating-point sum of the shifts without recent input, in the order they
  were observed.\<close>

theorem telemetry_session:
  assumes "uuid \<noteq> []"
  shows "let t = run telemetry_step (new_telemetry uuid) es in
     correlation_id t = Some uuid \<and> exposed_id t = Some uuid \<and>
     list_all (\<lambda>l. log_attributes l ''correlationId'' = Some (LogText uuid)) (telemetry_log t) \<and>
     cls_value t = foldl nplus 0 (session_shifts es)"
proof -
  have "telemetry_inv uuid (new_telemetry uuid)"
    by (simp add: telemetry_inv_def new_telemetry_def generateCorrelationId_def)
  from telemetry_inv_run [OF this assms, of es] show ?thesis
    by (simp add: telemetry_inv_def cls_value_run Let_def) (simp add: new_telemetry_def generateCorrelationId_def)
qed

theorem telemetry_session_witness:
  "correlation_id (run telemetry_step (new_telemetry ''u1'') [(AppError ''x'' Map.empty, \<lparr>log_stamp = ''t'', log_uuid = ''u2''\<rparr>)]) = Some ''u1''"
  using telemetry_session [of "''u1''" "[(AppError ''x'' Map.empty, \<lparr>log_stamp = ''t'', log_uuid = ''u2''\<rparr>)]"]
  by (simp add: Let_def)

text \<open>As shifts are never negative, the rating of the layout shift score never gets better during a session.\<close>

theorem cls_rating_never_improves:
  assumes "list_all (\<lambda>x. 0 \<le> x) (session_shifts es')"
  shows "let t = run telemetry_step (new_telemetry uuid) es in
     metric_rating ''CLS'' (cls_value t) \<le> metric_rating ''CLS'' (cls_value (run telemetry_step t es'))"
proof -
  define t where "t = run telemetry_step (new_telemetry uuid) es"
  have "fl (cls_value t) = cls_value t"
    unfolding t_def cls_value_run by (rule fl_foldl_nplus) (simp add: new_telemetry_def generateCorrelationId_def)
  from foldl_nplus_grows [OF this assms] show ?thesis
    by (simp add: Let_def t_def [symmetric] cls_value_run [of t] metric_rating_mono)
qed

theorem cls_rating_never_improves_witness:
  "metric_rating ''CLS'' (cls_value (new_telemetry ''u'')) \<le>
   metric_rating ''CLS'' (cls_value (run telemetry_step (new_telemetry ''u'')
     [(LayoutShifts [\<lparr>hadRecentInput = False, shift_value = 1\<rparr>], \<lparr>log_stamp = [], log_uuid = []\<rparr>)]))"
proof -
  let ?es = "[(LayoutShifts [\<lparr>hadRecentInput = False, shift_value = 1\<rparr>], \<lparr>log_stamp = [], log_uuid = []\<rparr>)]"
  have "list_all (\<lambda>x. 0 \<le> x) (session_shifts ?es)" by (simp add: session_shifts_def counted_def)
  from cls_rating_never_improves [OF this, of "''u''" "[]"] show ?thesis by (simp add: Let_def)
qed

text \<open>The first input delay is the time from the input to the start of its handler. What is reported under that name is
  the duration of the whole event, up to the next paint: an input handled after five milliseconds is rated poor
  when its event took long.\<close>

theorem fid_reports_duration:
  "telemetry_log (fid_observed [i] e t) = telemetry_log t @
     [\<lparr>log_level = LogInfo, log_text = ''[Telemetry Event] web-vital:'',
       log_attributes = [''metricName'' \<mapsto> LogText ''FID'', ''metricValue'' \<mapsto> LogNumber (duration i),
         ''rating'' \<mapsto> LogRating (metric_rating ''FID'' (duration i)),
         ''correlationId'' \<mapsto> LogText (snd (getCorrelationId (log_uuid e) t)), ''timestamp'' \<mapsto> LogText (log_stamp e)]\<rparr>] \<and>
   metric_rating ''FID'' (processingStart \<lparr>startTime = 0, processingStart = 5, duration = 400\<rparr> - 0) = Good \<and>
   metric_rating ''FID'' (duration \<lparr>startTime = 0, processingStart = 5, duration = 400\<rparr>) = Poor"
  by (auto simp: fid_observed_def logMetric_def logEvent_def write_log_def Let_def getCorrelationId_def
      generateCorrelationId_def metric_rating_def rate_def split: option.split list.split prod.split)

end
