(* ===== verification/Document_Head.thy ===== *)
theory Document_Head
  imports Prelude Jsx Js_String
begin

text \<open>
  The document's head, \<open>frontend/src/components/SEO.tsx\<close>: the effect of the \<open>SEO\<close> component on the
  title, the \<open>meta\<close> elements, the canonical link and the structured data. The head is the list of
  its elements; \<open>querySelector\<close> finds the first that matches. The structured data is given by its
  JSON text, the origin and the address of the page are arguments.
\<close>

subsection \<open>Elements\<close>

datatype meta_attr = NameMeta | PropertyMeta

datatype head_element =
    Meta meta_attr jsstring jsstring
  | HeadLink jsstring jsstring
  | HeadScript jsstring jsstring
  | OtherElement jsstring

record document_head =
  head_title :: jsstring
  head_elements :: "head_element list"

definition index_head :: document_head where
  \<comment> \<open>\<open>frontend/index.html\<close>\<close>
  "index_head = \<lparr>head_title = ''frontend'',
     head_elements = [OtherElement ''charset'', HeadLink ''icon'' ''/favicon.svg'',
       Meta NameMeta ''viewport'' ''width=device-width, initial-scale=1.0'']\<rparr>"

fun meta_content :: "meta_attr \<times> jsstring \<Rightarrow> head_element list \<Rightarrow> jsstring option" where
  "meta_content k [] = None"
| "meta_content k (Meta a n c # es) = (if k = (a, n) then Some c else meta_content k es)"
| "meta_content k (_ # es) = meta_content k es"

fun setMeta :: "meta_attr \<times> jsstring \<Rightarrow> jsstring \<Rightarrow> head_element list \<Rightarrow> head_element list" where
  "setMeta k v [] = [Meta (fst k) (snd k) v]"
| "setMeta k v (Meta a n c # es) = (if k = (a, n) then Meta a n v # es else Meta a n c # setMeta k v es)"
| "setMeta k v (e # es) = e # setMeta k v es"

fun link_href :: "jsstring \<Rightarrow> head_element list \<Rightarrow> jsstring option" where
  "link_href r [] = None"
| "link_href r (HeadLink n h # es) = (if r = n then Some h else link_href r es)"
| "link_href r (_ # es) = link_href r es"

fun setLink :: "jsstring \<Rightarrow> jsstring \<Rightarrow> head_element list \<Rightarrow> head_element list" where
  "setLink r v [] = [HeadLink r v]"
| "setLink r v (HeadLink n h # es) = (if r = n then HeadLink n v # es else HeadLink n h # setLink r v es)"
| "setLink r v (e # es) = e # setLink r v es"

fun remove_script :: "jsstring \<Rightarrow> head_element list \<Rightarrow> head_element list" where
  "remove_script i [] = []"
| "remove_script i (HeadScript j s # es) = (if i = j then es else HeadScript j s # remove_script i es)"
| "remove_script i (e # es) = e # remove_script i es"

subsection \<open>The component\<close>

record seo_props =
  seo_title :: "jsstring option"
  seo_description :: "jsstring option"
  seo_canonical :: "jsstring option"
  seo_ogImage :: "jsstring option"
  seo_ogType :: "jsstring option"
  seo_twitterCard :: "jsstring option"
  seo_structuredData :: "jsstring option"
  seo_noindex :: bool

definition or_default :: "jsstring option \<Rightarrow> jsstring \<Rightarrow> jsstring" where
  \<comment> \<open>the default of a property that is not given\<close>
  "or_default x d = (case x of None \<Rightarrow> d | Some s \<Rightarrow> s)"

definition BASE_TITLE :: jsstring where
  "BASE_TITLE = ''CloudScale Commerce''"

definition description_of :: "seo_props \<Rightarrow> jsstring" where
  "description_of p = or_default (seo_description p)
     ''Enterprise cloud-native commerce platform built with microservices, event-driven architecture, and production-grade observability.''"

definition image_url :: "jsstring \<Rightarrow> seo_props \<Rightarrow> jsstring" where
  "image_url origin p =
     (let i = or_default (seo_ogImage p) ''/og-image.png'' in if starts_with i ''http'' then i else origin @ i)"

definition seo_metas :: "jsstring \<Rightarrow> jsstring \<Rightarrow> seo_props \<Rightarrow> ((meta_attr \<times> jsstring) \<times> jsstring) list" where
  "seo_metas origin href p =
     [((NameMeta, ''description''), description_of p),
      ((NameMeta, ''robots''), if seo_noindex p then ''noindex, nofollow'' else ''index, follow''),
      ((PropertyMeta, ''og:title''), str_or (seo_title p) BASE_TITLE),
      ((PropertyMeta, ''og:description''), description_of p),
      ((PropertyMeta, ''og:type''), or_default (seo_ogType p) ''website''),
      ((PropertyMeta, ''og:image''), image_url origin p),
      ((PropertyMeta, ''og:url''), str_or (seo_canonical p) href),
      ((PropertyMeta, ''og:site_name''), BASE_TITLE),
      ((NameMeta, ''twitter:card''), or_default (seo_twitterCard p) ''summary_large_image''),
      ((NameMeta, ''twitter:title''), str_or (seo_title p) BASE_TITLE),
      ((NameMeta, ''twitter:description''), description_of p),
      ((NameMeta, ''twitter:image''), image_url origin p)]"

definition seo_effect :: "jsstring \<Rightarrow> document_head \<Rightarrow> jsstring \<times> seo_props \<Rightarrow> document_head" where
  \<comment> \<open>the effect, for the page's address and the properties it was rendered with\<close>
  "seo_effect origin d hp =
     (let (href, p) = hp;
          es1 = foldl (\<lambda>es (k, v). setMeta k v es) (head_elements d) (seo_metas origin href p);
          es2 = (case seo_canonical p of None \<Rightarrow> es1 | Some c \<Rightarrow> if c = [] then es1 else setLink ''canonical'' c es1);
          es3 = remove_script ''structured-data'' es2;
          es4 = (case seo_structuredData p of None \<Rightarrow> es3 | Some j \<Rightarrow> es3 @ [HeadScript ''structured-data'' j])
      in \<lparr>head_title = (if truthy (seo_title p) then str_or (seo_title p) '''' @ '' | '' @ BASE_TITLE else BASE_TITLE),
          head_elements = es4\<rparr>)"

subsection \<open>Keyed elements\<close>

text \<open>What setting a \<open>meta\<close> element and setting a link have in common: the value is found again
  under its key, other keys keep theirs, and no key gets a second element.\<close>

locale keyed_elements =
  fixes get :: "'k \<Rightarrow> 's \<Rightarrow> 'v option"
    and put :: "'k \<Rightarrow> 'v \<Rightarrow> 's \<Rightarrow> 's"
    and uses :: "'k \<Rightarrow> 's \<Rightarrow> nat"
  assumes get_put: "get k (put j v s) = (if k = j then Some v else get k s)"
    and uses_put: "uses k (put j v s) = (if k = j \<and> uses k s = 0 then 1 else uses k s)"
begin

lemma get_puts:
  "get k (foldl (\<lambda>s (j, v). put j v s) s kvs) = (case map_of (rev kvs) k of None \<Rightarrow> get k s | Some v \<Rightarrow> Some v)"
proof (induction kvs rule: rev_induct)
  case (snoc kv kvs)
  then show ?case by (cases kv) (simp add: get_put)
qed simp

lemma uses_puts: "uses k s \<le> 1 \<Longrightarrow> uses k (foldl (\<lambda>s (j, v). put j v s) s kvs) \<le> 1"
proof (induction kvs rule: rev_induct)
  case (snoc kv kvs)
  then show ?case by (cases kv) (simp add: uses_put)
qed simp

lemma put_again: "get k (put k w (put k v s)) = Some w"
  by (simp add: get_put)

end

fun meta_uses :: "meta_attr \<times> jsstring \<Rightarrow> head_element list \<Rightarrow> nat" where
  "meta_uses k [] = 0"
| "meta_uses k (Meta a n c # es) = (if k = (a, n) then 1 else 0) + meta_uses k es"
| "meta_uses k (_ # es) = meta_uses k es"

fun link_uses :: "jsstring \<Rightarrow> head_element list \<Rightarrow> nat" where
  "link_uses r [] = 0"
| "link_uses r (HeadLink n h # es) = (if r = n then 1 else 0) + link_uses r es"
| "link_uses r (_ # es) = link_uses r es"

fun script_uses :: "jsstring \<Rightarrow> head_element list \<Rightarrow> nat" where
  "script_uses i [] = 0"
| "script_uses i (HeadScript j s # es) = (if i = j then 1 else 0) + script_uses i es"
| "script_uses i (_ # es) = script_uses i es"

interpretation metas: keyed_elements meta_content setMeta meta_uses
proof
  fix k j v s
  show "meta_content k (setMeta j v s) = (if k = j then Some v else meta_content k s)"
    by (induction j v s rule: setMeta.induct) auto
  show "meta_uses k (setMeta j v s) = (if k = j \<and> meta_uses k s = 0 then 1 else meta_uses k s)"
  proof (induction j v s rule: setMeta.induct)
    case (2 j v a n c es)
    then show ?case by (cases "j = (a, n)") auto
  qed auto
qed

interpretation head_links: keyed_elements link_href setLink link_uses
proof
  fix k j v s
  show "link_href k (setLink j v s) = (if k = j then Some v else link_href k s)"
    by (induction j v s rule: setLink.induct) auto
  show "link_uses k (setLink j v s) = (if k = j \<and> link_uses k s = 0 then 1 else link_uses k s)"
    by (induction j v s rule: setLink.induct) auto
qed

subsection \<open>The head after the effects\<close>

text \<open>The operations on one kind of element leave the other kinds alone.\<close>

lemma setMeta_frame [simp]:
  "link_href r (setMeta k v es) = link_href r es" "link_uses r (setMeta k v es) = link_uses r es"
  "script_uses i (setMeta k v es) = script_uses i es"
  by (induction k v es rule: setMeta.induct) auto

lemma setLink_frame [simp]:
  "meta_content k (setLink r v es) = meta_content k es" "meta_uses k (setLink r v es) = meta_uses k es"
  "script_uses i (setLink r v es) = script_uses i es"
  by (induction r v es rule: setLink.induct) auto

lemma remove_script_frame [simp]:
  "meta_content k (remove_script i es) = meta_content k es" "meta_uses k (remove_script i es) = meta_uses k es"
  "link_href r (remove_script i es) = link_href r es" "link_uses r (remove_script i es) = link_uses r es"
  by (induction i es rule: remove_script.induct) auto

lemma remove_script_uses [simp]: "script_uses j (remove_script i es) = (if i = j then script_uses j es - 1 else script_uses j es)"
  by (induction i es rule: remove_script.induct) auto

lemma head_append [simp]:
  "meta_content k (es @ [HeadScript i s]) = meta_content k es" "meta_uses k (es @ [HeadScript i s]) = meta_uses k es"
  "link_href r (es @ [HeadScript i s]) = link_href r es" "link_uses r (es @ [HeadScript i s]) = link_uses r es"
  "script_uses j (es @ [HeadScript i s]) = script_uses j es + (if i = j then 1 else 0)"
  subgoal by (induction k es rule: meta_content.induct) simp_all
  subgoal by (induction k es rule: meta_uses.induct) simp_all
  subgoal by (induction r es rule: link_href.induct) simp_all
  subgoal by (induction r es rule: link_uses.induct) simp_all
  subgoal by (induction j es rule: script_uses.induct) simp_all
  done

lemma effect_elements:
  "meta_content k (head_elements (seo_effect origin d (href, p))) =
     (case map_of (rev (seo_metas origin href p)) k of None \<Rightarrow> meta_content k (head_elements d) | Some v \<Rightarrow> Some v)"
  "link_href r (head_elements (seo_effect origin d (href, p))) =
     (if r = ''canonical'' \<and> truthy (seo_canonical p) then seo_canonical p else link_href r (head_elements d))"
  "script_uses ''structured-data'' (head_elements (seo_effect origin d (href, p))) =
     script_uses ''structured-data'' (head_elements d) - 1 + (if seo_structuredData p = None then 0 else 1)"
proof -
  have frame: "link_href r (foldl (\<lambda>es (k, v). setMeta k v es) es kvs) = link_href r es"
    "script_uses i (foldl (\<lambda>es (k, v). setMeta k v es) es kvs) = script_uses i es" for r i es kvs
    by (induction kvs arbitrary: es) auto
  show "meta_content k (head_elements (seo_effect origin d (href, p))) =
     (case map_of (rev (seo_metas origin href p)) k of None \<Rightarrow> meta_content k (head_elements d) | Some v \<Rightarrow> Some v)"
    by (simp add: seo_effect_def Let_def metas.get_puts split: option.split)
  show "link_href r (head_elements (seo_effect origin d (href, p))) =
     (if r = ''canonical'' \<and> truthy (seo_canonical p) then seo_canonical p else link_href r (head_elements d))"
    by (simp add: seo_effect_def Let_def frame head_links.get_put truthy_def split: option.split)
  show "script_uses ''structured-data'' (head_elements (seo_effect origin d (href, p))) =
     script_uses ''structured-data'' (head_elements d) - 1 + (if seo_structuredData p = None then 0 else 1)"
    by (simp add: seo_effect_def Let_def frame split: option.split)
qed

definition head_inv :: "document_head \<Rightarrow> bool" where
  "head_inv d =
     ((\<forall>k. meta_uses k (head_elements d) \<le> 1) \<and> (\<forall>r. link_uses r (head_elements d) \<le> 1) \<and>
      script_uses ''structured-data'' (head_elements d) \<le> 1)"

lemma head_invD:
  assumes "head_inv d"
  shows "meta_uses k (head_elements d) \<le> 1" "link_uses r (head_elements d) \<le> 1"
    "script_uses ''structured-data'' (head_elements d) \<le> 1"
  using assms by (simp_all only: head_inv_def)

lemma head_inv_effect:
  assumes "head_inv d"
  shows "head_inv (seo_effect origin d hp)"
proof (cases hp)
  case (Pair href p)
  have frame: "link_uses r (foldl (\<lambda>es (k, v). setMeta k v es) es kvs) = link_uses r es" for r es kvs
    by (induction kvs arbitrary: es) auto
  have "meta_uses k (head_elements (seo_effect origin d hp)) \<le> 1" for k
    using metas.uses_puts [OF head_invD(1) [OF assms], of k "seo_metas origin href p"]
    by (simp add: Pair seo_effect_def Let_def split: option.split)
  moreover have "link_uses r (head_elements (seo_effect origin d hp)) \<le> 1" for r
    using head_invD(2) [OF assms, of r] by (simp add: Pair seo_effect_def Let_def frame head_links.uses_put split: option.split)
  ultimately show ?thesis using head_invD(3) [OF assms] unfolding Pair by (simp add: head_inv_def effect_elements(3))
qed

lemma head_inv_run: "head_inv d \<Longrightarrow> head_inv (run (seo_effect origin) d hps)"
  by (induction hps arbitrary: d) (simp_all add: head_inv_effect)

lemma index_head_inv: "head_inv index_head"
  by (simp add: head_inv_def index_head_def)

text \<open>Whatever pages were shown, the head says what the page shown last asks for: its title, and for each name
  the content of that page's properties, defaults included. No name has a second \<open>meta\<close> element, no relation a
  second link, and structured data is there exactly when the last page has some.\<close>

theorem head_shows_last_page:
  "let d = run (seo_effect origin) index_head (hps @ [(href, p)]) in
   head_title d = (if truthy (seo_title p) then str_or (seo_title p) '''' @ '' | CloudScale Commerce'' else ''CloudScale Commerce'') \<and>
   list_all (\<lambda>(k, v). meta_content k (head_elements d) = Some v) (seo_metas origin href p) \<and>
   meta_uses k (head_elements d) \<le> 1 \<and> link_uses r (head_elements d) \<le> 1 \<and>
   script_uses ''structured-data'' (head_elements d) = (if seo_structuredData p = None then 0 else 1)"
proof -
  define d where "d = run (seo_effect origin) index_head hps"
  have inv: "head_inv d" "head_inv (seo_effect origin d (href, p))"
    unfolding d_def by (intro head_inv_effect head_inv_run index_head_inv)+
  have title: "head_title (seo_effect origin d (href, p)) =
      (if truthy (seo_title p) then str_or (seo_title p) '''' @ '' | CloudScale Commerce'' else ''CloudScale Commerce'')"
    by (simp add: seo_effect_def Let_def BASE_TITLE_def)
  have "list_all (\<lambda>(k, v). meta_content k (head_elements (seo_effect origin d (href, p))) = Some v) (seo_metas origin href p)"
    unfolding effect_elements by (simp add: seo_metas_def)
  then show ?thesis
    using head_invD(1) [OF inv(2), of k] head_invD(2) [OF inv(2), of r] head_invD(3) [OF inv(1)] title
    by (simp add: run_append d_def [symmetric] Let_def effect_elements(3))
qed

lemma link_href_run:
  "list_all (\<lambda>(h, p). \<not> truthy (seo_canonical p)) hps \<Longrightarrow>
   link_href r (head_elements (run (seo_effect origin) d hps)) = link_href r (head_elements d)"
  by (induction hps arbitrary: d) (auto simp: effect_elements)

text \<open>The canonical link is set but never removed: after a page with a canonical address, every later page
  without one is served with the earlier page's address as its canonical address, beside its own address in
  \<open>og:url\<close>.\<close>

theorem canonical_outlives_page:
  assumes "seo_canonical p = Some c" "c \<noteq> []" "list_all (\<lambda>(h, p). \<not> truthy (seo_canonical p)) hps" "\<not> truthy (seo_canonical q)"
  shows "let d = run (seo_effect origin) d0 ((href, p) # hps @ [(href', q)]) in
     link_href ''canonical'' (head_elements d) = Some c \<and>
     meta_content (PropertyMeta, ''og:url'') (head_elements d) = Some href'"
proof -
  have c: "truthy (seo_canonical p)" using assms by (simp add: truthy_def)
  have l: "link_href ''canonical'' (head_elements (run (seo_effect origin) d0 ((href, p) # hps @ [(href', q)]))) = Some c"
    unfolding run_Cons by (subst link_href_run) (use assms c in \<open>simp_all add: effect_elements\<close>)
  have "str_or (seo_canonical q) href' = href'"
    using assms(4) by (auto simp: truthy_def str_or_def split: option.splits if_splits)
  then show ?thesis using l by (simp add: run_append effect_elements Let_def) (simp add: seo_metas_def)
qed

definition plain_seo :: seo_props where
  "plain_seo = \<lparr>seo_title = None, seo_description = None, seo_canonical = None, seo_ogImage = None, seo_ogType = None,
     seo_twitterCard = None, seo_structuredData = None, seo_noindex = False\<rparr>"

theorem canonical_outlives_page_witness:
  "link_href ''canonical'' (head_elements (run (seo_effect ''http://shop'') index_head
     [(''http://shop/cart'', plain_seo\<lparr>seo_canonical := Some ''http://shop/cart''\<rparr>), (''http://shop/orders'', plain_seo)])) =
   Some ''http://shop/cart''"
proof -
  let ?p = "plain_seo\<lparr>seo_canonical := Some ''http://shop/cart''\<rparr>"
  have "seo_canonical ?p = Some ''http://shop/cart''" "''http://shop/cart'' \<noteq> []"
    "list_all (\<lambda>(h, p). \<not> truthy (seo_canonical p)) []" "\<not> truthy (seo_canonical plain_seo)"
    by (simp_all add: plain_seo_def truthy_def)
  from canonical_outlives_page [OF this, of "''http://shop''" index_head "''http://shop/cart''" "''http://shop/orders''"]
  show ?thesis by (simp add: Let_def)
qed

end
