(* ===== verification/Landing_Page.thy ===== *)
theory Landing_Page
  imports App_Routes Ui_Fields
begin

text \<open>
  The landing page, \<open>frontend/src/pages/Landing.tsx\<close>: its features and what it renders, with the links that lead
  into the application; and two helpers that no page uses so far, \<open>truncate\<close> of \<open>lib/utils.ts\<close> and
  \<open>hooks/useReducedMotion.ts\<close>. Animations are left out; the check mark and the lightning sign before the
  lines of the log are written \<open>+\<close> and \<open>!\<close>.
\<close>

subsection \<open>The page\<close>

record feature =
  feature_icon :: string
  feature_title :: jsstring
  feature_detail :: jsstring

definition FEATURES :: "feature list" where
  "FEATURES =
     [\<lparr>feature_icon = ''Workflow'', feature_title = ''Choreographed Sagas'',
       feature_detail = ''Event-driven checkout transactions with automated database compensatory rollback paths over Apache Kafka.''\<rparr>,
      \<lparr>feature_icon = ''Shield'', feature_title = ''RLS Tenant Isolation'',
       feature_detail = ''Data partition boundaries secured at the database row level via session-scoped PostgreSQL client policies.''\<rparr>,
      \<lparr>feature_icon = ''Cpu'', feature_title = ''TF-IDF Vector Search'',
       feature_detail = ''High-performance semantic query matching and recommendations built with dense float matrix cosine similarities.''\<rparr>,
      \<lparr>feature_icon = ''Terminal'', feature_title = ''Developer-First APIs'',
       feature_detail = ''Fully typed OpenAPI schemas, gRPC service communication channels, and centralized Prometheus counters.''\<rparr>]"

definition landing_header :: "'x layout_action node" where
  "landing_header =
     El ''header'' []
       [link_to ''/'' [El ''div'' [] [Icon ''Sparkles''], El ''span'' [] [Txt ''CloudScale Commerce'']],
        El ''div'' [] [link_to ''/login'' [Txt ''Sign In''], link_to ''/login'' [Txt ''Launch App'']]]"

definition landing_hero :: "'x layout_action node list" where
  "landing_hero =
     [El ''div'' []
        [El ''div'' [] [Icon ''Sparkles'', Txt ''Next-Gen E-Commerce Architecture''],
         El ''h1'' [] [Txt ''Scale Your Commerce '', El ''br'' [] [], El ''span'' [] [Txt ''to Hyper-Drive'']],
         El ''p'' [] [Txt (''Orchestrate event-driven microservices with multi-tenant row-level security '' @
           ''isolation and dense vector similarity search at sub-millisecond latencies.'')]],
      El ''div'' []
        [link_to ''/login'' [Txt ''Get Started Free'', Icon ''ArrowRight''],
         El ''a'' [Attr ''href'' ''https://github.com'', Attr ''target'' ''_blank'', Attr ''rel'' ''noreferrer'']
           [Txt ''View Documentation'']]]"

definition landing_showcase :: "'x layout_action node" where
  "landing_showcase =
     El ''div'' []
       [El ''div'' []
          [El ''div'' []
             [El ''div'' [] [], El ''div'' [] [], El ''div'' [] [], El ''div'' [] [Txt ''console.cloudscale-commerce.io'']],
           El ''div'' []
             [El ''div'' []
                [El ''div'' [] [El ''span'' [] [Txt ''SAGA METRICS''], El ''span'' [] [Icon ''Activity'', Txt '' LIVE'']],
                 El ''div'' [] [El ''p'' [] [Txt ''99.98%''], El ''p'' [] [Txt ''Checkout Success Rate'']],
                 El ''div'' [] [El ''div'' [] []]],
              El ''div'' []
                [El ''div'' [] [Icon ''GitBranch'', Txt ''KAFKA EVENT LOGSTREAM''],
                 El ''div'' []
                   [El ''p'' [] [El ''span'' [] [Txt ''+''], Txt '' [order-service] OrderCreatedEvent published (ID: ord_8829)''],
                    El ''p'' [] [El ''span'' [] [Txt ''+''], Txt '' [payment-service] PaymentProcessedEvent published ($49.00)''],
                    El ''p'' [] [El ''span'' [] [Txt ''+''], Txt '' [inventory-svc] StockReservedEvent published (Qty: 2)''],
                    El ''p'' [] [El ''span'' [] [Txt ''!''], Txt '' [saga-orchestrator] Checkout transaction finalized in 450ms'']]]]]]"

definition feature_card :: "feature \<Rightarrow> 'x layout_action node" where
  "feature_card f =
     El ''div'' []
       [El ''div'' [] [],
        El ''div'' []
          [El ''div'' [] [Icon (feature_icon f)],
           El ''div'' [] [El ''h3'' [] [Txt (feature_title f)], El ''p'' [] [Txt (feature_detail f)]]]]"

definition landing_view :: "'x layout_action node" where
  "landing_view =
     El ''div'' []
       [El ''div'' [] [El ''div'' [] [], El ''div'' [] [], El ''div'' [] [], El ''div'' [] []],
        El ''div'' []
          [landing_header,
           El ''section'' [] (landing_hero @ [landing_showcase]),
           El ''section'' []
             [El ''div'' []
                [El ''h2'' [] [Txt ''Built for Enterprise Performance''],
                 El ''p'' [] [Txt ''Hardened patterns delivering maximum security, durability, and response times.'']],
              El ''div'' [] (map feature_card FEATURES)],
           El ''footer'' []
             [El ''p'' [] [Txt (CHR 0xA9 # '' 2026 CloudScale Commerce. Built with React 19, FastAPI, Kafka, and OpenTelemetry.'')]]]]"

subsection \<open>Helpers\<close>

definition truncate_text :: "jsstring \<Rightarrow> int \<Rightarrow> jsstring" where
  \<comment> \<open>\<open>slice(0, n)\<close> counts a negative \<open>n\<close> from the end\<close>
  "truncate_text s n =
     (if int (length s) > n
      then take (nat (if n < 0 then int (length s) + n else n)) s @ ''...'' else s)"

record reduced_motion =
  motion_reduced :: bool
  motion_listening :: bool

definition initial_motion :: "bool \<Rightarrow> reduced_motion" where
  \<comment> \<open>the state is read from the media query while rendering, the listener comes with the effect\<close>
  "initial_motion matches = \<lparr>motion_reduced = matches, motion_listening = False\<rparr>"

datatype motion_event = MountMotion | PreferenceChanges bool | UnmountMotion

fun motion_step :: "reduced_motion \<Rightarrow> motion_event \<Rightarrow> reduced_motion" where
  "motion_step m MountMotion = m\<lparr>motion_listening := True\<rparr>"
| "motion_step m (PreferenceChanges b) = (if motion_listening m then m\<lparr>motion_reduced := b\<rparr> else m)"
| "motion_step m UnmountMotion = m\<lparr>motion_listening := False\<rparr>"

subsection \<open>Where the page leads\<close>

lemma landing_actions:
  "actions landing_view = [FollowLink ''/'', FollowLink ''/login'', FollowLink ''/login'', FollowLink ''/login'']"
  by (simp add: landing_view_def landing_header_def landing_hero_def landing_showcase_def feature_card_def FEATURES_def link_to_def)

lemma landing_addresses:
  "node_attr_values ''to'' landing_view = [''/'', ''/login'', ''/login'', ''/login'']"
  "node_attr_values ''href'' landing_view = [''https://github.com'']"
  "node_attr_values ''rel'' landing_view = [''noreferrer'']"
  by (simp_all add: landing_view_def landing_header_def landing_hero_def landing_showcase_def feature_card_def FEATURES_def link_to_def)

text \<open>Every control of the landing page is a link, and every link leads, for visitors and signed-in users alike and
  without a redirect, to the landing page or the login page, which is also where the only way into the
  application is: a visitor who follows any location of the application's frame instead ends at the
  login page too. The one link that leaves the site is opened without a referrer.\<close>

theorem landing_leads_to_login:
  "set (actions landing_view) = FollowLink ` set (node_attr_values ''to'' landing_view) \<and>
   (\<forall>to \<in> set (node_attr_values ''to'' landing_view).
      follow a to = (to, if to = ''/'' then (Bare, LandingPage) else (GuestFrame, LoginScreen))) \<and>
   (\<not> isAuthenticated a \<longrightarrow> map_of routes loc = Some (AppFrame, p) \<longrightarrow> follow a loc = (''/login'', GuestFrame, LoginScreen)) \<and>
   length (node_attr_values ''href'' landing_view) = length (node_attr_values ''rel'' landing_view)"
proof (intro conjI impI)
  have m: "match_route a ''/'' = Inr (Bare, LandingPage)" by (simp add: match_route_def routes_def)
  show "set (actions landing_view) = FollowLink ` set (node_attr_values ''to'' landing_view)"
    by (simp add: landing_actions landing_addresses)
  show "\<forall>to \<in> set (node_attr_values ''to'' landing_view).
      follow a to = (to, if to = ''/'' then (Bare, LandingPage) else (GuestFrame, LoginScreen))"
    using follow_Inr [OF m] follow_Inr [OF match_login [of a]] by (simp add: landing_addresses)
  show "length (node_attr_values ''href'' landing_view) = length (node_attr_values ''rel'' landing_view)"
    by (simp add: landing_addresses)
  assume out: "\<not> isAuthenticated a" and loc: "map_of routes loc = Some (AppFrame, p)"
  then have "match_route a loc = Inl ''/login''" by (simp add: match_route_def protected_route_def)
  from follow_Inl [OF this] show "follow a loc = (''/login'', GuestFrame, LoginScreen)"
    using follow_Inr [OF match_login [of a]] by simp
qed

theorem landing_leads_to_login_witness:
  "follow (auth (initial_client ''c'')) ''/orders'' = (''/login'', GuestFrame, LoginScreen)"
proof -
  have "\<not> isAuthenticated (auth (initial_client ''c''))" "map_of routes ''/orders'' = Some (AppFrame, OrdersPage)"
    by (simp_all add: initial_client_def initial_auth_def routes_def)
  then show ?thesis
    using landing_leads_to_login [of "auth (initial_client ''c'')" "''/orders''" OrdersPage] by blast
qed

text \<open>\<open>truncate\<close> keeps a prefix; the result can be longer than the text it shortens.\<close>

lemma truncate_length:
  "0 \<le> n \<Longrightarrow> int (length (truncate_text s n)) \<le> n + 3"
  "0 \<le> n \<Longrightarrow> take (nat n) (truncate_text s n) = take (nat n) s"
  "truncate_text ''four'' 3 = ''fou...''"
  by (auto simp: truncate_text_def)

lemma motion_run: "motion_listening m \<Longrightarrow> motion_reduced (run motion_step m (map PreferenceChanges bs @ [PreferenceChanges b])) = b"
  by (induction bs arbitrary: m) simp_all

end
