(* ===== verification/Page_Loading.thy ===== *)
theory Page_Loading
  imports App_Routes App_Shell Showcase
begin

text \<open>
  How a page gets on the screen: the lazily loaded pages of \<open>App.tsx\<close>, the suspense
  around the retry boundary around the route table. \<open>React.lazy\<close> calls the import of a
  page when the page is rendered first, never again, and keeps what came of it, a failure
  included: from then on rendering the page throws that failure. The boundary of the
  routes is allowed three retries. It stands around all routes, so its state outlives
  every navigation.

  While a page suspends, \<open>Suspended\<close>, React shows the fallback, or leaves the former
  page on the screen when the router navigates in a transition; the model names what a settled
  rendering shows. Who navigates and who signs in or out is the subject of \<open>App_Routes\<close>;
  here both are events. \<open>imports\<close> records the imports called since the page was loaded.
\<close>

subsection \<open>Lazy pages\<close>

datatype chunk = NotRequested | Requested | Arrived | ChunkFailed "jsstring option"

definition lazy_pages :: "app_page list" where
  "lazy_pages =
     [LoginScreen, DashboardPage, CatalogPage, CartScreen, CheckoutPage, OrdersPage, InventoryPage, UsersPage,
      AdminPage, WorkspacePage, LandingPage, UnauthorizedPage, NotFoundPage]"

definition is_lazy :: "app_page \<Rightarrow> bool" where
  \<comment> \<open>the settings page is written into the route table\<close>
  "is_lazy p = List.member lazy_pages p"

record page_loader =
  pl_chunks :: "app_page \<Rightarrow> chunk"
  pl_imports :: "app_page list"
  pl_boundary :: retry_boundary
  pl_auth :: auth_state
  pl_loc :: jsstring

definition route_retries :: nat where
  "route_retries = 3"

datatype outlet = Suspended | Shows frame app_page | Broken

fun shows_page :: "outlet \<Rightarrow> bool" where
  "shows_page (Shows fr p) = True"
| "shows_page Suspended = False"
| "shows_page Broken = False"

definition wanted :: "page_loader \<Rightarrow> frame \<times> app_page" where
  \<comment> \<open>what the route table wants at the location\<close>
  "wanted s = snd (follow (pl_auth s) (pl_loc s))"

definition outlet_of :: "page_loader \<Rightarrow> outlet" where
  "outlet_of s =
     (case rb_error (pl_boundary s) of
        Some m \<Rightarrow> Broken
      | None \<Rightarrow>
          (let (fr, p) = wanted s
           in if is_lazy p \<and> pl_chunks s p \<noteq> Arrived then Suspended else Shows fr p))"

definition throw_to_boundary :: "jsstring option \<Rightarrow> page_loader \<Rightarrow> page_loader" where
  "throw_to_boundary m s = s\<lparr>pl_boundary := retry_boundary_step route_retries (pl_boundary s) (Throws m)\<rparr>"

definition render_lazy :: "app_page \<Rightarrow> page_loader \<Rightarrow> page_loader" where
  "render_lazy p s =
     (case pl_chunks s p of
        NotRequested \<Rightarrow> s\<lparr>pl_chunks := (pl_chunks s)(p := Requested), pl_imports := pl_imports s @ [p]\<rparr>
      | Requested \<Rightarrow> s
      | Arrived \<Rightarrow> s
      | ChunkFailed m \<Rightarrow> throw_to_boundary m s)"

definition render_outlet :: "page_loader \<Rightarrow> page_loader" where
  "render_outlet s =
     (case rb_error (pl_boundary s) of
        Some m \<Rightarrow> s
      | None \<Rightarrow>
          (let (loc, fr, p) = follow (pl_auth s) (pl_loc s); s1 = s\<lparr>pl_loc := loc\<rparr>
           in if is_lazy p then render_lazy p s1 else s1))"

definition boot_loader :: "auth_state \<Rightarrow> jsstring \<Rightarrow> page_loader" where
  "boot_loader a loc =
     render_outlet \<lparr>pl_chunks = (\<lambda>p. NotRequested), pl_imports = [], pl_boundary = initial_retry_boundary,
       pl_auth = a, pl_loc = loc\<rparr>"

datatype loader_event =
    GoTo jsstring
  | AuthBecomes auth_state
  | ChunkArrives app_page
  | ChunkRejected app_page "jsstring option"
  | PageThrows "jsstring option"
  | RetryClick
  | BrowserReload

definition import_settles :: "app_page \<Rightarrow> chunk \<Rightarrow> page_loader \<Rightarrow> page_loader" where
  "import_settles p c s = (if pl_chunks s p = Requested then s\<lparr>pl_chunks := (pl_chunks s)(p := c)\<rparr> else s)"

fun loader_act :: "page_loader \<Rightarrow> loader_event \<Rightarrow> page_loader" where
  "loader_act s (GoTo loc) = s\<lparr>pl_loc := loc\<rparr>"
| "loader_act s (AuthBecomes a) = s\<lparr>pl_auth := a\<rparr>"
| "loader_act s (ChunkArrives p) = import_settles p Arrived s"
| "loader_act s (ChunkRejected p m) = import_settles p (ChunkFailed m) s"
| "loader_act s (PageThrows m) = (if shows_page (outlet_of s) then throw_to_boundary m s else s)"
| "loader_act s RetryClick =
     (if outlet_of s = Broken then s\<lparr>pl_boundary := retry_boundary_step route_retries (pl_boundary s) Retry\<rparr> else s)"
| "loader_act s BrowserReload =
     \<lparr>pl_chunks = (\<lambda>p. NotRequested), pl_imports = [], pl_boundary = initial_retry_boundary,
      pl_auth = pl_auth s, pl_loc = pl_loc s\<rparr>"

definition loader_step :: "page_loader \<Rightarrow> loader_event \<Rightarrow> page_loader" where
  "loader_step s e = render_outlet (loader_act s e)"

subsection \<open>The tree of the application\<close>

definition suspense_fallback :: "'a node" where
  "suspense_fallback = El ''div'' [Attr ''role'' ''status'', Attr ''aria-label'' ''Loading''] [El ''div'' [] []]"

definition settings_page :: "'a node" where
  "settings_page = El ''div'' [] [Txt ''Settings Page'']"

datatype 'x app_action =
    SkipTo jsstring
  | OnBoundary boundary_event
  | OnRoutes boundary_event
  | OnPage 'x
  | OnTour tour_event
  | OnShowcase showcase_action
  | OnToasts toast_action

definition outlet_view :: "'x app_action node \<Rightarrow> page_loader \<Rightarrow> 'x app_action node" where
  "outlet_view page s =
     (case outlet_of s of
        Suspended \<Rightarrow> suspense_fallback
      | Shows fr p \<Rightarrow> page
      | Broken \<Rightarrow> map_node OnRoutes (retry_boundary_view route_retries None suspense_fallback (pl_boundary s)))"

text \<open>The providers and the router render no element of their own; the parts of the page are
  children of one \<open>Fragment\<close>, which is no element of the document either.\<close>

definition app_view ::
    "app_root \<Rightarrow> error_boundary \<Rightarrow> page_loader \<Rightarrow> offline_banner \<Rightarrow> tour \<Rightarrow> showcase \<Rightarrow> toast_store \<Rightarrow>
     'x app_action node \<Rightarrow> 'x app_action node" where
  "app_view r eb s banner tr sc ts page =
     (case eb_error eb of
        Some m \<Rightarrow> map_node OnBoundary (error_boundary_view None suspense_fallback eb)
      | None \<Rightarrow>
          El ''Fragment'' []
            (map_node SkipTo (skip_link ''main-content'') # outlet_view page s
             # (if offline_mounted r then banner_view banner else [])
             @ (if tour_mounted r then map (map_node OnTour) (tour_view tr) else [])
             @ map (map_node OnShowcase) (showcase_view sc)
             @ map (map_node OnToasts) (toast_container ts)))"

subsection \<open>What every run keeps\<close>

definition loader_inv :: "page_loader \<Rightarrow> bool" where
  "loader_inv s \<longleftrightarrow>
     distinct (pl_imports s) \<and> list_all is_lazy (pl_imports s) \<and> (\<forall>p. p \<in> set (pl_imports s) \<longleftrightarrow> pl_chunks s p \<noteq> NotRequested) \<and>
     retryCount (pl_boundary s) \<le> route_retries"

definition loader_settled :: "page_loader \<Rightarrow> bool" where
  "loader_settled s \<longleftrightarrow>
     (rb_error (pl_boundary s) = None \<longrightarrow>
        map_of routes (pl_loc s) = Some (wanted s) \<and>
        (is_lazy (snd (wanted s)) \<longrightarrow> pl_chunks s (snd (wanted s)) \<in> {Requested, Arrived}))"

lemma render_lazy_frame [simp]:
  "pl_auth (render_lazy p s) = pl_auth s" "pl_loc (render_lazy p s) = pl_loc s"
  "retryCount (pl_boundary (render_lazy p s)) = retryCount (pl_boundary s)"
  "pl_chunks (throw_to_boundary m s) = pl_chunks s" "pl_imports (throw_to_boundary m s) = pl_imports s"
  "pl_loc (throw_to_boundary m s) = pl_loc s" "pl_auth (throw_to_boundary m s) = pl_auth s"
  "retryCount (pl_boundary (throw_to_boundary m s)) = retryCount (pl_boundary s)"
  "rb_error (pl_boundary (throw_to_boundary m s)) = Some m"
  by (simp_all add: render_lazy_def throw_to_boundary_def split: chunk.split)

lemma render_lazy_inv: "loader_inv s \<Longrightarrow> is_lazy p \<Longrightarrow> loader_inv (render_lazy p s)"
  by (cases "pl_chunks s p") (auto simp: loader_inv_def render_lazy_def)

lemma render_lazy_chunk:
  "rb_error (pl_boundary (render_lazy p s)) = None \<Longrightarrow> pl_chunks (render_lazy p s) p \<in> {Requested, Arrived}"
  by (cases "pl_chunks s p") (auto simp: render_lazy_def)

lemma render_outlet_inv: "loader_inv s \<Longrightarrow> loader_inv (render_outlet s)"
proof -
  assume i: "loader_inv s"
  then have "loader_inv (s\<lparr>pl_loc := l\<rparr>)" for l by (simp add: loader_inv_def)
  then show ?thesis using i
    by (auto simp: render_outlet_def Let_def split_def intro: render_lazy_inv split: option.split)
qed

lemma render_outlet_settled: "loader_settled (render_outlet s)"
proof (cases "rb_error (pl_boundary s)")
  case None
  obtain loc fr p where f: "follow (pl_auth s) (pl_loc s) = (loc, fr, p)" by (cases "follow (pl_auth s) (pl_loc s)")
  have m: "map_of routes loc = Some (fr, p)" "follow (pl_auth s) loc = (loc, fr, p)"
    using match_in_table [OF follow_matched [of "pl_auth s" "pl_loc s"]] follow_fst [of "pl_auth s" "pl_loc s"] f by simp_all
  show ?thesis using None f m render_lazy_chunk [of p "s\<lparr>pl_loc := loc\<rparr>"]
    by (auto simp: render_outlet_def loader_settled_def wanted_def Let_def)
qed (simp add: render_outlet_def loader_settled_def)

lemma loader_act_inv: "loader_inv s \<Longrightarrow> loader_inv (loader_act s e)"
proof (cases e)
  case RetryClick
  assume "loader_inv s"
  then show ?thesis using RetryClick by (auto simp: loader_inv_def handleRetry_def)
qed (auto simp: loader_inv_def import_settles_def initial_retry_boundary_def)

interpretation loader: state_machine "boot_loader a loc" loader_step "\<lambda>s. loader_inv s \<and> loader_settled s" for a loc
proof unfold_locales
  show "loader_inv (boot_loader a loc) \<and> loader_settled (boot_loader a loc)"
    unfolding boot_loader_def
    by (intro conjI render_outlet_inv render_outlet_settled) (simp add: loader_inv_def initial_retry_boundary_def)
  show "loader_inv (loader_step s e) \<and> loader_settled (loader_step s e)" if "loader_inv s \<and> loader_settled s" for s e
    unfolding loader_step_def using that by (intro conjI render_outlet_inv render_outlet_settled loader_act_inv) simp
qed

subsection \<open>Failed pages and exhausted retries\<close>

lemma failed_chunk_kept:
  "pl_chunks s p = ChunkFailed m \<Longrightarrow> e \<noteq> BrowserReload \<Longrightarrow> pl_chunks (loader_step s e) p = ChunkFailed m"
proof -
  assume c: "pl_chunks s p = ChunkFailed m" and e: "e \<noteq> BrowserReload"
  have "pl_chunks (loader_act s e) p = ChunkFailed m" using c e by (cases e) (auto simp: import_settles_def)
  moreover have "pl_chunks (render_lazy q u) p = ChunkFailed m" if "pl_chunks u p = ChunkFailed m" for q u
    using that by (auto simp: render_lazy_def split: chunk.split)
  ultimately show ?thesis by (auto simp: loader_step_def render_outlet_def Let_def split_def split: option.split)
qed

lemma failed_chunk_run:
  "pl_chunks s p = ChunkFailed m \<Longrightarrow> BrowserReload \<notin> set es \<Longrightarrow> pl_chunks (run loader_step s es) p = ChunkFailed m"
  by (induction es arbitrary: s) (auto simp: failed_chunk_kept)

lemma broken_iff: "outlet_of s = Broken \<longleftrightarrow> rb_error (pl_boundary s) \<noteq> None"
  by (auto simp: outlet_of_def split_def Let_def split: option.split)

lemma render_outlet_broken [simp]: "outlet_of s = Broken \<Longrightarrow> render_outlet s = s"
  by (auto simp: broken_iff render_outlet_def)

lemma exhausted_step:
  assumes b: "outlet_of s = Broken" and r: "retryCount (pl_boundary s) = route_retries" and e: "e \<noteq> BrowserReload"
  shows "outlet_of (loader_step s e) = Broken \<and> retryCount (pl_boundary (loader_step s e)) = route_retries"
proof -
  have "outlet_of (loader_act s e) = Broken \<and> retryCount (pl_boundary (loader_act s e)) = route_retries"
    using b r e by (cases e) (auto simp: broken_iff import_settles_def handleRetry_def)
  then show ?thesis by (simp add: loader_step_def)
qed

lemma exhausted_run:
  "outlet_of s = Broken \<Longrightarrow> retryCount (pl_boundary s) = route_retries \<Longrightarrow> BrowserReload \<notin> set es \<Longrightarrow>
   outlet_of (run loader_step s es) = Broken"
  by (induction es arbitrary: s) (auto simp: exhausted_step)

lemma outlet_actions:
  "actions (outlet_view page s) =
     (case outlet_of s of
        Suspended \<Rightarrow> [] | Shows fr p \<Rightarrow> actions page
      | Broken \<Rightarrow> if retryCount (pl_boundary s) < route_retries then [OnRoutes Retry] else [])"
proof (cases "outlet_of s")
  case Broken
  then obtain m where "rb_error (pl_boundary s) = Some m" by (auto simp: broken_iff)
  then show ?thesis using Broken by (simp add: outlet_view_def retry_boundary_view_def)
qed (simp_all add: outlet_view_def suspense_fallback_def)

lemma failed_page_broken:
  assumes inv: "loader_inv s" "loader_settled s" and c: "pl_chunks s p = ChunkFailed m" and w: "snd (wanted s) = p"
  shows "outlet_of s = Broken"
proof -
  have "is_lazy p" using inv c by (auto simp: loader_inv_def list_all_iff)
  then show ?thesis using inv(2) c w by (auto simp: loader_settled_def broken_iff)
qed

lemma retry_failed_page:
  assumes c: "pl_chunks s p = ChunkFailed m" and w: "snd (wanted s) = p" and l: "is_lazy p"
    and b: "outlet_of s = Broken" and r: "retryCount (pl_boundary s) < route_retries"
  shows "outlet_of (loader_step s RetryClick) = Broken \<and>
    retryCount (pl_boundary (loader_step s RetryClick)) = retryCount (pl_boundary s) + 1"
proof -
  obtain loc fr where f: "follow (pl_auth s) (pl_loc s) = (loc, fr, p)"
    using w by (cases "follow (pl_auth s) (pl_loc s)") (simp add: wanted_def)
  show ?thesis using c l b r f
    by (simp add: loader_step_def render_outlet_def render_lazy_def broken_iff handleRetry_def)
qed

lemma reload_recovers:
  assumes w: "snd (wanted s) = p" and l: "is_lazy p"
  shows "outlet_of (run loader_step s [BrowserReload, ChunkArrives p]) = Shows (fst (wanted s)) p"
proof -
  obtain loc fr where f: "follow (pl_auth s) (pl_loc s) = (loc, fr, p)"
    using w by (cases "follow (pl_auth s) (pl_loc s)") (simp add: wanted_def)
  moreover have "follow (pl_auth s) loc = (loc, fr, p)" using follow_fst [of "pl_auth s" "pl_loc s"] f by simp
  ultimately show ?thesis using l
    by (simp add: loader_step_def render_outlet_def render_lazy_def import_settles_def initial_retry_boundary_def
        outlet_of_def wanted_def)
qed

text \<open>C33. A page whose chunk failed to load stays away until the browser reloads. Whatever
  happens from then on, other than a reload, the failure is kept, the page is never
  shown, and at its address the boundary is; clicking Retry there counts a retry and fails
  again, without a new request. After three the boundary has no button left, and since it
  stands around all routes it then hides every page of the application, at every location.
  A reload asks for the chunk again and shows the page when it arrives.\<close>

theorem failed_chunk_needs_reload:
  assumes c: "pl_chunks (run loader_step (boot_loader a loc) hs) p = ChunkFailed m" and es: "BrowserReload \<notin> set es"
  shows "let t = run loader_step (run loader_step (boot_loader a loc) hs) es; n = retryCount (pl_boundary t) in
    pl_chunks t p = ChunkFailed m \<and> outlet_of t \<noteq> Shows fr p \<and> n \<le> 3 \<and>
    (snd (wanted t) = p \<longrightarrow>
       outlet_of t = Broken \<and> actions (outlet_view page t) = (if n < 3 then [OnRoutes Retry] else []) \<and>
       (n < 3 \<longrightarrow> outlet_of (loader_step t RetryClick) = Broken \<and> retryCount (pl_boundary (loader_step t RetryClick)) = n + 1) \<and>
       outlet_of (run loader_step t [BrowserReload, ChunkArrives p]) = Shows (fst (wanted t)) p) \<and>
    (outlet_of t = Broken \<and> n = 3 \<and> BrowserReload \<notin> set fs \<longrightarrow> outlet_of (run loader_step t fs) = Broken)"
proof -
  define t where "t = run loader_step (run loader_step (boot_loader a loc) hs) es"
  have inv: "loader_inv t" "loader_settled t"
    unfolding t_def using loader.inv_run [of a loc "hs @ es"] by simp_all
  have ct: "pl_chunks t p = ChunkFailed m" unfolding t_def by (rule failed_chunk_run [OF c es])
  have l: "is_lazy p" using inv(1) ct by (auto simp: loader_inv_def list_all_iff)
  have "outlet_of t \<noteq> Shows fr p" using ct l by (auto simp: outlet_of_def split_def Let_def split: option.splits if_splits)
  moreover have "retryCount (pl_boundary t) \<le> 3" using inv(1) by (simp add: loader_inv_def route_retries_def)
  moreover have "outlet_of t = Broken \<and>
      (retryCount (pl_boundary t) < 3 \<longrightarrow> outlet_of (loader_step t RetryClick) = Broken \<and>
         retryCount (pl_boundary (loader_step t RetryClick)) = retryCount (pl_boundary t) + 1) \<and>
      outlet_of (run loader_step t [BrowserReload, ChunkArrives p]) = Shows (fst (wanted t)) p"
    if w: "snd (wanted t) = p"
    using failed_page_broken [OF inv ct w] retry_failed_page [OF ct w l] reload_recovers [OF w l]
    by (simp add: route_retries_def)
  moreover have "outlet_of t = Broken \<Longrightarrow> retryCount (pl_boundary t) = 3 \<Longrightarrow> BrowserReload \<notin> set fs \<Longrightarrow>
      outlet_of (run loader_step t fs) = Broken"
    by (rule exhausted_run) (simp_all add: route_retries_def)
  ultimately show ?thesis using ct
    unfolding t_def [symmetric] Let_def by (auto simp: outlet_actions route_retries_def)
qed

definition rejected_landing :: "loader_event list" where
  "rejected_landing = [ChunkRejected LandingPage (Some ''Failed to fetch'')]"

theorem failed_chunk_needs_reload_witness:
  "let t = run loader_step (run loader_step (boot_loader initial_auth ''/'') rejected_landing) [RetryClick, RetryClick, RetryClick] in
     actions (outlet_view (settings_page :: unit app_action node) t) = [] \<and>
     outlet_of (run loader_step t [GoTo ''/404'', ChunkArrives NotFoundPage, RetryClick]) = Broken"
proof -
  let ?es = "[RetryClick, RetryClick, RetryClick]" let ?fs = "[GoTo ''/404'', ChunkArrives NotFoundPage, RetryClick]"
  let ?t = "run loader_step (run loader_step (boot_loader initial_auth ''/'') rejected_landing) ?es"
  have c: "pl_chunks (run loader_step (boot_loader initial_auth ''/'') rejected_landing) LandingPage =
      ChunkFailed (Some ''Failed to fetch'')"
    by code_simp
  have e: "BrowserReload \<notin> set ?es" "BrowserReload \<notin> set ?fs" by simp_all
  have w: "snd (wanted ?t) = LandingPage" by code_simp
  have n: "retryCount (pl_boundary ?t) = 3" by code_simp
  show ?thesis using failed_chunk_needs_reload [OF c e(1), of Bare "settings_page :: unit app_action node" ?fs] w n e(2)
    unfolding Let_def by simp
qed

end
