(* ===== verification/Money.thy ===== *)
theory Money
  imports Js_Number Js_String
begin

text \<open>
  Amounts as text: \<open>formatCurrency\<close> of \<open>lib/utils.ts\<close>, with the locale and the currency no
  caller changes, American English and dollars. \<open>Intl.NumberFormat\<close> takes the number of
  cents nearest to the amount (the one away from zero on a tie), as the specification of \<open>Intl\<close> demands of the exact value of
  the double (engines that round its shortest decimal instead differ on decimal ties: 200.005 becomes $200.01 there), groups the dollars by
  thousands and writes two digits of cents; a minus stands before the dollar sign.
  \<open>to_locale_string\<close> is \<open>toLocaleString\<close> of a whole number. The pages that show
  amounts take the two texts as parameters, \<open>money\<close> and \<open>grouped\<close>. \<open>read_money\<close> reads an
  amount back in cents, whatever is not a digit is skipped.
\<close>

subsection \<open>Grouping digits\<close>

fun group_reversed :: "jsstring \<Rightarrow> jsstring" where
  "group_reversed (a # b # c # d # ds) = a # b # c # CHR '','' # group_reversed (d # ds)"
| "group_reversed ds = ds"

definition group_digits :: "jsstring \<Rightarrow> jsstring" where
  "group_digits ds = rev (group_reversed (rev ds))"

definition digit :: "nat \<Rightarrow> char" where
  "digit n = char_of (48 + n mod 10)"

definition is_digit :: "char \<Rightarrow> bool" where
  "is_digit c = (48 \<le> code_unit c \<and> code_unit c \<le> 57)"

definition to_locale_string :: "int \<Rightarrow> jsstring" where
  "to_locale_string n = (if n < 0 then ''-'' else '''') @ group_digits (show_nat (nat \<bar>n\<bar>))"

subsection \<open>Currency\<close>

definition cents :: "rat \<Rightarrow> nat" where
  "cents x = nat \<lfloor>100 * x + 1 / 2\<rfloor>"

definition formatCurrency :: "rat \<Rightarrow> jsstring" where
  "formatCurrency amount =
     (let c = cents \<bar>amount\<bar>
      in (if amount < 0 then ''-'' else '''') @ ''$'' @ group_digits (show_nat (c div 100))
         @ ''.'' @ [digit (c div 10), digit c])"

definition read_money :: "jsstring \<Rightarrow> int" where
  "read_money s = (if List.member s (CHR ''-'') then -1 else 1) * int (read_nat (filter is_digit s))"

subsection \<open>Reading amounts back\<close>

lemma is_digit_digit [simp]: "is_digit (digit n)"
  by (simp add: is_digit_def digit_def code_unit_def)

lemma not_digits [simp]:
  "\<not> is_digit (CHR ''-'')" "\<not> is_digit (CHR '','')" "\<not> is_digit (CHR ''.'')" "\<not> is_digit (CHR ''$'')"
  by (simp_all add: is_digit_def code_unit_def)

lemma digits_show_nat: "list_all is_digit (show_nat n)"
proof (induction n rule: show_nat.induct)
  case (1 n)
  have "n mod 10 \<le> 9" by simp
  then have "is_digit (char_of (48 + n mod 10))" by (simp add: is_digit_def code_unit_def)
  moreover have "n < 10 \<Longrightarrow> is_digit (char_of (48 + n))" by (simp add: is_digit_def code_unit_def)
  ultimately show ?case using 1 by (subst show_nat.simps) simp
qed

lemma digits_group_reversed: "filter is_digit (group_reversed ds) = filter is_digit ds"
proof (induction ds rule: group_reversed.induct)
  case (1 a b c d ds)
  then show ?case by simp
qed simp_all

lemma digits_group: "filter is_digit (group_digits ds) = filter is_digit ds"
  by (simp add: group_digits_def digits_group_reversed flip: rev_filter)

lemma set_group_reversed: "set (group_reversed ds) \<subseteq> insert (CHR '','') (set ds)"
  by (induction ds rule: group_reversed.induct) auto

lemma no_minus_in_group: "CHR ''-'' \<notin> set (group_digits (show_nat n))"
proof
  assume "CHR ''-'' \<in> set (group_digits (show_nat n))"
  then have "CHR ''-'' \<in> set (show_nat n)"
    using set_group_reversed [of "rev (show_nat n)"] by (auto simp: group_digits_def)
  then have "is_digit (CHR ''-'')" using digits_show_nat [of n] by (auto simp: list_all_iff)
  then show False by simp
qed

lemma no_minus_digit: "CHR ''-'' \<noteq> digit n"
  using is_digit_digit [of n] not_digits(1) by metis

lemma read_nat_snoc: "read_nat (s @ [digit n]) = 10 * read_nat s + n mod 10"
  by (simp add: read_nat_def digit_def code_unit_def)

lemma read_two_digits: "read_nat (show_nat (c div 100) @ [digit (c div 10), digit c]) = c"
proof -
  have "read_nat ((show_nat (c div 100) @ [digit (c div 10)]) @ [digit c]) = c"
    by (simp only: read_nat_snoc read_show_nat) (use div_mult2_eq [of c 10 10] mult_div_mod_eq [of 10 c] in simp)
  then show ?thesis by simp
qed

lemma read_formatCurrency: "read_money (formatCurrency x) = (if x < 0 then -1 else 1) * int (cents \<bar>x\<bar>)"
proof -
  have "filter is_digit (show_nat k) = show_nat k" for k
    using digits_show_nat [of k] by (simp add: filter_id_conv list_all_iff)
  then have "read_nat (filter is_digit (formatCurrency x)) = cents \<bar>x\<bar>"
    by (simp add: formatCurrency_def Let_def digits_group read_two_digits)
  moreover have "CHR ''-'' \<in> set (formatCurrency x) \<longleftrightarrow> x < 0"
    using no_minus_in_group no_minus_digit by (simp add: formatCurrency_def Let_def)
  ultimately show ?thesis by (simp add: read_money_def List.member_iff)
qed

subsection \<open>The text shows the amount\<close>

lemma fl_pos_error:
  assumes "0 < x" shows "\<bar>fl_pos x - x\<bar> \<le> x / 2 ^ 53"
proof -
  define e where "e = ilog2 x - 52"
  have "pow2 (ilog2 x) = 2 ^ 52 * pow2 e" using pow2_add_nat [of e 52] by (simp add: e_def)
  then have l: "2 ^ 52 * pow2 e \<le> x" using ilog2_bounds [OF assms] by simp
  define q where "q = x / pow2 e"
  have x: "x = q * pow2 e" by (simp add: q_def)
  have "\<bar>of_int (round_half_even q) - q\<bar> \<le> 1 / 2" using round_half_even_near [of q] by linarith
  then have "\<bar>of_int (round_half_even q) - q\<bar> * pow2 e \<le> 1 / 2 * pow2 e" by (rule mult_right_mono) simp
  moreover have "fl_pos x - x = (of_int (round_half_even q) - q) * pow2 e"
    by (simp add: fl_pos_def Let_def left_diff_distrib flip: e_def x q_def)
  ultimately have "\<bar>fl_pos x - x\<bar> \<le> 1 / 2 * pow2 e" by (simp add: abs_mult)
  with l show ?thesis by simp
qed

lemma fl_error: "\<bar>fl x - x\<bar> \<le> \<bar>x\<bar> / 2 ^ 53"
proof (cases "x < 0")
  case True
  then have "\<bar>fl_pos (- x) - (- x)\<bar> \<le> - x / 2 ^ 53" by (intro fl_pos_error) simp
  moreover have "fl x - x = - (fl_pos (- x) - (- x))" using True by (simp add: fl_def)
  ultimately show ?thesis using True by (simp only: abs_minus_cancel abs_of_neg)
qed (use fl_pos_error [of x] in \<open>auto simp: fl_def\<close>)

lemma cents_fl:
  assumes "k \<le> 10 ^ 15" shows "cents (fl (of_nat k / 100)) = k"
proof -
  define y where "y = fl (of_nat k / 100)"
  have "(of_nat k :: rat) \<le> of_nat (10 ^ 15)" using assms by (simp only: of_nat_le_iff)
  then have k: "(of_nat k :: rat) \<le> 1000000000000000" "0 \<le> (of_nat k :: rat)" by simp_all
  have "\<bar>y - of_nat k / 100\<bar> \<le> of_nat k / 100 / 9007199254740992"
    using fl_error [of "of_nat k / 100"] by (simp add: y_def)
  then have "\<bar>y - of_nat k / 100\<bar> < 1 / 200" using k by linarith
  then have "of_nat k \<le> 100 * y + 1 / 2" "100 * y + 1 / 2 < of_nat k + 1" by linarith+
  then have "of_int (int k) \<le> 100 * y + 1 / 2" "100 * y + 1 / 2 < of_int (int k) + 1" by simp_all
  then have "\<lfloor>100 * fl (of_nat k / 100) + 1 / 2\<rfloor> = int k" unfolding y_def floor_eq_iff by blast
  then show ?thesis by (simp add: cents_def)
qed

lemma toFixed2_cents:
  assumes "0 \<le> x" "x < 10 ^ 21" shows "toFixed2 x = fl (of_nat (cents x) / 100)"
proof -
  have "0 \<le> \<lfloor>100 * x + 1 / 2\<rfloor>" using assms(1) by (simp add: le_floor_iff)
  then show ?thesis using assms by (simp add: toFixed2_def toFixed2_pos_def cents_def)
qed

text \<open>C13. An amount on the screen is the amount in the data. The text of a number of cents, stored as
  a double as prices and totals are, reads back as exactly that number of cents, for both
  signs and up to ten million million dollars; and rounding an amount to cents first, as
  the cart does with its totals, does not change what is shown.\<close>

theorem formatCurrency_exact:
  assumes c: "\<bar>c\<bar> \<le> 10 ^ 15" and x: "0 \<le> x" "x \<le> 10 ^ 12"
  shows "read_money (formatCurrency (fl (of_int c / 100))) = c \<and>
    formatCurrency (toFixed2 x) = formatCurrency x"
proof (rule conjI)
  obtain k where k: "k \<le> 10 ^ 15" "c = int k \<or> c = - int k"
    using c by (cases c rule: int_cases2) auto
  have "fl (of_int c / 100) = (if c < 0 then -1 else 1) * fl (of_nat k / 100)"
    using k(2) by (auto simp: fl_minus)
  moreover have "0 \<le> fl (of_nat k / 100)" by (rule dbl.rnd_nonneg) simp
  moreover have "fl (of_nat k / 100) < 0 \<longleftrightarrow> False" using \<open>0 \<le> fl (of_nat k / 100)\<close> by simp
  ultimately show "read_money (formatCurrency (fl (of_int c / 100))) = c"
    using k cents_fl [OF k(1)] by (auto simp: read_formatCurrency)
next
  have "100 * x + 1 / 2 < of_int (10 ^ 15)" using x by simp
  then have "\<lfloor>100 * x + 1 / 2\<rfloor> < 10 ^ 15" by (simp only: floor_less_iff)
  then have "\<lfloor>100 * x + 1 / 2\<rfloor> \<le> 10 ^ 15" by (rule less_imp_le)
  then have "cents x \<le> 10 ^ 15" unfolding cents_def by (simp add: nat_le_iff)
  then have "cents (toFixed2 x) = cents x" using x by (simp add: toFixed2_cents cents_fl)
  moreover have "0 \<le> toFixed2 x" using x by (simp add: toFixed2_nonneg)
  ultimately show "formatCurrency (toFixed2 x) = formatCurrency x" using x by (simp add: formatCurrency_def)
qed

lemma large_text: "formatCurrency (fl (of_int (-123456789) / 100)) = ''-$1,234,567.89''"
proof -
  have "fl (of_int (-123456789) / 100) = - fl (of_nat 123456789 / 100)" by (simp flip: fl_minus)
  moreover have p: "0 < fl (of_nat 123456789 / 100)" by simp
  ultimately have "\<bar>fl (of_int (-123456789) / 100)\<bar> = fl (of_nat 123456789 / 100)" "fl (of_int (-123456789) / 100) < 0"
    by (simp_all only: abs_minus_cancel abs_of_pos neg_less_0_iff_less)
  moreover have "cents (fl (of_nat 123456789 / 100)) = 123456789" by (rule cents_fl) simp
  ultimately have c: "cents \<bar>fl (of_int (-123456789) / 100)\<bar> = 123456789" "fl (of_int (-123456789) / 100) < 0"
    by (simp_all only:)
  have "show_nat 1234567 = ''1234567''" by (simp add: show_nat.simps char_of_def bit_0)
  moreover have "group_digits ''1234567'' = ''1,234,567''" by (simp add: group_digits_def)
  ultimately show ?thesis by (simp only: formatCurrency_def Let_def c if_True) (simp add: digit_def char_of_def bit_0)
qed

theorem formatCurrency_exact_witness:
  "read_money (formatCurrency (fl (of_int (-123456789) / 100))) = -123456789 \<and>
   formatCurrency (fl (of_int (-123456789) / 100)) = ''-$1,234,567.89'' \<and>
   formatCurrency (toFixed2 (fl (200005 / 1000))) = formatCurrency (fl (200005 / 1000))"
proof -
  have c: "\<bar>-123456789 :: int\<bar> \<le> 10 ^ 15" by simp
  have x: "0 \<le> fl (200005 / 1000)" "fl (200005 / 1000) \<le> 10 ^ 12" by code_simp+
  note e = formatCurrency_exact [OF c x]
  show ?thesis by (rule conjI [OF conjunct1 [OF e] conjI [OF large_text conjunct2 [OF e]]])
qed

end
