(* ===== verification/Dates.thy ===== *)
theory Dates
  imports Money
begin

text \<open>
  Dates as text: \<open>formatDate\<close> of \<open>lib/utils.ts\<close> with the locale no caller changes. \<open>new Date\<close> reads a
  string as a time in milliseconds since 1970, and the format writes the day it falls on in the
  browser's time zone. The calendar is the one the language demands; years before the first are
  left out. Parameters: \<open>parse_date\<close>, how strings are read as times, which the language fixes for
  some strings only; \<open>tz\<close>, the offset of the time zone in milliseconds at a given time. A string that is
  not read as a time makes the format throw a \<open>RangeError\<close>, here \<open>None\<close>.
\<close>

subsection \<open>The calendar\<close>

definition day_from_year :: "int \<Rightarrow> int" where
  "day_from_year y = 365 * (y - 1970) + (y - 1969) div 4 - (y - 1901) div 100 + (y - 1601) div 400"

definition leap_year :: "int \<Rightarrow> bool" where
  "leap_year y = (4 dvd y \<and> (\<not> 100 dvd y \<or> 400 dvd y))"

definition month_lengths :: "int \<Rightarrow> int list" where
  "month_lengths y = [31, if leap_year y then 29 else 28, 31, 30, 31, 30, 31, 31, 30, 31, 30, 31]"

lemma div_next:
  assumes k: "0 < k" shows "(x + 1) div k = x div k + (if k dvd x + 1 then 1 else (0::int))"
proof -
  define q r where "q = x div k" and "r = x mod k"
  have x: "x = k * q + r" "0 \<le> r" "r < k" using k by (simp_all add: q_def r_def)
  show ?thesis
  proof (cases "r + 1 = k")
    case True
    then have e: "x + 1 = k * (q + 1)" using x by (simp add: algebra_simps)
    then have "k dvd x + 1" by (metis dvd_triv_left)
    then show ?thesis using e k by (simp add: q_def)
  next
    case False
    then have r: "0 \<le> r + 1" "r + 1 < k" using x by simp_all
    have e: "x + 1 = k * q + (r + 1)" using x by simp
    then have "(x + 1) div k = q" "(x + 1) mod k = r + 1"
      using int_div_pos_eq [OF e r] int_mod_pos_eq [OF e r] by simp_all
    then show ?thesis using r x(2) by (simp add: q_def dvd_eq_mod_eq_0)
  qed
qed

lemma dvd_shift: "(k::int) dvd c \<Longrightarrow> k dvd y - c \<longleftrightarrow> k dvd y"
  by (metis diff_add_cancel dvd_add dvd_diff)

lemma year_arith:
  "a' = a + (if p then 1 else 0) \<Longrightarrow> b' = b + (if q then 1 else 0) \<Longrightarrow> c' = c + (if r then 1 else 0) \<Longrightarrow>
   (r \<Longrightarrow> q) \<Longrightarrow> (q \<Longrightarrow> p) \<Longrightarrow>
   365 * (y + 1 - 1970) + a' - b' + c' = 365 * (y - 1970) + a - b + c + (if p \<and> (\<not> q \<or> r) then 366 else (365 :: int))"
  by (cases p; cases q; cases r) (simp_all del: right_diff_distrib)

lemma next_year: "day_from_year (y + 1) = day_from_year y + (if leap_year y then 366 else 365)"
proof -
  have "(y + 1 - 1969) div 4 = (y - 1969) div 4 + (if 4 dvd y then 1 else 0)"
    using div_next [of 4 "y - 1969"] dvd_shift [of 4 1968 y] by simp
  moreover have "(y + 1 - 1901) div 100 = (y - 1901) div 100 + (if 100 dvd y then 1 else 0)"
    using div_next [of 100 "y - 1901"] dvd_shift [of 100 1900 y] by simp
  moreover have "(y + 1 - 1601) div 400 = (y - 1601) div 400 + (if 400 dvd y then 1 else 0)"
    using div_next [of 400 "y - 1601"] dvd_shift [of 400 1600 y] by simp
  moreover have "400 dvd y \<Longrightarrow> 100 dvd y" "100 dvd y \<Longrightarrow> 4 dvd y"
    by (rule dvd_trans [of _ 400], simp, assumption, rule dvd_trans [of _ 100], simp, assumption)
  ultimately show ?thesis unfolding day_from_year_def leap_year_def by (rule year_arith)
qed

lemma year_length: "sum_list (month_lengths y) = day_from_year (y + 1) - day_from_year y"
  by (simp add: month_lengths_def next_year)

lemma twelve_months: "length (month_lengths y) = 12"
  by (simp add: month_lengths_def)

lemma year_grows: "day_from_year y < day_from_year (y + 1)"
  by (simp add: next_year)

function year_up :: "int \<Rightarrow> int \<Rightarrow> int" where
  "year_up day y = (if day_from_year (y + 1) \<le> day then year_up day (y + 1) else y)"
  by pat_completeness auto

termination
proof (relation "measure (\<lambda>(day, y). nat (day - day_from_year y))")
  fix day y assume "day_from_year (y + 1) \<le> day"
  then show "((day, y + 1), (day, y)) \<in> measure (\<lambda>(day, y). nat (day - day_from_year y))"
    using year_grows [of y] by simp
qed simp

declare year_up.simps [simp del]

definition year_of :: "int \<Rightarrow> int" where
  \<comment> \<open>the last year that starts on the day or before, searched from an earlier one\<close>
  "year_of day = year_up day (1969 + (if day < 0 then day div 365 else day div 366))"

fun split_months :: "int list \<Rightarrow> int \<Rightarrow> nat \<times> int" where
  "split_months [] d = (0, d)"
| "split_months (l # ls) d = (if d < l then (0, d) else let (m, r) = split_months ls (d - l) in (Suc m, r))"

definition civil :: "int \<Rightarrow> int \<times> nat \<times> int" where
  \<comment> \<open>year, month from zero, day of the month from zero\<close>
  "civil day = (let y = year_of day in (y, split_months (month_lengths y) (day - day_from_year y)))"

definition day_number :: "int \<times> nat \<times> int \<Rightarrow> int" where
  "day_number ymd = (case ymd of (y, m, d) \<Rightarrow> day_from_year y + sum_list (take m (month_lengths y)) + d)"

definition valid_civil :: "int \<times> nat \<times> int \<Rightarrow> bool" where
  "valid_civil ymd = (case ymd of (y, m, d) \<Rightarrow> m < 12 \<and> 0 \<le> d \<and> d < month_lengths y ! m)"

subsection \<open>Formatting\<close>

definition month_names :: "jsstring list" where
  "month_names = [''Jan'', ''Feb'', ''Mar'', ''Apr'', ''May'', ''Jun'', ''Jul'', ''Aug'', ''Sep'', ''Oct'', ''Nov'', ''Dec'']"

definition date_text :: "int \<times> nat \<times> int \<Rightarrow> jsstring" where
  "date_text ymd = (case ymd of (y, m, d) \<Rightarrow>
     month_names ! m @ '' '' @ show_nat (nat (d + 1)) @ '', '' @ show_nat (nat y))"

definition local_day :: "(int \<Rightarrow> int) \<Rightarrow> int \<Rightarrow> int" where
  "local_day tz t = (t + tz t) div 86400000"

definition formatDate :: "(jsstring \<Rightarrow> int option) \<Rightarrow> (int \<Rightarrow> int) \<Rightarrow> jsstring \<Rightarrow> jsstring option" where
  "formatDate parse_date tz date = map_option (\<lambda>t. date_text (civil (local_day tz t))) (parse_date date)"

subsection \<open>Days and dates\<close>

lemma year_up_spec:
  "day_from_year y \<le> day \<Longrightarrow> day_from_year (year_up day y) \<le> day \<and> day < day_from_year (year_up day y + 1)"
proof (induction day y rule: year_up.induct)
  case (1 day y)
  then show ?case by (subst (1 2) year_up.simps) auto
qed

lemma floor_bounds: "0 < c \<Longrightarrow> c * (x div c) \<le> x \<and> x < c * (x div c) + (c :: int)"
  using mult_div_mod_eq [of c x] pos_mod_bound [of c x] pos_mod_sign [of c x] by linarith

lemma below_estimate:
  "400 * x \<le> 97 * k + 496 \<Longrightarrow> 365 * k \<le> day \<Longrightarrow> k < 0 \<Longrightarrow> 365 * k - 365 + x \<le> (day :: int)"
  "400 * x \<le> 97 * k + 496 \<Longrightarrow> 366 * k \<le> day \<Longrightarrow> 0 \<le> k \<Longrightarrow> 365 * k - 365 + x \<le> (day :: int)"
  by linarith+

lemma early_year: "day_from_year (1969 + (if day < 0 then day div 365 else day div 366)) \<le> day"
proof -
  define k where "k = (if day < 0 then day div 365 else day div 366)"
  define a b c where "a = k div 4" and "b = (k + 68) div 100" and "c = (k + 368) div 400"
  have d: "day_from_year (1969 + k) = 365 * k - 365 + (a - b + c)"
    unfolding day_from_year_def a_def b_def c_def by (simp add: add.commute right_diff_distrib)
  have q: "4 * a \<le> k" "k + 68 < 100 * b + 100" "400 * c \<le> k + 368"
    using floor_bounds [of 4 k, folded a_def] floor_bounds [of 100 "k + 68", folded b_def]
      floor_bounds [of 400 "k + 368", folded c_def] by simp_all
  have "400 * a \<le> 100 * k" "4 * k < 400 * b + 128" using q by simp_all
  then have q: "400 * (a - b + c) \<le> 97 * k + 496" using q(3) by (simp only: right_diff_distrib distrib_left)
  have "365 * k - 365 + (a - b + c) \<le> day"
  proof (cases "day < 0")
    case True
    then have "365 * k \<le> day" "k < 0"
      using floor_bounds [of 365 day] by (simp_all add: k_def div_neg_pos_less0)
    with q show ?thesis by (rule below_estimate(1))
  next
    case False
    then have "366 * k \<le> day" "0 \<le> k"
      using floor_bounds [of 366 day] by (simp_all add: k_def pos_imp_zdiv_nonneg_iff)
    with q show ?thesis by (rule below_estimate(2))
  qed
  then have "day_from_year (1969 + k) \<le> day" unfolding d .
  then show ?thesis unfolding k_def .
qed

lemma year_of_spec: "day_from_year (year_of day) \<le> day \<and> day < day_from_year (year_of day + 1)"
  unfolding year_of_def by (rule year_up_spec [OF early_year])

lemma split_months_spec:
  assumes "0 \<le> d" "d < sum_list ls" and "split_months ls d = (m, r)"
  shows "m < length ls \<and> 0 \<le> r \<and> r < ls ! m \<and> sum_list (take m ls) + r = d"
  using assms
proof (induction ls d arbitrary: m r rule: split_months.induct)
  case (2 l ls d)
  show ?case
  proof (cases "d < l")
    case False
    obtain m' r' where mr: "split_months ls (d - l) = (m', r')" by (cases "split_months ls (d - l)")
    with False 2 have "m' < length ls \<and> 0 \<le> r' \<and> r' < ls ! m' \<and> sum_list (take m' ls) + r' = d - l" by simp
    moreover have "m = Suc m'" "r = r'" using 2(4) False mr by simp_all
    ultimately show ?thesis by simp
  qed (use 2 in simp)
qed simp

text \<open>Days and dates are the same thing: every day has exactly one valid date.\<close>

lemma civil_valid: "valid_civil (civil day) \<and> day_number (civil day) = day"
proof -
  define y where "y = year_of day"
  obtain m r where mr: "split_months (month_lengths y) (day - day_from_year y) = (m, r)"
    by (cases "split_months (month_lengths y) (day - day_from_year y)")
  have "0 \<le> day - day_from_year y" "day - day_from_year y < sum_list (month_lengths y)"
    using year_of_spec [of day] by (simp_all add: y_def year_length)
  from split_months_spec [OF this mr] show ?thesis
    by (simp add: civil_def Let_def mr valid_civil_def day_number_def twelve_months flip: y_def)
qed

lemma civil_inj: "civil a = civil b \<longleftrightarrow> a = b"
  using civil_valid by metis

subsection \<open>Reading dates\<close>

lemma take_digits: "list_all is_digit a \<Longrightarrow> \<not> is_digit c \<Longrightarrow> takeWhile is_digit (a @ c # r) = a"
  by (induction a) auto

lemma digits_sep:
  assumes "show_nat a @ '', '' @ s = show_nat b @ '', '' @ t" shows "a = b \<and> s = t"
proof -
  have "takeWhile is_digit (show_nat n @ '', '' @ u) = show_nat n" for n u
    using take_digits [OF digits_show_nat [of n], of "CHR '',''" "CHR '' '' # u"] by simp
  then have "show_nat a = show_nat b" using assms by metis
  then show ?thesis using assms show_nat_inj by auto
qed

lemma month_name_length: "m < 12 \<Longrightarrow> length (month_names ! m) = 3"
  using nth_mem [of m month_names] by (auto simp: month_names_def)

lemma month_names_distinct: "m < 12 \<Longrightarrow> n < 12 \<Longrightarrow> month_names ! m = month_names ! n \<longleftrightarrow> m = n"
  by (rule nth_eq_iff_index_eq) (simp_all add: month_names_def)

lemma date_text_inj:
  assumes "valid_civil (y, m, d)" "valid_civil (y', m', d')" "0 \<le> y" "0 \<le> y'"
    and "date_text (y, m, d) = date_text (y', m', d')"
  shows "(y, m, d) = (y', m', d')"
proof -
  have v: "m < 12" "m' < 12" "0 \<le> d" "0 \<le> d'" using assms(1,2) by (simp_all add: valid_civil_def)
  have e: "month_names ! m @ '' '' @ show_nat (nat (d + 1)) @ '', '' @ show_nat (nat y) =
      month_names ! m' @ '' '' @ show_nat (nat (d' + 1)) @ '', '' @ show_nat (nat y')"
    using assms(5) by (simp only: date_text_def prod.case)
  then have n: "month_names ! m = month_names ! m'"
    and t: "show_nat (nat (d + 1)) @ '', '' @ show_nat (nat y) = show_nat (nat (d' + 1)) @ '', '' @ show_nat (nat y')"
    using v month_name_length by (simp_all add: append_eq_append_conv)
  have "nat (d + 1) = nat (d' + 1)" "nat y = nat y'" using digits_sep [OF t] by (simp_all add: show_nat_inj)
  then show ?thesis using n v assms(3,4) month_names_distinct by auto
qed

text \<open>A date on the screen names the local day. Two times, of the years from the first on, are shown alike
  exactly when they fall on the same day in the browser's time zone; every day has its own text; and
  a string that is no time shows nothing: the format throws.\<close>

theorem formatDate_names_day:
  assumes "parse_date s = Some t" "parse_date s' = Some t'"
    and "1 \<le> year_of (local_day tz t)" "1 \<le> year_of (local_day tz t')"
  shows "(formatDate parse_date tz s = formatDate parse_date tz s' \<longleftrightarrow> local_day tz t = local_day tz t') \<and>
    day_number (civil (local_day tz t)) = local_day tz t \<and>
    (parse_date r = None \<longleftrightarrow> formatDate parse_date tz r = None)"
proof -
  have f: "fst (civil day) = year_of day" for day by (simp add: civil_def Let_def)
  have "date_text (civil a) = date_text (civil b) \<Longrightarrow> a = b" if "0 \<le> year_of a" "0 \<le> year_of b" for a b
  proof -
    assume e: "date_text (civil a) = date_text (civil b)"
    obtain y m d y' m' d' where c: "civil a = (y, m, d)" "civil b = (y', m', d')"
      by (cases "civil a", cases "civil b") auto
    have "(y, m, d) = (y', m', d')"
      using e that civil_valid [of a] civil_valid [of b] f [of a] f [of b] unfolding c
      by (intro date_text_inj) simp_all
    then show "a = b" using c civil_inj by metis
  qed
  then show ?thesis using assms civil_valid by (auto simp: formatDate_def)
qed

lemma leap_day: "day_from_year 2024 = 19723" "year_of 19781 = 2024" "year_of 19782 = 2024"
  by (simp_all add: year_of_def year_up.simps day_from_year_def)

lemma formatDate_example:
  "formatDate [''2024-02-28T23:30:00Z'' \<mapsto> 1709163000000] (\<lambda>t. 3600000) ''2024-02-28T23:30:00Z'' = Some ''Feb 29, 2024''"
  by (simp add: formatDate_def local_day_def civil_def leap_day month_lengths_def leap_year_def date_text_def
      month_names_def show_nat.simps char_of_def bit_0)

text \<open>In Berlin half past eleven on the last evening of February in London is the next day.\<close>

theorem formatDate_names_day_witness:
  defines "known \<equiv> [''2024-02-28T23:30:00Z'' \<mapsto> 1709163000000, ''2024-02-29'' \<mapsto> 1709164800000]"
  shows "formatDate known (\<lambda>t. 3600000) ''2024-02-28T23:30:00Z'' = formatDate known (\<lambda>t. 3600000) ''2024-02-29'' \<and>
    formatDate known (\<lambda>t. 3600000) ''today'' = None"
  using formatDate_names_day [of known "''2024-02-28T23:30:00Z''" 1709163000000 "''2024-02-29''" 1709164800000 "\<lambda>t. 3600000" "''today''"]
  by (simp add: known_def local_day_def leap_day)

end
