(* ===== verification/Site.thy ===== *)
theory Site
  imports App_Routes Shopping
begin

text \<open>
  The frontend as one system: the session of \<open>App_Routes\<close> (the location, the guard, the
  HTTP client with the credentials, the command palette) together with the pages of a
  purchase of \<open>Shopping\<close>. The route table decides which of these pages is open; the
  one link they follow themselves is the button of the checkout page that leads to the orders.

  A reload of the browser starts the application anew. The stores that are created with
  the \<open>persist\<close> middleware (credentials, tenant, cart, wishlist, search history,
  notifications) and the draft, which \<open>useFormAutosave\<close> keeps, are in
  \<open>localStorage\<close> and are read back; the module variables of the client, the toasts, the
  palette, the open page and every request under way are gone.
\<close>

record site =
  si_session :: session
  si_shop :: shop

fun target_of :: "app_page \<Rightarrow> target" where
  "target_of CatalogPage = ToCatalog"
| "target_of CartScreen = ToCart"
| "target_of CheckoutPage = ToCheckout"
| "target_of _ = ToElsewhere"

fun target_open :: "open_page \<Rightarrow> target" where
  "target_open (AtCatalog c) = ToCatalog"
| "target_open (AtCart p) = ToCart"
| "target_open (AtCheckout c) = ToCheckout"
| "target_open Elsewhere = ToElsewhere"

definition open_routed :: "jsstring \<Rightarrow> site \<Rightarrow> site" where
  \<comment> \<open>the page of the matched route replaces the page that was open, unless it is the same\<close>
  "open_routed sample s =
     (let to = target_of (page_of (si_session s))
      in if target_open (sh_page (si_shop s)) = to then s else s\<lparr>si_shop := go_to sample to (si_shop s)\<rparr>)"

definition page_route :: "open_page \<Rightarrow> jsstring option" where
  \<comment> \<open>where the open page itself navigates to\<close>
  "page_route p = (case p of AtCheckout c \<Rightarrow> if ck_route c = ''/checkout'' then None else Some (ck_route c) | _ \<Rightarrow> None)"

definition follow_page :: "site \<Rightarrow> site" where
  "follow_page s =
     (case page_route (sh_page (si_shop s)) of
        None \<Rightarrow> s
      | Some to \<Rightarrow> s\<lparr>si_session := session_step (si_session s) (Visit to)\<rparr>)"

definition empty_shop :: "stores \<Rightarrow> shop" where
  "empty_shop so = \<lparr>sh_page = Elsewhere, sh_stores = so, sh_waiting = [], sh_sent = []\<rparr>"

definition mount_site :: "jsstring \<Rightarrow> jsstring \<Rightarrow> search_state \<Rightarrow> jsstring \<Rightarrow> stores \<Rightarrow> site" where
  "mount_site sample cid history loc so =
     open_routed sample \<lparr>si_session = mount_session cid history loc, si_shop = empty_shop so\<rparr>"

definition reload_session :: "jsstring \<Rightarrow> session \<Rightarrow> session" where
  "reload_session cid s =
     render_routes
       \<lparr>ses_client = (initial_client cid)\<lparr>auth := auth (ses_client s), tenant := tenant (ses_client s)\<rparr>,
        ses_palette = initial_palette (pal_history (ses_palette s)) (ses_loc s), ses_loc = ses_loc s\<rparr>"

definition reload_stores :: "stores \<Rightarrow> stores" where
  "reload_stores so = so\<lparr>so_notes := (so_notes so)\<lparr>toast_store := initial_toasts\<rparr>\<rparr>"

definition reload_site :: "jsstring \<Rightarrow> jsstring \<Rightarrow> site \<Rightarrow> site" where
  \<comment> \<open>requests that were sent stay sent\<close>
  "reload_site sample cid s =
     open_routed sample
       \<lparr>si_session = reload_session cid (si_session s),
        si_shop = (empty_shop (reload_stores (shop_stores (si_shop s))))\<lparr>sh_sent := shop_sent (si_shop s)\<rparr>\<rparr>"

datatype site_event = Browse session_event | InShop shop_event | ReloadSite jsstring

definition routed_event :: "shop_event \<Rightarrow> bool" where
  "routed_event e = (case e of GoTo to \<Rightarrow> True | _ \<Rightarrow> False)"

fun site_step :: "jsstring \<Rightarrow> (jsstring \<Rightarrow> json_kind) \<Rightarrow> site \<Rightarrow> site_event \<Rightarrow> site" where
  "site_step sample json s (Browse e) = open_routed sample (s\<lparr>si_session := session_step (si_session s) e\<rparr>)"
| "site_step sample json s (InShop e) =
     (if routed_event e then s  \<comment> \<open>the router opens the pages\<close>
      else open_routed sample (follow_page (s\<lparr>si_shop := shop_step sample json (si_shop s) e\<rparr>)))"
| "site_step sample json s (ReloadSite cid) = reload_site sample cid s"

subsection \<open>Invariant\<close>

definition site_inv :: "site \<Rightarrow> bool" where
  "site_inv s \<longleftrightarrow> session_inv (si_session s) \<and> shop_inv (si_shop s) \<and>
     target_open (sh_page (si_shop s)) = target_of (page_of (si_session s))"

lemma target_enter [simp]: "target_open (enter sample to so) = to"
  by (cases to) simp_all

lemma open_routed_session [simp]: "si_session (open_routed sample s) = si_session s"
  by (simp add: open_routed_def Let_def)

lemma open_routed_inv:
  "session_inv (si_session s) \<Longrightarrow> shop_inv (si_shop s) \<Longrightarrow> site_inv (open_routed sample s)"
  using shop_step_inv [of "si_shop s" sample _ "GoTo (target_of (page_of (si_session s)))"]
  by (simp add: open_routed_def site_inv_def Let_def go_to_def)

lemma empty_shop_inv:
  "stores_ok so \<Longrightarrow> list_all request_ok rs \<Longrightarrow> shop_inv ((empty_shop so)\<lparr>sh_sent := rs\<rparr>)"
  by (simp add: empty_shop_def shop_inv_def page_ok_def)

lemma reload_session_inv: "session_inv s \<Longrightarrow> session_inv (reload_session cid s)"
  unfolding reload_session_def
  by (intro render_routes_inv)
    (simp add: client_inv_def calls_inv_def all_calls_def waiting_def rotation_inv_def initial_client_def numbers_below_def)

lemma follow_page_inv:
  "session_inv (si_session s) \<Longrightarrow> session_inv (si_session (follow_page s))"
  by (auto simp: follow_page_def intro: session.inv_step split: option.split)

lemma follow_page_shop [simp]: "si_shop (follow_page s) = si_shop s"
  by (simp add: follow_page_def split: option.split)

lemma shop_stores_ok: "shop_inv s \<Longrightarrow> stores_ok (shop_stores s)"
  by (simp add: shop_inv_def shop_stores_def leave_ok)

lemma shop_sent_ok: "shop_inv s \<Longrightarrow> list_all request_ok (shop_sent s)"
  using page_parts_ok by (auto simp: shop_inv_def shop_sent_def)

lemma site_step_inv:
  assumes "site_inv s" shows "site_inv (site_step sample json s e)"
proof -
  have s: "session_inv (si_session s)" "shop_inv (si_shop s)" using assms by (simp_all add: site_inv_def)
  show ?thesis
  proof (cases e)
    case (Browse ev)
    then show ?thesis using s session.inv_step by (auto intro!: open_routed_inv)
  next
    case (InShop ev)
    then show ?thesis using s assms by (auto intro!: open_routed_inv follow_page_inv shop_step_inv)
  next
    case (ReloadSite cid)
    have "stores_ok (reload_stores (shop_stores (si_shop s)))"
      using shop_stores_ok [OF s(2)] by (simp add: stores_ok_def reload_stores_def)
    then show ?thesis using ReloadSite s shop_sent_ok [OF s(2)]
      by (auto simp: reload_site_def intro!: open_routed_inv reload_session_inv empty_shop_inv)
  qed
qed

lemma mount_site_inv: "stores_ok so \<Longrightarrow> site_inv (mount_site sample cid history loc so)"
  using empty_shop_inv [of so "[]"] session.inv_init
  by (auto simp: mount_site_def empty_shop_def intro!: open_routed_inv)

interpretation site: state_machine "mount_site sample cid history loc so" "site_step sample json" "\<lambda>s. stores_ok so \<longrightarrow> site_inv s"
  for sample cid history loc so json
  by unfold_locales (auto simp: mount_site_inv site_step_inv)

lemma site_run_inv:
  "stores_ok so \<Longrightarrow> site_inv (run (site_step sample json) (mount_site sample cid history loc so) es)"
  using site.inv_run [of so] by simp

lemma shop_page_guarded:
  assumes "site_inv s" "target_open (sh_page (si_shop s)) \<noteq> ToElsewhere"
  shows "isAuthenticated (auth (ses_client (si_session s))) \<and>
    map_of routes (ses_loc (si_session s)) =
      Some (AppFrame, case target_open (sh_page (si_shop s)) of ToCatalog \<Rightarrow> CatalogPage | ToCart \<Rightarrow> CartScreen
                      | ToCheckout \<Rightarrow> CheckoutPage | ToElsewhere \<Rightarrow> NotFoundPage)"
proof -
  define u where "u = si_session s"
  have m: "match_route (auth (ses_client u)) (ses_loc u) = Inr (frame_of u, page_of u)"
    and t: "target_open (sh_page (si_shop s)) = target_of (page_of u)"
    using assms(1) by (simp_all add: u_def site_inv_def session_inv_def)
  have r: "map_of routes (ses_loc u) = Some (frame_of u, page_of u)" by (rule match_in_table [OF m])
  have p: "page_of u \<in> {CatalogPage, CartScreen, CheckoutPage}" using assms(2) t by (cases "page_of u") simp_all
  with map_of_SomeD [OF r] have f: "frame_of u = AppFrame" by (auto simp: routes_def)
  then have "isAuthenticated (auth (ses_client u))" using m match_guarded by metis
  then show ?thesis using r f p t unfolding u_def [symmetric] by auto
qed

lemma site_step_client:
  "ses_client (si_session (site_step sample json s (Browse (NetEvent ev)))) = client_step (ses_client (si_session s)) ev"
  by (simp add: session_step_def)

text \<open>C6. Over any session of the whole site, however navigation, shortcuts, the palette, signing in and out,
  a token rotation that fails, clicks, timers, late answers and reloads interleave: the
  catalog, the cart or the checkout page is open only while the user is authenticated and
  the address is that page's; the cart keeps its invariant and the wishlist has no
  duplicates; and every reservation and order ever sent names each product at most
  once, with a positive quantity. When the credentials are gone no page of the shop is open.\<close>

theorem site_session:
  assumes "stores_ok so"
  shows "let s = run (site_step sample json) (mount_site sample cid history loc so) es; shop = si_shop s in
    (target_open (sh_page shop) \<noteq> ToElsewhere \<longrightarrow>
       isAuthenticated (auth (ses_client (si_session s))) \<and>
       map_of routes (ses_loc (si_session s)) =
         Some (AppFrame, case target_open (sh_page shop) of ToCatalog \<Rightarrow> CatalogPage | ToCart \<Rightarrow> CartScreen
                         | ToCheckout \<Rightarrow> CheckoutPage | ToElsewhere \<Rightarrow> NotFoundPage)) \<and>
    cart_inv (so_cart (shop_stores shop)) \<and> distinct (itemIds (so_wishlist (shop_stores shop))) \<and>
    list_all request_ok (shop_sent shop) \<and>
    (\<not> isAuthenticated (auth (client_step (ses_client (si_session s)) ev)) \<longrightarrow>
       sh_page (si_shop (site_step sample json s (Browse (NetEvent ev)))) = Elsewhere)"
proof -
  define s where "s = run (site_step sample json) (mount_site sample cid history loc so) es"
  have i: "site_inv s" unfolding s_def by (rule site_run_inv [OF assms])
  then have sh: "shop_inv (si_shop s)" by (simp add: site_inv_def)
  have "target_open (sh_page (si_shop (site_step sample json s (Browse (NetEvent ev))))) = ToElsewhere"
    if "\<not> isAuthenticated (auth (client_step (ses_client (si_session s)) ev))"
    using shop_page_guarded [OF site_step_inv [OF i], of sample json "Browse (NetEvent ev)"] that
    by (auto simp only: site_step_client)
  moreover have "target_open p = ToElsewhere \<Longrightarrow> p = Elsewhere" for p by (cases p) simp_all
  ultimately show ?thesis
    using shop_page_guarded [OF i] shop_stores_ok [OF sh] shop_sent_ok [OF sh]
    unfolding s_def [symmetric] Let_def stores_ok_def by blast
qed

subsection \<open>The next user\<close>

lemma leave_enter [simp]: "leave (enter sample to so) so = so"
  by (cases to) (simp_all add: mount_catalog_def fetch_start_def mount_checkout_def initial_autosave_def Let_def
      autosave_effect_def rerender_def split: option.split)

lemma shop_stores_go [simp]: "shop_stores (go_to sample to s) = shop_stores s"
  by (simp add: go_to_def shop_stores_def)

lemma open_routed_stores [simp]: "shop_stores (si_shop (open_routed sample s)) = shop_stores (si_shop s)"
  by (simp add: open_routed_def Let_def)

definition kept_stores :: "site \<Rightarrow> cart_state \<times> wishlist_state \<times> checkout_form option" where
  "kept_stores s =
     (let so = shop_stores (si_shop s) in (so_cart so, so_wishlist so, so_draft so))"

fun touches_shop :: "site_event \<Rightarrow> bool" where
  "touches_shop (InShop e) = True"
| "touches_shop (Browse e) = False"
| "touches_shop (ReloadSite cid) = False"

lemma empty_shop_stores: "shop_stores ((empty_shop so)\<lparr>sh_sent := rs\<rparr>) = so"
  by (simp add: shop_stores_def empty_shop_def)

lemma kept_step: "\<not> touches_shop e \<Longrightarrow> kept_stores (site_step sample json s e) = kept_stores s"
  by (cases e) (simp_all add: kept_stores_def reload_site_def reload_stores_def empty_shop_stores Let_def)

lemma kept_run: "\<not> list_ex touches_shop es \<Longrightarrow> kept_stores (run (site_step sample json) s es) = kept_stores s"
  by (induction es arbitrary: s) (auto simp: kept_step)

lemma open_elsewhere: "target_open p = ToElsewhere \<Longrightarrow> p = Elsewhere"
  by (cases p) simp_all

lemma page_of_step:
  "page_of (session_step s e) =
     snd (snd (follow (auth (ses_client (session_act s e))) (ses_loc (session_act s e))))"
  by (simp add: session_step_def page_of_def)

lemma follow_home: "follow a ''/'' = (''/'', Bare, LandingPage)"
  by (rule follow_Inr) (simp add: match_route_def routes_def)

lemma follow_checkout: "isAuthenticated a \<Longrightarrow> follow a ''/checkout'' = (''/checkout'', AppFrame, CheckoutPage)"
  by (rule follow_Inr) (simp add: match_route_def routes_def protected_route_def)

lemma visit_home: "sh_page (si_shop (site_step sample json s (Browse (Visit ''/'')))) = Elsewhere"
  using open_elsewhere by (auto simp: open_routed_def Let_def page_of_step follow_home go_to_def)

lemma visit_checkout:
  assumes "isAuthenticated (auth (ses_client (si_session s)))" "sh_page (si_shop s) = Elsewhere"
  shows "let so = shop_stores (si_shop s) in
    sh_page (si_shop (site_step sample json s (Browse (Visit ''/checkout'')))) =
      AtCheckout (mount_checkout (so_cart so) (so_notes so) (so_draft so))"
  using assms by (simp add: open_routed_def Let_def page_of_step follow_checkout go_to_def)

lemma browse_client:
  "ses_client (si_session (site_step sample json s (Browse (Visit loc)))) = ses_client (si_session s)"
  by (simp add: session_step_def)

lemma mounted_draft:
  "ck_cart (mount_checkout c ns d) = c" "ck_form (mount_checkout c ns d) = (case d of None \<Rightarrow> empty_form | Some f \<Rightarrow> f)"
  "ck_sent (mount_checkout c ns d) = []" "\<not> ck_loading (mount_checkout c ns d)" "\<not> ck_success (mount_checkout c ns d)"
  "ck_route (mount_checkout c ns d) = ''/checkout''"
  by (simp_all add: mount_checkout_def initial_autosave_def Let_def split: option.split)

lemma site_checkout_step:
  assumes "sh_page (si_shop s) = AtCheckout c" "page_of (si_session s) = CheckoutPage"
    "ck_route (checkout_step c e) = ''/checkout''"
  shows "site_step sample json s (InShop (InCheckout e)) =
    s\<lparr>si_shop := (si_shop s)\<lparr>sh_page := AtCheckout (checkout_step c e)\<rparr>\<rparr>"
  using assms by (simp add: routed_event_def follow_page_def page_route_def open_routed_def Let_def)

lemma submit_mounted:
  assumes "valid_form d"
  shows "let c = mount_checkout cart0 ns (Some d); c1 = checkout_step c (Act Submit); c2 = checkout_step c1 (ReserveAnswered r)
    in ck_route c1 = ''/checkout'' \<and> ck_route c2 = ''/checkout'' \<and>
       ck_sent c2 = [Reserve (reserve_items cart0), PlaceOrder (reserve_items cart0) (full_address d) (payment d)]"
  using assms by (simp add: Let_def mounted_draft submit_start_def schema_valid reserve_answered_def)

text \<open>C7. Signing out leaves the cart and the draft of the checkout form behind, in the
  browser, for whoever signs in next. Whatever one user did before, and however the user
  then signs out, the browser is reloaded and another user signs in: the checkout page of the
  other user has the first one's cart and form, and one click on its button, if that form
  was complete, reserves and orders the first user's products to the first user's address, in the
  name of the second.\<close>

theorem next_user_orders:
  assumes quiet: "\<not> list_ex touches_shop es"
  shows "let t = run (site_step sample json) s
               (es @ map Browse [NetEvent (SignIn (Some u) tok rtok), Visit ''/'', Visit ''/checkout'']);
           so = shop_stores (si_shop s);
           t' = run (site_step sample json) t (map (\<lambda>e. InShop (InCheckout e)) [Act Submit, ReserveAnswered r])
    in auth_user (auth (ses_client (si_session t))) = Some u \<and>
       (\<exists>c. sh_page (si_shop t) = AtCheckout c \<and> ck_cart c = so_cart so \<and>
            ck_form c = (case so_draft so of None \<Rightarrow> empty_form | Some d \<Rightarrow> d)) \<and>
       (\<forall>d. so_draft so = Some d \<and> valid_form d \<longrightarrow>
          shop_sent (si_shop t') = shop_sent (si_shop t) @
            [Reserve (reserve_items (so_cart so)), PlaceOrder (reserve_items (so_cart so)) (full_address d) (payment d)])"
proof -
  define v where "v = run (site_step sample json) s (es @ [Browse (NetEvent (SignIn (Some u) tok rtok))])"
  define h where "h = site_step sample json v (Browse (Visit ''/''))"
  define t where "t = site_step sample json h (Browse (Visit ''/checkout''))"
  define so where "so = shop_stores (si_shop h)"
  define c where "c = mount_checkout (so_cart so) (so_notes so) (so_draft so)"
  have "auth_user (auth (ses_client (si_session v))) = Some u \<and> isAuthenticated (auth (ses_client (si_session v)))"
    by (simp add: v_def site_step_client setCredentials_def del: site_step.simps)
  then have a: "auth_user (auth (ses_client (si_session t))) = Some u" "isAuthenticated (auth (ses_client (si_session h)))"
    by (simp_all add: t_def h_def browse_client del: site_step.simps)
  have "h = run (site_step sample json) s (es @ map Browse [NetEvent (SignIn (Some u) tok rtok), Visit ''/''])"
    by (simp add: h_def v_def)
  then have "kept_stores h = kept_stores s" using quiet by (simp add: kept_run del: run_append)
  then have k: "so_cart so = so_cart (shop_stores (si_shop s))" "so_draft so = so_draft (shop_stores (si_shop s))"
    by (simp_all add: kept_stores_def so_def Let_def)
  have p: "sh_page (si_shop t) = AtCheckout c"
    using visit_checkout [OF a(2)] visit_home by (simp add: t_def h_def c_def so_def Let_def del: site_step.simps)
  have pg: "page_of (si_session t) = CheckoutPage"
    using a(2) by (simp add: t_def page_of_step follow_checkout)
  have o: "shop_sent (si_shop (run (site_step sample json) t (map (\<lambda>e. InShop (InCheckout e)) [Act Submit, ReserveAnswered r]))) =
      shop_sent (si_shop t) @ [Reserve (reserve_items (so_cart so)), PlaceOrder (reserve_items (so_cart so)) (full_address d) (payment d)]"
    if d: "so_draft so = Some d" "valid_form d" for d
  proof -
    note m = submit_mounted [OF d(2), of "so_cart so" "so_notes so" r, unfolded Let_def]
    have c: "c = mount_checkout (so_cart so) (so_notes so) (Some d)" by (simp add: c_def d(1))
    show ?thesis using m p pg unfolding c
      by (simp add: site_checkout_step shop_sent_def page_sent_def mounted_draft del: checkout_step.simps site_step.simps)
  qed
  have "t = run (site_step sample json) s (es @ map Browse [NetEvent (SignIn (Some u) tok rtok), Visit ''/'', Visit ''/checkout''])"
    by (simp add: t_def h_def v_def)
  then show ?thesis using a(1) p o k unfolding Let_def c_def by (auto simp: mounted_draft)
qed

definition fresh_stores :: stores where
  "fresh_stores =
     \<lparr>so_cart = initial_cart, so_wishlist = initial_wishlist, so_notes = initial_notifications [] [], so_draft = None\<rparr>"

lemma fresh_stores_ok: "stores_ok fresh_stores"
  using cart.inv_init wish_distinct.inv_init by (simp add: stores_ok_def fresh_stores_def)

definition ann_shops :: site where
  \<comment> \<open>Ann puts a product into the cart and fills in the form of the checkout page\<close>
  "ann_shops = run (site_step [] (\<lambda>_. JsonOther)) (mount_site [] ''c1'' initial_search ''/login'' fresh_stores)
     [Browse (NetEvent (SignIn (Some sample_user) (Some ''t1'') (Some ''r1''))), Browse (Visit ''/products''),
      InShop (InCatalog (CatalogAct sample_env (ClickAdd (sample_product ''tea'' 5)))), Browse (Visit ''/checkout''),
      InShop (InCheckout (Act (TypeAddress ''1 Main St''))), InShop (InCheckout (Act (TypeCity ''Pune''))),
      InShop (InCheckout (Act (TypeZip ''41100''))), InShop (InCheckout AutosaveTimer)]"

lemma ann_shops_stores:
  "so_draft (shop_stores (si_shop ann_shops)) =
     Some \<lparr>shipping_address = ''1 Main St'', city = ''Pune'', zip_code = ''41100'', payment = CreditCard\<rparr> \<and>
   reserve_items (so_cart (shop_stores (si_shop ann_shops))) = [\<lparr>ri_product = ''tea'', ri_quantity = 1\<rparr>]"
  by code_simp

theorem next_user_orders_witness:
  "let t = run (site_step [] (\<lambda>_. JsonOther)) ann_shops ([Browse LogoutClick, ReloadSite ''c2''] @
         map Browse [NetEvent (SignIn (Some (sample_user\<lparr>full_name := ''Bob''\<rparr>)) (Some ''t2'') (Some ''r2'')), Visit ''/'', Visit ''/checkout'']);
       t' = run (site_step [] (\<lambda>_. JsonOther)) t (map (\<lambda>e. InShop (InCheckout e)) [Act Submit, ReserveAnswered None])
   in shop_sent (si_shop t') = shop_sent (si_shop t) @
        [Reserve [\<lparr>ri_product = ''tea'', ri_quantity = 1\<rparr>],
         PlaceOrder [\<lparr>ri_product = ''tea'', ri_quantity = 1\<rparr>] ''1 Main St, Pune (41100)'' CreditCard]"
proof -
  let ?d = "\<lparr>shipping_address = ''1 Main St'', city = ''Pune'', zip_code = ''41100'', payment = CreditCard\<rparr>"
  have q: "\<not> list_ex touches_shop [Browse LogoutClick, ReloadSite ''c2'']" by simp
  have d: "so_draft (shop_stores (si_shop ann_shops)) = Some ?d" and r: "reserve_items (so_cart (shop_stores (si_shop ann_shops))) = [\<lparr>ri_product = ''tea'', ri_quantity = 1\<rparr>]"
    using ann_shops_stores by simp_all
  have v: "valid_form ?d" "full_address ?d = ''1 Main St, Pune (41100)''" "payment ?d = CreditCard"
    by (simp_all add: valid_form_def full_address_def)
  note m = next_user_orders [OF q, of "[]" "\<lambda>_. JsonOther" ann_shops "sample_user\<lparr>full_name := ''Bob''\<rparr>" "Some ''t2''" "Some ''r2''" None,
      unfolded Let_def, THEN conjunct2, THEN conjunct2, rule_format, OF conjI, OF d v(1)]
  show ?thesis using m unfolding Let_def r v(2,3) .
qed

theorem site_session_witness:
  "let s = run (site_step [] (\<lambda>_. JsonOther)) (mount_site [] ''c1'' initial_search ''/login'' fresh_stores)
       [Browse signed_in, Browse (Visit ''/products''), InShop (InCatalog (CatalogAct sample_env (ClickAdd (sample_product ''tea'' 5))))]
   in target_open (sh_page (si_shop s)) = ToCatalog \<and> isAuthenticated (auth (ses_client (si_session s))) \<and>
      sh_page (si_shop (site_step [] (\<lambda>_. JsonOther) s (Browse (NetEvent SignOut)))) = Elsewhere"
proof -
  let ?s = "run (site_step [] (\<lambda>_. JsonOther)) (mount_site [] ''c1'' initial_search ''/login'' fresh_stores)
     [Browse signed_in, Browse (Visit ''/products''), InShop (InCatalog (CatalogAct sample_env (ClickAdd (sample_product ''tea'' 5))))]"
  have "let s = ?s in target_open (sh_page (si_shop s)) = ToCatalog \<and>
      \<not> isAuthenticated (auth (client_step (ses_client (si_session s)) SignOut))"
    by code_simp
  then show ?thesis
    using site_session [OF fresh_stores_ok, of "[]" "\<lambda>_. JsonOther" "''c1''" initial_search "''/login''"
        "[Browse signed_in, Browse (Visit ''/products''), InShop (InCatalog (CatalogAct sample_env (ClickAdd (sample_product ''tea'' 5))))]" SignOut]
    unfolding Let_def by (metis target.distinct(5))
qed

end
