(* ===== verification/Live_Feed.thy ===== *)
theory Live_Feed
  imports Web_Socket
begin

text \<open>
  The real-time feed: the end of \<open>stores/notificationStore.ts\<close> subscribes the store to the
  socket of \<open>lib/websocket.ts\<close> and connects it when the module is loaded. The listener is the
  only one of the store; the socket calls it with its status when it subscribes and then
  with everything the socket emits, while the event is handled. \<open>received\<close> says from the
  socket's side which messages came in on an open connection; the theorem says that the
  store shows these and nothing else.
\<close>

record feed =
  fd_socket :: web_socket
  fd_notes :: notification_state

definition call_listener :: "env \<Rightarrow> (ws_status \<times> ws_message option) list \<Rightarrow> notification_state \<Rightarrow> notification_state" where
  "call_listener e calls ns = foldl (\<lambda>n (st, m). notification_listener e st m n) ns calls"

definition feed_step :: "feed \<Rightarrow> env \<times> socket_event \<Rightarrow> feed" where
  "feed_step f ev =
     (let s = socket_step (fd_socket f) (snd ev)
      in \<lparr>fd_socket = s,
          fd_notes = call_listener (fst ev) (drop (length (emitted (fd_socket f))) (emitted s)) (fd_notes f)\<rparr>)"

definition subscribe :: "env \<Rightarrow> feed \<Rightarrow> feed" where
  "subscribe e f = f\<lparr>fd_notes := notification_listener e (status (fd_socket f)) None (fd_notes f)\<rparr>"

definition load_store :: "env \<Rightarrow> notification_state \<Rightarrow> feed" where
  "load_store e ns = feed_step (subscribe e \<lparr>fd_socket = initial_socket, fd_notes = ns\<rparr>) (e, Connect True)"

definition message_of :: "web_socket \<Rightarrow> socket_event \<Rightarrow> ws_message list" where
  "message_of s ev =
     (case ev of
        SocketMessage n d \<Rightarrow>
          if state_of s n = OPEN then (case d of None \<Rightarrow> [] | Some m \<Rightarrow> [m]) else []
      | _ \<Rightarrow> [])"

fun received :: "web_socket \<Rightarrow> (env \<times> socket_event) list \<Rightarrow> (env \<times> ws_message) list" where
  "received s [] = []"
| "received s ((e, ev) # evs) = map (Pair e) (message_of s ev) @ received (socket_step s ev) evs"

definition shown :: "notification_preferences \<Rightarrow> ws_message \<Rightarrow> bool" where
  "shown p m \<longleftrightarrow> well_formed m \<and> preference p (the (payload_category m))"

definition entry :: "env \<times> ws_message \<Rightarrow> notification" where
  "entry em =
     (case em of (e, m) \<Rightarrow>
        \<lparr>notif_id = uuid1 e, notif_title = the (payload_title m), message = the (payload_message m),
         category = the (payload_category m), read = False, timestamp = stamp e\<rparr>)"

definition entry_toast :: "env \<times> ws_message \<Rightarrow> toast" where
  "entry_toast em =
     (case em of (e, m) \<Rightarrow>
        \<lparr>toast_id = uuid2 e, toast_title = the (payload_title m), description = Some (the (payload_message m)),
         variant = category_variant (the (payload_category m)), duration = Some 5000\<rparr>)"

subsection \<open>What the socket emits\<close>

definition silent :: "(ws_status \<times> ws_message option) list \<Rightarrow> bool" where
  "silent calls = list_all (\<lambda>c. snd c = None) calls"

definition emits :: "web_socket \<Rightarrow> web_socket \<Rightarrow> bool" where
  \<comment> \<open>from one state to the other the listener is told only of statuses\<close>
  "emits s s' \<longleftrightarrow> (\<exists>calls. emitted s' = emitted s @ calls \<and> silent calls)"

lemma emits_refl: "emitted s' = emitted s \<Longrightarrow> emits s s'"
  by (simp add: emits_def silent_def)

lemma emits_trans: "emits s t \<Longrightarrow> emits t u \<Longrightarrow> emits s u"
  by (auto simp: emits_def silent_def)

lemma emits_close: "emitted s = emitted t \<Longrightarrow> emits s (handleCloseOrFailure t)"
  by (simp add: emits_def silent_def)

lemma emits_connect: "emitted s = emitted t \<Longrightarrow> emits s (connect ok t)"
  by (auto simp: connect_def Let_def setStatus_def triggerListeners_def emits_def silent_def)

lemma emits_disconnect: "emits s (disconnect s)"
  by (simp add: disconnect_def Let_def setStatus_def triggerListeners_def stopHeartbeat_def close_socket_def
      emits_def silent_def split: option.split)

lemma emits_step: "message_of s ev = [] \<Longrightarrow> emits s (socket_step s ev)"
proof (cases ev)
  case (SocketFail n)
  then show ?thesis
    using emits_trans [OF emits_close emits_close] by (auto intro!: emits_refl)
next
  case (SocketOpen n)
  then show ?thesis
    by (simp add: on_open_def startHeartbeat_def stopHeartbeat_def setStatus_def triggerListeners_def emits_def silent_def)
next
  case (SocketMessage n d)
  moreover assume "message_of s ev = []"
  ultimately show ?thesis by (auto simp: message_of_def on_message_def intro!: emits_refl split: option.splits if_splits)
qed (auto simp: heartbeat_tick_def intro!: emits_refl emits_close emits_connect emits_disconnect split: option.split)

lemma message_emitted: "message_of s ev = m # ms \<Longrightarrow> ms = [] \<and> emitted (socket_step s ev) = emitted s @ [(Open, Some m)]"
  by (auto simp: message_of_def on_message_def triggerListeners_def split: socket_event.splits if_splits option.splits)

lemma call_silent: "silent calls \<Longrightarrow> call_listener e calls ns = ns"
  by (induction calls arbitrary: ns)
    (auto simp: call_listener_def silent_def listener_ignores)

lemma feed_step_notes:
  "fd_notes (feed_step f (e, ev)) = foldl (\<lambda>n m. notification_listener e Open (Some m) n) (fd_notes f) (message_of (fd_socket f) ev)"
proof (cases "message_of (fd_socket f) ev")
  case Nil
  then obtain calls where "emitted (socket_step (fd_socket f) ev) = emitted (fd_socket f) @ calls" "silent calls"
    using emits_step [of "fd_socket f" ev] by (auto simp: emits_def)
  then show ?thesis using Nil by (simp add: feed_step_def Let_def call_silent)
next
  case (Cons m ms)
  with message_emitted [OF Cons] show ?thesis by (simp add: feed_step_def Let_def call_listener_def)
qed

lemma listener_shown:
  "notification_listener e Open (Some m) ns =
     (if shown (preferences ns) m
      then addNotification e (the (payload_title m)) (the (payload_message m)) (the (payload_category m)) ns else ns)"
  by (cases "well_formed m") (simp_all add: shown_def listener_adds listener_ignores addNotification_muted)

lemma listener_effect [simp]:
  "preferences (notification_listener e Open (Some m) ns) = preferences ns"
  "notifications (notification_listener e Open (Some m) ns) =
     (if shown (preferences ns) m then [entry (e, m)] else []) @ notifications ns"
  "toasts (toast_store (notification_listener e Open (Some m) ns)) =
     toasts (toast_store ns) @ (if shown (preferences ns) m then [entry_toast (e, m)] else [])"
  by (simp_all add: listener_shown) (simp_all add: shown_def addNotification_enabled entry_def entry_toast_def)

lemma feed_run:
  "let p = preferences (fd_notes f); ms = filter (\<lambda>(e, m). shown p m) (received (fd_socket f) evs);
       g = run feed_step f evs
   in fd_socket g = run socket_step (fd_socket f) (map snd evs) \<and> preferences (fd_notes g) = p \<and>
      notifications (fd_notes g) = rev (map entry ms) @ notifications (fd_notes f) \<and>
      toasts (toast_store (fd_notes g)) = toasts (toast_store (fd_notes f)) @ map entry_toast ms"
proof (induction evs arbitrary: f)
  case (Cons ev evs)
  obtain e sev where ev: "ev = (e, sev)" by (cases ev)
  have s: "fd_socket (feed_step f (e, sev)) = socket_step (fd_socket f) sev" by (simp add: feed_step_def Let_def)
  have n: "message_of (fd_socket f) sev = [] \<or> (\<exists>m. message_of (fd_socket f) sev = [m])"
    using message_emitted by (cases "message_of (fd_socket f) sev") auto
  show ?case using Cons.IH [of "feed_step f (e, sev)"] n by (auto simp: Let_def s ev feed_step_notes)
qed simp

text \<open>The feed shows what came in, once and in order. Over any run of the socket, with
  reconnections, failures, heartbeats, closing sockets and messages that are not JSON: the
  notifications are those the store had before, and in front of them, newest first,
  exactly one unread entry for each message received on an open connection that is a
  notification with title, text and category whose preference is on; one toast each is
  appended in order of arrival, and nothing else the socket does changes the store. Loading the module
  changes nothing in it either and leaves one socket connecting.\<close>

theorem feed_shows_received:
  "let f = load_store e ns; ms = filter (\<lambda>(e, m). shown (preferences ns) m) (received (fd_socket f) evs);
       g = fd_notes (run feed_step f evs)
   in notifications g = rev (map entry ms) @ notifications ns \<and>
      toasts (toast_store g) = toasts (toast_store ns) @ map entry_toast ms \<and>
      preferences g = preferences ns \<and> unread g = length ms + unread ns \<and>
      sockets (fd_socket f) = [CONNECTING] \<and> fd_socket (run feed_step f evs) = run socket_step (fd_socket f) (map snd evs)"
proof -
  define f where "f = load_store e ns"
  have n: "fd_notes f = ns"
    by (simp add: f_def load_store_def feed_step_notes subscribe_def message_of_def listener_ignores)
  have c: "sockets (fd_socket f) = [CONNECTING]"
    by (simp add: f_def load_store_def feed_step_def Let_def subscribe_def connect_def live_def initial_socket_def
        setStatus_def triggerListeners_def)
  have u: "unread g = length ms + unread ns"
    if "notifications g = rev (map entry ms) @ notifications ns" for g and ms :: "(env \<times> ws_message) list"
  proof -
    have "filter (\<lambda>n. \<not> read n) (map entry ms) = map entry ms" by (auto simp: filter_id_conv entry_def)
    then show ?thesis using that by (simp add: unread_def flip: rev_filter)
  qed
  show ?thesis using feed_run [of f evs] u c unfolding f_def [symmetric] Let_def n by blast
qed

end
