(* ===== verification/Call_Protocol.thy ===== *)
theory Call_Protocol
  imports Api_Client
begin

text \<open>
  What the pages are promised by the HTTP client, as a specification: a call is a promise,
  which is made, in the order of the calls, is pending, and settles once, with a result that
  never changes again. The steps of the specification are an inductive relation; every
  event of the client of \<open>Api_Client\<close>, with its interceptors, its queue and its token rotation, is
  a sequence of such steps on the promises the client stands for.
\<close>

subsection \<open>Promises\<close>

datatype promise = Absent | Pending | Done outcome

type_synonym promises = "nat \<Rightarrow> promise"

definition promises_of :: "client \<Rightarrow> promises" where
  \<comment> \<open>the last result a call was given: a call that is settled again would be seen\<close>
  "promises_of c i =
     (case map_of (rev (settled c)) i of
        Some r \<Rightarrow> Done r
      | None \<Rightarrow> if i < next_call c then Pending else Absent)"

inductive promise_step :: "promises \<Rightarrow> promises \<Rightarrow> bool" where
  make: "p i = Absent \<Longrightarrow> (\<And>j. j < i \<Longrightarrow> p j \<noteq> Absent) \<Longrightarrow> promise_step p (p(i := Pending))"
| settle_one: "p i = Pending \<Longrightarrow> promise_step p (p(i := Done r))"

inductive_cases promise_stepE: "promise_step p q"

abbreviation promise_steps :: "promises \<Rightarrow> promises \<Rightarrow> bool" where
  "promise_steps \<equiv> promise_step\<^sup>*\<^sup>*"

subsection \<open>What the specification promises\<close>

lemma step_keeps_result: "promise_step p q \<Longrightarrow> p i = Done r \<Longrightarrow> q i = Done r"
  by (auto elim!: promise_stepE)

lemma step_keeps_made: "promise_step p q \<Longrightarrow> p i \<noteq> Absent \<Longrightarrow> q i \<noteq> Absent"
  by (auto elim!: promise_stepE split: if_splits)

lemma steps_keep_result: "promise_steps p q \<Longrightarrow> p i = Done r \<Longrightarrow> q i = Done r"
  by (induction rule: rtranclp_induct) (auto intro: step_keeps_result)

lemma steps_keep_made: "promise_steps p q \<Longrightarrow> p i \<noteq> Absent \<Longrightarrow> q i \<noteq> Absent"
  by (induction rule: rtranclp_induct) (auto dest: step_keeps_made)

definition in_order :: "promises \<Rightarrow> bool" where
  "in_order p \<longleftrightarrow> (\<forall>i j. j < i \<longrightarrow> p i \<noteq> Absent \<longrightarrow> p j \<noteq> Absent)"

lemma step_in_order: "promise_step p q \<Longrightarrow> in_order p \<Longrightarrow> in_order q"
  unfolding in_order_def by (erule promise_stepE) (auto split: if_splits)

lemma steps_in_order: "promise_steps p q \<Longrightarrow> in_order p \<Longrightarrow> in_order q"
  by (induction rule: rtranclp_induct) (auto intro: step_in_order)

subsection \<open>The client grows\<close>

definition grows :: "client \<Rightarrow> client \<Rightarrow> bool" where
  "grows c c' \<longleftrightarrow> (\<exists>new. settled c' = settled c @ new) \<and> next_call c \<le> next_call c'"

lemma grows_refl: "settled c' = settled c \<Longrightarrow> next_call c \<le> next_call c' \<Longrightarrow> grows c c'"
  by (simp add: grows_def)

lemma grows_trans: "grows a b \<Longrightarrow> grows b c \<Longrightarrow> grows a c"
  by (auto simp: grows_def)

lemma grows_settle: "grows c d \<Longrightarrow> grows c (settle i r d)"
  by (auto simp: grows_def settle_def)

lemma grows_logout: "grows c d \<Longrightarrow> grows c (logout d)"
  by (auto simp: grows_def logout_def api_call_def issue_def Let_def)

lemma grows_issue: "grows c d \<Longrightarrow> grows c (issue i r d)"
  by (auto simp: grows_def issue_def)

lemma grows_queue: "grows c d \<Longrightarrow> grows c (processQueue e t d)"
  by (auto simp: grows_def processQueue_eq)

lemma grows_on_error: "grows c d \<Longrightarrow> grows c (on_error i r e d)"
  unfolding on_error_def Let_def
  by (auto intro!: grows_settle grows_logout split: option.split) (auto simp: grows_def)

lemma grows_refreshed: "grows c (on_refreshed d c)"
  unfolding on_refreshed_def Let_def
  by (auto intro!: grows_issue grows_queue grows_refl split: option.split)

lemma grows_refresh_failed: "grows c (on_refresh_failed e c)"
  unfolding on_refresh_failed_def Let_def
  by (auto intro!: grows_settle grows_logout grows_queue grows_refl split: option.split)

lemma grows_step: "grows c (client_step c e)"
  by (cases e)
    (auto intro!: grows_settle grows_logout grows_on_error grows_refreshed grows_refresh_failed grows_refl
      simp: api_call_def issue_def send_next_def drop_inflight_def split: option.split list.split)

subsection \<open>Simulation\<close>

definition well_numbered :: "client \<Rightarrow> bool" where
  "well_numbered c \<longleftrightarrow> distinct (map fst (settled c)) \<and> (\<forall>i \<in> fst ` set (settled c). i < next_call c)"

lemma client_inv_numbered: "client_inv c \<Longrightarrow> well_numbered c"
proof -
  assume i: "client_inv c"
  then have "mset (all_calls c) = mset [0..<next_call c]"
    by (simp add: client_inv_def calls_inv_def numbers_below_def)
  then have "set (all_calls c) = set [0..<next_call c]" by (rule mset_eq_setD)
  moreover have "fst ` set (settled c) \<subseteq> set (all_calls c)" unfolding all_calls_def by auto
  ultimately have "\<forall>i \<in> fst ` set (settled c). i < next_call c" by auto
  moreover have "distinct (map fst (settled c))"
    using i calls_inv_distinct [of c] unfolding client_inv_def all_calls_def by simp
  ultimately show ?thesis by (simp add: well_numbered_def)
qed

lemma promises_Absent: "well_numbered c \<Longrightarrow> promises_of c i = Absent \<longleftrightarrow> next_call c \<le> i"
  by (force simp: promises_of_def well_numbered_def dest!: map_of_SomeD split: option.split)

lemma make_calls: "well_numbered c \<Longrightarrow> promise_steps (promises_of c) (promises_of (c\<lparr>next_call := next_call c + k\<rparr>))"
proof (induction k)
  case (Suc k)
  let ?d = "c\<lparr>next_call := next_call c + k\<rparr>"
  have w: "well_numbered ?d" using Suc.prems by (fastforce simp: well_numbered_def)
  have n: "map_of (rev (settled c)) (next_call c + k) = None"
    using Suc.prems by (auto simp: well_numbered_def map_of_eq_None_iff)
  have "promise_step (promises_of ?d) ((promises_of ?d)(next_call c + k := Pending))"
    using promises_Absent [OF w] by (intro promise_step.make) simp_all
  moreover have "(promises_of ?d)(next_call c + k := Pending) = promises_of (c\<lparr>next_call := next_call c + Suc k\<rparr>)"
    using n by (auto simp: promises_of_def fun_eq_iff split: option.split)
  ultimately show ?case using Suc.IH [OF Suc.prems] by (metis rtranclp.rtrancl_into_rtrancl)
qed simp

lemma settle_calls:
  "well_numbered (c\<lparr>settled := settled c @ new\<rparr>) \<Longrightarrow>
   promise_steps (promises_of c) (promises_of (c\<lparr>settled := settled c @ new\<rparr>))"
proof (induction new rule: rev_induct)
  case (snoc x new)
  obtain i r where x: "x = (i, r)" by (cases x)
  let ?d = "c\<lparr>settled := settled c @ new\<rparr>"
  have w: "well_numbered ?d" using snoc.prems by (auto simp: well_numbered_def)
  have f: "map_of (rev (settled c)) i = None" "map_of (rev new) i = None" and b: "i < next_call c"
    using snoc.prems by (auto simp: well_numbered_def x map_of_eq_None_iff)
  have "promise_step (promises_of ?d) ((promises_of ?d)(i := Done r))"
    using f b by (intro promise_step.settle_one) (simp add: promises_of_def map_add_def)
  moreover have "(promises_of ?d)(i := Done r) = promises_of (c\<lparr>settled := settled c @ new @ [x]\<rparr>)"
    using f by (simp add: promises_of_def fun_eq_iff x map_add_def split: option.split)
  ultimately show ?case using snoc.IH [OF w] by (metis rtranclp.rtrancl_into_rtrancl)
qed simp

lemma grows_simulated:
  assumes "grows c c'" "well_numbered c" "well_numbered c'"
  shows "promise_steps (promises_of c) (promises_of c')"
proof -
  obtain new k where g: "settled c' = settled c @ new" "next_call c' = next_call c + k"
    using assms(1) by (auto simp: grows_def le_iff_add)
  let ?d = "c\<lparr>next_call := next_call c + k\<rparr>"
  have "promises_of c' = promises_of (?d\<lparr>settled := settled ?d @ new\<rparr>)" using g by (simp add: promises_of_def fun_eq_iff)
  moreover have "well_numbered (?d\<lparr>settled := settled ?d @ new\<rparr>)" using assms(3) g by (simp add: well_numbered_def)
  ultimately have "promise_steps (promises_of ?d) (promises_of c')" using settle_calls [of ?d new] by simp
  then show ?thesis using make_calls [OF assms(2), of k] by simp
qed

lemma step_simulated:
  "client_inv c \<Longrightarrow> promise_steps (promises_of c) (promises_of (client_step c e))"
  by (intro grows_simulated grows_step client_inv_numbered client.inv_step)

lemma run_simulated:
  "client_inv c \<Longrightarrow> promise_steps (promises_of c) (promises_of (run client_step c es))"
proof (induction es arbitrary: c)
  case (Cons e es)
  then show ?case using step_simulated [of c e] client.inv_step [of c e] Cons.IH [of "client_step c e"]
    by (auto intro: rtranclp_trans)
qed simp

text \<open>C15. The client keeps its promises. Between any two moments of any run, whatever the pages and the
  network do in between, what the calls have come to changes only by steps of the specification: calls are
  made in order, and a call that is pending settles once. So a call that was made is never
  forgotten, and a result that a page was given is final, whatever rotations, replays and sign-outs follow.\<close>

theorem client_refines_promises:
  "let c = run client_step (initial_client cid) es; d = run client_step (initial_client cid) (es @ fs)
   in promise_steps (promises_of c) (promises_of d) \<and> promise_steps (\<lambda>i. Absent) (promises_of c) \<and>
      in_order (promises_of c) \<and>
      (promises_of c i \<noteq> Absent \<longrightarrow> promises_of d i \<noteq> Absent) \<and>
      (promises_of c i = Done r \<longrightarrow> promises_of d i = Done r)"
proof -
  define c where "c = run client_step (initial_client cid) es"
  have "client_inv c" unfolding c_def by (rule client.inv_run)
  then have s: "promise_steps (promises_of c) (promises_of (run client_step c fs))" by (rule run_simulated)
  have z: "promises_of (initial_client cid) = (\<lambda>i. Absent)" by (simp add: promises_of_def initial_client_def fun_eq_iff)
  have i: "promise_steps (\<lambda>i. Absent) (promises_of c)"
    using run_simulated [OF client.inv_init, of cid es] unfolding z c_def .
  show ?thesis
    using s i steps_in_order [OF i] steps_keep_made [OF s] steps_keep_result [OF s]
    unfolding Let_def run_append c_def [symmetric] by (auto simp: in_order_def)
qed

theorem client_refines_promises_witness:
  "promises_of (run client_step (initial_client ''c'') ([Call ''get'' ''/orders'', SendNext ''u'', Answer 0 ''[]''] @
     [Call ''get'' ''/cart'', SendNext ''v'', Failure 1 Nothing, SignOut])) 0 = Done (Resolved ''[]'')"
proof -
  have "promises_of (run client_step (initial_client ''c'') [Call ''get'' ''/orders'', SendNext ''u'', Answer 0 ''[]'']) 0 =
      Done (Resolved ''[]'')"
    by code_simp
  then show ?thesis
    using client_refines_promises [of "''c''" "[Call ''get'' ''/orders'', SendNext ''u'', Answer 0 ''[]'']"
        "[Call ''get'' ''/cart'', SendNext ''v'', Failure 1 Nothing, SignOut]" 0 "Resolved ''[]''"]
    unfolding Let_def by blast
qed

end
