(* ===== verification/Crash_Reports.thy ===== *)
theory Crash_Reports
  imports App_Shell Telemetry
begin

text \<open>
  What a crash leaves in the log: \<open>componentDidCatch\<close> of \<open>components/ErrorBoundary.tsx\<close> on the
  observability manager. The count in the line is the state's count plus one, read before the
  update of the state takes effect. Beside the boundary other code writes events to the same log; uncaught
  errors and rejections are in \<open>Telemetry\<close>. A full
  reload ends the page, and with it this log.
\<close>

record crash_site =
  cr_boundary :: error_boundary
  cr_telemetry :: telemetry

definition componentDidCatch :: "jsstring \<Rightarrow> jsstring \<Rightarrow> log_env \<Rightarrow> crash_site \<Rightarrow> crash_site" where
  \<comment> \<open>the message of the error and the component stack\<close>
  "componentDidCatch m stack e s =
     (let (t, i) = getCorrelationId (log_uuid e) (cr_telemetry s)
      in \<lparr>cr_boundary = error_boundary_step (cr_boundary s) (Throws (Some m)),
          cr_telemetry = logError m
            [''componentStack'' \<mapsto> LogText stack, ''errorCount'' \<mapsto> LogNumber (of_nat (errorCount (cr_boundary s) + 1)),
             ''correlationId'' \<mapsto> LogText i] e t\<rparr>)"

datatype crash_event =
    Crash jsstring jsstring
  | TryAgain
  | OtherLog jsstring "jsstring \<rightharpoonup> telemetry_value"

fun crash_step :: "crash_site \<Rightarrow> crash_event \<times> log_env \<Rightarrow> crash_site" where
  "crash_step s (Crash m stack, e) = componentDidCatch m stack e s"
| "crash_step s (TryAgain, e) = s\<lparr>cr_boundary := error_boundary_step (cr_boundary s) Retry\<rparr>"
| "crash_step s (OtherLog name as, e) = s\<lparr>cr_telemetry := logEvent name as e (cr_telemetry s)\<rparr>"

definition mount_boundary :: "jsstring \<Rightarrow> crash_site" where
  "mount_boundary uuid = \<lparr>cr_boundary = initial_error_boundary, cr_telemetry = new_telemetry uuid\<rparr>"

fun crash_lines :: "jsstring \<Rightarrow> nat \<Rightarrow> (crash_event \<times> log_env) list \<Rightarrow> log_entry list" where
  \<comment> \<open>the lines of the errors that were caught, counted from \<open>n\<close>\<close>
  "crash_lines uuid n [] = []"
| "crash_lines uuid n ((Crash m stack, e) # es) =
     \<lparr>log_level = LogError, log_text = ''[Telemetry Error] '' @ m @ '':'',
      log_attributes = [''componentStack'' \<mapsto> LogText stack, ''errorCount'' \<mapsto> LogNumber (of_nat (n + 1)),
        ''correlationId'' \<mapsto> LogText uuid, ''timestamp'' \<mapsto> LogText (log_stamp e)]\<rparr> # crash_lines uuid (n + 1) es"
| "crash_lines uuid n ((TryAgain, e) # es) = crash_lines uuid n es"
| "crash_lines uuid n ((OtherLog name as, e) # es) = crash_lines uuid n es"

definition errors_logged :: "telemetry \<Rightarrow> log_entry list" where
  "errors_logged t = filter (\<lambda>l. log_level l = LogError) (telemetry_log t)"

lemma correlated: "correlation_id t = Some uuid \<Longrightarrow> uuid \<noteq> [] \<Longrightarrow> getCorrelationId u t = (t, uuid)"
  by (cases uuid) (simp_all add: getCorrelationId_def)

lemma crash_run:
  assumes "correlation_id (cr_telemetry s) = Some uuid" "uuid \<noteq> []"
  shows "errors_logged (cr_telemetry (run crash_step s es)) =
      errors_logged (cr_telemetry s) @ crash_lines uuid (errorCount (cr_boundary s)) es"
  using assms(1)
proof (induction es arbitrary: s)
  case (Cons x es)
  obtain ev e where x: "x = (ev, e)" by (cases x)
  note c = correlated [OF Cons.prems assms(2)]
  have k: "correlation_id (cr_telemetry (crash_step s x)) = Some uuid"
    using Cons.prems c by (cases ev) (simp_all add: x componentDidCatch_def logError_def logEvent_def write_log_def)
  show ?case using Cons.IH [OF k] c
    by (cases ev) (simp_all add: x componentDidCatch_def logError_def logEvent_def write_log_def errors_logged_def)
qed (simp add: errors_logged_def)

text \<open>Every crash that the boundary catches is in the log, in order, once, with its message, its
  number since the page was loaded and the page's correlation identifier, and no crash leaves
  another line; what else is logged in between and how often the user tries again makes no
  difference. The number in the last line is the count the boundary shows its buttons by.\<close>

theorem crashes_reported:
  assumes "uuid \<noteq> []"
  shows "errors_logged (cr_telemetry (run crash_step (mount_boundary uuid) es)) = crash_lines uuid 0 es \<and>
    errorCount (cr_boundary (run crash_step (mount_boundary uuid) es)) = length (crash_lines uuid 0 es)"
proof (rule conjI)
  show "errors_logged (cr_telemetry (run crash_step (mount_boundary uuid) es)) = crash_lines uuid 0 es"
    using crash_run [of "mount_boundary uuid" uuid es] assms
    by (simp add: mount_boundary_def new_telemetry_def generateCorrelationId_def errors_logged_def initial_error_boundary_def)
  have n: "errorCount (cr_boundary (run crash_step s es)) = errorCount (cr_boundary s) + length (crash_lines uuid k es)" for s k
  proof (induction es arbitrary: s k)
    case (Cons x es)
    obtain ev e where "x = (ev, e)" by (cases x)
    then show ?case using Cons.IH [where k = k] Cons.IH [where k = "k + 1"]
      by (cases ev) (simp_all add: componentDidCatch_def split_def Let_def)
  qed simp
  show "errorCount (cr_boundary (run crash_step (mount_boundary uuid) es)) = length (crash_lines uuid 0 es)"
    using n [of "mount_boundary uuid" 0] by (simp add: mount_boundary_def initial_error_boundary_def)
qed

theorem crashes_reported_witness:
  "map log_text (errors_logged (cr_telemetry (run crash_step (mount_boundary ''id'')
     [(Crash ''a'' ''s'', \<lparr>log_stamp = ''t'', log_uuid = ''u''\<rparr>), (TryAgain, \<lparr>log_stamp = ''t'', log_uuid = ''u''\<rparr>),
      (Crash ''b'' ''s'', \<lparr>log_stamp = ''t'', log_uuid = ''u''\<rparr>)]))) = [''[Telemetry Error] a:'', ''[Telemetry Error] b:'']"
  by (subst conjunct1 [OF crashes_reported]) simp_all

end
