(* ===== verification/Unit_Tests.thy ===== *)
theory Unit_Tests
  imports Cart_Store Fuzzy_Search Secure_Storage App_Shell Ui_Overlays Crash_Reports
begin

text \<open>
  The repository's own unit tests, as statements about the model: \<open>stores/cartStore.test.ts\<close>,
  \<open>test/phase14.test.ts\<close>, \<open>test/enterprise-components.test.tsx\<close> and
  \<open>components/ui/Button.test.tsx\<close>. Each definition is one test, its steps in the order of the
  test and its expectations as a conjunction; \<open>getByText\<close> is membership in the texts of the
  rendered tree. What a test asks of class names is asked of the element that carries
  them. The lemmas show that the model passes the tests the program is developed with.
\<close>

subsection \<open>Cart store\<close>

definition before_each :: "cart_state \<Rightarrow> cart_state" where
  "before_each s = clearCart s"

text \<open>The product all these tests add is \<^const>\<open>sample_item\<close>.\<close>

definition test_adds_items :: "cart_state \<Rightarrow> bool" where
  "test_adds_items s0 =
     (let s = addItem sample_item s0
      in map (\<lambda>i. (product_id i, quantity i)) (items s) = [(''p1'', 1)])"

definition test_updates_quantity :: "cart_state \<Rightarrow> bool" where
  "test_updates_quantity s0 =
     (let s = updateQuantity ''p1'' 5 (addItem sample_item s0)
      in quantity (items s ! 0) = 5)"

definition test_totals :: "cart_state \<Rightarrow> bool" where
  "test_totals s0 =
     (let t = getCartTotals (addItem sample_item (addItem sample_item s0))
      in subtotal t = 200 \<and> tax t = 16 \<and> total t = fl (22599 / 100))"

definition test_coupon :: "cart_state \<Rightarrow> bool" where
  "test_coupon s0 =
     (let s = applyCoupon ''CLOUDSCALE10'' (addItem sample_item s0); t = getCartTotals s
      in couponCode s = Some ''CLOUDSCALE10'' \<and> discountValue s = fl (1 / 10) \<and> discount t = 10 \<and>
         total t = nplus (nplus (nminus 100 10) (fl (72 / 10))) (fl (999 / 100)))"

lemma before_each_initial: "cart_inv s \<Longrightarrow> before_each s = initial_cart"
  by (simp add: before_each_def clearCart_def initial_cart_def cart_inv_def)

lemma cart_tests:
  "test_adds_items initial_cart" "test_updates_quantity initial_cart" "test_totals initial_cart" "test_coupon initial_cart"
proof -
  show "test_adds_items initial_cart" "test_updates_quantity initial_cart" by code_simp+
  show "test_totals initial_cart" by (simp only: test_totals_def sample_totals Let_def cart_totals.select_convs)
  have "couponCode (applyCoupon ''CLOUDSCALE10'' (addItem sample_item initial_cart)) = Some ''CLOUDSCALE10''"
    "discountValue (applyCoupon ''CLOUDSCALE10'' (addItem sample_item initial_cart)) = fl (1 / 10)"
    by code_simp+
  then show "test_coupon initial_cart" using sample_coupon by (simp only: test_coupon_def Let_def simp_thms)
qed

text \<open>The tests hold whatever was done to the cart before the first.\<close>

lemma cart_tests_pass:
  assumes "cart_inv s"
  shows "test_adds_items (before_each s) \<and> test_updates_quantity (before_each s) \<and> test_totals (before_each s) \<and>
    test_coupon (before_each s)"
  using cart_tests by (simp add: before_each_initial [OF assms])

subsection \<open>Search, escaping, storage and flags\<close>

definition test_match_scores :: bool where
  "test_match_scores =
     (fuzzyMatchScore ''test'' ''test'' = 1 \<and> fuzzyMatchScore '''' ''test'' = 1 \<and> fuzzyMatchScore ''test'' '''' = 0)"

definition test_substring_above_gaps :: bool where
  "test_substring_above_gaps = (fuzzyMatchScore ''app'' ''grape'' < fuzzyMatchScore ''app'' ''apparel'')"

definition test_search_ranks :: bool where
  "test_search_ranks =
     (let results = fuzzySearch
            [(''Red Shirt'', ''SHIRT-RED''), (''Blue Jeans'', ''JEAN-BLUE''), (''Green Hat'', ''HAT-GREEN'')]
            ''shirt'' (\<lambda>(name, code). [name, code])
      in length results = 1 \<and> result_item (hd results) = (''Red Shirt'', ''SHIRT-RED''))"

definition test_escapes :: bool where
  "test_escapes =
     (let clean = sanitizeHTML (''<script>alert('' @ [quote_char] @ ''xss'' @ [quote_char] @ '')</script>'')
      in \<not> str_includes clean ''<script>'' \<and> str_includes clean ''&lt;script&gt;'')"

definition test_storage :: "utf16 \<Rightarrow> bool" where
  \<comment> \<open>\<open>data\<close> is the JSON text of the test's value\<close>
  "test_storage data = (secure_getItem ''user_role'' (secure_setItem ''user_role'' (Some data) Map.empty) = Some data)"

definition tamper :: "utf16 \<Rightarrow> stored \<Rightarrow> stored" where
  "tamper d e = (case e of Envelope d0 c \<Rightarrow> Envelope d c | Other_json \<Rightarrow> Other_json)"

definition test_tampering :: "utf16 \<Rightarrow> utf16 \<Rightarrow> bool" where
  "test_tampering data other =
     (let m = secure_setItem ''secure_flag'' (Some data) Map.empty
      in secure_getItem ''secure_flag'' (m(''cs_secure_flag'' := map_option (tamper other) (m ''cs_secure_flag''))) = None)"

definition test_flags :: "app_config \<Rightarrow> bool" where
  "test_flags c =
     (isFeatureEnabled c EnableWebSocket \<and> isFeatureEnabled c EnablePWA \<and> getFeatureFlags c EnableOnboarding \<noteq> None)"

lemma search_tests: "test_match_scores" "test_substring_above_gaps" "test_search_ranks"
  by code_simp+

lemma escape_test: "test_escapes"
  by code_simp

definition json_of :: "jsstring \<Rightarrow> jsstring \<Rightarrow> utf16" where
  "json_of key val = units (''{'' @ [CHR 0x22] @ key @ [CHR 0x22] @ '':'' @ val @ ''}'')"

lemma test_payloads:
  "json_of ''adminPrivileges'' ''true'' = [123, 34, 97, 100, 109, 105, 110, 80, 114, 105, 118, 105, 108, 101, 103, 101, 115, 34, 58, 116, 114, 117, 101, 125]"
  by (simp add: json_of_def units_def code_unit_def)

lemma storage_test: "test_storage (json_of ''adminPrivileges'' ''true'')"
  by (simp add: test_storage_def get_set_same test_payloads low_surrogate_def high_surrogate_def)

text \<open>The two payloads of the tampering test, encoded.\<close>

lemma encoded_payloads:
  "encodeURIComponent_bytes (json_of ''val'' ''42'') = Some ([CHR ''{'', CHR 0x22] @ ''val'' @ [CHR 0x22] @ '':42}'')"
  "btoa ([CHR ''{'', CHR 0x22] @ ''val'' @ [CHR 0x22] @ '':42}'') = ''eyJ2YWwiOjQyfQ==''"
  "btoa ([CHR ''{'', CHR 0x22] @ ''val'' @ [CHR 0x22] @ '':999}'') = ''eyJ2YWwiOjk5OX0=''"
  by code_simp+

lemma checksums_differ: "computeHash (units ''eyJ2YWwiOjk5OX0='') \<noteq> computeHash (units ''eyJ2YWwiOjQyfQ=='')"
proof -
  have "hash_loop 5381 (units ''eyJ2YWwiOjk5OX0='') \<noteq> hash_loop 5381 (units ''eyJ2YWwiOjQyfQ=='')"
    by (simp add: units_def code_unit_def)
  then show ?thesis unfolding computeHash_def to_hex_inj by (simp only: word_unat_eq_iff not_False_eq_True)
qed

lemma tampering_test:
  "test_tampering (json_of ''val'' ''42'') (units (btoa ([CHR ''{'', CHR 0x22] @ ''val'' @ [CHR 0x22] @ '':999}'')))"
proof -
  have k: "storage_key ''secure_flag'' = ''cs_secure_flag''" by (simp add: storage_key_def)
  show ?thesis
    unfolding test_tampering_def secure_getItem_def secure_setItem_def k Let_def encoded_payloads(1)
    using checksums_differ by (simp only: encoded_payloads bind.simps option.case fun_upd_same option.map tamper_def stored.case units_inj) simp
qed

lemma flags_test: "test_flags initial_config"
  by code_simp

subsection \<open>Components\<close>

definition shows_text :: "'a node \<Rightarrow> jsstring \<Rightarrow> bool" where
  "shows_text n t = List.member (texts n) t"

definition test_boundary :: bool where
  "test_boundary =
     (let safe = El ''div'' [] [Txt ''Safe content''] :: boundary_event node;
          crashed = error_boundary_step initial_error_boundary (Throws (Some ''Test crash''))
      in shows_text (error_boundary_view None safe initial_error_boundary) ''Safe content'' \<and>
         list_all (shows_text (error_boundary_view None safe crashed)) [''Something went wrong'', ''Try Again'', ''Reload Page''])"

definition test_fallback :: bool where
  "test_fallback =
     (let child = El ''div'' [] [] :: boundary_event node; crashed = error_boundary_step initial_error_boundary (Throws (Some ''Test crash''))
      in shows_text (error_boundary_view (Some (El ''div'' [] [Txt ''Custom fallback''])) child crashed) ''Custom fallback'')"

definition test_crash_logged :: "jsstring \<Rightarrow> log_env \<Rightarrow> bool" where
  "test_crash_logged stack e =
     (let s = crash_step (mount_boundary ''test-correlation-id'') (Crash ''Test crash'' stack, e)
      in map (\<lambda>l. (log_text l, log_attributes l ''correlationId'')) (errors_logged (cr_telemetry s)) =
           [(''[Telemetry Error] Test crash:'', Some (LogText ''test-correlation-id''))])"

definition test_recovery :: bool where
  \<comment> \<open>the button that repairs the child is outside the boundary\<close>
  "test_recovery =
     (let crashed = error_boundary_step initial_error_boundary (Throws (Some ''Test crash''));
          healthy = El ''div'' [] [Txt ''Healthy Content''] :: boundary_event node
      in shows_text (error_boundary_view None healthy crashed) ''Something went wrong'' \<and>
         List.member (actions (error_boundary_view None healthy crashed)) Retry \<and>
         shows_text (error_boundary_view None healthy (error_boundary_step crashed Retry)) ''Healthy Content'')"

definition test_card :: "jsstring \<Rightarrow> jsstring \<Rightarrow> jsstring option \<Rightarrow> bool \<Rightarrow> unit node" where
  "test_card title val trend loading =
     metric_card_view \<lparr>mc_title = title, mc_value = Txt val, mc_subtitle = None, mc_icon = None, mc_badge = None,
       mc_trend = trend, mc_click = None, mc_loading = loading\<rparr>"

definition test_metric_card :: bool where
  "test_metric_card =
     (list_all (shows_text (test_card ''Revenue'' ''$12,345'' None False)) [''Revenue'', ''$12,345''] \<and>
      \<not> shows_text (test_card ''Revenue'' ''$0'' None True) ''$0'' \<and>
      shows_text (test_card ''Growth'' ''42'' (Some ''+14.8%'') False) ''+14.8%'')"

definition test_page_header :: bool where
  "test_page_header =
     (list_all (shows_text (page_header_view ''Orders'' (Some ''View your order history'') [] [] :: unit node))
        [''Orders'', ''View your order history''] \<and>
      shows_text (page_header_view ''Dashboard'' None [] [El ''button'' [] [Txt ''Export'']] :: unit node) ''Export'')"

fun node_name :: "'a node \<Rightarrow> string" where
  "node_name (El t as cs) = t"
| "node_name _ = []"

definition test_button :: bool where
  "test_button =
     (let b = (\<lambda>loading disabled. button_view loading disabled None [On ''click'' ()] [Txt ''Click me''])
      in node_name (b False False) = ''button'' \<and> shows_text (b False False) ''Click me'' \<and>
         actions (b False False) = [()] \<and> actions (b False True) = [] \<and> actions (b True False) = [] \<and>
         (case b True False of El t as (Icon i # cs) \<Rightarrow> i = ''Loader2'' | _ \<Rightarrow> False))"

lemma component_tests: "test_boundary" "test_fallback" "test_recovery" "test_metric_card" "test_page_header" "test_button"
  by code_simp+

lemma crash_logged_test: "test_crash_logged stack e"
  by (simp add: test_crash_logged_def mount_boundary_def new_telemetry_def generateCorrelationId_def errors_logged_def
      componentDidCatch_def logError_def write_log_def getCorrelationId_def Let_def)

end
