(* ===== verification/Stories.thy ===== *)
theory Stories
  imports Ui_Fields
begin

text \<open>
  The component catalogue: \<open>Button.stories.tsx\<close> and \<open>Badge.stories.tsx\<close>. A story is a name
  with the properties the component is rendered with; the controls say which values the
  catalogue offers for a property. The variant chooses class names only.
\<close>

datatype control = Select "jsstring list" | BooleanControl

record story =
  st_name :: jsstring
  st_variant :: jsstring
  st_loading :: bool
  st_disabled :: bool
  st_dot :: bool
  st_children :: jsstring

definition button_controls :: "(jsstring \<times> control) list" where
  "button_controls =
     [(''variant'', Select [''primary'', ''secondary'', ''destructive'', ''ghost'', ''outline'']),
      (''size'', Select [''sm'', ''md'', ''lg'', ''icon'']),
      (''loading'', BooleanControl), (''disabled'', BooleanControl)]"

definition plain_story :: "jsstring \<Rightarrow> jsstring \<Rightarrow> jsstring \<Rightarrow> story" where
  "plain_story name variant children =
     \<lparr>st_name = name, st_variant = variant, st_loading = False, st_disabled = False, st_dot = False,
      st_children = children\<rparr>"

definition button_stories :: "story list" where
  "button_stories =
     [plain_story ''Primary'' ''primary'' ''Primary Button'',
      plain_story ''Secondary'' ''secondary'' ''Secondary Button'',
      plain_story ''Outline'' ''outline'' ''Outline Button'',
      (plain_story ''Loading'' ''primary'' ''Loading...'')\<lparr>st_loading := True\<rparr>,
      (plain_story ''Disabled'' ''primary'' ''Disabled Button'')\<lparr>st_disabled := True\<rparr>]"

definition badge_controls :: "(jsstring \<times> control) list" where
  "badge_controls =
     [(''variant'', Select [''default'', ''secondary'', ''success'', ''warning'', ''destructive'', ''outline'', ''info'']),
      (''dot'', BooleanControl), (''removable'', BooleanControl)]"

definition badge_stories :: "story list" where
  "badge_stories =
     [plain_story ''Default'' ''default'' ''Default Badge'',
      (plain_story ''Success'' ''success'' ''Success Badge'')\<lparr>st_dot := True\<rparr>,
      (plain_story ''Warning'' ''warning'' ''Warning Badge'')\<lparr>st_dot := True\<rparr>,
      plain_story ''Destructive'' ''destructive'' ''Destructive Badge'']"

definition render_button_story :: "story \<Rightarrow> jsstring node" where
  \<comment> \<open>with a click handler that reports the story\<close>
  "render_button_story s =
     button_view (st_loading s) (st_disabled s) None [On ''click'' (st_name s)] [Txt (st_children s)]"

definition render_badge_story :: "story \<Rightarrow> jsstring node" where
  "render_badge_story s = badge_view (st_dot s) None False None [] [Txt (st_children s)]"

definition offered :: "(jsstring \<times> control) list \<Rightarrow> jsstring \<Rightarrow> jsstring \<Rightarrow> bool" where
  "offered controls prop v = (case map_of controls prop of Some (Select vs) \<Rightarrow> List.member vs v | _ \<Rightarrow> False)"

text \<open>Every story uses a variant its control offers and shows its text; of the buttons exactly
  those that are neither loading nor disabled can be clicked, and no badge reacts at all.\<close>

lemma stories_consistent:
  "list_all (\<lambda>s. offered button_controls ''variant'' (st_variant s) \<and> texts (render_button_story s) = [st_children s]) button_stories"
  "list_all (\<lambda>s. offered badge_controls ''variant'' (st_variant s) \<and> texts (render_badge_story s) = [st_children s]) badge_stories"
  "concat (map (\<lambda>s. actions (render_button_story s)) button_stories) = [''Primary'', ''Secondary'', ''Outline'']"
  "concat (map (\<lambda>s. actions (render_badge_story s)) badge_stories) = []"
  by code_simp+

end
