(* ===== verification/Broker.thy ===== *)
theory Broker
  imports Prelude Js_Number
begin

text \<open>
  How the services behind the HTTP interface talk to each other, \<open>shared/python/cloudscale_shared\<close>: the
  events of the order saga, the transactional outbox (\<open>outbox.py\<close>) with its worker, the transactional
  inbox (\<open>inbox.py\<close>), and the consumer with its retry and dead letter topics (\<open>events.py\<close>).

  A database transaction is one step: the handler's changes, the rows it writes to the outbox and the
  inbox record are committed together or not at all. An identifier made by \<open>uuid4\<close> is fresh; here the
  \<open>n\<close>-th event a service writes has the identifier \<open>(service, n)\<close>. Correlation identifiers, time stamps,
  logging, tracing and metrics are left out. An event keeps the fields the handlers read: a line of an
  order is a dictionary of which \<open>unit_price\<close> may be missing, and \<open>simulate_failure\<close> is false when it is.
\<close>

subsection \<open>Events\<close>

datatype service = OrderService | InventoryService | PaymentService

datatype topic = OrderEvents | InventoryEvents | PaymentEvents

record line =
  li_product :: nat
  li_quantity :: int
  li_price :: "rat option"
  li_fail :: bool

datatype event_body =
    OrderCreatedEvent nat "line list"
  | InventoryReservedEvent nat "line list"
  | InventoryReserveFailedEvent nat
  | InventoryReleasedEvent nat
  | PaymentSuccessEvent nat "line list"
  | PaymentFailedEvent nat "line list"
  | OrderCancelledEvent nat "line list"

type_synonym event_id = "service \<times> nat"

record saga_event =
  ev_id :: event_id
  ev_body :: event_body
  ev_retry :: nat

subsection \<open>The outbox\<close>

record outbox_row =
  row_event :: saga_event
  row_topic :: topic
  row_processed :: bool
  row_retries :: nat

record 'd service_db =
  domain :: 'd
  inbox :: "event_id list"
  outbox :: "outbox_row list"

definition new_db :: "'d \<Rightarrow> 'd service_db" where
  "new_db d = \<lparr>domain = d, inbox = [], outbox = []\<rparr>"

definition write_outbox :: "service \<Rightarrow> topic \<times> event_body \<Rightarrow> outbox_row list \<Rightarrow> outbox_row list" where
  "write_outbox s tb rows =
     rows @ [\<lparr>row_event = \<lparr>ev_id = (s, length rows), ev_body = snd tb, ev_retry = 0\<rparr>, row_topic = fst tb,
              row_processed = False, row_retries = 0\<rparr>]"

definition write_all :: "service \<Rightarrow> (topic \<times> event_body) list \<Rightarrow> outbox_row list \<Rightarrow> outbox_row list" where
  "write_all s tbs rows = foldl (\<lambda>rs tb. write_outbox s tb rs) rows tbs"

definition max_retries :: nat where
  "max_retries = 5"

definition batch_size :: nat where
  "batch_size = 50"

definition due :: "outbox_row \<Rightarrow> bool" where
  "due r \<longleftrightarrow> \<not> row_processed r \<and> row_retries r < max_retries"

fun process_rows :: "nat \<Rightarrow> bool list \<Rightarrow> outbox_row list \<Rightarrow> outbox_row list \<times> (topic \<times> saga_event) list" where
  \<comment> \<open>how many rows the batch still takes, and whether each sending succeeds (all do when the list is used up)\<close>
  "process_rows 0 oks rows = (rows, [])"
| "process_rows (Suc n) oks [] = ([], [])"
| "process_rows (Suc n) oks (r # rows) =
     (if \<not> due r then (let (rs, out) = process_rows (Suc n) oks rows in (r # rs, out))
      else
        (let (rs, out) = process_rows n (tl oks) rows in
         if oks = [] \<or> hd oks then (r\<lparr>row_processed := True\<rparr> # rs, (row_topic r, row_event r) # out)
         else (r\<lparr>row_retries := row_retries r + 1\<rparr> # rs, out)))"

definition process_batch :: "bool list \<Rightarrow> bool \<Rightarrow> outbox_row list \<Rightarrow> outbox_row list \<times> (topic \<times> saga_event) list" where
  \<comment> \<open>when the commit fails, what was sent stays sent\<close>
  "process_batch oks committed rows =
     (let (rs, out) = process_rows batch_size oks rows in (if committed then rs else rows, out))"

subsection \<open>The inbox\<close>

text \<open>A handler gives the new domain and the events it writes, or nothing for a type of event it
  ignores; an ignored event is not recorded.\<close>

type_synonym 'd handler = "event_body \<Rightarrow> 'd \<Rightarrow> ('d \<times> (topic \<times> event_body) list) option"

definition handle_event :: "service \<Rightarrow> 'd handler \<Rightarrow> saga_event \<Rightarrow> 'd service_db \<Rightarrow> 'd service_db" where
  "handle_event s h e db =
     (if List.member (inbox db) (ev_id e) then db
      else case h (ev_body e) (domain db) of
          None \<Rightarrow> db
        | Some (d, out) \<Rightarrow> \<lparr>domain = d, inbox = inbox db @ [ev_id e], outbox = write_all s out (outbox db)\<rparr>)"

subsection \<open>Failures of a handler\<close>

text \<open>A message whose handler throws is published once more on a topic of its own, or, after three
  times, on the topic of the dead letters. No service subscribes to either.\<close>

datatype dead_letter = RetryTopic topic saga_event | DeadLetterTopic topic saga_event

definition consumer_max_retries :: nat where
  "consumer_max_retries = 3"

definition handle_failure :: "topic \<Rightarrow> saga_event \<Rightarrow> dead_letter" where
  "handle_failure t e =
     (if ev_retry e < consumer_max_retries then RetryTopic t (e\<lparr>ev_retry := ev_retry e + 1\<rparr>)
      else DeadLetterTopic t e)"

subsection \<open>Rows of the outbox\<close>

lemma length_write_all [simp]: "length (write_all s tbs rows) = length rows + length tbs"
  unfolding write_all_def by (induction tbs arbitrary: rows) (simp_all add: write_outbox_def)

lemma write_all_Nil [simp]: "write_all s [] rows = rows"
  by (simp add: write_all_def)

lemma write_all_Cons: "write_all s (tb # tbs) rows = write_all s tbs (write_outbox s tb rows)"
  by (simp add: write_all_def)

definition bodies :: "outbox_row list \<Rightarrow> event_body list" where
  "bodies rows = map (ev_body \<circ> row_event) rows"

lemma bodies_Nil [simp]: "bodies [] = []"
  by (simp add: bodies_def)

lemma bodies_write [simp]: "bodies (write_all s tbs rows) = bodies rows @ map snd tbs"
  unfolding write_all_def by (induction tbs arbitrary: rows) (simp_all add: write_outbox_def bodies_def)

definition numbered :: "service \<Rightarrow> outbox_row list \<Rightarrow> bool" where
  \<comment> \<open>every event has the identifier of its row\<close>
  "numbered s rows \<longleftrightarrow> map (ev_id \<circ> row_event) rows = map (Pair s) [0..<length rows]"

lemma numbered_Nil [simp]: "numbered s []"
  by (simp add: numbered_def)

lemma numbered_write: "numbered s rows \<Longrightarrow> numbered s (write_all s tbs rows)"
proof (induction tbs arbitrary: rows)
  case (Cons tb tbs)
  then have "numbered s (write_outbox s tb rows)" by (simp add: numbered_def write_outbox_def)
  then show ?case using Cons.IH by (simp add: write_all_Cons)
qed simp

lemma process_rows_events [simp]:
  "map row_event (fst (process_rows n oks rows)) = map row_event rows"
  by (induction n oks rows rule: process_rows.induct) (auto simp: case_prod_beta Let_def)

lemma process_batch_events: "map row_event (fst (process_batch oks ok rows)) = map row_event rows"
  by (simp add: process_batch_def case_prod_beta Let_def)

lemma same_events:
  assumes "map row_event rs = map row_event rows"
  shows "bodies rs = bodies rows" "numbered s rs = numbered s rows" "length rs = length rows"
proof -
  show "length rs = length rows" using assms by (rule map_eq_imp_length_eq)
  then show "bodies rs = bodies rows" "numbered s rs = numbered s rows"
    using assms unfolding bodies_def numbered_def by (simp_all flip: map_map)
qed

lemma process_rows_out: "(t, e) \<in> set (snd (process_rows n oks rows)) \<Longrightarrow> e \<in> row_event ` set rows"
  by (induction n oks rows rule: process_rows.induct) (auto simp: case_prod_beta Let_def split: if_splits)

lemma process_batch_out: "(t, e) \<in> set (snd (process_batch oks ok rows)) \<Longrightarrow> e \<in> row_event ` set rows"
  using process_rows_out by (auto simp: process_batch_def case_prod_beta Let_def)

subsection \<open>Exactly once\<close>

text \<open>The contract of a consumer: which events it ignores is a matter of their type. Then the inbox makes
  any sequence of deliveries, with whatever repetitions, as good as the sequence of the first ones.\<close>

definition firsts :: "'a list \<Rightarrow> 'a list" where
  "firsts xs = rev (remdups (rev xs))"

lemma firsts_snoc: "firsts (xs @ [x]) = (if x \<in> set xs then firsts xs else firsts xs @ [x])"
  by (simp add: firsts_def)

lemma set_firsts [simp]: "set (firsts xs) = set xs"
  by (simp add: firsts_def)

definition settled_with :: "'d handler \<Rightarrow> 'd service_db \<Rightarrow> saga_event \<Rightarrow> bool" where
  \<comment> \<open>another delivery of the event would have no effect\<close>
  "settled_with h db e \<longleftrightarrow> ev_id e \<in> set (inbox db) \<or> h (ev_body e) (domain db) = None"

lemma handle_settled: "settled_with h db e \<Longrightarrow> handle_event s h e db = db"
  by (auto simp: settled_with_def handle_event_def List.member_iff)

lemma handle_settles: "settled_with h (handle_event s h e db) e"
  by (auto simp: settled_with_def handle_event_def List.member_iff split: option.split)

lemma handle_inbox: "inbox (handle_event s h e db) = inbox db \<or> inbox (handle_event s h e db) = inbox db @ [ev_id e]"
  by (auto simp: handle_event_def split: option.split)

locale inbox_consumer =
  fixes s :: service and h :: "'d handler"
  assumes ignores_by_type: "h b d = None \<longleftrightarrow> h b d' = None"
begin

lemma settled_kept: "settled_with h db e \<Longrightarrow> settled_with h (handle_event s h f db) e"
  using handle_inbox [of s h f db] ignores_by_type [of "ev_body e" "domain db" "domain (handle_event s h f db)"]
  by (auto simp: settled_with_def)

lemma settled_run: "settled_with h db e \<Longrightarrow> settled_with h (run (\<lambda>db e. handle_event s h e db) db es) e"
  by (induction es arbitrary: db) (auto intro: settled_kept)

lemma delivered_settled: "e \<in> set es \<Longrightarrow> settled_with h (run (\<lambda>db e. handle_event s h e db) db es) e"
  by (induction es arbitrary: db) (auto intro: settled_run handle_settles)

lemma exactly_once:
  "run (\<lambda>db e. handle_event s h e db) db es = run (\<lambda>db e. handle_event s h e db) db (firsts es)"
proof (induction es rule: rev_induct)
  case (snoc e es)
  then show ?case using handle_settled [OF delivered_settled [of e es db]] by (auto simp: firsts_snoc)
qed (simp add: firsts_def)

end

end
