(* ===== verification/Inventory_Service.thy ===== *)
theory Inventory_Service
  imports Broker
begin

text \<open>
  The inventory service, \<open>services/inventory/app\<close>: restocking and the batch reservation of the HTTP
  interface (\<open>service.py\<close>), and the two handlers of the saga (\<open>consumers.py\<close>): an order that was created
  reserves stock for each of its lines or for none, and a cancelled order gives reserved stock back. Product
  identifiers are numbers. The lock around a product's row is held within one transaction and keeps
  it serial; that acquiring it can time out is part of the model. The version column takes part in the
  optimistic locking only, whose conflicts are an argument of \<open>reserve_batch\<close>.
\<close>

record stock_row =
  available :: int
  reserved :: int

type_synonym stock = "nat \<Rightarrow> stock_row option"

subsection \<open>The HTTP interface\<close>

definition restock :: "nat \<Rightarrow> int \<Rightarrow> stock \<Rightarrow> stock" where
  "restock p q st =
     (case st p of
        None \<Rightarrow> st(p \<mapsto> \<lparr>available = q, reserved = 0\<rparr>)
      | Some r \<Rightarrow> st(p \<mapsto> r\<lparr>available := available r + q\<rparr>))"

definition take_stock :: "int \<Rightarrow> stock_row \<Rightarrow> stock_row" where
  "take_stock q r = \<lparr>available = available r - q, reserved = reserved r + q\<rparr>"

datatype inventory_error = InsufficientStock nat | ConcurrentUpdate

fun reserve_lines :: "(nat \<times> int) list \<Rightarrow> stock \<Rightarrow> inventory_error + stock" where
  "reserve_lines [] st = Inr st"
| "reserve_lines ((p, q) # its) st =
     (case st p of
        None \<Rightarrow> Inl (InsufficientStock p)
      | Some r \<Rightarrow> if available r < q then Inl (InsufficientStock p)
                  else reserve_lines its (st(p \<mapsto> take_stock q r)))"

definition max_attempts :: nat where
  "max_attempts = 3"

definition reserve_batch :: "nat \<Rightarrow> (nat \<times> int) list \<Rightarrow> stock \<Rightarrow> inventory_error + stock" where
  \<comment> \<open>how many attempts another transaction spoils; a spoiled or failed attempt is rolled back\<close>
  "reserve_batch conflicts its st =
     (case reserve_lines its st of
        Inl e \<Rightarrow> Inl e
      | Inr st' \<Rightarrow> if conflicts < max_attempts then Inr st' else Inl ConcurrentUpdate)"

subsection \<open>The saga\<close>

fun reserve_order :: "line list \<Rightarrow> stock \<Rightarrow> (nat \<times> int) list \<Rightarrow> stock \<times> (nat \<times> int) list \<times> bool" where
  \<comment> \<open>the lines reserved so far, and whether a line failed\<close>
  "reserve_order [] st done = (st, done, False)"
| "reserve_order (l # ls) st done =
     (case st (li_product l) of
        None \<Rightarrow> (st, done, True)
      | Some r \<Rightarrow>
          if available r < li_quantity l then (st, done, True)
          else reserve_order ls (st(li_product l \<mapsto> take_stock (li_quantity l) r))
                 (done @ [(li_product l, li_quantity l)]))"

definition undo_line :: "stock \<Rightarrow> nat \<times> int \<Rightarrow> stock" where
  "undo_line st pq =
     (case st (fst pq) of
        None \<Rightarrow> st
      | Some r \<Rightarrow> st(fst pq \<mapsto> \<lparr>available = available r + snd pq, reserved = reserved r - snd pq\<rparr>))"

definition handle_order_created :: "nat \<Rightarrow> line list \<Rightarrow> stock \<Rightarrow> stock \<times> (topic \<times> event_body) list" where
  "handle_order_created order lines st =
     (let (st', done, failed) = reserve_order lines st [] in
      if failed then (foldl undo_line st' done, [(InventoryEvents, InventoryReserveFailedEvent order)])
      else (st', [(InventoryEvents, InventoryReservedEvent order lines)]))"

definition release_line :: "stock \<Rightarrow> line \<Rightarrow> stock" where
  "release_line st l =
     (case st (li_product l) of
        None \<Rightarrow> st
      | Some r \<Rightarrow>
          let release_qty = min (reserved r) (li_quantity l)
          in st(li_product l \<mapsto> \<lparr>available = available r + release_qty, reserved = reserved r - release_qty\<rparr>))"

definition handle_release_stock :: "nat option \<Rightarrow> nat \<Rightarrow> line list \<Rightarrow> stock \<Rightarrow> stock \<times> (topic \<times> event_body) list" where
  \<comment> \<open>at which line the lock times out, if it does: the exception is swallowed, and what was released stays\<close>
  "handle_release_stock lock order lines st =
     (case lock of
        None \<Rightarrow> (foldl release_line st lines, [(InventoryEvents, InventoryReleasedEvent order)])
      | Some k \<Rightarrow>
          if k < length lines then (foldl release_line st (take k lines), [])
          else (foldl release_line st lines, [(InventoryEvents, InventoryReleasedEvent order)]))"

fun inventory_handler :: "nat option \<Rightarrow> stock handler" where
  "inventory_handler lock (OrderCreatedEvent order lines) st = Some (handle_order_created order lines st)"
| "inventory_handler lock (PaymentFailedEvent order lines) st = Some (handle_release_stock lock order lines st)"
| "inventory_handler lock (OrderCancelledEvent order lines) st = Some (handle_release_stock lock order lines st)"
| "inventory_handler lock _ st = None"

interpretation inventory: inbox_consumer InventoryService "inventory_handler lock" for lock
proof
  show "inventory_handler lock b d = None \<longleftrightarrow> inventory_handler lock b d' = None" for b d d'
    by (cases b) simp_all
qed

subsection \<open>What the handlers do to the stock\<close>

definition held :: "stock \<Rightarrow> nat \<Rightarrow> int" where
  "held st p = (case st p of None \<Rightarrow> 0 | Some r \<Rightarrow> reserved r)"

definition on_hand :: "stock \<Rightarrow> nat \<Rightarrow> int" where
  "on_hand st p = (case st p of None \<Rightarrow> 0 | Some r \<Rightarrow> available r + reserved r)"

definition stock_ok :: "stock \<Rightarrow> bool" where
  "stock_ok st \<longleftrightarrow> (\<forall>p r. st p = Some r \<longrightarrow> 0 \<le> available r \<and> 0 \<le> reserved r)"

definition lines_ok :: "line list \<Rightarrow> bool" where
  "lines_ok lines \<longleftrightarrow> list_all (\<lambda>l. 0 < li_quantity l) lines"

definition units_of :: "nat \<Rightarrow> line list \<Rightarrow> int" where
  \<comment> \<open>how much of a product the lines ask for\<close>
  "units_of p lines = sum_list (map (\<lambda>l. if li_product l = p then li_quantity l else 0) lines)"

lemma units_of_simps [simp]:
  "units_of p [] = 0" "units_of p (l # ls) = (if li_product l = p then li_quantity l else 0) + units_of p ls"
  by (simp_all add: units_of_def)

lemma units_of_nonneg: "lines_ok lines \<Longrightarrow> 0 \<le> units_of p lines"
  by (induction lines) (auto simp: lines_ok_def)

lemma take_stock_spec:
  assumes "stock_ok st" "st p' = Some r" "q \<le> available r" "0 < q"
  shows "stock_ok (st(p' \<mapsto> take_stock q r)) \<and> on_hand (st(p' \<mapsto> take_stock q r)) p = on_hand st p \<and>
    held (st(p' \<mapsto> take_stock q r)) p = held st p + (if p' = p then q else 0)"
  using assms by (auto simp: stock_ok_def take_stock_def on_hand_def held_def)

definition undo_amount :: "nat \<Rightarrow> (nat \<times> int) list \<Rightarrow> int" where
  "undo_amount p done = sum_list (map (\<lambda>(p', q). if p' = p then q else 0) done)"

lemma reserve_order_spec:
  assumes "reserve_order lines st done = (st', done', failed)" "stock_ok st" "lines_ok lines"
  shows "stock_ok st' \<and> dom st' = dom st \<and> (\<forall>p. on_hand st' p = on_hand st p) \<and>
    (\<forall>p. held st' p - undo_amount p done' = held st p - undo_amount p done) \<and>
    (\<not> failed \<longrightarrow> (\<forall>p. held st' p = held st p + units_of p lines))"
  using assms
proof (induction lines st "done" rule: reserve_order.induct)
  case (2 l ls st ds)
  show ?case
  proof (cases "st (li_product l)")
    case (Some r)
    show ?thesis
    proof (cases "available r < li_quantity l")
      case False
      define st1 where "st1 = st(li_product l \<mapsto> take_stock (li_quantity l) r)"
      have q: "0 < li_quantity l" "lines_ok ls" using 2(4) by (simp_all add: lines_ok_def)
      have h: "stock_ok st1" "on_hand st1 p = on_hand st p"
        "held st1 p = held st p + (if li_product l = p then li_quantity l else 0)" for p
        using take_stock_spec [OF 2(3) Some, of "li_quantity l"] False q(1) unfolding st1_def by simp_all
      have d: "dom st1 = dom st" using Some by (auto simp: st1_def)
      have r1: "reserve_order ls st1 (ds @ [(li_product l, li_quantity l)]) = (st', done', failed)"
        using 2(2) Some False by (simp add: st1_def)
      show ?thesis
        using 2(1) [OF Some False r1 [unfolded st1_def] h(1) [unfolded st1_def] q(2)] h(2,3) d
        unfolding st1_def [symmetric] by (simp add: undo_amount_def algebra_simps)
    qed (use 2 Some in simp)
  qed (use 2 in simp)
qed simp

lemma undo_lines:
  "dom (foldl undo_line st done) = dom st \<and> on_hand (foldl undo_line st done) p = on_hand st p \<and>
   (p \<in> dom st \<longrightarrow> held (foldl undo_line st done) p = held st p - undo_amount p done)"
proof (induction "done" arbitrary: st)
  case (Cons pq ds)
  have "dom (undo_line st pq) = dom st" "on_hand (undo_line st pq) p = on_hand st p"
    "p \<in> dom st \<longrightarrow> held (undo_line st pq) p = held st p - undo_amount p [pq]"
    by (auto simp: undo_line_def on_hand_def held_def undo_amount_def split: option.split prod.split)
  then show ?case using Cons [of "undo_line st pq"] by (simp add: undo_amount_def)
qed (simp add: undo_amount_def)

lemma stock_eqI:
  assumes "dom st = dom st'" "\<And>p. on_hand st p = on_hand st' p" "\<And>p. p \<in> dom st \<Longrightarrow> held st p = held st' p"
  shows "st = st'"
proof
  fix p
  have "(st p = None) = (st' p = None)" using assms(1) by (metis domIff)
  then show "st p = st' p"
    using assms(2) [of p] assms(3) [of p]
    by (cases "st p"; cases "st' p") (auto simp: on_hand_def held_def domIff)
qed

text \<open>A reservation takes all lines or none: after a failure every row is as before.\<close>

lemma handle_order_created_spec:
  assumes "stock_ok st" "lines_ok lines"
  shows "(\<exists>st'. handle_order_created order lines st = (st', [(InventoryEvents, InventoryReservedEvent order lines)]) \<and>
      stock_ok st' \<and> dom st' = dom st \<and> (\<forall>p. on_hand st' p = on_hand st p) \<and>
      (\<forall>p. held st' p = held st p + units_of p lines)) \<or>
    handle_order_created order lines st = (st, [(InventoryEvents, InventoryReserveFailedEvent order)])"
proof -
  obtain st' ds failed where r: "reserve_order lines st [] = (st', ds, failed)" by (cases "reserve_order lines st []") auto
  note s = reserve_order_spec [OF r assms]
  have "foldl undo_line st' ds = st"
    using s undo_lines [of st' ds] by (intro stock_eqI) (auto simp: undo_amount_def)
  then show ?thesis using s by (cases failed) (auto simp: handle_order_created_def r)
qed

lemma release_line_spec:
  "dom (release_line st l) = dom st \<and> on_hand (release_line st l) p = on_hand st p \<and>
   held (release_line st l) p = held st p - (if li_product l = p \<and> p \<in> dom st then min (held st p) (li_quantity l) else 0)"
  by (auto simp: release_line_def on_hand_def held_def Let_def split: option.split)

lemma release_line_ok: "stock_ok st \<Longrightarrow> 0 < li_quantity l \<Longrightarrow> stock_ok (release_line st l)"
  by (auto simp: stock_ok_def release_line_def Let_def split: option.splits if_splits)

lemma release_lines:
  "stock_ok st \<Longrightarrow> lines_ok lines \<Longrightarrow>
   stock_ok (foldl release_line st lines) \<and> dom (foldl release_line st lines) = dom st \<and>
   on_hand (foldl release_line st lines) p = on_hand st p"
proof (induction lines arbitrary: st)
  case (Cons l ls)
  then show ?case using release_line_spec [of st l] release_line_ok [of st l] by (auto simp: lines_ok_def)
qed simp

lemma lines_ok_take: "lines_ok lines \<Longrightarrow> lines_ok (take k lines)"
  by (auto simp: lines_ok_def list_all_iff dest: in_set_takeD)

lemma handle_release_stock_spec:
  assumes "stock_ok st" "lines_ok lines"
  shows "\<exists>st' out. handle_release_stock lock order lines st = (st', out) \<and> stock_ok st' \<and>
    (\<forall>p. on_hand st' p = on_hand st p) \<and> set (map snd out) \<subseteq> {InventoryReleasedEvent order}"
  using release_lines [OF assms] release_lines [OF assms(1) lines_ok_take [OF assms(2)]]
  by (auto simp: handle_release_stock_def split: option.split)

lemma reserve_lines_spec:
  "reserve_lines its st = Inr st' \<Longrightarrow> stock_ok st \<Longrightarrow> list_all (\<lambda>(p, q). 0 < q) its \<Longrightarrow>
   stock_ok st' \<and> on_hand st' p = on_hand st p"
proof (induction its st rule: reserve_lines.induct)
  case (2 p' q its st)
  then obtain r where r: "st p' = Some r" "\<not> available r < q" by (auto split: option.splits if_splits)
  then show ?case using 2(1) [OF r] 2(2-4) take_stock_spec [of st p' r q p] by (simp del: fun_upd_apply)
qed simp

lemma restock_spec:
  "0 < q \<Longrightarrow> stock_ok st \<Longrightarrow> stock_ok (restock p q st) \<and>
   on_hand (restock p q st) p' = on_hand st p' + (if p' = p then q else 0)"
  by (auto simp: restock_def stock_ok_def on_hand_def split: option.split)

end
