(* ===== verification/Order_Service.thy ===== *)
theory Order_Service
  imports Broker
begin

text \<open>
  The order service, \<open>services/order/app\<close>: placing an order (\<open>service.py\<close>, \<open>create_order\<close>), the handlers of
  the saga and the sweeper of stale orders (\<open>consumers.py\<close>). The identifier of an order is its position in
  the table. The plan of the tenant comes from Redis; the total of the order is kept with its
  lines. The columns for the user and for the time of the update are left out, and so is \<open>transition_status\<close>, which nothing
  calls.
\<close>

datatype order_status = PENDING | STOCK_RESERVED | CONFIRMED | CANCELLED | CANCELLED_NO_STOCK | CANCELLING

record order_row =
  od_tenant :: nat
  od_key :: nat
  od_status :: order_status
  od_lines :: "line list"
  od_created :: int

subsection \<open>Placing an order\<close>

datatype plan_name = FreeTier | GrowthTier | EnterpriseTier | OtherTier

fun plan_limit :: "plan_name \<Rightarrow> nat" where
  "plan_limit FreeTier = 15"
| "plan_limit GrowthTier = 200"
| "plan_limit EnterpriseTier = 20000"
| "plan_limit OtherTier = 15"

datatype order_error = QuotaExceeded nat | KeyTaken

definition plain_line :: "nat \<times> int \<times> rat \<Rightarrow> line" where
  \<comment> \<open>a line of the request: product, quantity and unit price\<close>
  "plain_line pqu = \<lparr>li_product = fst pqu, li_quantity = fst (snd pqu), li_price = Some (fl (snd (snd pqu))), li_fail = False\<rparr>"

fun find_order :: "nat \<Rightarrow> nat \<Rightarrow> order_row list \<Rightarrow> nat option" where
  "find_order tenant key [] = None"
| "find_order tenant key (od # ods) =
     (if od_tenant od = tenant \<and> od_key od = key then Some 0 else map_option Suc (find_order tenant key ods))"

definition create_order ::
    "nat \<Rightarrow> nat \<Rightarrow> (nat \<times> int \<times> rat) list \<Rightarrow> plan_name \<Rightarrow> int \<Rightarrow> order_row list service_db \<Rightarrow>
     order_error + (nat \<times> order_row list service_db)" where
  \<comment> \<open>the key column is unique over all tenants: the insert fails when another tenant has it\<close>
  "create_order tenant key lines plan now db =
     (let ods = domain db in
      if plan_limit plan \<le> length (filter (\<lambda>od. od_tenant od = tenant) ods) then Inl (QuotaExceeded (plan_limit plan))
      else case find_order tenant key ods of
          Some i \<Rightarrow> Inr (i, db)
        | None \<Rightarrow>
            if list_ex (\<lambda>od. od_key od = key) ods then Inl KeyTaken
            else
              let ls = map plain_line lines;
                  od = \<lparr>od_tenant = tenant, od_key = key, od_status = PENDING, od_lines = ls, od_created = now\<rparr>
              in Inr (length ods,
                   db\<lparr>domain := ods @ [od],
                      outbox := write_all OrderService [(OrderEvents, OrderCreatedEvent (length ods) ls)] (outbox db)\<rparr>))"

subsection \<open>The saga\<close>

definition released_lines :: "order_row \<Rightarrow> line list" where
  \<comment> \<open>the lines of the compensation carry product and quantity only\<close>
  "released_lines od =
     map (\<lambda>l. \<lparr>li_product = li_product l, li_quantity = li_quantity l, li_price = None, li_fail = False\<rparr>) (od_lines od)"

definition move :: "order_status list \<Rightarrow> order_status \<Rightarrow> nat \<Rightarrow> order_row list \<Rightarrow> order_row list" where
  \<comment> \<open>set the status of an order that exists and has one of these\<close>
  "move sts st i ods =
     (if i < length ods \<and> List.member sts (od_status (ods ! i)) then ods[i := (ods ! i)\<lparr>od_status := st\<rparr>] else ods)"

definition open_statuses :: "order_status list" where
  "open_statuses = [PENDING, STOCK_RESERVED]"

definition handle_inventory_reserved :: "nat \<Rightarrow> order_row list \<Rightarrow> order_row list" where
  "handle_inventory_reserved = move [PENDING] STOCK_RESERVED"

definition handle_inventory_reserve_failed :: "nat \<Rightarrow> order_row list \<Rightarrow> order_row list" where
  "handle_inventory_reserve_failed = move open_statuses CANCELLED_NO_STOCK"

definition handle_payment_success :: "nat \<Rightarrow> order_row list \<Rightarrow> order_row list" where
  "handle_payment_success = move [STOCK_RESERVED] CONFIRMED"

definition cancel_event :: "nat \<Rightarrow> order_row list \<Rightarrow> (topic \<times> event_body) list" where
  "cancel_event i ods = [(OrderEvents, OrderCancelledEvent i (released_lines (ods ! i)))]"

definition order_open :: "nat \<Rightarrow> order_row list \<Rightarrow> bool" where
  "order_open i ods \<longleftrightarrow> i < length ods \<and> List.member open_statuses (od_status (ods ! i))"

definition handle_payment_failed :: "nat \<Rightarrow> order_row list \<Rightarrow> order_row list \<times> (topic \<times> event_body) list" where
  "handle_payment_failed i ods =
     (if order_open i ods then (move open_statuses CANCELLED i ods, cancel_event i ods) else (ods, []))"

fun order_handler :: "order_row list handler" where
  "order_handler (InventoryReservedEvent i lines) ods = Some (handle_inventory_reserved i ods, [])"
| "order_handler (InventoryReserveFailedEvent i) ods = Some (handle_inventory_reserve_failed i ods, [])"
| "order_handler (PaymentSuccessEvent i lines) ods = Some (handle_payment_success i ods, [])"
| "order_handler (PaymentFailedEvent i lines) ods = Some (handle_payment_failed i ods)"
| "order_handler _ ods = None"

interpretation order: inbox_consumer OrderService order_handler
proof
  show "order_handler b d = None \<longleftrightarrow> order_handler b d' = None" for b d d'
    by (cases b) simp_all
qed

subsection \<open>The sweeper\<close>

definition saga_timeout :: int where
  \<comment> \<open>fifteen minutes, in seconds\<close>
  "saga_timeout = 900"

definition sweep_batch_size :: nat where
  "sweep_batch_size = 100"

definition stale :: "int \<Rightarrow> order_row \<Rightarrow> bool" where
  "stale now od \<longleftrightarrow> List.member open_statuses (od_status od) \<and> od_created od \<le> now - saga_timeout"

definition stale_orders :: "int \<Rightarrow> order_row list \<Rightarrow> nat list" where
  "stale_orders now ods = filter (\<lambda>i. stale now (ods ! i)) [0..<length ods]"

definition cancel_stale :: "order_row list \<times> (topic \<times> event_body) list \<Rightarrow> nat \<Rightarrow> order_row list \<times> (topic \<times> event_body) list" where
  "cancel_stale s i = (case s of (ods, out) \<Rightarrow> (move open_statuses CANCELLED i ods, out @ cancel_event i ods))"

definition sweep_batch :: "int \<Rightarrow> order_row list service_db \<Rightarrow> order_row list service_db" where
  "sweep_batch now db =
     (let (ods, out) = foldl cancel_stale (domain db, []) (take sweep_batch_size (stale_orders now (domain db)))
      in db\<lparr>domain := ods, outbox := write_all OrderService out (outbox db)\<rparr>)"

definition open_orders :: "order_row list \<Rightarrow> nat" where
  "open_orders ods = length (filter (\<lambda>od. List.member open_statuses (od_status od)) ods)"

lemma move_length [simp]: "length (move sts st i ods) = length ods"
  by (simp add: move_def)

lemma order_open_move:
  "i \<noteq> j \<Longrightarrow> order_open j (move sts st i ods) \<longleftrightarrow> order_open j ods"
  by (simp add: order_open_def move_def)

lemma fst_cancel_stale [simp]: "fst (cancel_stale s i) = move open_statuses CANCELLED i (fst s)"
  by (simp add: cancel_stale_def split: prod.split)

lemma cancel_orders_length: "length (fst (foldl cancel_stale s is)) = length (fst s)"
  by (induction "is" arbitrary: s) simp_all

lemma open_update:
  "i < length ods \<Longrightarrow> List.member open_statuses (od_status (ods ! i)) \<Longrightarrow> \<not> List.member open_statuses (od_status od) \<Longrightarrow>
   Suc (open_orders (ods[i := od])) = open_orders ods"
  by (induction ods arbitrary: i) (auto simp: open_orders_def nth_Cons split: nat.splits)

lemma open_cancel: "order_open i ods \<Longrightarrow> Suc (open_orders (move open_statuses CANCELLED i ods)) = open_orders ods"
  unfolding order_open_def move_def using open_update [of i ods "(ods ! i)\<lparr>od_status := CANCELLED\<rparr>"]
  by (simp add: open_statuses_def List.member_iff)

lemma open_cancels:
  "distinct is \<Longrightarrow> list_all (\<lambda>i. order_open i (fst s)) is \<Longrightarrow>
   open_orders (fst (foldl cancel_stale s is)) + length is = open_orders (fst s)"
proof (induction "is" arbitrary: s)
  case (Cons i "is")
  have o: "order_open i (fst s)" using Cons.prems by simp
  have "list_all (\<lambda>j. order_open j (fst (cancel_stale s i))) is"
    using Cons.prems order_open_move [of i] by (fastforce simp: list_all_iff)
  then have "open_orders (fst (foldl cancel_stale (cancel_stale s i) is)) + length is = open_orders (fst (cancel_stale s i))"
    using Cons by simp
  then show ?case using open_cancel [OF o] by simp
qed simp

lemma stale_open: "i \<in> set (stale_orders now ods) \<Longrightarrow> order_open i ods"
  by (simp add: stale_orders_def stale_def order_open_def)

lemma batch_shrinks:
  assumes "stale_orders now (domain db) \<noteq> []"
  shows "open_orders (domain (sweep_batch now db)) < open_orders (domain db)"
proof -
  let ?is = "take sweep_batch_size (stale_orders now (domain db))"
  have "distinct ?is" by (simp add: stale_orders_def distinct_take)
  moreover have "list_all (\<lambda>i. order_open i (domain db)) ?is"
    unfolding list_all_iff using stale_open by (blast dest: in_set_takeD)
  ultimately have "open_orders (fst (foldl cancel_stale (domain db, []) ?is)) + length ?is = open_orders (domain db)"
    using open_cancels [of ?is "(domain db, [])"] by simp
  moreover have "0 < length ?is" using assms by (simp add: sweep_batch_size_def)
  moreover have "domain (sweep_batch now db) = fst (foldl cancel_stale (domain db, []) ?is)"
    by (simp add: sweep_batch_def case_prod_beta Let_def)
  ultimately show ?thesis by (metis less_add_same_cancel1)
qed

function sweep :: "(nat \<Rightarrow> int) \<Rightarrow> nat \<Rightarrow> order_row list service_db \<Rightarrow> order_row list service_db" where
  \<comment> \<open>the clock is read before each batch\<close>
  "sweep clk k db =
     (if stale_orders (clk k) (domain db) = [] then db else sweep clk (Suc k) (sweep_batch (clk k) db))"
  by pat_completeness auto
termination
  by (relation "measure (\<lambda>(clk, k, db). open_orders (domain db))") (use batch_shrinks in auto)

declare sweep.simps [simp del]

end
