(* ===== verification/Order_Transactions.thy ===== *)
theory Order_Transactions
  imports Order_Service
begin

text \<open>
  The transactions of the order service that read before they write: a handler of the saga and a batch of the sweeper
  (\<open>services/order/app/consumers.py\<close>). Both select rows and wait, and what they changed is written when the session
  commits. The table has no version and the rows are not locked, and the database isolates no more than by
  default (READ COMMITTED): the commit sets the columns that were changed, on whatever the rows are by then. The object
  of the row is not flushed before, as the sessions have \<open>autoflush=False\<close>. A transaction that records an event
  which is in the inbox by then violates the unique key and is rolled back.

  Without anything in between, reading and committing is the handler, and a batch, as one step.
\<close>

record order_txn =
  tx_event :: "saga_event option"
  tx_writes :: "(nat \<times> order_status) list"
  tx_out :: "(topic \<times> event_body) list"

definition dirty :: "order_row list \<Rightarrow> order_row list \<Rightarrow> (nat \<times> order_status) list" where
  \<comment> \<open>the changed columns of the rows a session has read\<close>
  "dirty ods ods' =
     map (\<lambda>i. (i, od_status (ods' ! i)))
       (filter (\<lambda>i. od_status (ods' ! i) \<noteq> od_status (ods ! i)) [0..<length ods])"

definition begin_handling :: "saga_event \<Rightarrow> order_row list service_db \<Rightarrow> order_txn option" where
  "begin_handling e db =
     (if List.member (inbox db) (ev_id e) then None
      else case order_handler (ev_body e) (domain db) of
          None \<Rightarrow> None
        | Some (ods, out) \<Rightarrow> Some \<lparr>tx_event = Some e, tx_writes = dirty (domain db) ods, tx_out = out\<rparr>)"

definition begin_sweep :: "int \<Rightarrow> nat list \<Rightarrow> order_row list service_db \<Rightarrow> order_txn option" where
  \<comment> \<open>the select has a limit and no order: which stale orders it gives is open\<close>
  "begin_sweep now is db =
     (let todo = stale_orders now (domain db) in
      if is \<noteq> [] \<and> distinct is \<and> list_all (List.member todo) is \<and> length is = min sweep_batch_size (length todo)
      then let (ods, out) = foldl cancel_stale (domain db, []) is
        in Some \<lparr>tx_event = None, tx_writes = dirty (domain db) ods, tx_out = out\<rparr>
      else None)"

definition write_statuses :: "(nat \<times> order_status) list \<Rightarrow> order_row list \<Rightarrow> order_row list" where
  "write_statuses ws ods = foldl (\<lambda>ods (i, st). ods[i := (ods ! i)\<lparr>od_status := st\<rparr>]) ods ws"

definition commit_txn :: "order_txn \<Rightarrow> order_row list service_db \<Rightarrow> order_row list service_db" where
  "commit_txn tx db =
     (case tx_event tx of
        None \<Rightarrow> db\<lparr>domain := write_statuses (tx_writes tx) (domain db),
                  outbox := write_all OrderService (tx_out tx) (outbox db)\<rparr>
      | Some e \<Rightarrow>
          if List.member (inbox db) (ev_id e) then db
          else \<lparr>domain = write_statuses (tx_writes tx) (domain db), inbox = inbox db @ [ev_id e],
                outbox = write_all OrderService (tx_out tx) (outbox db)\<rparr>)"

subsection \<open>What is written\<close>

lemma dirty_mem: "(i, st) \<in> set (dirty ods ods') \<longleftrightarrow>
  i < length ods \<and> st = od_status (ods' ! i) \<and> od_status (ods' ! i) \<noteq> od_status (ods ! i)"
  by (auto simp: dirty_def)

lemma dirty_keys: "distinct (map fst (dirty ods ods'))"
  by (simp add: dirty_def comp_def)

lemma write_statuses_Nil [simp]: "write_statuses [] ods = ods"
  by (simp add: write_statuses_def)

lemma write_statuses_Cons [simp]:
  "write_statuses ((i, st) # ws) ods = write_statuses ws (ods[i := (ods ! i)\<lparr>od_status := st\<rparr>])"
  by (simp add: write_statuses_def)

lemma length_write_statuses [simp]: "length (write_statuses ws ods) = length ods"
  by (induction ws arbitrary: ods) auto

lemma write_statuses_nth:
  "distinct (map fst ws) \<Longrightarrow> i < length ods \<Longrightarrow>
   write_statuses ws ods ! i = (case map_of ws i of None \<Rightarrow> ods ! i | Some st \<Rightarrow> (ods ! i)\<lparr>od_status := st\<rparr>)"
proof (induction ws arbitrary: ods)
  case (Cons w ws)
  obtain j st where w: "w = (j, st)" by (cases w)
  have "i = j \<Longrightarrow> map_of ws i = None" using Cons.prems(1) w by (simp add: map_of_eq_None_iff)
  then show ?case using Cons.IH [of "ods[j := (ods ! j)\<lparr>od_status := st\<rparr>]"] Cons.prems w
    by (auto split: option.split)
qed simp

text \<open>Without knowing that no row is written twice: each row is as before, or has one of the statuses written to it.\<close>

lemma write_statuses_cases:
  "i < length ods \<Longrightarrow> write_statuses ws ods ! i = ods ! i \<or>
   (\<exists>st. (i, st) \<in> set ws \<and> write_statuses ws ods ! i = (ods ! i)\<lparr>od_status := st\<rparr>)"
proof (induction ws arbitrary: ods)
  case (Cons w ws)
  obtain j st where w: "w = (j, st)" by (cases w)
  show ?case using Cons.IH [of "ods[j := (ods ! j)\<lparr>od_status := st\<rparr>]"] Cons.prems w
    by (cases "i = j") auto
qed simp

definition only_statuses :: "order_row list \<Rightarrow> order_row list \<Rightarrow> bool" where
  "only_statuses ods ods' \<longleftrightarrow> length ods' = length ods \<and>
     (\<forall>i < length ods. (ods' ! i)\<lparr>od_status := od_status (ods ! i)\<rparr> = ods ! i)"

lemma write_dirty:
  assumes "only_statuses ods ods'" shows "write_statuses (dirty ods ods') ods = ods'"
proof (rule nth_equalityI)
  show "length (write_statuses (dirty ods ods') ods) = length ods'" using assms by (simp add: only_statuses_def)
  fix i assume "i < length (write_statuses (dirty ods ods') ods)"
  then have i: "i < length ods" by simp
  have eq: "(ods' ! i)\<lparr>od_status := od_status (ods ! i)\<rparr> = ods ! i" using assms i by (simp add: only_statuses_def)
  have row: "ods ! i = r \<Longrightarrow> (ods ! i)\<lparr>od_status := od_status (ods' ! i)\<rparr> = ods' ! i" for r
    using arg_cong [OF eq, of "\<lambda>r. r\<lparr>od_status := od_status (ods' ! i)\<rparr>"] by simp
  show "write_statuses (dirty ods ods') ods ! i = ods' ! i"
  proof (cases "map_of (dirty ods ods') i")
    case None
    then have "od_status (ods' ! i) = od_status (ods ! i)"
      using i dirty_mem [of i "od_status (ods' ! i)" ods ods'] by (auto simp: map_of_eq_None_iff image_iff)
    then show ?thesis using write_statuses_nth [OF dirty_keys i, of ods ods'] None row by simp
  next
    case (Some st)
    then have "st = od_status (ods' ! i)" using dirty_mem map_of_SomeD by metis
    then show ?thesis using write_statuses_nth [OF dirty_keys i, of ods ods'] Some row by simp
  qed
qed

lemma only_statuses_refl [simp]: "only_statuses ods ods"
  by (simp add: only_statuses_def)

lemma only_statuses_trans:
  assumes "only_statuses a b" "only_statuses b c" shows "only_statuses a c"
proof -
  have "(c ! i)\<lparr>od_status := od_status (a ! i)\<rparr> = a ! i" if i: "i < length a" for i
  proof -
    have ab: "(b ! i)\<lparr>od_status := od_status (a ! i)\<rparr> = a ! i" and bc: "(c ! i)\<lparr>od_status := od_status (b ! i)\<rparr> = b ! i"
      using assms i by (simp_all add: only_statuses_def)
    have "((c ! i)\<lparr>od_status := od_status (b ! i)\<rparr>)\<lparr>od_status := od_status (a ! i)\<rparr> = a ! i" unfolding bc by (rule ab)
    then show ?thesis by simp
  qed
  then show ?thesis using assms by (simp add: only_statuses_def)
qed

lemma move_only_statuses [simp]: "only_statuses ods (move sts st i ods)"
  by (auto simp: only_statuses_def move_def nth_list_update)

lemma handler_only_statuses: "order_handler x ods = Some (ods', out) \<Longrightarrow> only_statuses ods ods'"
  by (cases x)
    (auto simp: handle_inventory_reserved_def handle_inventory_reserve_failed_def handle_payment_success_def
      handle_payment_failed_def split: if_splits)

lemma cancels_only_statuses: "only_statuses (fst s) (fst (foldl cancel_stale s is))"
proof (induction "is" arbitrary: s)
  case (Cons i "is")
  then show ?case using only_statuses_trans [OF _ Cons [of "cancel_stale s i"]] by simp
qed simp

subsection \<open>Transactions that do not overlap\<close>

text \<open>Reading and committing with nothing in between is the handler as one step, and the batch of the sweeper.\<close>

lemma handling_alone:
  "handle_event OrderService order_handler e db = (case begin_handling e db of None \<Rightarrow> db | Some tx \<Rightarrow> commit_txn tx db)"
  using write_dirty [OF handler_only_statuses, of "ev_body e" "domain db"]
  by (auto simp: begin_handling_def handle_event_def commit_txn_def List.member_iff split: option.split)

lemma sweep_alone:
  assumes "begin_sweep now (take sweep_batch_size (stale_orders now (domain db))) db = Some tx"
  shows "commit_txn tx db = sweep_batch now db"
  using assms write_dirty [OF cancels_only_statuses, of "(domain db, [])"]
  by (auto simp: begin_sweep_def sweep_batch_def commit_txn_def Let_def case_prod_beta split: if_splits)

lemma batch_begins:
  assumes "stale_orders now (domain db) \<noteq> []"
  shows "begin_sweep now (take sweep_batch_size (stale_orders now (domain db))) db \<noteq> None"
proof -
  let ?todo = "stale_orders now (domain db)"
  have "distinct (take sweep_batch_size ?todo)" by (simp add: stale_orders_def distinct_take)
  moreover have "list_all (List.member ?todo) (take sweep_batch_size ?todo)"
    by (auto simp: list_all_iff List.member_iff dest: in_set_takeD)
  ultimately show ?thesis using assms
    by (simp add: begin_sweep_def sweep_batch_size_def Let_def case_prod_beta min.commute)
qed

end
