(* ===== verification/Payment_Service.thy ===== *)
theory Payment_Service
  imports Broker
begin

text \<open>
  The payment handler of the saga, \<open>services/payment/app/consumers.py\<close>, with the simulated payment
  (\<open>SIMULATE_PAYMENTS\<close>); without it every reservation makes the handler throw. The amount is computed in
  floating point from the lines of the event; that the column rounds it to cents is left out, and so is the transaction
  identifier.
\<close>

record payment_row =
  pay_order :: nat
  pay_amount :: rat

definition line_amount :: "line \<Rightarrow> rat" where
  "line_amount l = ntimes (of_int (li_quantity l)) (case li_price l of None \<Rightarrow> 0 | Some p \<Rightarrow> p)"

definition payment_amount :: "line list \<Rightarrow> rat" where
  "payment_amount lines = foldl (\<lambda>acc l. nplus acc (line_amount l)) 0 lines"

definition process_payment :: "nat \<Rightarrow> line list \<Rightarrow> payment_row list \<Rightarrow> payment_row list \<times> (topic \<times> event_body) list" where
  "process_payment order lines ps =
     (if list_ex li_fail lines then (ps, [(PaymentEvents, PaymentFailedEvent order lines)])
      else (ps @ [\<lparr>pay_order = order, pay_amount = payment_amount lines\<rparr>],
            [(PaymentEvents, PaymentSuccessEvent order lines)]))"

fun payment_handler :: "payment_row list handler" where
  "payment_handler (InventoryReservedEvent order lines) ps = Some (process_payment order lines ps)"
| "payment_handler _ ps = None"

interpretation payment: inbox_consumer PaymentService payment_handler
proof
  show "payment_handler b d = None \<longleftrightarrow> payment_handler b d' = None" for b d d'
    by (cases b) simp_all
qed

end
