(* ===== verification/Order_Saga.thy ===== *)
theory Order_Saga
  imports Inventory_Service Order_Transactions Payment_Service
begin

text \<open>
  The three services of an order together: their databases, the log of what was published on the topics of
  the saga, and the steps they make, in any interleaving. A worker publishes a batch of
  outbox rows, of which any sending and the commit may fail; a consumer is given any message of the topics
  it subscribes to, any number of times, or its handler throws and the message goes to a topic nobody reads;
  clients place orders and reserve and restock products. In the order service a handler or a batch of the sweeper can also be two
  steps, reading and committing (\<open>Order_Transactions\<close>), with anything in between: any number of these transactions is
  open at a time, of one instance of the service or of several, and each may be rolled back; \<open>Deliver\<close> is the
  case of a handler that nothing comes between. This allows every order of
  delivery the broker allows and more: no order of messages is assumed.
  The schemas of the HTTP interface reject orders and reservations without lines and quantities or
  prices that are not positive before the service is called.
\<close>

record backend =
  order_db :: "order_row list service_db"
  inventory_db :: "stock service_db"
  payment_db :: "payment_row list service_db"
  open_txns :: "order_txn list"
  log :: "(topic \<times> saga_event) list"
  dead :: "dead_letter list"

definition initial_backend :: backend where
  "initial_backend =
     \<lparr>order_db = new_db [], inventory_db = new_db Map.empty, payment_db = new_db [], open_txns = [],
      log = [], dead = []\<rparr>"

fun subscribed :: "service \<Rightarrow> topic list" where
  "subscribed OrderService = [InventoryEvents, PaymentEvents]"
| "subscribed InventoryService = [OrderEvents, PaymentEvents]"
| "subscribed PaymentService = [InventoryEvents]"

datatype backend_event =
    NewOrder nat nat "(nat \<times> int \<times> rat) list" plan_name int
  | ReserveRequest nat "(nat \<times> int) list"
  | RestockRequest nat int
  | Publish service "bool list" bool
  | Deliver service nat "nat option"
  | DeliverFails service nat
  | StartHandling nat
  | StartSweep int "nat list"
  | Commit nat
  | Rollback nat

fun publish :: "service \<Rightarrow> bool list \<Rightarrow> bool \<Rightarrow> backend \<Rightarrow> backend" where
  "publish OrderService oks ok b =
     (let (rs, out) = process_batch oks ok (outbox (order_db b))
      in b\<lparr>order_db := (order_db b)\<lparr>outbox := rs\<rparr>, log := log b @ out\<rparr>)"
| "publish InventoryService oks ok b =
     (let (rs, out) = process_batch oks ok (outbox (inventory_db b))
      in b\<lparr>inventory_db := (inventory_db b)\<lparr>outbox := rs\<rparr>, log := log b @ out\<rparr>)"
| "publish PaymentService oks ok b =
     (let (rs, out) = process_batch oks ok (outbox (payment_db b))
      in b\<lparr>payment_db := (payment_db b)\<lparr>outbox := rs\<rparr>, log := log b @ out\<rparr>)"

fun consume :: "service \<Rightarrow> nat option \<Rightarrow> saga_event \<Rightarrow> backend \<Rightarrow> backend" where
  "consume OrderService lock e b = b\<lparr>order_db := handle_event OrderService order_handler e (order_db b)\<rparr>"
| "consume InventoryService lock e b =
     b\<lparr>inventory_db := handle_event InventoryService (inventory_handler lock) e (inventory_db b)\<rparr>"
| "consume PaymentService lock e b = b\<lparr>payment_db := handle_event PaymentService payment_handler e (payment_db b)\<rparr>"

definition message :: "service \<Rightarrow> nat \<Rightarrow> backend \<Rightarrow> (topic \<times> saga_event) option" where
  \<comment> \<open>the message at a position of the log, for a consumer of its topic\<close>
  "message s n b =
     (if n < length (log b) \<and> List.member (subscribed s) (fst (log b ! n)) then Some (log b ! n) else None)"

definition open_txn :: "order_txn option \<Rightarrow> backend \<Rightarrow> backend" where
  "open_txn tx b = (case tx of None \<Rightarrow> b | Some t \<Rightarrow> b\<lparr>open_txns := open_txns b @ [t]\<rparr>)"

definition close_txn :: "nat \<Rightarrow> backend \<Rightarrow> backend" where
  "close_txn k b = b\<lparr>open_txns := take k (open_txns b) @ drop (Suc k) (open_txns b)\<rparr>"

definition valid_lines :: "(nat \<times> int \<times> rat) list \<Rightarrow> bool" where
  "valid_lines lines \<longleftrightarrow> lines \<noteq> [] \<and> list_all (\<lambda>(p, q, u). 0 < q \<and> 0 < u) lines"

fun backend_step :: "backend \<Rightarrow> backend_event \<Rightarrow> backend" where
  "backend_step b (NewOrder tenant key lines plan now) =
     (if \<not> valid_lines lines then b
      else case create_order tenant key lines plan now (order_db b) of
          Inl err \<Rightarrow> b
        | Inr (i, db) \<Rightarrow> b\<lparr>order_db := db\<rparr>)"
| "backend_step b (ReserveRequest conflicts its) =
     (if its = [] \<or> \<not> list_all (\<lambda>(p, q). 0 < q) its then b
      else case reserve_batch conflicts its (domain (inventory_db b)) of
          Inl err \<Rightarrow> b
        | Inr st \<Rightarrow> b\<lparr>inventory_db := (inventory_db b)\<lparr>domain := st\<rparr>\<rparr>)"
| "backend_step b (RestockRequest p q) =
     (if q \<le> 0 then b
      else b\<lparr>inventory_db := (inventory_db b)\<lparr>domain := restock p q (domain (inventory_db b))\<rparr>\<rparr>)"
| "backend_step b (Publish s oks ok) = publish s oks ok b"
| "backend_step b (Deliver s n lock) = (case message s n b of None \<Rightarrow> b | Some (t, e) \<Rightarrow> consume s lock e b)"
| "backend_step b (DeliverFails s n) =
     (case message s n b of None \<Rightarrow> b | Some (t, e) \<Rightarrow> b\<lparr>dead := dead b @ [handle_failure t e]\<rparr>)"
| "backend_step b (StartHandling n) =
     (case message OrderService n b of None \<Rightarrow> b | Some (t, e) \<Rightarrow> open_txn (begin_handling e (order_db b)) b)"
| "backend_step b (StartSweep now is) = open_txn (begin_sweep now is (order_db b)) b"
| "backend_step b (Commit k) =
     (if k < length (open_txns b)
      then close_txn k (b\<lparr>order_db := commit_txn (open_txns b ! k) (order_db b)\<rparr>) else b)"
| "backend_step b (Rollback k) = close_txn k b"

subsection \<open>Who writes which event\<close>

fun author :: "event_body \<Rightarrow> service" where
  "author (OrderCreatedEvent i ls) = OrderService"
| "author (OrderCancelledEvent i ls) = OrderService"
| "author (InventoryReservedEvent i ls) = InventoryService"
| "author (InventoryReserveFailedEvent i) = InventoryService"
| "author (InventoryReleasedEvent i) = InventoryService"
| "author (PaymentSuccessEvent i ls) = PaymentService"
| "author (PaymentFailedEvent i ls) = PaymentService"

fun rows_of :: "service \<Rightarrow> backend \<Rightarrow> outbox_row list" where
  "rows_of OrderService b = outbox (order_db b)"
| "rows_of InventoryService b = outbox (inventory_db b)"
| "rows_of PaymentService b = outbox (payment_db b)"

fun created_of :: "event_body \<Rightarrow> nat option" where
  "created_of (OrderCreatedEvent i ls) = Some i"
| "created_of _ = None"

fun stock_answer_of :: "event_body \<Rightarrow> nat option" where
  "stock_answer_of (InventoryReservedEvent i ls) = Some i"
| "stock_answer_of (InventoryReserveFailedEvent i) = Some i"
| "stock_answer_of _ = None"

fun reserved_of :: "event_body \<Rightarrow> nat option" where
  "reserved_of (InventoryReservedEvent i ls) = Some i"
| "reserved_of _ = None"

fun payment_answer_of :: "event_body \<Rightarrow> nat option" where
  "payment_answer_of (PaymentSuccessEvent i ls) = Some i"
| "payment_answer_of (PaymentFailedEvent i ls) = Some i"
| "payment_answer_of _ = None"

fun success_of :: "event_body \<Rightarrow> nat option" where
  "success_of (PaymentSuccessEvent i ls) = Some i"
| "success_of _ = None"

fun lines_of :: "event_body \<Rightarrow> line list option" where
  \<comment> \<open>the lines of an order that an event hands on\<close>
  "lines_of (OrderCreatedEvent i ls) = Some ls"
| "lines_of (InventoryReservedEvent i ls) = Some ls"
| "lines_of (PaymentSuccessEvent i ls) = Some ls"
| "lines_of (PaymentFailedEvent i ls) = Some ls"
| "lines_of _ = None"

fun order_of :: "event_body \<Rightarrow> nat" where
  "order_of (OrderCreatedEvent i ls) = i"
| "order_of (InventoryReservedEvent i ls) = i"
| "order_of (InventoryReserveFailedEvent i) = i"
| "order_of (InventoryReleasedEvent i) = i"
| "order_of (PaymentSuccessEvent i ls) = i"
| "order_of (PaymentFailedEvent i ls) = i"
| "order_of (OrderCancelledEvent i ls) = i"

subsection \<open>Messages that were handled\<close>

definition handled :: "(event_body \<Rightarrow> nat option) \<Rightarrow> nat \<Rightarrow> service \<Rightarrow> outbox_row list \<Rightarrow> event_id list \<Rightarrow> bool" where
  \<comment> \<open>an event of a kind about an order is among the rows, and the inbox has it\<close>
  "handled f i s rows ibx \<longleftrightarrow> (\<exists>n < length rows. f (bodies rows ! n) = Some i \<and> (s, n) \<in> set ibx)"

definition subjects :: "(event_body \<Rightarrow> nat option) \<Rightarrow> outbox_row list \<Rightarrow> nat list" where
  "subjects f rows = List.map_filter f (bodies rows)"

lemma length_bodies [simp]: "length (bodies rows) = length rows"
  by (simp add: bodies_def)

lemma subjects_write [simp]: "subjects f (write_all s out rows) = subjects f rows @ List.map_filter f (map snd out)"
  by (simp add: subjects_def map_filter_def)

lemma subjects_Nil [simp]: "subjects f [] = []"
  by (simp add: subjects_def map_filter_def)

lemma map_filter_one [simp]: "List.map_filter f [x] = (case f x of None \<Rightarrow> [] | Some y \<Rightarrow> [y])"
  by (simp add: map_filter_def split: option.split)

lemma map_filter_none [simp]: "List.map_filter f [] = []"
  by (simp add: map_filter_def)

lemma handled_mono:
  "handled f i s rows ibx \<Longrightarrow> set ibx \<subseteq> set ibx' \<Longrightarrow> handled f i s (write_all s' out rows) ibx'"
  by (fastforce simp: handled_def nth_append)

lemma handled_mono_inbox: "handled f i s rows ibx \<Longrightarrow> set ibx \<subseteq> set ibx' \<Longrightarrow> handled f i s rows ibx'"
  using handled_mono [of f i s rows ibx ibx' s "[]"] by simp

lemma row_id:
  assumes "numbered s rows" "n < length rows"
  shows "ev_id (row_event (rows ! n)) = (s, n)" "ev_body (row_event (rows ! n)) = bodies rows ! n"
proof -
  have "map (ev_id \<circ> row_event) rows ! n = map (Pair s) [0..<length rows] ! n"
    using assms(1) by (simp only: numbered_def)
  then show "ev_id (row_event (rows ! n)) = (s, n)" using assms(2) by simp
qed (use assms in \<open>simp add: bodies_def\<close>)

lemma event_row:
  assumes "numbered s rows" "e \<in> row_event ` set rows"
  obtains n where "n < length rows" "ev_id e = (s, n)" "ev_body e = bodies rows ! n"
  using assms row_id [OF assms(1)] by (auto simp: in_set_conv_nth)

lemma handledI:
  assumes "numbered s rows" "e \<in> row_event ` set rows" "f (ev_body e) = Some i" "ev_id e \<in> set ibx"
  shows "handled f i s rows ibx"
  using event_row [OF assms(1,2)] assms(3,4) unfolding handled_def by metis

lemma subjects_mem: "n < length rows \<Longrightarrow> f (bodies rows ! n) = Some i \<Longrightarrow> i \<in> set (subjects f rows)"
  by (force simp: subjects_def map_filter_def in_set_conv_nth image_iff)

lemma subjects_body: "i \<in> set (subjects f rows) \<longleftrightarrow> (\<exists>b \<in> set (bodies rows). f b = Some i)"
  by (force simp: subjects_def map_filter_def image_iff)

lemma subject_once:
  "distinct (List.map_filter f xs) \<Longrightarrow> m < length xs \<Longrightarrow> n < length xs \<Longrightarrow> f (xs ! m) = Some i \<Longrightarrow> f (xs ! n) = Some i \<Longrightarrow> m = n"
proof (induction xs arbitrary: m n)
  case (Cons x xs)
  have no: "f x = Some i \<Longrightarrow> k < length xs \<Longrightarrow> f (xs ! k) \<noteq> Some i" for k
    using Cons.prems(1) by (force simp: map_filter_def image_iff in_set_conv_nth)
  have d: "distinct (List.map_filter f xs)" using Cons.prems(1) by (auto simp: map_filter_def split: if_splits)
  show ?case using Cons.prems(2-) Cons.IH [OF d] no by (auto simp: nth_Cons split: nat.splits)
qed simp

lemma handled_event:
  assumes "handled f i s rows ibx" "distinct (subjects f rows)" "numbered s rows"
    and "e \<in> row_event ` set rows" "f (ev_body e) = Some i"
  shows "ev_id e \<in> set ibx"
proof -
  obtain n where n: "n < length rows" "f (bodies rows ! n) = Some i" "(s, n) \<in> set ibx"
    using assms(1) by (auto simp: handled_def)
  obtain m where m: "m < length rows" "ev_id e = (s, m)" "ev_body e = bodies rows ! m"
    using event_row [OF assms(3,4)] .
  have "m = n" using subject_once [of f "bodies rows" m n i] assms(2,5) n m by (simp add: subjects_def)
  then show ?thesis using n m by simp
qed

end
