(* ===== verification/Saga_Facts.thy ===== *)
theory Saga_Facts
  imports Order_Saga
begin

text \<open>
  What holds of the three services over every run of \<open>Order_Saga\<close>: the lifecycle of an order as
  a relation between statuses, and the chain of causes from the order to the payment. Each event about an order
  has one cause, and the inbox of the service that reacts to it has that cause.
\<close>

subsection \<open>The lifecycle of an order\<close>

inductive status_step :: "order_status \<Rightarrow> order_status \<Rightarrow> bool" where
  reserve: "status_step PENDING STOCK_RESERVED"
| confirm: "status_step STOCK_RESERVED CONFIRMED"
| no_stock: "st \<in> {PENDING, STOCK_RESERVED} \<Longrightarrow> status_step st CANCELLED_NO_STOCK"
| cancel: "st \<in> {PENDING, STOCK_RESERVED} \<Longrightarrow> status_step st CANCELLED"

inductive_cases status_stepE [elim]: "status_step st st'"

abbreviation status_steps :: "order_status \<Rightarrow> order_status \<Rightarrow> bool" where
  "status_steps \<equiv> status_step\<^sup>*\<^sup>*"

lemma closed_status:
  assumes "status_steps st st'" "st \<in> {CONFIRMED, CANCELLED, CANCELLED_NO_STOCK, CANCELLING}"
  shows "st' = st"
  using assms by (induction rule: rtranclp_induct) auto

lemma never_cancelling: "status_steps st st' \<Longrightarrow> st \<noteq> CANCELLING \<Longrightarrow> st' \<noteq> CANCELLING"
  by (induction rule: rtranclp_induct) auto

definition evolve :: "order_row list \<Rightarrow> order_row list \<Rightarrow> bool" where
  \<comment> \<open>orders are only added, and of an old one only the status changes, along the lifecycle\<close>
  "evolve ods ods' \<longleftrightarrow> length ods \<le> length ods' \<and>
     (\<forall>i < length ods. (ods' ! i)\<lparr>od_status := od_status (ods ! i)\<rparr> = ods ! i \<and>
        status_steps (od_status (ods ! i)) (od_status (ods' ! i)))"

lemma evolve_refl [simp]: "evolve ods ods"
  by (simp add: evolve_def)

lemma evolve_trans:
  assumes "evolve a b" "evolve b c" shows "evolve a c"
proof -
  have "(c ! i)\<lparr>od_status := od_status (a ! i)\<rparr> = a ! i \<and> status_steps (od_status (a ! i)) (od_status (c ! i))"
    if i: "i < length a" for i
  proof -
    have ab: "(b ! i)\<lparr>od_status := od_status (a ! i)\<rparr> = a ! i" "status_steps (od_status (a ! i)) (od_status (b ! i))"
      and bc: "(c ! i)\<lparr>od_status := od_status (b ! i)\<rparr> = b ! i" "status_steps (od_status (b ! i)) (od_status (c ! i))"
      using assms i unfolding evolve_def by simp_all
    have "(c ! i)\<lparr>od_status := od_status (a ! i)\<rparr> = ((c ! i)\<lparr>od_status := od_status (b ! i)\<rparr>)\<lparr>od_status := od_status (a ! i)\<rparr>"
      by simp
    then show ?thesis using ab bc by (simp only:) (blast intro: rtranclp_trans)
  qed
  then show ?thesis using assms by (simp add: evolve_def)
qed

lemma evolve_append: "evolve ods (ods @ new)"
  by (simp add: evolve_def nth_append)

lemma evolve_move:
  assumes "\<And>t. t \<in> set sts \<Longrightarrow> status_step t st" shows "evolve ods (move sts st i ods)"
  using assms by (auto simp: evolve_def move_def List.member_iff nth_list_update)

lemma evolve_lines: "evolve ods ods' \<Longrightarrow> i < length ods \<Longrightarrow> od_lines (ods' ! i) = od_lines (ods ! i)"
  by (metis evolve_def order_row.select_convs(4) order_row.update_convs(3) order_row.surjective)

lemma evolve_moves [simp]:
  "evolve ods (move open_statuses CANCELLED i ods)" "evolve ods (handle_inventory_reserved i ods)"
  "evolve ods (handle_inventory_reserve_failed i ods)" "evolve ods (handle_payment_success i ods)"
  unfolding handle_inventory_reserved_def handle_inventory_reserve_failed_def handle_payment_success_def
  by (auto intro!: evolve_move status_step.intros simp: open_statuses_def)

lemma handler_lengths [simp]:
  "length (handle_inventory_reserved i ods) = length ods" "length (handle_inventory_reserve_failed i ods) = length ods"
  "length (handle_payment_success i ods) = length ods"
  by (simp_all add: handle_inventory_reserved_def handle_inventory_reserve_failed_def handle_payment_success_def)

definition cancels :: "order_row list \<Rightarrow> order_row list \<Rightarrow> bool" where
  \<comment> \<open>some open orders are cancelled\<close>
  "cancels ods ods' \<longleftrightarrow> length ods' = length ods \<and>
     (\<forall>i < length ods. ods' ! i = ods ! i \<or>
        order_open i ods \<and> ods' ! i = (ods ! i)\<lparr>od_status := CANCELLED\<rparr>)"

lemma cancels_refl [simp]: "cancels ods ods"
  by (simp add: cancels_def)

lemma cancels_trans:
  assumes "cancels a b" "cancels b c" shows "cancels a c"
proof -
  have "c ! i = a ! i \<or> order_open i a \<and> c ! i = (a ! i)\<lparr>od_status := CANCELLED\<rparr>" if "i < length a" for i
  proof -
    have "b ! i = a ! i \<or> order_open i a \<and> b ! i = (a ! i)\<lparr>od_status := CANCELLED\<rparr>"
      and "c ! i = b ! i \<or> order_open i b \<and> c ! i = (b ! i)\<lparr>od_status := CANCELLED\<rparr>"
      using assms that by (simp_all add: cancels_def)
    moreover have "order_open i b \<Longrightarrow> b ! i = a ! i \<Longrightarrow> order_open i a"
      using assms(1) by (simp add: cancels_def order_open_def)
    moreover have "\<not> order_open i b" if "b ! i = (a ! i)\<lparr>od_status := CANCELLED\<rparr>"
      using that by (simp add: order_open_def open_statuses_def List.member_iff)
    ultimately show ?thesis by auto
  qed
  then show ?thesis using assms by (simp add: cancels_def)
qed

lemma cancels_move [simp]: "cancels ods (move open_statuses CANCELLED i ods)"
  by (auto simp: cancels_def move_def order_open_def nth_list_update)

lemma cancels_evolve: "cancels ods ods' \<Longrightarrow> evolve ods ods'"
  unfolding cancels_def evolve_def order_open_def open_statuses_def List.member_iff
  using status_step.cancel by (fastforce intro: r_into_rtranclp)

definition compensations :: "order_row list \<Rightarrow> (topic \<times> event_body) list \<Rightarrow> bool" where
  "compensations ods out \<longleftrightarrow>
     (\<forall>x \<in> set out. \<exists>i < length ods. x = (OrderEvents, OrderCancelledEvent i (released_lines (ods ! i))))"

lemma compensations_Nil [simp]: "compensations ods []"
  by (simp add: compensations_def)

lemma evolve_released: "evolve ods ods' \<Longrightarrow> i < length ods \<Longrightarrow> released_lines (ods' ! i) = released_lines (ods ! i)"
  by (simp add: released_lines_def evolve_lines)

lemma compensations_cancels: "compensations ods' out \<Longrightarrow> cancels ods ods' \<Longrightarrow> compensations ods out"
  using cancels_evolve [of ods ods'] by (fastforce simp: compensations_def cancels_def evolve_released)

lemma order_handler_effect:
  assumes "order_handler x ods = Some (ods', out)"
  shows "evolve ods ods' \<and> length ods' = length ods \<and> compensations ods out"
  using assms by (cases x) (auto simp: handle_payment_failed_def cancel_event_def compensations_def order_open_def split: if_splits)

lemma cancel_stale_effect:
  "list_all (\<lambda>i. i < length ods) is \<Longrightarrow> foldl cancel_stale (ods, out) is = (ods', out') \<Longrightarrow>
   cancels ods ods' \<and> (\<exists>new. out' = out @ new \<and> compensations ods new)"
proof (induction "is" arbitrary: ods out)
  case (Cons i "is")
  let ?o = "move open_statuses CANCELLED i ods"
  have "cancel_stale (ods, out) i = (?o, out @ cancel_event i ods)" by (simp add: cancel_stale_def)
  then have "cancels ?o ods' \<and> (\<exists>new. out' = (out @ cancel_event i ods) @ new \<and> compensations ?o new)"
    using Cons.prems by (intro Cons.IH) simp_all
  moreover have "compensations ods (cancel_event i ods @ new)" if "compensations ?o new" for new
    using compensations_cancels [OF that cancels_move] Cons.prems(1) by (auto simp: compensations_def cancel_event_def)
  ultimately show ?case using cancels_trans [OF cancels_move [of ods i]] by (metis append.assoc)
qed simp

lemma write_all_append: "write_all s (a @ b) rows = write_all s b (write_all s a rows)"
  by (simp add: write_all_def)

lemma create_order_effect:
  assumes "create_order tenant key lines plan now db = Inr (i, db')"
  shows "db' = db \<or> (let ls = map plain_line lines in
    domain db' = domain db @ [\<lparr>od_tenant = tenant, od_key = key, od_status = PENDING, od_lines = ls, od_created = now\<rparr>] \<and>
    inbox db' = inbox db \<and>
    outbox db' = write_all OrderService [(OrderEvents, OrderCreatedEvent (length (domain db)) ls)] (outbox db))"
  using assms by (auto simp: create_order_def Let_def split: if_splits option.splits)

subsection \<open>Open transactions\<close>

text \<open>A transaction may commit long after it has read, when the status of its orders is another; then only less holds: of an
  old order the data stay, and its status never becomes \<open>PENDING\<close> again.\<close>

definition keeps :: "order_row list \<Rightarrow> order_row list \<Rightarrow> bool" where
  "keeps ods ods' \<longleftrightarrow> length ods \<le> length ods' \<and>
     (\<forall>i < length ods. (ods' ! i)\<lparr>od_status := od_status (ods ! i)\<rparr> = ods ! i \<and>
        (od_status (ods' ! i) = od_status (ods ! i) \<or> od_status (ods' ! i) \<notin> {PENDING, CANCELLING}))"

lemma keeps_refl [simp]: "keeps ods ods"
  by (simp add: keeps_def)

lemma keeps_trans:
  assumes "keeps a b" "keeps b c" shows "keeps a c"
proof -
  have "(c ! i)\<lparr>od_status := od_status (a ! i)\<rparr> = a ! i \<and>
      (od_status (c ! i) = od_status (a ! i) \<or> od_status (c ! i) \<notin> {PENDING, CANCELLING})" if i: "i < length a" for i
  proof -
    have ab: "(b ! i)\<lparr>od_status := od_status (a ! i)\<rparr> = a ! i"
        "od_status (b ! i) = od_status (a ! i) \<or> od_status (b ! i) \<notin> {PENDING, CANCELLING}"
      and bc: "(c ! i)\<lparr>od_status := od_status (b ! i)\<rparr> = b ! i"
        "od_status (c ! i) = od_status (b ! i) \<or> od_status (c ! i) \<notin> {PENDING, CANCELLING}"
      using assms i unfolding keeps_def by simp_all
    have "((c ! i)\<lparr>od_status := od_status (b ! i)\<rparr>)\<lparr>od_status := od_status (a ! i)\<rparr> = a ! i" unfolding bc(1) by (rule ab(1))
    then have "(c ! i)\<lparr>od_status := od_status (a ! i)\<rparr> = a ! i" by simp
    then show ?thesis using ab(2) bc(2) by metis
  qed
  then show ?thesis using assms by (simp add: keeps_def)
qed

lemma new_status: "status_steps st st' \<Longrightarrow> st' = st \<or> st' \<notin> {PENDING, CANCELLING}"
  by (induction rule: rtranclp_induct) auto

lemma evolve_keeps: "evolve ods ods' \<Longrightarrow> keeps ods ods'"
  using new_status by (simp add: evolve_def keeps_def)

lemma keeps_length: "keeps ods ods' \<Longrightarrow> i < length ods \<Longrightarrow> i < length ods'"
  by (simp add: keeps_def)

lemma keeps_lines: "keeps ods ods' \<Longrightarrow> i < length ods \<Longrightarrow> od_lines (ods' ! i) = od_lines (ods ! i)"
  by (metis keeps_def order_row.select_convs(4) order_row.update_convs(3) order_row.surjective)

lemma keeps_released: "keeps ods ods' \<Longrightarrow> i < length ods \<Longrightarrow> released_lines (ods' ! i) = released_lines (ods ! i)"
  by (simp add: released_lines_def keeps_lines)

definition txn_ok :: "order_row list \<Rightarrow> order_txn \<Rightarrow> bool" where
  \<comment> \<open>what it will write are statuses of orders that are there, and compensations of such orders\<close>
  "txn_ok ods tx \<longleftrightarrow>
     (\<forall>(i, st) \<in> set (tx_writes tx). i < length ods \<and> st \<notin> {PENDING, CANCELLING}) \<and> compensations ods (tx_out tx)"

lemma compensations_keeps: "keeps ods ods' \<Longrightarrow> compensations ods out \<Longrightarrow> compensations ods' out"
  using keeps_released keeps_length by (fastforce simp: compensations_def)

lemma txn_ok_keeps: "keeps ods ods' \<Longrightarrow> txn_ok ods tx \<Longrightarrow> txn_ok ods' tx"
  using compensations_keeps [of ods ods'] keeps_length [of ods ods'] by (auto simp: txn_ok_def)

lemma read_txn_ok:
  assumes "evolve ods ods'" "length ods' = length ods" "compensations ods out"
  shows "txn_ok ods \<lparr>tx_event = e, tx_writes = dirty ods ods', tx_out = out\<rparr>"
proof -
  have "i < length ods \<and> st \<notin> {PENDING, CANCELLING}" if "(i, st) \<in> set (dirty ods ods')" for i st
  proof -
    have i: "i < length ods" "st = od_status (ods' ! i)" "od_status (ods' ! i) \<noteq> od_status (ods ! i)"
      using that unfolding dirty_mem by simp_all
    have "status_steps (od_status (ods ! i)) (od_status (ods' ! i))" using assms(1) i(1) by (simp add: evolve_def)
    from new_status [OF this] show ?thesis using i by simp
  qed
  then have "\<forall>(i, st) \<in> set (dirty ods ods'). i < length ods \<and> st \<notin> {PENDING, CANCELLING}"
    by blast
  then show ?thesis using assms(3) by (simp add: txn_ok_def)
qed

lemma begin_handling_effect:
  assumes "begin_handling e db = Some tx"
  obtains ods out where "order_handler (ev_body e) (domain db) = Some (ods, out)" "evolve (domain db) ods"
    "length ods = length (domain db)" "compensations (domain db) out" "ev_id e \<notin> set (inbox db)"
    "tx = \<lparr>tx_event = Some e, tx_writes = dirty (domain db) ods, tx_out = out\<rparr>"
proof -
  obtain ods out where h: "order_handler (ev_body e) (domain db) = Some (ods, out)" "ev_id e \<notin> set (inbox db)"
    "tx = \<lparr>tx_event = Some e, tx_writes = dirty (domain db) ods, tx_out = out\<rparr>"
    using assms by (auto simp: begin_handling_def List.member_iff split: if_splits option.splits)
  then show thesis using order_handler_effect [OF h(1)] that by blast
qed

lemma begin_sweep_effect:
  assumes "begin_sweep now is db = Some tx"
  obtains ods out where "cancels (domain db) ods" "compensations (domain db) out"
    "tx = \<lparr>tx_event = None, tx_writes = dirty (domain db) ods, tx_out = out\<rparr>"
proof -
  obtain ods out where f: "foldl cancel_stale (domain db, []) is = (ods, out)" by (cases "foldl cancel_stale (domain db, []) is")
  have m: "list_all (List.member (stale_orders now (domain db))) is"
    and tx: "tx = \<lparr>tx_event = None, tx_writes = dirty (domain db) ods, tx_out = out\<rparr>"
    using assms f by (simp_all add: begin_sweep_def Let_def split: if_splits)
  have "list_all (\<lambda>i. i < length (domain db)) is"
    using m by (auto simp: list_all_iff List.member_iff stale_orders_def)
  from cancel_stale_effect [OF this f] show thesis using that [OF _ _ tx] by simp
qed

lemma cancels_length: "cancels ods ods' \<Longrightarrow> length ods' = length ods"
  by (simp add: cancels_def)

lemma begin_ok:
  "begin_handling e db = Some tx \<Longrightarrow> txn_ok (domain db) tx"
  "begin_sweep now is db = Some tx \<Longrightarrow> txn_ok (domain db) tx"
  by (erule begin_handling_effect, simp add: read_txn_ok)
    (erule begin_sweep_effect, simp add: read_txn_ok cancels_evolve cancels_length)

lemma keeps_write_statuses:
  assumes "\<forall>(i, st) \<in> set ws. i < length ods \<and> st \<notin> {PENDING, CANCELLING}"
  shows "keeps ods (write_statuses ws ods)"
  using assms write_statuses_cases [of _ ods ws] by (fastforce simp: keeps_def)

lemma commit_effect:
  "commit_txn tx db = db \<or>
   (\<forall>x. tx_event tx = Some x \<longrightarrow> ev_id x \<notin> set (inbox db)) \<and>
   commit_txn tx db = \<lparr>domain = write_statuses (tx_writes tx) (domain db),
     inbox = inbox db @ (case tx_event tx of None \<Rightarrow> [] | Some x \<Rightarrow> [ev_id x]),
     outbox = write_all OrderService (tx_out tx) (outbox db)\<rparr>"
  by (auto simp: commit_txn_def List.member_iff split: option.split)

definition txns_ok :: "backend \<Rightarrow> bool" where
  "txns_ok b \<longleftrightarrow> list_all (txn_ok (domain (order_db b))) (open_txns b)"

lemma commit_keeps: "txn_ok (domain db) tx \<Longrightarrow> keeps (domain db) (domain (commit_txn tx db))"
  using commit_effect [of tx db] keeps_write_statuses [of "tx_writes tx" "domain db"] by (auto simp: txn_ok_def)

lemma order_db_close [simp]: "order_db (close_txn k b) = order_db b" "order_db (open_txn tx b) = order_db b"
  by (simp_all add: close_txn_def open_txn_def split: option.split)

lemma open_txns_close: "set (open_txns (close_txn k b)) \<subseteq> set (open_txns b)"
  by (auto simp: close_txn_def dest: in_set_takeD in_set_dropD)

lemma order_db_step:
  assumes "txns_ok b" shows "keeps (domain (order_db b)) (domain (order_db (backend_step b e)))"
proof (cases e)
  case (NewOrder tenant key lines plan now)
  then show ?thesis using create_order_effect [of tenant key lines plan now "order_db b"]
    by (auto simp: evolve_append Let_def intro!: evolve_keeps split: sum.split)
next
  case (Publish s oks ok)
  then show ?thesis by (cases s) (simp_all add: case_prod_beta Let_def)
next
  case (Deliver s n lock)
  then show ?thesis using order_handler_effect
    by (cases s) (auto simp: handle_event_def intro!: evolve_keeps split: option.split)
next
  case (Commit k)
  then show ?thesis using assms commit_keeps [of "order_db b" "open_txns b ! k"] by (auto simp: txns_ok_def list_all_length)
qed (auto split: option.split sum.split)

lemma open_txns_publish [simp]: "open_txns (publish s oks ok b) = open_txns b"
  by (cases s) (simp_all add: case_prod_beta Let_def)

lemma open_txns_consume [simp]: "open_txns (consume s lock e b) = open_txns b"
  by (cases s) simp_all

lemma open_txns_step:
  "tx \<in> set (open_txns (backend_step b e)) \<Longrightarrow> tx \<in> set (open_txns b) \<or>
   (\<exists>n t x. message OrderService n b = Some (t, x) \<and> begin_handling x (order_db b) = Some tx) \<or>
   (\<exists>now is. e = StartSweep now is \<and> begin_sweep now is (order_db b) = Some tx)"
  using open_txns_close
  by (cases e)
    (fastforce simp: open_txn_def close_txn_def dest: in_set_takeD in_set_dropD split: sum.splits option.splits if_splits)+

lemma txns_ok_step:
  assumes "txns_ok b" shows "txns_ok (backend_step b e)"
  unfolding txns_ok_def list_all_iff
proof (rule ballI)
  fix tx assume tx: "tx \<in> set (open_txns (backend_step b e))"
  have "txn_ok (domain (order_db b)) tx"
    using open_txns_step [OF tx] assms begin_ok by (auto simp: txns_ok_def list_all_iff)
  then show "txn_ok (domain (order_db (backend_step b e))) tx" by (rule txn_ok_keeps [OF order_db_step [OF assms]])
qed

text \<open>Over any run, whatever is delivered, repeated, lost, placed and swept, and however transactions overlap: an order keeps
  its tenant, its key, its lines and its time.\<close>

lemma order_db_run: "txns_ok b \<Longrightarrow> keeps (domain (order_db b)) (domain (order_db (run backend_step b es)))"
proof (induction es arbitrary: b)
  case (Cons e es)
  then show ?case using keeps_trans [OF order_db_step [of b e] Cons.IH [OF txns_ok_step]] by simp
qed simp

subsection \<open>Transactions one after the other\<close>

text \<open>Where no transaction of the order service begins while another is open, the status of an order moves along the arrows
  of the saga.\<close>

fun begins :: "backend_event \<Rightarrow> bool" where
  "begins (Deliver s n lock) \<longleftrightarrow> s = OrderService"
| "begins (StartHandling n) \<longleftrightarrow> True"
| "begins (StartSweep now is) \<longleftrightarrow> True"
| "begins _ \<longleftrightarrow> False"

fun serial :: "backend \<Rightarrow> backend_event list \<Rightarrow> bool" where
  "serial b [] \<longleftrightarrow> True"
| "serial b (e # es) \<longleftrightarrow> (begins e \<longrightarrow> open_txns b = []) \<and> serial (backend_step b e) es"

definition follows :: "order_row list \<Rightarrow> order_txn \<Rightarrow> bool" where
  \<comment> \<open>what it will write is where the arrows lead from the status of now\<close>
  "follows ods tx \<longleftrightarrow> (\<forall>(i, st) \<in> set (tx_writes tx). i < length ods \<and> status_steps (od_status (ods ! i)) st)"

definition one_at_a_time :: "backend \<Rightarrow> bool" where
  "one_at_a_time b \<longleftrightarrow> open_txns b = [] \<or> (\<exists>tx. open_txns b = [tx] \<and> follows (domain (order_db b)) tx)"

lemma read_follows:
  "evolve ods ods' \<Longrightarrow> follows ods \<lparr>tx_event = e, tx_writes = dirty ods ods', tx_out = out\<rparr>"
  by (auto simp: follows_def evolve_def dirty_mem)

lemma begin_follows:
  "begin_handling e db = Some tx \<Longrightarrow> follows (domain db) tx"
  "begin_sweep now is db = Some tx \<Longrightarrow> follows (domain db) tx"
  by (erule begin_handling_effect, simp add: read_follows) (erule begin_sweep_effect, simp add: read_follows cancels_evolve)

lemma follows_evolve:
  assumes "follows ods tx" shows "evolve ods (write_statuses (tx_writes tx) ods)"
  unfolding evolve_def using assms write_statuses_cases [of _ ods "tx_writes tx"] by (fastforce simp: follows_def)

lemma follows_append: "follows ods tx \<Longrightarrow> follows (ods @ new) tx"
  by (auto simp: follows_def nth_append)

lemma serial_step:
  assumes "one_at_a_time b" "begins e \<longrightarrow> open_txns b = []"
  shows "one_at_a_time (backend_step b e) \<and> evolve (domain (order_db b)) (domain (order_db (backend_step b e)))"
proof (cases e)
  case (NewOrder tenant key lines plan now)
  then show ?thesis using create_order_effect [of tenant key lines plan now "order_db b"] assms(1) follows_append
    by (auto simp: one_at_a_time_def evolve_append Let_def split: sum.split)
next
  case (Publish s oks ok)
  have "domain (order_db (publish s oks ok b)) = domain (order_db b)" by (cases s) (simp_all add: case_prod_beta Let_def)
  then show ?thesis using assms(1) by (simp add: Publish one_at_a_time_def)
next
  case (Deliver s n lock)
  show ?thesis
  proof (cases "message s n b")
    case (Some te)
    obtain t x where te: "te = (t, x)" by (cases te)
    show ?thesis
    proof (cases "s = OrderService")
      case True
      then have "open_txns b = []" using assms(2) Deliver by simp
      moreover have "evolve (domain (order_db b)) (domain (order_db (consume OrderService lock x b)))"
        using order_handler_effect by (auto simp: handle_event_def split: option.split)
      ultimately show ?thesis using Deliver Some te True by (simp add: one_at_a_time_def)
    next
      case False
      then have "order_db (consume s lock x b) = order_db b" by (cases s) simp_all
      then show ?thesis using assms(1) Deliver Some te by (simp add: one_at_a_time_def)
    qed
  qed (use assms(1) Deliver in simp)
next
  case (StartHandling n)
  then show ?thesis using assms begin_follows(1) by (auto simp: one_at_a_time_def open_txn_def split: option.split)
next
  case (StartSweep now "is")
  then show ?thesis using assms begin_follows(2) by (auto simp: one_at_a_time_def open_txn_def split: option.split)
next
  case (Commit k)
  show ?thesis
  proof (cases "k < length (open_txns b)")
    case True
    then obtain tx where tx: "open_txns b = [tx]" "k = 0" "follows (domain (order_db b)) tx"
      using assms(1) by (auto simp: one_at_a_time_def)
    then show ?thesis using commit_effect [of tx "order_db b"] follows_evolve [OF tx(3)]
      by (auto simp: Commit one_at_a_time_def close_txn_def)
  qed (use assms(1) Commit in simp)
next
  case (Rollback k)
  have "one_at_a_time (close_txn k b)"
    using assms(1) by (cases k) (auto simp: one_at_a_time_def close_txn_def)
  then show ?thesis using Rollback by simp
qed (use assms(1) in \<open>auto simp: one_at_a_time_def split: option.split sum.split\<close>)

lemma serial_run:
  "one_at_a_time b \<Longrightarrow> serial b es \<Longrightarrow> evolve (domain (order_db b)) (domain (order_db (run backend_step b es)))"
proof (induction es arbitrary: b)
  case (Cons e es)
  have s: "one_at_a_time (backend_step b e)" "evolve (domain (order_db b)) (domain (order_db (backend_step b e)))"
    using serial_step [OF Cons.prems(1), of e] Cons.prems(2) by simp_all
  show ?case using evolve_trans [OF s(2) Cons.IH [OF s(1)]] Cons.prems(2) by simp
qed simp

subsection \<open>Rows and messages\<close>

lemma row_events_write: "row_event ` set rows \<subseteq> row_event ` set (write_all s out rows)"
proof (induction out arbitrary: rows)
  case (Cons tb out)
  have "row_event ` set rows \<subseteq> row_event ` set (write_outbox s tb rows)" by (auto simp: write_outbox_def)
  then show ?case using Cons [of "write_outbox s tb rows"] by (simp only: write_all_Cons)
qed simp

definition rows_inv :: "backend \<Rightarrow> bool" where
  "rows_inv b \<longleftrightarrow>
     (\<forall>s. numbered s (rows_of s b) \<and> (\<forall>x \<in> set (bodies (rows_of s b)). author x = s)) \<and>
     (\<forall>te \<in> set (log b). \<exists>s. snd te \<in> row_event ` set (rows_of s b)) \<and> txns_ok b"

lemma message_row:
  assumes "rows_inv b" "message c n b = Some (t, e)"
  shows "numbered (author (ev_body e)) (rows_of (author (ev_body e)) b)"
    "e \<in> row_event ` set (rows_of (author (ev_body e)) b)"
proof -
  have "(t, e) \<in> set (log b)" using assms(2) by (metis message_def nth_mem option.distinct(1) option.inject)
  then obtain s where s: "e \<in> row_event ` set (rows_of s b)" using assms(1) by (fastforce simp: rows_inv_def)
  then have "ev_body e \<in> set (bodies (rows_of s b))" by (auto simp: bodies_def)
  then have "author (ev_body e) = s" using assms(1) by (simp add: rows_inv_def)
  then show "numbered (author (ev_body e)) (rows_of (author (ev_body e)) b)"
    "e \<in> row_event ` set (rows_of (author (ev_body e)) b)"
    using s assms(1) by (simp_all add: rows_inv_def)
qed

lemma inventory_out:
  assumes "inventory_handler lock x st = Some (st', out)"
  shows "map snd out =
    (case x of
       OrderCreatedEvent i ls \<Rightarrow> [if snd (handle_order_created i ls st) = [(InventoryEvents, InventoryReservedEvent i ls)]
          then InventoryReservedEvent i ls else InventoryReserveFailedEvent i]
     | _ \<Rightarrow> if out = [] then [] else [InventoryReleasedEvent (order_of x)])"
  using assms
  by (cases x) (auto simp: handle_order_created_def handle_release_stock_def case_prod_beta Let_def split: if_splits option.splits)

lemma payment_out:
  assumes "payment_handler x ps = Some (ps', out)"
  shows "\<exists>i ls. x = InventoryReservedEvent i ls \<and>
    map snd out = [if list_ex li_fail ls then PaymentFailedEvent i ls else PaymentSuccessEvent i ls] \<and>
    ps' = (if list_ex li_fail ls then ps else ps @ [\<lparr>pay_order = i, pay_amount = payment_amount ls\<rparr>])"
  using assms by (cases x) (auto simp: process_payment_def split: if_splits)

lemma handle_event_cases:
  "handle_event s h e db = db \<or>
   ev_id e \<notin> set (inbox db) \<and> (\<exists>d out. h (ev_body e) (domain db) = Some (d, out) \<and>
     handle_event s h e db = \<lparr>domain = d, inbox = inbox db @ [ev_id e], outbox = write_all s out (outbox db)\<rparr>)"
  by (auto simp: handle_event_def List.member_iff split: option.split)

lemma handle_event_rows:
  assumes "\<And>d out. h (ev_body e) (domain db) = Some (d, out) \<Longrightarrow> \<forall>x \<in> set (map snd out). author x = s"
  shows "\<exists>out. outbox (handle_event s h e db) = write_all s out (outbox db) \<and> (\<forall>x \<in> set (map snd out). author x = s)"
proof -
  consider "handle_event s h e db = db" |
    d out where "h (ev_body e) (domain db) = Some (d, out)"
      "handle_event s h e db = \<lparr>domain = d, inbox = inbox db @ [ev_id e], outbox = write_all s out (outbox db)\<rparr>"
    using handle_event_cases [of s h e db] by blast
  then show ?thesis
  proof cases
    case 1
    then show ?thesis by (intro exI [of _ "[]"]) simp
  next
    case 2
    then show ?thesis using assms by auto
  qed
qed

lemma compensation_author: "compensations ods out \<Longrightarrow> \<forall>x \<in> set (map snd out). author x = OrderService"
  by (fastforce simp: compensations_def)

lemma consume_rows:
  "\<exists>out. rows_of s (consume c lock e b) = write_all s out (rows_of s b) \<and> (\<forall>x \<in> set (map snd out). author x = s)"
proof -
  have unchanged: "rows_of s (consume c lock e b) = rows_of s b \<Longrightarrow> ?thesis" by (intro exI [of _ "[]"]) simp
  have "\<exists>out. outbox (handle_event OrderService order_handler e (order_db b)) =
      write_all OrderService out (outbox (order_db b)) \<and> (\<forall>x \<in> set (map snd out). author x = OrderService)"
    by (rule handle_event_rows) (use order_handler_effect compensation_author in blast)
  moreover have "\<exists>out. outbox (handle_event InventoryService (inventory_handler lock) e (inventory_db b)) =
      write_all InventoryService out (outbox (inventory_db b)) \<and> (\<forall>x \<in> set (map snd out). author x = InventoryService)"
    by (rule handle_event_rows) (drule inventory_out, auto split: event_body.splits)
  moreover have "\<exists>out. outbox (handle_event PaymentService payment_handler e (payment_db b)) =
      write_all PaymentService out (outbox (payment_db b)) \<and> (\<forall>x \<in> set (map snd out). author x = PaymentService)"
    by (rule handle_event_rows) (drule payment_out, auto)
  ultimately show ?thesis using unchanged by (cases c; cases s) simp_all
qed

lemma commit_rows:
  assumes "txn_ok (domain db) tx"
  shows "\<exists>out. outbox (commit_txn tx db) = write_all OrderService out (outbox db) \<and>
    (\<forall>x \<in> set (map snd out). author x = OrderService)"
proof -
  have "\<forall>x \<in> set (map snd (tx_out tx)). author x = OrderService"
    using assms compensation_author by (auto simp: txn_ok_def)
  then show ?thesis using commit_effect [of tx db] by (auto intro: exI [of _ "[]"] exI [of _ "tx_out tx"])
qed

lemma step_rows:
  assumes "\<And>s oks ok. e \<noteq> Publish s oks ok" "txns_ok b"
  shows "\<exists>out. rows_of s (backend_step b e) = write_all s out (rows_of s b) \<and> (\<forall>x \<in> set (map snd out). author x = s)"
proof -
  show ?thesis
  proof (cases e)
    case (NewOrder tenant key lines plan now)
    show ?thesis
    proof (cases "valid_lines lines \<and> s = OrderService")
      case True
      show ?thesis
      proof (cases "create_order tenant key lines plan now (order_db b)")
        case (Inr r)
        obtain i db where r: "r = (i, db)" by (cases r)
        show ?thesis using create_order_effect [OF Inr [unfolded r]] True
          by (auto simp: NewOrder Inr r Let_def intro: exI [of _ "[]"])
      qed (use NewOrder True in \<open>auto intro: exI [of _ "[]"]\<close>)
    qed (use NewOrder in \<open>cases s; auto intro: exI [of _ "[]"] split: sum.split\<close>)
  next
    case (Deliver c n lock)
    then show ?thesis using consume_rows [of s c lock _ b] by (auto intro: exI [of _ "[]"] split: option.split)
  next
    case (Commit k)
    show ?thesis
    proof (cases "k < length (open_txns b)")
      case True
      then have "txn_ok (domain (order_db b)) (open_txns b ! k)" using assms(2) by (simp add: txns_ok_def list_all_length)
      from commit_rows [OF this] show ?thesis using Commit True by (cases s) (auto simp: close_txn_def intro: exI [of _ "[]"])
    qed (use Commit in \<open>auto intro: exI [of _ "[]"]\<close>)
  qed (use assms in \<open>cases s; auto simp: open_txn_def close_txn_def intro: exI [of _ "[]"] split: option.split sum.split\<close>)+
qed

lemma step_log: "(\<And>s oks ok. e \<noteq> Publish s oks ok) \<Longrightarrow> log (backend_step b e) = log b"
proof (cases e)
  case (Deliver c n lock)
  then show ?thesis by (cases c) (auto split: option.split)
qed (auto simp: open_txn_def close_txn_def split: option.split sum.split)

lemma publish_frame:
  "map row_event (rows_of s (publish c oks ok b)) = map row_event (rows_of s b) \<and>
   domain (order_db (publish c oks ok b)) = domain (order_db b) \<and> inbox (order_db (publish c oks ok b)) = inbox (order_db b) \<and>
   domain (inventory_db (publish c oks ok b)) = domain (inventory_db b) \<and> inbox (inventory_db (publish c oks ok b)) = inbox (inventory_db b) \<and>
   domain (payment_db (publish c oks ok b)) = domain (payment_db b) \<and> inbox (payment_db (publish c oks ok b)) = inbox (payment_db b) \<and>
   (\<forall>te \<in> set (log (publish c oks ok b)). te \<in> set (log b) \<or> snd te \<in> row_event ` set (rows_of c b))"
  using process_batch_events process_batch_out
  by (cases c; cases s) (fastforce simp: case_prod_beta Let_def)+

lemma rows_inv_init: "rows_inv initial_backend"
proof -
  have "rows_of s initial_backend = []" for s by (cases s) (simp_all add: initial_backend_def new_db_def)
  then show ?thesis by (simp add: rows_inv_def txns_ok_def initial_backend_def)
qed

lemma rows_inv_step:
  assumes i: "rows_inv b" shows "rows_inv (backend_step b e)"
proof (cases "\<exists>s oks ok. e = Publish s oks ok")
  case True
  then obtain c oks ok where e: "e = Publish c oks ok" by blast
  have m: "map row_event (rows_of s (publish c oks ok b)) = map row_event (rows_of s b)" for s
    using publish_frame [of s c oks ok b] by (rule conjunct1)
  have r: "row_event ` set (rows_of s (publish c oks ok b)) = row_event ` set (rows_of s b)" for s
    using arg_cong [OF m, of set] by simp
  show ?thesis using i same_events [OF m] publish_frame [of _ c oks ok b]
    txns_ok_step [of b e] unfolding rows_inv_def e backend_step.simps r by (metis (no_types, lifting))
next
  case False
  then have l: "log (backend_step b e) = log b" by (intro step_log) blast
  have "\<exists>out. rows_of s (backend_step b e) = write_all s out (rows_of s b) \<and> (\<forall>x \<in> set (map snd out). author x = s)" for s
    using False i by (intro step_rows) (auto simp: rows_inv_def)
  then obtain out where o: "rows_of s (backend_step b e) = write_all s (out s) (rows_of s b)"
      "\<forall>x \<in> set (map snd (out s)). author x = s" for s by metis
  show ?thesis using i o(2) row_events_write txns_ok_step [of b e]
    unfolding rows_inv_def l o(1) bodies_write set_append by (blast intro: numbered_write)
qed

end
