(* ===== verification/Saga_Invariant.thy ===== *)
theory Saga_Invariant
  imports Saga_Facts
begin

text \<open>
  The chain of causes, \<open>chain_inv\<close>: each order was announced once,
  answered by the inventory at most once, paid at most once, and an answer has a cause the inbox knows.
\<close>

subsection \<open>A rule for steps\<close>

text \<open>What a property needs in order to be kept by every step: one premise for each kind of change.\<close>

lemma backend_step_preserves:
  assumes same: "P b"
    and created: "\<And>tenant key lines now ls. valid_lines lines \<Longrightarrow> ls = map plain_line lines \<Longrightarrow>
      P (b\<lparr>order_db := \<lparr>domain = domain (order_db b) @
             [\<lparr>od_tenant = tenant, od_key = key, od_status = PENDING, od_lines = ls, od_created = now\<rparr>],
           inbox = inbox (order_db b),
           outbox = write_all OrderService [(OrderEvents, OrderCreatedEvent (length (domain (order_db b))) ls)]
             (outbox (order_db b))\<rparr>\<rparr>)"
    and batch: "\<And>its st. list_all (\<lambda>(p, q). 0 < q) its \<Longrightarrow> reserve_lines its (domain (inventory_db b)) = Inr st \<Longrightarrow>
      P (b\<lparr>inventory_db := (inventory_db b)\<lparr>domain := st\<rparr>\<rparr>)"
    and restocked: "\<And>p q. e = RestockRequest p q \<Longrightarrow> 0 < q \<Longrightarrow>
      P (b\<lparr>inventory_db := (inventory_db b)\<lparr>domain := restock p q (domain (inventory_db b))\<rparr>\<rparr>)"
    and published: "\<And>c oks ok. P (publish c oks ok b)"
    and ordered: "\<And>n t x ods out. message OrderService n b = Some (t, x) \<Longrightarrow> ev_id x \<notin> set (inbox (order_db b)) \<Longrightarrow>
      order_handler (ev_body x) (domain (order_db b)) = Some (ods, out) \<Longrightarrow>
      P (b\<lparr>order_db := \<lparr>domain = ods, inbox = inbox (order_db b) @ [ev_id x],
           outbox = write_all OrderService out (outbox (order_db b))\<rparr>\<rparr>)"
    and stocked: "\<And>lock n t x st out. message InventoryService n b = Some (t, x) \<Longrightarrow>
      ev_id x \<notin> set (inbox (inventory_db b)) \<Longrightarrow>
      inventory_handler lock (ev_body x) (domain (inventory_db b)) = Some (st, out) \<Longrightarrow>
      P (b\<lparr>inventory_db := \<lparr>domain = st, inbox = inbox (inventory_db b) @ [ev_id x],
           outbox = write_all InventoryService out (outbox (inventory_db b))\<rparr>\<rparr>)"
    and paid: "\<And>n t x ps out. message PaymentService n b = Some (t, x) \<Longrightarrow> ev_id x \<notin> set (inbox (payment_db b)) \<Longrightarrow>
      payment_handler (ev_body x) (domain (payment_db b)) = Some (ps, out) \<Longrightarrow>
      P (b\<lparr>payment_db := \<lparr>domain = ps, inbox = inbox (payment_db b) @ [ev_id x],
           outbox = write_all PaymentService out (outbox (payment_db b))\<rparr>\<rparr>)"
    and lost: "\<And>d. P (b\<lparr>dead := d\<rparr>)"
    and opened: "\<And>tx. (\<exists>n t x. message OrderService n b = Some (t, x) \<and> begin_handling x (order_db b) = Some tx) \<or>
      (\<exists>now is. e = StartSweep now is \<and> begin_sweep now is (order_db b) = Some tx) \<Longrightarrow>
      P (b\<lparr>open_txns := open_txns b @ [tx]\<rparr>)"
    and closed: "\<And>txs. set txs \<subseteq> set (open_txns b) \<Longrightarrow> P (b\<lparr>open_txns := txs\<rparr>)"
    and committed: "\<And>tx txs. tx \<in> set (open_txns b) \<Longrightarrow> set txs \<subseteq> set (open_txns b) \<Longrightarrow>
      (\<And>x. tx_event tx = Some x \<Longrightarrow> ev_id x \<notin> set (inbox (order_db b))) \<Longrightarrow>
      P (b\<lparr>order_db := \<lparr>domain = write_statuses (tx_writes tx) (domain (order_db b)),
           inbox = inbox (order_db b) @ (case tx_event tx of None \<Rightarrow> [] | Some x \<Rightarrow> [ev_id x]),
           outbox = write_all OrderService (tx_out tx) (outbox (order_db b))\<rparr>, open_txns := txs\<rparr>)"
  shows "P (backend_step b e)"
proof (cases e)
  case (NewOrder tenant key lines plan now)
  show ?thesis
  proof (cases "valid_lines lines")
    case True
    show ?thesis
    proof (cases "create_order tenant key lines plan now (order_db b)")
      case (Inr r)
      obtain i db where r: "r = (i, db)" by (cases r)
      let ?ls = "map plain_line lines"
      have "db = order_db b \<or> db = \<lparr>domain = domain (order_db b) @
             [\<lparr>od_tenant = tenant, od_key = key, od_status = PENDING, od_lines = ?ls, od_created = now\<rparr>],
           inbox = inbox (order_db b),
           outbox = write_all OrderService [(OrderEvents, OrderCreatedEvent (length (domain (order_db b))) ?ls)]
             (outbox (order_db b))\<rparr>"
        using create_order_effect [OF Inr [unfolded r]] by (auto simp: Let_def)
      then show ?thesis using created [OF True refl] same by (auto simp: NewOrder True Inr r)
    qed (use same NewOrder in simp)
  qed (use same NewOrder in simp)
next
  case (ReserveRequest conflicts its)
  then show ?thesis using same batch [of its] by (auto simp: reserve_batch_def split: sum.split)
next
  case (Deliver s n lock)
  show ?thesis
  proof (cases "message s n b")
    case (Some te)
    obtain t x where te: "te = (t, x)" by (cases te)
    show ?thesis
    proof (cases s)
      case OrderService
      then show ?thesis using ordered [of n t x] same handle_event_cases [of OrderService order_handler x "order_db b"] Some
        by (auto simp: Deliver te)
    next
      case InventoryService
      then show ?thesis using stocked [of n t x lock] same Some
          handle_event_cases [of InventoryService "inventory_handler lock" x "inventory_db b"]
        by (auto simp: Deliver te)
    next
      case PaymentService
      then show ?thesis using paid [of n t x] same handle_event_cases [of PaymentService payment_handler x "payment_db b"] Some
        by (auto simp: Deliver te)
    qed
  qed (use same Deliver in simp)
next
  case (StartHandling n)
  show ?thesis
  proof (cases "message OrderService n b")
    case (Some te)
    obtain t x where te: "te = (t, x)" by (cases te)
    show ?thesis
    proof (cases "begin_handling x (order_db b)")
      case tx: (Some tx)
      have "P (b\<lparr>open_txns := open_txns b @ [tx]\<rparr>)" by (rule opened) (use Some te tx in blast)
      then show ?thesis by (simp add: StartHandling Some te tx open_txn_def)
    qed (use same in \<open>simp add: StartHandling Some te open_txn_def\<close>)
  qed (use same StartHandling in simp)
next
  case (StartSweep now "is")
  show ?thesis
  proof (cases "begin_sweep now is (order_db b)")
    case (Some tx)
    have "P (b\<lparr>open_txns := open_txns b @ [tx]\<rparr>)" by (rule opened) (use StartSweep Some in blast)
    then show ?thesis by (simp add: StartSweep Some open_txn_def)
  qed (use same in \<open>simp add: StartSweep open_txn_def\<close>)
next
  case (Commit k)
  show ?thesis
  proof (cases "k < length (open_txns b)")
    case True
    let ?tx = "open_txns b ! k" and ?txs = "take k (open_txns b) @ drop (Suc k) (open_txns b)"
    have sub: "set ?txs \<subseteq> set (open_txns b)" by (auto dest: in_set_takeD in_set_dropD)
    have s: "backend_step b e = b\<lparr>order_db := commit_txn ?tx (order_db b), open_txns := ?txs\<rparr>"
      using True by (simp add: Commit close_txn_def)
    consider "commit_txn ?tx (order_db b) = order_db b"
      | "\<forall>x. tx_event ?tx = Some x \<longrightarrow> ev_id x \<notin> set (inbox (order_db b))"
        "commit_txn ?tx (order_db b) = \<lparr>domain = write_statuses (tx_writes ?tx) (domain (order_db b)),
           inbox = inbox (order_db b) @ (case tx_event ?tx of None \<Rightarrow> [] | Some x \<Rightarrow> [ev_id x]),
           outbox = write_all OrderService (tx_out ?tx) (outbox (order_db b))\<rparr>"
      using commit_effect [of ?tx "order_db b"] by blast
    then show ?thesis
    proof cases
      case 1
      then show ?thesis using closed [OF sub] unfolding s by simp
    next
      case 2
      show ?thesis unfolding s 2(2) by (rule committed [OF nth_mem [OF True] sub]) (use 2(1) in simp)
    qed
  qed (use same Commit in simp)
next
  case (Rollback k)
  have "set (take k (open_txns b) @ drop (Suc k) (open_txns b)) \<subseteq> set (open_txns b)"
    by (auto dest: in_set_takeD in_set_dropD)
  from closed [OF this] show ?thesis by (simp add: Rollback close_txn_def)
qed (use same restocked published lost in \<open>auto split: option.split\<close>)

subsection \<open>Same rows\<close>

lemma handled_cong: "bodies rows = bodies rows' \<Longrightarrow> handled f i s rows ibx = handled f i s rows' ibx"
  by (metis handled_def length_bodies)

lemma subjects_cong: "bodies rows = bodies rows' \<Longrightarrow> subjects f rows = subjects f rows'"
  by (simp add: subjects_def)

lemma publish_bodies: "bodies (rows_of s (publish c oks ok b)) = bodies (rows_of s b)"
  using publish_frame [of s c oks ok b] same_events(1) by blast

lemmas publish_same =
  publish_bodies [of OrderService, unfolded rows_of.simps] publish_bodies [of InventoryService, unfolded rows_of.simps]
  publish_bodies [of PaymentService, unfolded rows_of.simps]

subsection \<open>What only grows\<close>

lemma publish_log: "log (publish c oks ok b) = log b @ snd (process_batch oks ok (rows_of c b))"
  by (cases c) (simp_all add: case_prod_beta Let_def)

lemma inboxes_grow:
  "set (inbox (order_db b)) \<subseteq> set (inbox (order_db (backend_step b e))) \<and>
   set (inbox (inventory_db b)) \<subseteq> set (inbox (inventory_db (backend_step b e))) \<and>
   set (inbox (payment_db b)) \<subseteq> set (inbox (payment_db (backend_step b e)))"
  by (rule backend_step_preserves) (use publish_frame [of _ _ _ _ b] in auto)

lemma log_grows: "\<exists>new. log (backend_step b e) = log b @ new"
proof (cases "\<exists>c oks ok. e = Publish c oks ok")
  case True
  then show ?thesis by (auto simp: publish_log)
next
  case False
  then show ?thesis using step_log [of e b] by (intro exI [of _ "[]"]) auto
qed

lemma message_step: "message s n b = Some te \<Longrightarrow> message s n (backend_step b e) = Some te"
  using log_grows [of b e] by (auto simp: message_def nth_append split: if_splits)

lemma handled_step:
  assumes "txns_ok b" "handled f i s (rows_of s b) (inbox (order_db b))"
  shows "handled f i s (rows_of s (backend_step b e)) (inbox (order_db (backend_step b e)))"
proof -
  have "\<exists>out. bodies (rows_of s (backend_step b e)) = bodies (write_all s out (rows_of s b))"
  proof (cases "\<exists>c oks ok. e = Publish c oks ok")
    case True
    then show ?thesis using publish_bodies by (auto intro!: exI [of _ "[]"])
  next
    case False
    then show ?thesis using step_rows [of e b s] assms(1) by metis
  qed
  then obtain out where out: "bodies (rows_of s (backend_step b e)) = bodies (write_all s out (rows_of s b))" by blast
  have "set (inbox (order_db b)) \<subseteq> set (inbox (order_db (backend_step b e)))" using inboxes_grow [of b e] by blast
  from handled_mono [OF assms(2) this] show ?thesis unfolding handled_cong [OF out] .
qed

subsection \<open>The chain of causes\<close>

definition answered ::
    "(event_body \<Rightarrow> nat option) \<Rightarrow> (event_body \<Rightarrow> nat option) \<Rightarrow> service \<Rightarrow> outbox_row list \<Rightarrow> event_id list \<Rightarrow>
     outbox_row list \<Rightarrow> bool" where
  \<comment> \<open>at most one answer for each order, and its cause is in the inbox of the service that answered\<close>
  "answered f g s causes ibx rows \<longleftrightarrow>
     distinct (subjects g rows) \<and> (\<forall>i \<in> set (subjects g rows). handled f i s causes ibx)"

lemma answered_cong:
  "bodies causes = bodies causes' \<Longrightarrow> bodies rows = bodies rows' \<Longrightarrow>
   answered f g s causes ibx rows = answered f g s causes' ibx rows'"
  by (simp add: answered_def handled_cong [of causes causes'] subjects_cong [of rows rows'])

lemma answered_cause: "answered f g s causes ibx rows \<Longrightarrow> answered f g s (write_all s' out causes) ibx rows"
  unfolding answered_def using handled_mono [of f _ s causes ibx ibx s' out] by blast

lemma answered_quiet:
  assumes "answered f g s causes ibx rows" "List.map_filter g (map snd out) = []" "set ibx \<subseteq> set ibx'"
  shows "answered f g s causes ibx' (write_all s' out rows)"
  using assms handled_mono_inbox [of f _ s causes ibx ibx'] by (simp add: answered_def)

lemma answered_new:
  assumes a: "answered f g s causes ibx rows" and d: "distinct (subjects f causes)" and new: "ev_id e \<notin> set ibx"
    and row: "numbered s causes" "e \<in> row_event ` set causes" and i: "f (ev_body e) = Some i"
    and out: "List.map_filter g (map snd out) = [i]"
  shows "answered f g s causes (ibx @ [ev_id e]) (write_all s' out rows)"
proof -
  have fresh: "i \<notin> set (subjects g rows)"
  proof
    assume "i \<in> set (subjects g rows)"
    then have "handled f i s causes ibx" using a by (simp add: answered_def)
    from handled_event [OF this d row i] new show False by contradiction
  qed
  have "handled f i s causes (ibx @ [ev_id e])" using row i by (auto intro: handledI)
  moreover have "handled f j s causes (ibx @ [ev_id e])" if "j \<in> set (subjects g rows)" for j
    using a that by (auto simp: answered_def intro: handled_mono_inbox)
  ultimately show ?thesis using a fresh out by (auto simp: answered_def)
qed

definition chain_inv :: "backend \<Rightarrow> bool" where
  "chain_inv b \<longleftrightarrow>
     subjects created_of (outbox (order_db b)) = [0..<length (domain (order_db b))] \<and>
     answered created_of stock_answer_of OrderService (outbox (order_db b)) (inbox (inventory_db b)) (outbox (inventory_db b)) \<and>
     answered reserved_of payment_answer_of InventoryService (outbox (inventory_db b)) (inbox (payment_db b)) (outbox (payment_db b)) \<and>
     map pay_order (domain (payment_db b)) = subjects success_of (outbox (payment_db b))"

lemma compensation_subjects:
  assumes "compensations ods out" "\<And>i ls. f (OrderCancelledEvent i ls) = None"
  shows "List.map_filter f (map snd out) = []"
proof -
  have "\<forall>x \<in> set (map snd out). f x = None" using assms by (fastforce simp: compensations_def)
  then show ?thesis by (induction out) (auto simp: map_filter_def)
qed

lemma reserved_stock_answer: "reserved_of x = Some i \<Longrightarrow> stock_answer_of x = Some i"
  by (cases x) simp_all

lemma success_payment_answer: "success_of x = Some i \<Longrightarrow> payment_answer_of x = Some i"
  by (cases x) simp_all

lemma narrower_map_filter:
  assumes fg: "\<And>x i. f x = Some i \<Longrightarrow> g x = Some i"
  shows "distinct (List.map_filter g xs) \<Longrightarrow>
    distinct (List.map_filter f xs) \<and> set (List.map_filter f xs) \<subseteq> set (List.map_filter g xs)"
proof (induction xs)
  case (Cons x xs)
  show ?case
  proof (cases "f x")
    case None
    then show ?thesis using Cons by (cases "g x") (auto simp: map_filter_def)
  next
    case (Some i)
    then show ?thesis using Cons fg [OF Some] by (auto simp: map_filter_def)
  qed
qed (simp add: map_filter_def)

lemma narrower_distinct:
  assumes "\<And>x i. f x = Some i \<Longrightarrow> g x = Some i" and "distinct (subjects g rows)"
  shows "distinct (subjects f rows)" "set (subjects f rows) \<subseteq> set (subjects g rows)"
  using narrower_map_filter [of f g "bodies rows", OF assms(1)] assms(2) by (simp_all add: subjects_def)

lemma reserved_once: "chain_inv b \<Longrightarrow> distinct (subjects reserved_of (outbox (inventory_db b)))"
  using narrower_distinct(1) [of reserved_of stock_answer_of, OF reserved_stock_answer] by (simp add: chain_inv_def answered_def)

lemma success_once: "chain_inv b \<Longrightarrow> distinct (subjects success_of (outbox (payment_db b)))"
  using narrower_distinct(1) [of success_of payment_answer_of, OF success_payment_answer]
  by (simp add: chain_inv_def answered_def)

lemma order_event_keeps_chain:
  \<comment> \<open>the order service cancels and moves orders\<close>
  assumes "chain_inv b" "compensations ods out" "length ods' = length (domain (order_db b))"
    "domain db = ods'" "outbox db = write_all OrderService out (outbox (order_db b))"
  shows "chain_inv (b\<lparr>order_db := db, open_txns := txs\<rparr>)"
  using assms compensation_subjects [OF assms(2), of created_of] by (simp add: chain_inv_def answered_cause)

lemma inventory_event_keeps_chain:
  assumes r: "rows_inv b" and c: "chain_inv b" and m: "message s n b = Some (t, e)"
    and new: "ev_id e \<notin> set (inbox (inventory_db b))"
    and h: "inventory_handler lock (ev_body e) (domain (inventory_db b)) = Some (st, out)"
  shows "chain_inv (b\<lparr>inventory_db := \<lparr>domain = st, inbox = inbox (inventory_db b) @ [ev_id e],
     outbox = write_all InventoryService out (outbox (inventory_db b))\<rparr>\<rparr>)"
proof (cases "created_of (ev_body e)")
  case None
  then have "List.map_filter stock_answer_of (map snd out) = []"
    using inventory_out [OF h] by (cases "ev_body e") (auto split: if_splits)
  note quiet = answered_quiet [OF _ this, of created_of OrderService "outbox (order_db b)" "inbox (inventory_db b)"
      _ "inbox (inventory_db b) @ [ev_id e]"]
  show ?thesis using c quiet by (simp add: chain_inv_def answered_cause subset_iff)
next
  case (Some i)
  then obtain ls where x: "ev_body e = OrderCreatedEvent i ls" by (cases "ev_body e") auto
  have row: "numbered OrderService (outbox (order_db b))" "e \<in> row_event ` set (outbox (order_db b))"
    using message_row [OF r m] by (simp_all add: x)
  have d: "distinct (subjects created_of (outbox (order_db b)))" using c by (simp add: chain_inv_def)
  have out: "List.map_filter stock_answer_of (map snd out) = [i]"
    using inventory_out [OF h] by (simp add: x)
  show ?thesis using c answered_new [OF _ d new row Some out] by (simp add: chain_inv_def answered_cause)
qed

lemma payment_event_keeps_chain:
  assumes r: "rows_inv b" and c: "chain_inv b" and m: "message s n b = Some (t, e)"
    and new: "ev_id e \<notin> set (inbox (payment_db b))"
    and h: "payment_handler (ev_body e) (domain (payment_db b)) = Some (ps, out)"
  shows "chain_inv (b\<lparr>payment_db := \<lparr>domain = ps, inbox = inbox (payment_db b) @ [ev_id e],
     outbox = write_all PaymentService out (outbox (payment_db b))\<rparr>\<rparr>)"
proof -
  obtain i ls where x: "ev_body e = InventoryReservedEvent i ls"
    and o: "map snd out = [if list_ex li_fail ls then PaymentFailedEvent i ls else PaymentSuccessEvent i ls]"
    and ps: "ps = (if list_ex li_fail ls then domain (payment_db b)
      else domain (payment_db b) @ [\<lparr>pay_order = i, pay_amount = payment_amount ls\<rparr>])"
    using payment_out [OF h] by (elim exE conjE) (rule that)
  have row: "numbered InventoryService (outbox (inventory_db b))" "e \<in> row_event ` set (outbox (inventory_db b))"
    using message_row [OF r m] by (simp_all add: x)
  have i: "reserved_of (ev_body e) = Some i" and out: "List.map_filter payment_answer_of (map snd out) = [i]"
    using o by (simp_all add: x)
  have "map pay_order ps = map pay_order (domain (payment_db b)) @ List.map_filter success_of (map snd out)"
    using o ps by simp
  then show ?thesis using c answered_new [OF _ reserved_once [OF c] new row i out]
    by (simp add: chain_inv_def)
qed

lemma rows_txn_ok: "rows_inv b \<Longrightarrow> tx \<in> set (open_txns b) \<Longrightarrow> txn_ok (domain (order_db b)) tx"
  by (simp add: rows_inv_def txns_ok_def list_all_iff)

lemma chain_inv_init: "chain_inv initial_backend"
  by (simp add: chain_inv_def initial_backend_def new_db_def answered_def)

lemma chain_inv_publish: "chain_inv b \<Longrightarrow> chain_inv (publish c oks ok b)"
  using publish_frame [of _ c oks ok b] publish_same [of c oks ok b]
    answered_cong [OF publish_same(1,2)] answered_cong [OF publish_same(2,3)] subjects_cong [OF publish_same(1)]
    subjects_cong [OF publish_same(3)]
  unfolding chain_inv_def by metis

lemma chain_inv_step:
  assumes r: "rows_inv b" and c: "chain_inv b"
  shows "chain_inv (backend_step b e)"
proof (rule backend_step_preserves)
  show "chain_inv (b\<lparr>order_db := \<lparr>domain = domain (order_db b) @
             [\<lparr>od_tenant = tenant, od_key = key, od_status = PENDING, od_lines = ls, od_created = now\<rparr>],
           inbox = inbox (order_db b),
           outbox = write_all OrderService [(OrderEvents, OrderCreatedEvent (length (domain (order_db b))) ls)]
             (outbox (order_db b))\<rparr>\<rparr>)" for tenant key ls now
    using c by (simp add: chain_inv_def answered_cause)
  show "chain_inv (b\<lparr>order_db := \<lparr>domain = ods, inbox = inbox (order_db b) @ [ev_id x],
           outbox = write_all OrderService out (outbox (order_db b))\<rparr>\<rparr>)"
    if "order_handler (ev_body x) (domain (order_db b)) = Some (ods, out)" for x ods out
    using order_handler_effect [OF that] order_event_keeps_chain [OF c, where txs = "open_txns b" and
        db = "\<lparr>domain = ods, inbox = inbox (order_db b) @ [ev_id x], outbox = write_all OrderService out (outbox (order_db b))\<rparr>"]
    by simp blast
  show "chain_inv (b\<lparr>order_db := \<lparr>domain = write_statuses (tx_writes tx) (domain (order_db b)),
           inbox = inbox (order_db b) @ (case tx_event tx of None \<Rightarrow> [] | Some x \<Rightarrow> [ev_id x]),
           outbox = write_all OrderService (tx_out tx) (outbox (order_db b))\<rparr>, open_txns := txs\<rparr>)"
    if "tx \<in> set (open_txns b)" for tx txs
    using rows_txn_ok [OF r that]
    by (intro order_event_keeps_chain [OF c, where ods = "domain (order_db b)" and out = "tx_out tx" and
          ods' = "write_statuses (tx_writes tx) (domain (order_db b))"]) (simp_all add: txn_ok_def)
qed (use c inventory_event_keeps_chain [OF r c] payment_event_keeps_chain [OF r c] chain_inv_publish in
    \<open>simp_all add: chain_inv_def\<close>)

end
