(* ===== verification/Saga_Orders.thy ===== *)
theory Saga_Orders
  imports Saga_Invariant
begin

text \<open>
  The rest of the saga's invariant: what an event says of its order (\<open>lines_inv\<close>: the lines handed on from
  service to service are the lines of the order, and the amount of a payment is theirs), and what the status of an
  order says of the other services (\<open>status_inv\<close>). Together with the rows and the chain of causes they make
  \<open>saga_inv\<close>, which every step keeps.
\<close>

subsection \<open>The lines of an order\<close>

fun body_ok :: "order_row list \<Rightarrow> event_body \<Rightarrow> bool" where
  "body_ok ods (OrderCreatedEvent i ls) = (i < length ods \<and> ls = od_lines (ods ! i))"
| "body_ok ods (InventoryReservedEvent i ls) = (i < length ods \<and> ls = od_lines (ods ! i))"
| "body_ok ods (InventoryReserveFailedEvent i) = (i < length ods)"
| "body_ok ods (InventoryReleasedEvent i) = (i < length ods)"
| "body_ok ods (PaymentSuccessEvent i ls) = (i < length ods \<and> ls = od_lines (ods ! i))"
| "body_ok ods (PaymentFailedEvent i ls) = False"
| "body_ok ods (OrderCancelledEvent i ls) = (i < length ods \<and> ls = released_lines (ods ! i))"

definition order_ok :: "order_row \<Rightarrow> bool" where
  "order_ok od \<longleftrightarrow> lines_ok (od_lines od) \<and> \<not> list_ex li_fail (od_lines od)"

definition payment_ok :: "order_row list \<Rightarrow> payment_row \<Rightarrow> bool" where
  "payment_ok ods pr \<longleftrightarrow> pay_order pr < length ods \<and> pay_amount pr = payment_amount (od_lines (ods ! pay_order pr))"

definition lines_inv :: "backend \<Rightarrow> bool" where
  "lines_inv b \<longleftrightarrow>
     list_all order_ok (domain (order_db b)) \<and>
     list_all (body_ok (domain (order_db b))) (bodies (outbox (order_db b))) \<and>
     list_all (body_ok (domain (order_db b))) (bodies (outbox (inventory_db b))) \<and>
     list_all (body_ok (domain (order_db b))) (bodies (outbox (payment_db b))) \<and>
     list_all (payment_ok (domain (order_db b))) (domain (payment_db b))"

lemma compensations_ok: "compensations ods out \<Longrightarrow> list_all (body_ok ods) (map snd out)"
  by (fastforce simp: compensations_def list_all_iff)

lemma body_ok_keeps: "keeps ods ods' \<Longrightarrow> body_ok ods x \<Longrightarrow> body_ok ods' x"
  by (cases x) (simp_all add: keeps_lines keeps_released keeps_length)

lemma payment_ok_keeps: "keeps ods ods' \<Longrightarrow> payment_ok ods pr \<Longrightarrow> payment_ok ods' pr"
  by (simp add: payment_ok_def keeps_lines keeps_length)

lemma order_ok_keeps:
  assumes "keeps ods ods'" "length ods' = length ods" "list_all order_ok ods" shows "list_all order_ok ods'"
  using assms keeps_lines [OF assms(1)] by (simp add: list_all_length order_ok_def)

lemma lines_inv_keeps:
  \<comment> \<open>the order service adds rows, and of the old orders it keeps the data\<close>
  assumes l: "lines_inv b" and e: "keeps (domain (order_db b)) (domain db)"
    and o: "list_all order_ok (domain db)"
    and r: "outbox db = write_all OrderService out (outbox (order_db b))" "list_all (body_ok (domain db)) (map snd out)"
  shows "lines_inv (b\<lparr>order_db := db, open_txns := txs\<rparr>)"
  using l o r body_ok_keeps [OF e] payment_ok_keeps [OF e] unfolding lines_inv_def
  by (auto simp: list_all_iff)

lemma lines_inv_same:
  \<comment> \<open>no order is added\<close>
  assumes l: "lines_inv b" and e: "keeps (domain (order_db b)) (domain db)" "length (domain db) = length (domain (order_db b))"
    and r: "outbox db = write_all OrderService out (outbox (order_db b))" "compensations (domain (order_db b)) out"
  shows "lines_inv (b\<lparr>order_db := db, open_txns := txs\<rparr>)"
proof (rule lines_inv_keeps [OF l e(1) _ r(1)])
  show "list_all order_ok (domain db)" using l order_ok_keeps [OF e] by (simp add: lines_inv_def)
  show "list_all (body_ok (domain db)) (map snd out)"
    using compensations_ok [OF r(2)] body_ok_keeps [OF e(1)] by (auto simp: list_all_iff)
qed

lemma lines_inv_bodies:
  "lines_inv b \<Longrightarrow> x \<in> set (bodies (rows_of s b)) \<Longrightarrow> body_ok (domain (order_db b)) x"
  by (cases s) (auto simp: lines_inv_def list_all_iff)

lemma message_body_ok:
  assumes "rows_inv b" "lines_inv b" "message c n b = Some (t, e)"
  shows "body_ok (domain (order_db b)) (ev_body e)"
  using message_row(2) [OF assms(1,3)] lines_inv_bodies [OF assms(2)] by (auto simp: bodies_def)

lemma valid_lines_ok:
  "valid_lines lines \<Longrightarrow> order_ok \<lparr>od_tenant = t, od_key = k, od_status = st, od_lines = map plain_line lines, od_created = n\<rparr>"
  by (auto simp: valid_lines_def order_ok_def lines_ok_def plain_line_def list_all_iff list_ex_iff)

lemma lines_inv_init: "lines_inv initial_backend"
  by (simp add: lines_inv_def initial_backend_def new_db_def)

lemma inventory_bodies_ok:
  assumes "inventory_handler lock x st = Some (st', out)" "body_ok ods x"
  shows "list_all (body_ok ods) (map snd out)"
  unfolding inventory_out [OF assms(1)] using assms(2) by (cases x) simp_all

lemma payment_bodies_ok:
  assumes "payment_handler x ps = Some (ps', out)" "body_ok ods x" "list_all order_ok ods" "list_all (payment_ok ods) ps"
  shows "list_all (body_ok ods) (map snd out) \<and> list_all (payment_ok ods) ps'"
proof -
  obtain i ls where x: "x = InventoryReservedEvent i ls" using payment_out [OF assms(1)] by blast
  then have "i < length ods" "ls = od_lines (ods ! i)" "\<not> list_ex li_fail ls"
    using assms(2,3) by (auto simp: list_all_length order_ok_def)
  then show ?thesis using payment_out [OF assms(1)] assms(4) by (auto simp: x payment_ok_def)
qed

lemma lines_inv_publish: "lines_inv b \<Longrightarrow> lines_inv (publish c oks ok b)"
  using publish_frame [of _ c oks ok b] by (simp add: lines_inv_def publish_same)

lemma lines_inv_step:
  assumes r: "rows_inv b" and l: "lines_inv b"
  shows "lines_inv (backend_step b e)"
proof (rule backend_step_preserves)
  show "lines_inv (b\<lparr>order_db := \<lparr>domain = domain (order_db b) @
             [\<lparr>od_tenant = tenant, od_key = key, od_status = PENDING, od_lines = ls, od_created = now\<rparr>],
           inbox = inbox (order_db b),
           outbox = write_all OrderService [(OrderEvents, OrderCreatedEvent (length (domain (order_db b))) ls)]
             (outbox (order_db b))\<rparr>\<rparr>)"
    if "valid_lines lines" "ls = map plain_line lines" for tenant key lines ls now
    using l valid_lines_ok [OF that(1)] unfolding that(2)
    by (intro lines_inv_keeps [OF l, where txs = "open_txns b", simplified]) (auto simp: evolve_keeps evolve_append lines_inv_def)
  show "lines_inv (b\<lparr>order_db := \<lparr>domain = ods, inbox = inbox (order_db b) @ [ev_id x],
           outbox = write_all OrderService out (outbox (order_db b))\<rparr>\<rparr>)"
    if "order_handler (ev_body x) (domain (order_db b)) = Some (ods, out)" for x ods out
    using order_handler_effect [OF that]
    by (intro lines_inv_same [OF l, where txs = "open_txns b", simplified]) (auto simp: evolve_keeps)
  show "lines_inv (b\<lparr>order_db := \<lparr>domain = write_statuses (tx_writes tx) (domain (order_db b)),
           inbox = inbox (order_db b) @ (case tx_event tx of None \<Rightarrow> [] | Some x \<Rightarrow> [ev_id x]),
           outbox = write_all OrderService (tx_out tx) (outbox (order_db b))\<rparr>, open_txns := txs\<rparr>)"
    if "tx \<in> set (open_txns b)" for tx txs
    using rows_txn_ok [OF r that] by (intro lines_inv_same [OF l]) (auto simp: txn_ok_def intro!: keeps_write_statuses)
  show "lines_inv (b\<lparr>inventory_db := \<lparr>domain = st, inbox = inbox (inventory_db b) @ [ev_id x],
           outbox = write_all InventoryService out (outbox (inventory_db b))\<rparr>\<rparr>)"
    if "message InventoryService n b = Some (t, x)" "inventory_handler lock (ev_body x) (domain (inventory_db b)) = Some (st, out)"
    for lock n t x st out
    using l inventory_bodies_ok [OF that(2) message_body_ok [OF r l that(1)]] by (simp add: lines_inv_def)
  show "lines_inv (b\<lparr>payment_db := \<lparr>domain = ps, inbox = inbox (payment_db b) @ [ev_id x],
           outbox = write_all PaymentService out (outbox (payment_db b))\<rparr>\<rparr>)"
    if "message PaymentService n b = Some (t, x)" "payment_handler (ev_body x) (domain (payment_db b)) = Some (ps, out)"
    for n t x ps out
    using l payment_bodies_ok [OF that(2) message_body_ok [OF r l that(1)]] by (simp add: lines_inv_def)
qed (use l lines_inv_publish [OF l] in \<open>simp_all add: lines_inv_def\<close>)

subsection \<open>The status of an order\<close>

definition status_inv :: "backend \<Rightarrow> bool" where
  "status_inv b \<longleftrightarrow> (\<forall>i < length (domain (order_db b)).
     od_status (domain (order_db b) ! i) \<noteq> CANCELLING \<and>
     (od_status (domain (order_db b) ! i) \<in> {STOCK_RESERVED, CONFIRMED} \<longrightarrow>
        handled reserved_of i InventoryService (outbox (inventory_db b)) (inbox (order_db b))) \<and>
     (od_status (domain (order_db b) ! i) = CONFIRMED \<longrightarrow>
        handled success_of i PaymentService (outbox (payment_db b)) (inbox (order_db b))))"

text \<open>What an open transaction will write has its cause: a reservation the event it handles, a confirmation that event and, by then, the
  reservation.\<close>

definition write_ok :: "backend \<Rightarrow> saga_event option \<Rightarrow> nat \<Rightarrow> order_status \<Rightarrow> bool" where
  "write_ok b ev i st \<longleftrightarrow>
     (st \<in> {STOCK_RESERVED, CONFIRMED} \<longrightarrow> (\<exists>n t x. ev = Some x \<and> message OrderService n b = Some (t, x) \<and>
        (if st = STOCK_RESERVED then reserved_of (ev_body x) = Some i
         else success_of (ev_body x) = Some i \<and>
           handled reserved_of i InventoryService (outbox (inventory_db b)) (inbox (order_db b)))))"

definition txn_inv :: "backend \<Rightarrow> bool" where
  "txn_inv b \<longleftrightarrow> (\<forall>tx \<in> set (open_txns b). \<forall>(i, st) \<in> set (tx_writes tx). write_ok b (tx_event tx) i st)"

lemma status_inv_init: "status_inv initial_backend" "txn_inv initial_backend"
  by (simp_all add: status_inv_def txn_inv_def initial_backend_def new_db_def)

lemma status_inv_cong:
  assumes "status_inv b" "domain (order_db b') = domain (order_db b)" "inbox (order_db b') = inbox (order_db b)"
    "\<exists>out. bodies (outbox (inventory_db b')) = bodies (write_all InventoryService out (outbox (inventory_db b)))"
    "\<exists>out. bodies (outbox (payment_db b')) = bodies (write_all PaymentService out (outbox (payment_db b)))"
  shows "status_inv b'"
proof -
  obtain o1 o2 where o: "bodies (outbox (inventory_db b')) = bodies (write_all InventoryService o1 (outbox (inventory_db b)))"
      "bodies (outbox (payment_db b')) = bodies (write_all PaymentService o2 (outbox (payment_db b)))"
    using assms(4,5) by blast
  have "handled f i s (outbox (inventory_db b)) ibx \<Longrightarrow> handled f i s (outbox (inventory_db b')) ibx"
    "handled f i s (outbox (payment_db b)) ibx \<Longrightarrow> handled f i s (outbox (payment_db b')) ibx" for f i s ibx
    unfolding handled_cong [OF o(1)] handled_cong [OF o(2)] by (simp_all add: handled_mono)
  then show ?thesis using assms(1) unfolding status_inv_def assms(2,3) by blast
qed

lemma status_moves:
  assumes "order_handler x ods = Some (ods', out)" "i < length ods"
  shows "od_status (ods' ! i) = od_status (ods ! i) \<or> od_status (ods' ! i) \<in> {CANCELLED, CANCELLED_NO_STOCK} \<or>
    reserved_of x = Some i \<and> od_status (ods ! i) = PENDING \<and> od_status (ods' ! i) = STOCK_RESERVED \<or>
    success_of x = Some i \<and> od_status (ods ! i) = STOCK_RESERVED \<and> od_status (ods' ! i) = CONFIRMED"
  using assms
  by (cases x)
    (auto simp: handle_inventory_reserved_def handle_inventory_reserve_failed_def handle_payment_success_def
      handle_payment_failed_def move_def nth_list_update List.member_iff split: if_splits)

lemma order_event_keeps_status:
  assumes r: "rows_inv b" and s: "status_inv b" and m: "message OrderService n b = Some (t, x)"
    and h: "order_handler (ev_body x) (domain (order_db b)) = Some (ods, out)"
  shows "status_inv (b\<lparr>order_db := \<lparr>domain = ods, inbox = inbox (order_db b) @ [ev_id x],
     outbox = write_all OrderService out (outbox (order_db b))\<rparr>\<rparr>)"
proof -
  let ?ods = "domain (order_db b)" and ?ibx = "inbox (order_db b)" and ?ri = "outbox (inventory_db b)"
    and ?rp = "outbox (payment_db b)"
  have "od_status (ods ! i) \<noteq> CANCELLING \<and>
     (od_status (ods ! i) \<in> {STOCK_RESERVED, CONFIRMED} \<longrightarrow> handled reserved_of i InventoryService ?ri (?ibx @ [ev_id x])) \<and>
     (od_status (ods ! i) = CONFIRMED \<longrightarrow> handled success_of i PaymentService ?rp (?ibx @ [ev_id x]))"
    if i: "i < length ?ods" for i
  proof -
    have old: "od_status (?ods ! i) \<noteq> CANCELLING"
      "od_status (?ods ! i) \<in> {STOCK_RESERVED, CONFIRMED} \<Longrightarrow> handled reserved_of i InventoryService ?ri (?ibx @ [ev_id x])"
      "od_status (?ods ! i) = CONFIRMED \<Longrightarrow> handled success_of i PaymentService ?rp (?ibx @ [ev_id x])"
      using s i by (auto simp: status_inv_def intro: handled_mono_inbox)
    have res: "handled reserved_of i InventoryService ?ri (?ibx @ [ev_id x])" if "reserved_of (ev_body x) = Some i"
      using message_row [OF r m] that by (cases "ev_body x") (auto intro: handledI)
    have suc: "handled success_of i PaymentService ?rp (?ibx @ [ev_id x])" if "success_of (ev_body x) = Some i"
      using message_row [OF r m] that by (cases "ev_body x") (auto intro: handledI)
    show ?thesis using status_moves [OF h i] old res suc by (elim disjE conjE) auto
  qed
  then show ?thesis using order_handler_effect [OF h] by (simp add: status_inv_def)
qed

lemma write_ok_step:
  assumes "txns_ok b" "write_ok b ev i st" shows "write_ok (backend_step b e) ev i st"
  using assms(2) message_step [of OrderService _ b _ e] handled_step [OF assms(1), of reserved_of i InventoryService e]
  unfolding write_ok_def by (simp only: rows_of.simps) metis

lemma handling_writes:
  assumes r: "rows_inv b" and s: "status_inv b" and m: "message OrderService n b = Some (t, x)"
    and h: "begin_handling x (order_db b) = Some tx" and w: "(i, st) \<in> set (tx_writes tx)"
  shows "write_ok b (tx_event tx) i st"
proof -
  obtain ods out where o: "order_handler (ev_body x) (domain (order_db b)) = Some (ods, out)"
    "tx = \<lparr>tx_event = Some x, tx_writes = dirty (domain (order_db b)) ods, tx_out = out\<rparr>"
    using begin_handling_effect [OF h] by metis
  have i: "i < length (domain (order_db b))" "st = od_status (ods ! i)" "st \<noteq> od_status (domain (order_db b) ! i)"
    using w by (auto simp: o(2) dirty_mem)
  show ?thesis using status_moves [OF o(1) i(1)] i s m unfolding write_ok_def o(2)
    by (fastforce simp: status_inv_def)
qed

lemma sweep_writes:
  assumes "begin_sweep now is (order_db b) = Some tx" "(i, st) \<in> set (tx_writes tx)"
  shows "write_ok b (tx_event tx) i st"
proof -
  obtain ods out where o: "cancels (domain (order_db b)) ods"
    "tx = \<lparr>tx_event = None, tx_writes = dirty (domain (order_db b)) ods, tx_out = out\<rparr>"
    using begin_sweep_effect [OF assms(1)] by metis
  have "st = CANCELLED" using assms(2) o(1) by (fastforce simp: o(2) dirty_mem cancels_def)
  then show ?thesis by (simp add: write_ok_def)
qed

lemma txn_inv_step:
  assumes r: "rows_inv b" and s: "status_inv b" and t: "txn_inv b"
  shows "txn_inv (backend_step b e)"
  unfolding txn_inv_def
proof (intro ballI)
  fix tx w assume tx: "tx \<in> set (open_txns (backend_step b e))" and w: "w \<in> set (tx_writes tx)"
  obtain i st where ist: "w = (i, st)" by (cases w)
  have "write_ok b (tx_event tx) i st"
    using open_txns_step [OF tx] t w handling_writes [OF r s] sweep_writes unfolding ist txn_inv_def by blast
  then show "case w of (i, st) \<Rightarrow> write_ok (backend_step b e) (tx_event tx) i st"
    using write_ok_step r by (simp add: ist rows_inv_def)
qed

lemma commit_keeps_status:
  assumes r: "rows_inv b" and s: "status_inv b" and t: "txn_inv b" and tx: "tx \<in> set (open_txns b)"
  shows "status_inv (b\<lparr>order_db := \<lparr>domain = write_statuses (tx_writes tx) (domain (order_db b)),
     inbox = inbox (order_db b) @ (case tx_event tx of None \<Rightarrow> [] | Some x \<Rightarrow> [ev_id x]), outbox = rows\<rparr>, open_txns := txs\<rparr>)"
proof -
  let ?ods = "domain (order_db b)" and ?ibx = "inbox (order_db b) @ (case tx_event tx of None \<Rightarrow> [] | Some x \<Rightarrow> [ev_id x])"
  let ?ods' = "write_statuses (tx_writes tx) ?ods" and ?ri = "outbox (inventory_db b)" and ?rp = "outbox (payment_db b)"
  have "od_status (?ods' ! i) \<noteq> CANCELLING \<and>
     (od_status (?ods' ! i) \<in> {STOCK_RESERVED, CONFIRMED} \<longrightarrow> handled reserved_of i InventoryService ?ri ?ibx) \<and>
     (od_status (?ods' ! i) = CONFIRMED \<longrightarrow> handled success_of i PaymentService ?rp ?ibx)"
    if i: "i < length ?ods" for i
  proof -
    have old: "od_status (?ods ! i) \<noteq> CANCELLING"
      "od_status (?ods ! i) \<in> {STOCK_RESERVED, CONFIRMED} \<Longrightarrow> handled reserved_of i InventoryService ?ri ?ibx"
      "od_status (?ods ! i) = CONFIRMED \<Longrightarrow> handled success_of i PaymentService ?rp ?ibx"
      using s i by (auto simp: status_inv_def intro: handled_mono_inbox)
    show ?thesis
      using write_statuses_cases [OF i, of "tx_writes tx"]
    proof (elim disjE exE conjE)
      fix st assume w: "(i, st) \<in> set (tx_writes tx)" and st: "?ods' ! i = (?ods ! i)\<lparr>od_status := st\<rparr>"
      have no: "st \<noteq> CANCELLING" using rows_txn_ok [OF r tx] w by (auto simp: txn_ok_def)
      have ok: "write_ok b (tx_event tx) i st" using t tx w by (auto simp: txn_inv_def)
      have "handled reserved_of i InventoryService ?ri ?ibx \<and> (st = CONFIRMED \<longrightarrow> handled success_of i PaymentService ?rp ?ibx)"
        if c: "st \<in> {STOCK_RESERVED, CONFIRMED}"
      proof -
        obtain n u x where x: "tx_event tx = Some x" "message OrderService n b = Some (u, x)"
          and o: "if st = STOCK_RESERVED then reserved_of (ev_body x) = Some i
            else success_of (ev_body x) = Some i \<and> handled reserved_of i InventoryService ?ri (inbox (order_db b))"
          using ok c unfolding write_ok_def by blast
        have row: "numbered (author (ev_body x)) (rows_of (author (ev_body x)) b)"
          "x \<in> row_event ` set (rows_of (author (ev_body x)) b)" using message_row [OF r x(2)] .
        show ?thesis
        proof (cases "st = STOCK_RESERVED")
          case True
          then have f: "reserved_of (ev_body x) = Some i" using o by simp
          then have "author (ev_body x) = InventoryService" by (cases "ev_body x") simp_all
          then show ?thesis using row f True by (auto simp: x(1) intro: handledI)
        next
          case False
          then have f: "success_of (ev_body x) = Some i"
            and g: "handled reserved_of i InventoryService ?ri (inbox (order_db b))" using o by simp_all
          then have "author (ev_body x) = PaymentService" by (cases "ev_body x") simp_all
          then have "handled success_of i PaymentService ?rp ?ibx" using row f by (auto simp: x(1) intro: handledI)
          then show ?thesis using handled_mono_inbox [OF g] by simp
        qed
      qed
      then show ?thesis using st no by auto
    qed (use old in simp)
  qed
  then show ?thesis by (simp add: status_inv_def)
qed

lemma status_inv_step:
  assumes r: "rows_inv b" and s: "status_inv b" and t: "txn_inv b"
  shows "status_inv (backend_step b e)"
proof (rule backend_step_preserves)
  show "status_inv (b\<lparr>order_db := \<lparr>domain = domain (order_db b) @
             [\<lparr>od_tenant = tenant, od_key = key, od_status = PENDING, od_lines = ls, od_created = now\<rparr>],
           inbox = inbox (order_db b),
           outbox = write_all OrderService [(OrderEvents, OrderCreatedEvent (length (domain (order_db b))) ls)]
             (outbox (order_db b))\<rparr>\<rparr>)" for tenant key ls now
    using s by (auto simp: status_inv_def nth_append less_Suc_eq)
  show "status_inv (publish c oks ok b)" for c oks ok
    by (rule status_inv_cong [OF s]) (use publish_frame [of _ c oks ok b] in \<open>auto simp: publish_same intro!: exI [of _ "[]"]\<close>)
  show "status_inv (b\<lparr>inventory_db := \<lparr>domain = st, inbox = inbox (inventory_db b) @ [ev_id x],
           outbox = write_all InventoryService out (outbox (inventory_db b))\<rparr>\<rparr>)" for x st out
    by (rule status_inv_cong [OF s]) (auto intro: exI [of _ out] exI [of _ "[]"])
  show "status_inv (b\<lparr>payment_db := \<lparr>domain = ps, inbox = inbox (payment_db b) @ [ev_id x],
           outbox = write_all PaymentService out (outbox (payment_db b))\<rparr>\<rparr>)" for x ps out
    by (rule status_inv_cong [OF s]) (auto intro: exI [of _ out] exI [of _ "[]"])
qed (use s order_event_keeps_status [OF r s] commit_keeps_status [OF r s t] in \<open>simp_all add: status_inv_def\<close>)

end
