(* ===== verification/Saga_Stock.thy ===== *)
theory Saga_Stock
  imports Saga_Orders
begin

text \<open>
  The invariant of the whole saga, \<open>saga_inv\<close>, and what it says of the stock: what is on hand is what was
  delivered to the warehouse, nothing is ever negative, and as long as nothing is released, what the inventory
  holds covers every order it accepted.
\<close>

subsection \<open>The invariant\<close>

definition saga_inv :: "backend \<Rightarrow> bool" where
  "saga_inv b \<longleftrightarrow> rows_inv b \<and> chain_inv b \<and> lines_inv b \<and> status_inv b \<and> txn_inv b \<and> stock_ok (domain (inventory_db b))"

lemma released_lines_ok: "lines_ok (od_lines od) \<Longrightarrow> lines_ok (released_lines od)"
  by (simp add: lines_ok_def released_lines_def list_all_iff)

lemma lines_inv_order: "lines_inv b \<Longrightarrow> i < length (domain (order_db b)) \<Longrightarrow> lines_ok (od_lines (domain (order_db b) ! i))"
  by (simp add: lines_inv_def list_all_length order_ok_def)

lemma inventory_event_stock:
  \<comment> \<open>an event the inventory handles moves units between available and reserved\<close>
  assumes "lines_inv b" "body_ok (domain (order_db b)) x" "stock_ok st"
    and h: "inventory_handler lock x st = Some (st', out)"
  shows "stock_ok st' \<and> (\<forall>p. on_hand st' p = on_hand st p)"
proof (cases x)
  case (OrderCreatedEvent i ls)
  then have "lines_ok ls" using assms(1,2) lines_inv_order by auto
  then show ?thesis using handle_order_created_spec [OF assms(3), of ls i] assms(3) h OrderCreatedEvent by auto
next
  case (OrderCancelledEvent i ls)
  then have "lines_ok ls" using assms(1,2) lines_inv_order released_lines_ok by auto
  then show ?thesis using handle_release_stock_spec [OF assms(3), of ls lock i] h OrderCancelledEvent by auto
qed (use assms in auto)

lemma stock_step:
  assumes "rows_inv b" "lines_inv b" "stock_ok (domain (inventory_db b))"
  shows "stock_ok (domain (inventory_db (backend_step b e)))"
proof (rule backend_step_preserves)
  show "stock_ok (domain (inventory_db (publish c oks ok b)))" for c oks ok
    using publish_frame [of _ c oks ok b] assms(3) by simp
  show "stock_ok (domain (inventory_db (b\<lparr>inventory_db := (inventory_db b)\<lparr>domain := st\<rparr>\<rparr>)))"
    if "list_all (\<lambda>(p, q). 0 < q) its" "reserve_lines its (domain (inventory_db b)) = Inr st" for its st
    using reserve_lines_spec [OF that(2) assms(3) that(1)] by simp
  show "stock_ok (domain (inventory_db (b\<lparr>inventory_db := \<lparr>domain = st, inbox = inbox (inventory_db b) @ [ev_id x],
           outbox = write_all InventoryService out (outbox (inventory_db b))\<rparr>\<rparr>)))"
    if "message InventoryService n b = Some (t, x)" "inventory_handler lock (ev_body x) (domain (inventory_db b)) = Some (st, out)"
    for lock n t x st out
    using inventory_event_stock [OF assms(2) message_body_ok [OF assms(1,2) that(1)] assms(3) that(2)] by simp
qed (use assms restock_spec in simp_all)

interpretation saga: state_machine initial_backend backend_step saga_inv
proof
  show "saga_inv initial_backend"
    using rows_inv_init chain_inv_init lines_inv_init status_inv_init
    by (simp add: saga_inv_def) (simp add: initial_backend_def new_db_def stock_ok_def)
  show "saga_inv b \<Longrightarrow> saga_inv (backend_step b e)" for b e
    unfolding saga_inv_def using rows_inv_step chain_inv_step lines_inv_step status_inv_step txn_inv_step stock_step by blast
qed

subsection \<open>What is on hand\<close>

fun delivery :: "nat \<Rightarrow> backend_event \<Rightarrow> int" where
  \<comment> \<open>what a restocking brings of a product\<close>
  "delivery p (RestockRequest p' q) = (if p' = p \<and> 0 < q then q else 0)"
| "delivery p _ = 0"

lemma on_hand_other:
  assumes i: "saga_inv b" and e: "\<And>p q. e \<noteq> RestockRequest p q"
  shows "on_hand (domain (inventory_db (backend_step b e))) p = on_hand (domain (inventory_db b)) p"
proof (rule backend_step_preserves)
  have inv: "rows_inv b" "lines_inv b" "stock_ok (domain (inventory_db b))" using i by (simp_all add: saga_inv_def)
  show "on_hand (domain (inventory_db (publish c oks ok b))) p = on_hand (domain (inventory_db b)) p" for c oks ok
    using publish_frame [of _ c oks ok b] by simp
  show "on_hand (domain (inventory_db (b\<lparr>inventory_db := (inventory_db b)\<lparr>domain := st\<rparr>\<rparr>))) p = on_hand (domain (inventory_db b)) p"
    if "list_all (\<lambda>(p, q). 0 < q) its" "reserve_lines its (domain (inventory_db b)) = Inr st" for its st
    using reserve_lines_spec [OF that(2) inv(3) that(1)] by simp
  show "on_hand (domain (inventory_db (b\<lparr>inventory_db := \<lparr>domain = st, inbox = inbox (inventory_db b) @ [ev_id x],
           outbox = write_all InventoryService out (outbox (inventory_db b))\<rparr>\<rparr>))) p = on_hand (domain (inventory_db b)) p"
    if "message InventoryService n b = Some (t, x)" "inventory_handler lock (ev_body x) (domain (inventory_db b)) = Some (st, out)"
    for lock n t x st out
    using inventory_event_stock [OF inv(2) message_body_ok [OF inv(1,2) that(1)] inv(3) that(2)] by simp
qed (use e in simp_all)

lemma on_hand_step:
  assumes "saga_inv b"
  shows "on_hand (domain (inventory_db (backend_step b e))) p = on_hand (domain (inventory_db b)) p + delivery p e"
proof (cases "\<exists>p q. e = RestockRequest p q")
  case True
  then show ?thesis using assms restock_spec [of _ "domain (inventory_db b)"] by (auto simp: saga_inv_def)
next
  case False
  then show ?thesis using on_hand_other [OF assms, of e p] by (cases e) auto
qed

lemma on_hand_run:
  "saga_inv b \<Longrightarrow> on_hand (domain (inventory_db (run backend_step b es))) p =
     on_hand (domain (inventory_db b)) p + sum_list (map (delivery p) es)"
proof (induction es arbitrary: b)
  case (Cons e es)
  then show ?case using on_hand_step [of b e p] saga.inv_step [of b e] by simp
qed simp

subsection \<open>What is promised\<close>

fun promised_by :: "nat \<Rightarrow> event_body \<Rightarrow> int" where
  "promised_by p (InventoryReservedEvent i ls) = units_of p ls"
| "promised_by p _ = 0"

definition promised :: "nat \<Rightarrow> outbox_row list \<Rightarrow> int" where
  "promised p rows = sum_list (map (promised_by p) (bodies rows))"

fun releases :: "event_body \<Rightarrow> bool" where
  "releases (OrderCancelledEvent i ls) = True"
| "releases (PaymentFailedEvent i ls) = True"
| "releases _ = False"

definition covered :: "nat \<Rightarrow> backend \<Rightarrow> bool" where
  "covered p b \<longleftrightarrow> (list_ex releases (bodies (outbox (order_db b))) \<or>
     promised p (outbox (inventory_db b)) \<le> held (domain (inventory_db b)) p)"

lemma promised_write [simp]:
  "promised p (write_all s out rows) = promised p rows + sum_list (map (promised_by p) (map snd out))"
  by (simp add: promised_def o_def)

lemma held_reserve_lines:
  "reserve_lines its st = Inr st' \<Longrightarrow> list_all (\<lambda>(p, q). 0 < q) its \<Longrightarrow> held st p \<le> held st' p"
proof (induction its st rule: reserve_lines.induct)
  case (2 p' q its st)
  then obtain r where r: "st p' = Some r" "\<not> available r < q" by (auto split: option.splits if_splits)
  then have "held st p \<le> held (st(p' \<mapsto> take_stock q r)) p"
    using 2(3) by (auto simp: held_def take_stock_def)
  then show ?case using 2(1) [OF r] 2(2,3) r by (simp del: fun_upd_apply)
qed simp

lemma held_restock [simp]: "held (restock p' q st) p = held st p"
  by (auto simp: held_def restock_def split: option.split)

lemma covered_step:
  assumes i: "saga_inv b" and c: "covered p b"
  shows "covered p (backend_step b e)"
proof (rule backend_step_preserves)
  have inv: "rows_inv b" "lines_inv b" "stock_ok (domain (inventory_db b))" using i by (simp_all add: saga_inv_def)
  show "covered p (publish c' oks ok b)" for c' oks ok
    using publish_frame [of _ c' oks ok b] c by (simp add: covered_def publish_same promised_def)
  show "covered p (b\<lparr>inventory_db := (inventory_db b)\<lparr>domain := st\<rparr>\<rparr>)"
    if "list_all (\<lambda>(p, q). 0 < q) its" "reserve_lines its (domain (inventory_db b)) = Inr st" for its st
    using held_reserve_lines [OF that(2,1), of p] c by (auto simp: covered_def)
  show "covered p (b\<lparr>inventory_db := \<lparr>domain = st, inbox = inbox (inventory_db b) @ [ev_id x],
           outbox = write_all InventoryService out (outbox (inventory_db b))\<rparr>\<rparr>)"
    if m: "message InventoryService n b = Some (t, x)"
      and h: "inventory_handler lock (ev_body x) (domain (inventory_db b)) = Some (st, out)"
    for lock n t x st out
  proof (cases "ev_body x")
    case (OrderCreatedEvent j ls)
    then have "lines_ok ls" using message_body_ok [OF inv(1,2) m] lines_inv_order [OF inv(2)] by simp
    then show ?thesis using handle_order_created_spec [OF inv(3), of ls j] h c OrderCreatedEvent by (auto simp: covered_def)
  next
    case (OrderCancelledEvent j ls)
    then have "ev_body x \<in> set (bodies (outbox (order_db b)))" using message_row(2) [OF inv(1) m] by (force simp: bodies_def)
    then have "list_ex releases (bodies (outbox (order_db b)))"
      unfolding list_ex_iff OrderCancelledEvent by (rule bexI [rotated]) simp
    then show ?thesis by (simp add: covered_def)
  qed (use message_body_ok [OF inv(1,2) m] h in auto)
qed (use c in \<open>auto simp: covered_def\<close>)

lemma promised_orders:
  assumes "list_all (body_ok ods) (bodies rows)"
  shows "promised p rows = sum_list (map (\<lambda>i. units_of p (od_lines (ods ! i))) (subjects reserved_of rows))"
proof -
  have "list_all (body_ok ods) xs \<Longrightarrow> sum_list (map (promised_by p) xs) =
      sum_list (map (\<lambda>i. units_of p (od_lines (ods ! i))) (List.map_filter reserved_of xs))" for xs
  proof (induction xs)
    case (Cons x xs)
    then show ?case by (cases x) (simp_all add: map_filter_def)
  qed (simp add: map_filter_def)
  then show ?thesis using assms by (simp add: promised_def subjects_def)
qed

definition sold :: "nat \<Rightarrow> backend \<Rightarrow> int" where
  \<comment> \<open>how much of a product confirmed orders were sold\<close>
  "sold p b = sum_list (map (\<lambda>od. if od_status od = CONFIRMED then units_of p (od_lines od) else 0) (domain (order_db b)))"

lemma sold_promised:
  assumes i: "saga_inv b"
  shows "sold p b \<le> promised p (outbox (inventory_db b))"
proof -
  let ?ods = "domain (order_db b)" and ?rs = "subjects reserved_of (outbox (inventory_db b))"
  let ?w = "\<lambda>i. units_of p (od_lines (?ods ! i))"
  let ?c = "{i. i < length ?ods \<and> od_status (?ods ! i) = CONFIRMED}"
  have l: "lines_inv b" and s: "status_inv b" and c: "chain_inv b" using i by (simp_all add: saga_inv_def)
  have le: "i < length ?ods" if "i \<in> set ?rs" for i
  proof -
    obtain x where x: "x \<in> set (bodies (outbox (inventory_db b)))" "reserved_of x = Some i"
      using \<open>i \<in> set ?rs\<close> by (auto simp: subjects_body)
    then have "body_ok ?ods x" using lines_inv_bodies [OF l, of x InventoryService] by simp
    then show ?thesis using x(2) by (cases x) auto
  qed
  have "sold p b = (\<Sum>i<length ?ods. if od_status (?ods ! i) = CONFIRMED then ?w i else 0)"
    unfolding sold_def by (simp add: sum_list_sum_nth atLeast0LessThan)
  also have "\<dots> = sum ?w ?c" by (simp add: sum.If_cases) (rule sum.cong, auto)
  also have "\<dots> \<le> sum ?w (set ?rs)"
  proof (rule sum_mono2)
    show "?c \<subseteq> set ?rs"
      using s subjects_mem [of _ "outbox (inventory_db b)" reserved_of] by (auto simp: status_inv_def handled_def)
    show "0 \<le> ?w i" if "i \<in> set ?rs - ?c" for i
      using that le lines_inv_order [OF l] units_of_nonneg by blast
  qed simp
  also have "\<dots> = sum_list (map ?w ?rs)" using reserved_once [OF c] by (simp add: sum_list_distinct_conv_sum_set)
  also have "\<dots> = promised p (outbox (inventory_db b))" using l by (simp add: promised_orders [of ?ods] lines_inv_def)
  finally show ?thesis .
qed

lemma held_on_hand: "stock_ok st \<Longrightarrow> held st p \<le> on_hand st p"
  by (auto simp: stock_ok_def held_def on_hand_def split: option.split)

lemma covered_run: "covered p (run backend_step initial_backend es)"
proof (induction es rule: rev_induct)
  case Nil
  then show ?case by (simp add: covered_def initial_backend_def new_db_def promised_def held_def)
next
  case (snoc e es)
  then show ?case using covered_step [OF saga.inv_run] by simp
qed

end
