(* ===== verification/Saga_Delivery.thy ===== *)
theory Saga_Delivery
  imports Saga_Stock
begin

text \<open>
  What becomes of messages in the saga: a working outbox empties itself in order, a row that could not be sent
  five times is never sent again, a message that comes again changes nothing, placing an order again gives the
  order, and the sweeper closes the stale orders, each once.
\<close>

subsection \<open>The outbox\<close>

definition as_message :: "outbox_row \<Rightarrow> topic \<times> saga_event" where
  "as_message r = (row_topic r, row_event r)"

lemma not_due_processed [simp]: "\<not> due (r\<lparr>row_processed := True\<rparr>)"
  by (simp add: due_def)

lemma process_rows_ok:
  "snd (process_rows n [] rows) = map as_message (take n (filter due rows)) \<and>
   filter due (fst (process_rows n [] rows)) = drop n (filter due rows)"
proof (induction n "[] :: bool list" rows rule: process_rows.induct)
  case (3 n r rows)
  then show ?case by (cases "due r") (simp_all add: case_prod_beta Let_def as_message_def)
qed simp_all

lemma process_batch_ok:
  "snd (process_batch [] True rows) = map as_message (take batch_size (filter due rows))"
  "filter due (fst (process_batch [] True rows)) = drop batch_size (filter due rows)"
  using process_rows_ok [of batch_size rows] by (simp_all add: process_batch_def case_prod_beta Let_def)

lemma publish_ok:
  "log (publish s [] True b) = log b @ map as_message (take batch_size (filter due (rows_of s b)))"
  "filter due (rows_of s (publish s [] True b)) = drop batch_size (filter due (rows_of s b))"
  using process_batch_ok by (cases s; simp add: case_prod_beta Let_def)+

lemma publish_times:
  "log (run backend_step b (replicate k (Publish s [] True))) =
     log b @ map as_message (take (k * batch_size) (filter due (rows_of s b))) \<and>
   filter due (rows_of s (run backend_step b (replicate k (Publish s [] True)))) =
     drop (k * batch_size) (filter due (rows_of s b))"
proof (induction k arbitrary: b)
  case (Suc k)
  let ?d = "filter due (rows_of s b)"
  have "take (Suc k * batch_size) ?d = take batch_size ?d @ take (k * batch_size) (drop batch_size ?d)"
    by (metis mult_Suc take_add)
  moreover have "drop (Suc k * batch_size) ?d = drop (k * batch_size) (drop batch_size ?d)"
    by (simp add: add.commute)
  ultimately show ?case using Suc [of "publish s [] True b"] by (simp add: publish_ok)
qed simp

lemma process_rows_stuck:
  "k < length rows \<Longrightarrow> \<not> due (rows ! k) \<Longrightarrow> fst (process_rows n oks rows) ! k = rows ! k"
proof (induction n oks rows arbitrary: k rule: process_rows.induct)
  case (3 n oks r rows)
  then show ?case by (cases k) (auto simp: case_prod_beta Let_def)
qed simp_all

lemma process_rows_sent:
  "(t, e) \<in> set (snd (process_rows n oks rows)) \<Longrightarrow> \<exists>k < length rows. due (rows ! k) \<and> row_event (rows ! k) = e"
proof (induction n oks rows rule: process_rows.induct)
  case (3 n oks r rows)
  note IH = "3.IH"
  consider "due r" "e = row_event r"
    | "\<not> due r" "(t, e) \<in> set (snd (process_rows (Suc n) oks rows))"
    | "due r" "(t, e) \<in> set (snd (process_rows n (tl oks) rows))"
    using 3(3) by (auto simp: case_prod_beta Let_def split: if_splits)
  then show ?case
  proof cases
    case 1
    then show ?thesis by (intro exI [of _ 0]) simp
  next
    case 2
    then show ?thesis using IH(1) by (metis Suc_less_eq length_Cons nth_Cons_Suc)
  next
    case 3
    then show ?thesis using IH(2) by (metis Suc_less_eq length_Cons nth_Cons_Suc)
  qed
qed simp_all

text \<open>A broker that refuses every message: each due row comes one try nearer to its end.\<close>

definition age :: "outbox_row list \<Rightarrow> outbox_row list" where
  "age rows = map (\<lambda>r. if due r then r\<lparr>row_retries := row_retries r + 1\<rparr> else r) rows"

lemma process_rows_refused:
  "length (filter due rows) \<le> n \<Longrightarrow> n \<le> m \<Longrightarrow> process_rows n (replicate m False) rows = (age rows, [])"
proof (induction rows arbitrary: n m)
  case Nil
  then show ?case by (cases n) (simp_all add: age_def)
next
  case (Cons r rows)
  show ?case
  proof (cases n)
    case 0
    then have "filter due (r # rows) = []" using Cons.prems(1) by simp
    then have "age (r # rows) = r # rows" unfolding age_def filter_empty_conv by (intro map_idI) auto
    then show ?thesis using 0 by simp
  next
    case (Suc j)
    then obtain m' where m: "m = Suc m'" using Cons.prems(2) by (cases m) auto
    show ?thesis using Cons.prems Cons.IH [of j m'] Cons.IH [of n m] by (auto simp: Suc m age_def)
  qed
qed

definition refuse :: "service \<Rightarrow> backend_event" where
  \<comment> \<open>a poll of the outbox while the broker is down\<close>
  "refuse s = Publish s (replicate batch_size False) True"

lemma refuse_step:
  assumes "length (filter due (rows_of s b)) \<le> batch_size"
  shows "log (backend_step b (refuse s)) = log b" "rows_of s (backend_step b (refuse s)) = age (rows_of s b)"
  using process_rows_refused [OF assms order_refl]
  by (cases s; simp add: refuse_def process_batch_def)+

lemma age_due: "length (filter due (age rows)) \<le> length (filter due rows)"
  by (induction rows) (auto simp: age_def due_def)

lemma refused_times:
  "length (filter due (rows_of s b)) \<le> batch_size \<Longrightarrow>
   log (run backend_step b (replicate k (refuse s))) = log b \<and>
   rows_of s (run backend_step b (replicate k (refuse s))) = (age ^^ k) (rows_of s b)"
proof (induction k arbitrary: b)
  case (Suc k)
  have "length (filter due (rows_of s (backend_step b (refuse s)))) \<le> batch_size"
    using Suc.prems age_due [of "rows_of s b"] refuse_step(2) [OF Suc.prems] by simp
  from Suc.IH [OF this] show ?case using refuse_step [OF Suc.prems]
    by (simp del: backend_step.simps funpow.simps add: funpow_Suc_right)
qed simp

lemma age_times:
  "list_all (\<lambda>r. row_processed r \<or> k \<le> row_retries r \<or> max_retries \<le> row_retries r) ((age ^^ k) rows)"
proof (induction k)
  case (Suc k)
  then show ?case by (auto simp: age_def list_all_iff due_def)
qed (simp add: list_all_iff)

lemma age_events: "map row_event (age rows) = map row_event rows"
  by (simp add: age_def)

lemma age_times_events: "map row_event ((age ^^ k) rows) = map row_event rows"
  by (induction k) (simp_all add: age_events)

lemma age_exhausted: "list_all (\<lambda>r. \<not> due r) ((age ^^ max_retries) rows)"
  using age_times [of max_retries rows] by (auto simp: list_all_iff due_def)

subsection \<open>A row that is not due any more\<close>

lemma write_all_prefix: "k < length rows \<Longrightarrow> write_all s out rows ! k = rows ! k"
proof (induction out arbitrary: rows)
  case (Cons tb out)
  have "write_outbox s tb rows ! k = rows ! k" "k < length (write_outbox s tb rows)"
    using Cons.prems by (simp_all add: write_outbox_def nth_append)
  then show ?case using Cons.IH by (simp add: write_all_Cons)
qed simp

definition stuck :: "service \<Rightarrow> nat \<Rightarrow> outbox_row \<Rightarrow> backend \<Rightarrow> bool" where
  "stuck s k r b \<longleftrightarrow> k < length (rows_of s b) \<and> rows_of s b ! k = r \<and> \<not> due r"

lemma publish_rows:
  "rows_of s (publish c oks ok b) = (if c = s then fst (process_batch oks ok (rows_of s b)) else rows_of s b)"
  by (cases c; cases s) (simp_all add: case_prod_beta Let_def)

lemma stuck_step:
  assumes i: "saga_inv b" and s: "stuck s k r b"
  shows "stuck s k r (backend_step b e) \<and>
    (row_event r \<in> snd ` set (log (backend_step b e)) \<longrightarrow> row_event r \<in> snd ` set (log b))"
proof (cases "\<exists>c oks ok. e = Publish c oks ok")
  case True
  then obtain c oks ok where e: "e = Publish c oks ok" by blast
  have k: "k < length (rows_of s b)" "rows_of s b ! k = r" "\<not> due r" using s by (simp_all add: stuck_def)
  have num: "numbered c (rows_of c b)" "numbered s (rows_of s b)" using i by (simp_all add: saga_inv_def rows_inv_def)
  have len: "length (fst (process_batch oks ok (rows_of s b))) = length (rows_of s b)"
    using process_batch_events by (rule map_eq_imp_length_eq)
  have "fst (process_batch oks ok (rows_of s b)) ! k = r"
    using k process_rows_stuck [OF k(1)] by (simp add: process_batch_def case_prod_beta Let_def)
  then have "stuck s k r (backend_step b e)" using k len by (simp add: e stuck_def publish_rows)
  moreover have "(t, row_event r) \<notin> set (snd (process_batch oks ok (rows_of c b)))" for t
  proof
    assume "(t, row_event r) \<in> set (snd (process_batch oks ok (rows_of c b)))"
    then obtain k' where k': "k' < length (rows_of c b)" "due (rows_of c b ! k')" "row_event (rows_of c b ! k') = row_event r"
      using process_rows_sent [of t "row_event r" batch_size oks "rows_of c b"]
      by (auto simp: process_batch_def case_prod_beta Let_def)
    have "(c, k') = (s, k)" using row_id(1) [OF num(1) k'(1)] row_id(1) [OF num(2) k(1)] k(2) k'(3) by simp
    then show False using k k'(2) by simp
  qed
  ultimately show ?thesis by (force simp: e publish_log)
next
  case False
  obtain out where "rows_of s (backend_step b e) = write_all s out (rows_of s b)"
    using step_rows [of e b s] False i by (auto simp: saga_inv_def rows_inv_def)
  moreover have "log (backend_step b e) = log b" using False by (intro step_log) blast
  ultimately show ?thesis using s by (simp add: stuck_def write_all_prefix)
qed

lemma stuck_run:
  "saga_inv b \<Longrightarrow> stuck s k r b \<Longrightarrow> row_event r \<notin> snd ` set (log b) \<Longrightarrow>
   row_event r \<notin> snd ` set (log (run backend_step b es))"
proof (induction es arbitrary: b)
  case (Cons e es)
  then show ?case using stuck_step [of b s k r e] saga.inv_step [of b e] by simp
qed simp

subsection \<open>A message that comes again\<close>

fun settled :: "service \<Rightarrow> saga_event \<Rightarrow> backend \<Rightarrow> bool" where
  "settled OrderService e b = settled_with order_handler (order_db b) e"
| "settled InventoryService e b = settled_with (inventory_handler None) (inventory_db b) e"
| "settled PaymentService e b = settled_with payment_handler (payment_db b) e"

lemma inventory_ignores: "inventory_handler lock x st = None \<longleftrightarrow> inventory_handler None x st' = None"
  by (cases x) simp_all

lemma settled_consume: "settled s e b \<Longrightarrow> consume s lock e b = b"
proof (cases s)
  case InventoryService
  assume "settled s e b"
  then have "settled_with (inventory_handler lock) (inventory_db b) e"
    using InventoryService inventory_ignores [of lock "ev_body e" "domain (inventory_db b)" "domain (inventory_db b)"]
    by (simp add: settled_with_def)
  then show ?thesis using InventoryService by (simp add: handle_settled)
qed (simp_all add: handle_settled)

lemma consume_settles: "settled s e (consume s lock e b)"
proof (cases s)
  case InventoryService
  let ?d = "handle_event InventoryService (inventory_handler lock) e (inventory_db b)"
  have "settled_with (inventory_handler None) ?d e"
    using handle_settles [of "inventory_handler lock" InventoryService e "inventory_db b"]
      inventory_ignores [of lock "ev_body e" "domain ?d" "domain ?d"]
    unfolding settled_with_def by simp
  then show ?thesis by (simp add: InventoryService)
qed (simp_all add: handle_settles)

lemma settled_step: "settled s x b \<Longrightarrow> settled s x (backend_step b e)"
  using inboxes_grow [of b e] order.ignores_by_type [of "ev_body x" "domain (order_db b)" "domain (order_db (backend_step b e))"]
    inventory_ignores [of None "ev_body x" "domain (inventory_db b)" "domain (inventory_db (backend_step b e))"]
    payment.ignores_by_type [of "ev_body x" "domain (payment_db b)" "domain (payment_db (backend_step b e))"]
  by (cases s) (auto simp: settled_with_def)

lemma settled_runs: "settled s x b \<Longrightarrow> settled s x (run backend_step b es)"
  by (induction es arbitrary: b) (simp_all add: settled_step del: backend_step.simps)

lemma message_run: "message s n b = Some te \<Longrightarrow> message s n (run backend_step b es) = Some te"
  by (induction es arbitrary: b) (simp_all add: message_step del: backend_step.simps)

subsection \<open>Placing an order again\<close>

lemma find_order_append:
  "find_order t k (ods @ [od]) = (case find_order t k ods of Some i \<Rightarrow> Some i
     | None \<Rightarrow> if od_tenant od = t \<and> od_key od = k then Some (length ods) else None)"
  by (induction ods) (auto split: option.split)

lemma created_found:
  assumes "create_order tenant key lines plan now db = Inr (i, db')"
  shows "find_order tenant key (domain db') = Some i"
  using assms by (auto simp: create_order_def Let_def find_order_append split: if_splits option.splits)

subsection \<open>The sweeper\<close>

lemma cancel_orders:
  "distinct is \<Longrightarrow> list_all (\<lambda>i. order_open i ods) is \<Longrightarrow>
   snd (foldl cancel_stale (ods, out) is) = out @ concat (map (\<lambda>i. cancel_event i ods) is) \<and>
   (\<forall>j < length ods. fst (foldl cancel_stale (ods, out) is) ! j =
      (if j \<in> set is then (ods ! j)\<lparr>od_status := CANCELLED\<rparr> else ods ! j))"
proof (induction "is" arbitrary: ods out)
  case (Cons i "is")
  let ?o = "move open_statuses CANCELLED i ods"
  have o: "order_open i ods" "i < length ods" using Cons.prems by (simp_all add: order_open_def)
  have m: "?o = ods[i := (ods ! i)\<lparr>od_status := CANCELLED\<rparr>]" using o by (simp add: move_def order_open_def)
  have d: "distinct is" "list_all (\<lambda>j. order_open j ?o) is"
    using Cons.prems order_open_move [of i] by (fastforce simp: list_all_iff)+
  have "cancel_event j ?o = cancel_event j ods" if "j \<in> set is" for j
  proof -
    have "j \<noteq> i" using that Cons.prems(1) by auto
    then show ?thesis by (simp add: m cancel_event_def)
  qed
  then have e: "map (\<lambda>i. cancel_event i ?o) is = map (\<lambda>i. cancel_event i ods) is" by simp
  have s: "foldl cancel_stale (ods, out) (i # is) = foldl cancel_stale (?o, out @ cancel_event i ods) is"
    by (simp add: cancel_stale_def)
  show ?case unfolding s using Cons.IH [OF d, of "out @ cancel_event i ods"] Cons.prems(1) o(2)
    by (auto simp: e [unfolded m] m nth_list_update)
qed simp

lemma filter_not_taken: "distinct xs \<Longrightarrow> filter (\<lambda>x. x \<notin> set (take n xs)) xs = drop n xs"
proof (induction xs arbitrary: n)
  case (Cons x xs)
  show ?case
  proof (cases n)
    case (Suc m)
    have "filter (\<lambda>y. y \<notin> set (take n (x # xs))) (x # xs) = filter (\<lambda>y. y \<notin> set (take m xs)) xs"
      using Cons.prems by (auto simp: Suc intro!: filter_cong)
    then show ?thesis using Cons Suc by simp
  qed (simp add: filter_id_conv)
qed simp

definition swept_orders :: "int \<Rightarrow> order_row list \<Rightarrow> order_row list" where
  \<comment> \<open>the orders of one pass that looks at each once\<close>
  "swept_orders now ods = map (\<lambda>od. if stale now od then od\<lparr>od_status := CANCELLED\<rparr> else od) ods"

definition swept_events :: "int \<Rightarrow> order_row list \<Rightarrow> (topic \<times> event_body) list" where
  "swept_events now ods = concat (map (\<lambda>i. cancel_event i ods) (stale_orders now ods))"

lemma not_stale_cancelled [simp]: "\<not> stale now (od\<lparr>od_status := CANCELLED\<rparr>)"
  by (simp add: stale_def open_statuses_def List.member_iff)

lemma sweep_batch_spec:
  fixes db :: "order_row list service_db" and now :: int
  defines "ods \<equiv> domain db" and "todo \<equiv> stale_orders now (domain db)"
  shows "stale_orders now (domain (sweep_batch now db)) = drop sweep_batch_size todo"
    and "swept_orders now (domain (sweep_batch now db)) = swept_orders now ods"
    and "inbox (sweep_batch now db) = inbox db"
    and "outbox (sweep_batch now db) =
      write_all OrderService (concat (map (\<lambda>i. cancel_event i ods) (take sweep_batch_size todo))) (outbox db)"
    and "i < length ods \<Longrightarrow> cancel_event i (domain (sweep_batch now db)) = cancel_event i ods"
proof -
  let ?is = "take sweep_batch_size todo"
  define ods1 where "ods1 = domain (sweep_batch now db)"
  have t: "distinct todo" "list_all (\<lambda>i. order_open i ods) ?is"
    unfolding todo_def ods_def using stale_open by (auto simp: stale_orders_def list_all_iff dest!: in_set_takeD)
  have f: "ods1 = fst (foldl cancel_stale (ods, []) ?is)" "inbox (sweep_batch now db) = inbox db"
    "outbox (sweep_batch now db) = write_all OrderService (snd (foldl cancel_stale (ods, []) ?is)) (outbox db)"
    by (simp_all add: ods1_def sweep_batch_def case_prod_beta Let_def ods_def todo_def)
  have len: "length ods1 = length ods" using f(1) by (simp add: cancel_orders_length)
  have nth: "ods1 ! j = (if j \<in> set ?is then (ods ! j)\<lparr>od_status := CANCELLED\<rparr> else ods ! j)" if "j < length ods" for j
    using cancel_orders [OF distinct_take [OF t(1)] t(2), of "[]"] that f(1) by simp
  have "stale_orders now ods1 = filter (\<lambda>j. j \<notin> set ?is) todo"
    unfolding stale_orders_def todo_def len ods_def [symmetric] filter_filter
    using nth by (intro filter_cong) (auto simp: stale_orders_def todo_def ods_def)
  then show "stale_orders now (domain (sweep_batch now db)) = drop sweep_batch_size todo"
    using filter_not_taken [OF t(1)] by (simp add: ods1_def)
  have "stale now (ods ! j)" if "j \<in> set ?is" for j
    using in_set_takeD [OF that] by (simp add: todo_def stale_orders_def ods_def)
  then show "swept_orders now (domain (sweep_batch now db)) = swept_orders now ods"
    unfolding ods1_def [symmetric] swept_orders_def using nth len by (intro nth_equalityI) auto
  show "inbox (sweep_batch now db) = inbox db" by (rule f(2))
  show "outbox (sweep_batch now db) =
      write_all OrderService (concat (map (\<lambda>i. cancel_event i ods) ?is)) (outbox db)"
    using f(3) cancel_orders [OF distinct_take [OF t(1)] t(2), of "[]"] by simp
  show "cancel_event i (domain (sweep_batch now db)) = cancel_event i ods" if "i < length ods"
    unfolding ods1_def [symmetric] using nth [OF that] by (simp add: cancel_event_def released_lines_def)
qed

lemma sweep_spec:
  "sweep (\<lambda>_. now) k db = db\<lparr>domain := swept_orders now (domain db),
     outbox := write_all OrderService (swept_events now (domain db)) (outbox db)\<rparr>"
proof (induction "\<lambda>_::nat. now" k db rule: sweep.induct)
  case (1 k db)
  show ?case
  proof (cases "stale_orders now (domain db) = []")
    case True
    have "swept_orders now (domain db) = domain db"
      unfolding swept_orders_def using True by (intro map_idI) (auto simp: stale_orders_def filter_empty_conv in_set_conv_nth)
    then show ?thesis using True by (subst sweep.simps) (simp add: swept_events_def)
  next
    case False
    let ?b = "sweep_batch now db" and ?t = "stale_orders now (domain db)"
    have c: "map (\<lambda>i. cancel_event i (domain ?b)) (drop sweep_batch_size ?t) = map (\<lambda>i. cancel_event i (domain db)) (drop sweep_batch_size ?t)"
      using sweep_batch_spec(5) [of _ db now] by (auto simp: stale_orders_def dest: in_set_dropD)
    have "swept_events now (domain ?b) = concat (map (\<lambda>i. cancel_event i (domain db)) (drop sweep_batch_size ?t))"
      unfolding swept_events_def sweep_batch_spec(1) c ..
    then have "concat (map (\<lambda>i. cancel_event i (domain db)) (take sweep_batch_size ?t)) @ swept_events now (domain ?b) =
        swept_events now (domain db)"
      unfolding swept_events_def by (metis append_take_drop_id concat_append map_append)
    then have w: "write_all OrderService (swept_events now (domain ?b)) (outbox ?b) =
        write_all OrderService (swept_events now (domain db)) (outbox db)"
      unfolding sweep_batch_spec(4) by (metis write_all_append)
    have "sweep (\<lambda>_. now) k db = sweep (\<lambda>_. now) (Suc k) ?b" using False by (subst sweep.simps) simp
    also have "\<dots> = ?b\<lparr>domain := swept_orders now (domain ?b),
        outbox := write_all OrderService (swept_events now (domain ?b)) (outbox ?b)\<rparr>"
      using 1 [OF False] by simp
    also have "\<dots> = db\<lparr>domain := swept_orders now (domain db),
        outbox := write_all OrderService (swept_events now (domain db)) (outbox db)\<rparr>"
      unfolding w sweep_batch_spec(2) using sweep_batch_spec(3) [of now db] by simp
    finally show ?thesis .
  qed
qed

subsection \<open>Steps that nothing comes between\<close>

text \<open>A delivery is reading and committing at once, and the loop of the sweeper, when it is alone, is a run of such steps.\<close>

lemma deliver_as_steps:
  "backend_step b (Deliver OrderService n lock) =
     (if \<exists>t x. message OrderService n b = Some (t, x) \<and> begin_handling x (order_db b) \<noteq> None
      then run backend_step b [StartHandling n, Commit (length (open_txns b))] else b)"
proof (cases "message OrderService n b")
  case (Some te)
  obtain t x where te: "te = (t, x)" by (cases te)
  show ?thesis using handling_alone [of x "order_db b"]
    by (cases "begin_handling x (order_db b)") (simp_all add: Some te open_txn_def close_txn_def)
qed simp

lemma batch_as_steps:
  assumes "stale_orders now (domain (order_db b)) \<noteq> []"
  shows "run backend_step b [StartSweep now (take sweep_batch_size (stale_orders now (domain (order_db b)))), Commit (length (open_txns b))] =
    b\<lparr>order_db := sweep_batch now (order_db b)\<rparr>"
proof -
  obtain tx where tx: "begin_sweep now (take sweep_batch_size (stale_orders now (domain (order_db b)))) (order_db b) = Some tx"
    using batch_begins [OF assms] by blast
  from sweep_alone [OF this] show ?thesis by (simp add: tx open_txn_def close_txn_def)
qed

lemma sweep_as_steps:
  "\<exists>es. run backend_step b es = b\<lparr>order_db := sweep clk k (order_db b)\<rparr>"
proof (induction clk k "order_db b" arbitrary: b rule: sweep.induct)
  case (1 clk k)
  show ?case
  proof (cases "stale_orders (clk k) (domain (order_db b)) = []")
    case True
    then have "sweep clk k (order_db b) = order_db b" by (subst sweep.simps) simp
    then show ?thesis by (intro exI [of _ "[]"]) simp
  next
    case False
    let ?b = "b\<lparr>order_db := sweep_batch (clk k) (order_db b)\<rparr>"
    obtain es where es: "run backend_step ?b es = ?b\<lparr>order_db := sweep clk (Suc k) (order_db ?b)\<rparr>"
      using "1.hyps" [OF False, of ?b] by auto
    have "sweep clk k (order_db b) = sweep clk (Suc k) (order_db ?b)" using False by (subst sweep.simps) simp
    then have "run backend_step b ([StartSweep (clk k) (take sweep_batch_size (stale_orders (clk k) (domain (order_db b)))),
        Commit (length (open_txns b))] @ es) = b\<lparr>order_db := sweep clk k (order_db b)\<rparr>"
      using es batch_as_steps [OF False] by (simp only: run_append) simp
    then show ?thesis by blast
  qed
qed

end
