(* ===== verification/Saga_Runs.thy ===== *)
theory Saga_Runs
  imports Saga_Delivery
begin

text \<open>
  What the saga promises its customers and its warehouse, and where it breaks the promise: the theorems about
  all runs of the three services, and the runs that show the faults.
\<close>

subsection \<open>Concrete runs\<close>

definition one_order :: "backend_event list" where
  \<comment> \<open>product 7 is restocked, tenant 1 orders two of it, and everything is delivered in order\<close>
  "one_order =
     [RestockRequest 7 5, NewOrder 1 1 [(7, 2, 10)] FreeTier 0, Publish OrderService [] True,
      Deliver InventoryService 0 None, Publish InventoryService [] True, Deliver OrderService 1 None,
      Deliver PaymentService 1 None, Publish PaymentService [] True, Deliver OrderService 2 None]"

definition early_payment :: "backend_event list" where
  \<comment> \<open>the same, but the payment is through before the order service has read the reservation\<close>
  "early_payment =
     [RestockRequest 7 5, NewOrder 1 1 [(7, 2, 10)] FreeTier 0, Publish OrderService [] True,
      Deliver InventoryService 0 None, Publish InventoryService [] True, Deliver PaymentService 1 None,
      Publish PaymentService [] True]"

definition order_one :: "nat \<Rightarrow> nat \<Rightarrow> backend_event list" where
  \<comment> \<open>a tenant orders five of product 7, and the saga runs through; \<open>n\<close> messages were published before\<close>
  "order_one tenant n =
     [NewOrder tenant tenant [(7, 5, 10)] FreeTier 1000, Publish OrderService [] True, Deliver InventoryService n None,
      Publish InventoryService [] True, Deliver OrderService (n + 1) None, Deliver PaymentService (n + 1) None,
      Publish PaymentService [] True, Deliver OrderService (n + 2) None]"

definition sold_twice :: "backend_event list" where
  \<comment> \<open>the inventory fails on the order of tenant 2, which is set aside on the retry topic, and the order is swept\<close>
  "sold_twice =
     RestockRequest 7 5 # order_one 1 0 @
     [NewOrder 2 2 [(7, 5, 10)] FreeTier 0, Publish OrderService [] True, DeliverFails InventoryService 3,
      StartSweep 900 [1], Commit 0, Publish OrderService [] True, Deliver InventoryService 4 None, Publish InventoryService [] True] @ order_one 3 6"

subsection \<open>Orders\<close>

text \<open>C16. Whatever is delivered, repeated, lost, placed and swept, in any interleaving of the three services and of the transactions
  in the order service: orders are only added, an order keeps its tenant, its key, its lines and its time, and once its status has changed it is never
  pending again. Its status moves along the arrows of the saga, and a confirmed or cancelled order stays so, as
  long as the handlers and the sweeper of the order service do not overlap: from any state in which no transaction is open, by
  any run in which none begins while another is open.\<close>

theorem order_lifecycle:
  fixes es es' :: "backend_event list"
  defines "b \<equiv> run backend_step initial_backend es"
  defines "ods \<equiv> domain (order_db b)" and "ods' \<equiv> domain (order_db (run backend_step b es'))"
  shows "keeps ods ods' \<and>
    (open_txns b = [] \<and> serial b es' \<longrightarrow> evolve ods ods' \<and>
      (\<forall>i < length ods. od_status (ods ! i) \<in> {CONFIRMED, CANCELLED, CANCELLED_NO_STOCK} \<longrightarrow>
         od_status (ods' ! i) = od_status (ods ! i)))"
proof (intro conjI impI)
  have "saga_inv b" unfolding b_def by (rule saga.inv_run)
  then show "keeps ods ods'" unfolding ods_def ods'_def by (intro order_db_run) (simp add: saga_inv_def rows_inv_def)
  assume s: "open_txns b = [] \<and> serial b es'"
  then have "one_at_a_time b" by (simp add: one_at_a_time_def)
  then show e: "evolve ods ods'" unfolding ods_def ods'_def using s by (intro serial_run) simp_all
  show "\<forall>i < length ods. od_status (ods ! i) \<in> {CONFIRMED, CANCELLED, CANCELLED_NO_STOCK} \<longrightarrow>
      od_status (ods' ! i) = od_status (ods ! i)"
    using e closed_status unfolding evolve_def by blast
qed

theorem order_lifecycle_witness:
  "od_status (domain (order_db (run backend_step (run backend_step initial_backend one_order) [StartSweep 900 [0], Commit 0])) ! 0) = CONFIRMED"
proof -
  let ?b = "run backend_step initial_backend one_order"
  have "length (domain (order_db ?b)) = 1 \<and> od_status (domain (order_db ?b) ! 0) = CONFIRMED \<and> open_txns ?b = [] \<and>
    serial ?b [StartSweep 900 [0], Commit 0]" by code_simp
  then show ?thesis using order_lifecycle [of one_order "[StartSweep 900 [0], Commit 0]"] by simp
qed

text \<open>Where they do overlap, the later commit wins. The sweeper reads a stale order, the payment confirms it, and the sweeper
  overwrites the confirmation: the order is cancelled, its stock is given back, and the customer has paid. The other way round, a
  cancelled order becomes confirmed although its stock was given back.\<close>

definition before_confirmation :: "backend_event list" where
  "before_confirmation = take 8 one_order"

theorem confirmation_overwritten:
  "let b = run backend_step initial_backend (before_confirmation @
       [StartSweep 900 [0], Deliver OrderService 2 None, Commit 0, Publish OrderService [] True, Deliver InventoryService 3 None])
   in map od_status (domain (order_db b)) = [CANCELLED] \<and> map pay_order (domain (payment_db b)) = [0] \<and>
      map_option available (domain (inventory_db b) 7) = Some 5"
  by code_simp

theorem cancellation_overwritten:
  "let b = run backend_step initial_backend (before_confirmation @
       [StartHandling 2, StartSweep 900 [0], Commit 1, Commit 0, Publish OrderService [] True, Deliver InventoryService 3 None])
   in map od_status (domain (order_db b)) = [CONFIRMED] \<and> map_option available (domain (inventory_db b) 7) = Some 5"
  by code_simp

text \<open>C17. An order is charged at most once, over all interleavings, repeated deliveries and failures of the
  broker, and what is charged is the amount of the order's own lines.\<close>

theorem charged_once:
  fixes es :: "backend_event list"
  defines "b \<equiv> run backend_step initial_backend es"
  shows "distinct (map pay_order (domain (payment_db b))) \<and>
    list_all (payment_ok (domain (order_db b))) (domain (payment_db b))"
proof -
  have i: "saga_inv b" unfolding b_def by (rule saga.inv_run)
  then have "chain_inv b" "lines_inv b" by (simp_all add: saga_inv_def)
  then show ?thesis using success_once [of b] by (simp add: chain_inv_def lines_inv_def)
qed

lemma filter_key:
  "distinct (map f xs) \<Longrightarrow> x \<in> set xs \<Longrightarrow> filter (\<lambda>y. f y = f x) xs = [x]"
  by (induction xs) (auto simp: filter_empty_conv image_iff)

lemma handled_success_paid:
  assumes i: "saga_inv b" and h: "handled success_of i PaymentService (outbox (payment_db b)) ibx"
  shows "i \<in> pay_order ` set (domain (payment_db b))"
proof -
  have "i \<in> set (subjects success_of (outbox (payment_db b)))"
    using h subjects_mem [of _ "outbox (payment_db b)" success_of i] by (auto simp: handled_def)
  moreover have "set (map pay_order (domain (payment_db b))) = set (subjects success_of (outbox (payment_db b)))"
    using i by (simp only: saga_inv_def chain_inv_def)
  ultimately show ?thesis by simp
qed

text \<open>C18. A confirmed order is paid and its stock was reserved: there is exactly one payment for it, of the amount of its
  lines, and the inventory reserved those lines for it, in every interleaving, overlapping transactions included.\<close>

theorem confirmed_is_paid:
  fixes es :: "backend_event list"
  defines "b \<equiv> run backend_step initial_backend es"
  assumes "i < length (domain (order_db b))" "od_status (domain (order_db b) ! i) = CONFIRMED"
  shows "filter (\<lambda>pr. pay_order pr = i) (domain (payment_db b)) =
      [\<lparr>pay_order = i, pay_amount = payment_amount (od_lines (domain (order_db b) ! i))\<rparr>] \<and>
    InventoryReservedEvent i (od_lines (domain (order_db b) ! i)) \<in> set (bodies (outbox (inventory_db b)))"
proof -
  let ?ods = "domain (order_db b)" and ?ps = "domain (payment_db b)"
  have inv: "saga_inv b" unfolding b_def by (rule saga.inv_run)
  then have s: "status_inv b" and l: "lines_inv b" and c: "chain_inv b" by (simp_all add: saga_inv_def)
  have h: "handled reserved_of i InventoryService (outbox (inventory_db b)) (inbox (order_db b))"
    "handled success_of i PaymentService (outbox (payment_db b)) (inbox (order_db b))"
    using s assms(2,3) by (simp_all add: status_inv_def)
  obtain pr where pr: "pr \<in> set ?ps" "pay_order pr = i" using handled_success_paid [OF inv h(2)] by auto
  have "payment_ok ?ods pr" using l pr(1) by (simp add: lines_inv_def list_all_iff)
  then have eq: "pr = \<lparr>pay_order = i, pay_amount = payment_amount (od_lines (?ods ! i))\<rparr>"
    using pr(2) by (simp add: payment_ok_def)
  have "distinct (map pay_order ?ps)" using success_once [OF c] c by (simp add: chain_inv_def)
  from filter_key [OF this pr(1)] have f: "filter (\<lambda>pr. pay_order pr = i) ?ps = [pr]" using pr(2) by simp
  obtain n where n: "n < length (outbox (inventory_db b))" "reserved_of (bodies (outbox (inventory_db b)) ! n) = Some i"
    using h(1) by (auto simp: handled_def)
  let ?x = "bodies (outbox (inventory_db b)) ! n"
  have x: "?x \<in> set (bodies (outbox (inventory_db b)))" using n(1) by simp
  then have "body_ok ?ods ?x" using lines_inv_bodies [OF l, of ?x InventoryService] by simp
  then have "?x = InventoryReservedEvent i (od_lines (?ods ! i))" using n(2) by (cases ?x) auto
  then show ?thesis using f eq x by simp
qed

theorem confirmed_is_paid_witness:
  "filter (\<lambda>pr. pay_order pr = 0) (domain (payment_db (run backend_step initial_backend one_order))) =
    [\<lparr>pay_order = 0, pay_amount = 20\<rparr>]"
proof -
  have "0 < length (domain (order_db (run backend_step initial_backend one_order)))"
    "od_status (domain (order_db (run backend_step initial_backend one_order)) ! 0) = CONFIRMED"
    "payment_amount (od_lines (domain (order_db (run backend_step initial_backend one_order)) ! 0)) = 20"
    by code_simp+
  then show ?thesis using confirmed_is_paid [of 0 one_order] by simp
qed

subsection \<open>A payment that comes early\<close>

definition missed :: "nat \<Rightarrow> backend \<Rightarrow> bool" where
  \<comment> \<open>the order service has read that the order was paid, and did not confirm it\<close>
  "missed i b \<longleftrightarrow> i < length (domain (order_db b)) \<and>
     handled success_of i PaymentService (outbox (payment_db b)) (inbox (order_db b)) \<and>
     od_status (domain (order_db b) ! i) \<noteq> CONFIRMED"

lemma missed_cong:
  assumes "missed i b" "domain (order_db b') = domain (order_db b)" "inbox (order_db b') = inbox (order_db b)"
    "bodies (outbox (payment_db b')) = bodies (write_all PaymentService out (outbox (payment_db b)))"
  shows "missed i b'"
  using assms handled_mono [OF _ subset_refl] handled_cong [OF assms(4)] unfolding missed_def by metis

lemma success_known:
  assumes i: "saga_inv b" and m: "missed i b" and g: "message s n b = Some (t, x)" and s: "success_of (ev_body x) = Some i"
  shows "ev_id x \<in> set (inbox (order_db b))"
proof -
  have inv: "rows_inv b" "chain_inv b" using i by (simp_all add: saga_inv_def)
  have a: "author (ev_body x) = PaymentService" using s by (cases "ev_body x") simp_all
  have row: "numbered PaymentService (outbox (payment_db b))" "x \<in> row_event ` set (outbox (payment_db b))"
    using message_row [OF inv(1) g] by (simp_all add: a)
  have "handled success_of i PaymentService (outbox (payment_db b)) (inbox (order_db b))"
    using m by (simp add: missed_def)
  from handled_event [OF this success_once [OF inv(2)] row s] show ?thesis .
qed

lemma missed_step:
  assumes i: "saga_inv b" and m: "missed i b"
  shows "missed i (backend_step b e)"
proof (rule backend_step_preserves)
  have inv: "rows_inv b" "chain_inv b" using i by (simp_all add: saga_inv_def)
  show "missed i (b\<lparr>order_db := \<lparr>domain = ods, inbox = inbox (order_db b) @ [ev_id x],
           outbox = write_all OrderService out (outbox (order_db b))\<rparr>\<rparr>)"
    if g: "message OrderService n b = Some (t, x)" and new: "ev_id x \<notin> set (inbox (order_db b))"
      and h: "order_handler (ev_body x) (domain (order_db b)) = Some (ods, out)" for n t x ods out
  proof -
    have no: "success_of (ev_body x) \<noteq> Some i" using success_known [OF i m g] new by blast
    have "i < length (domain (order_db b))" using m by (simp add: missed_def)
    from status_moves [OF h this] show ?thesis using m no order_handler_effect [OF h]
      by (auto simp: missed_def intro: handled_mono_inbox)
  qed
  show "missed i (publish c oks ok b)" for c oks ok
    by (rule missed_cong [OF m, of _ "[]"]) (use publish_frame [of _ c oks ok b] in \<open>simp_all add: publish_same\<close>)
  show "missed i (b\<lparr>payment_db := \<lparr>domain = ps, inbox = inbox (payment_db b) @ [ev_id x],
           outbox = write_all PaymentService out (outbox (payment_db b))\<rparr>\<rparr>)" for x ps out
    by (rule missed_cong [OF m, of _ out]) simp_all
  show "missed i (b\<lparr>order_db := \<lparr>domain = write_statuses (tx_writes tx) (domain (order_db b)),
           inbox = inbox (order_db b) @ (case tx_event tx of None \<Rightarrow> [] | Some x \<Rightarrow> [ev_id x]),
           outbox = write_all OrderService (tx_out tx) (outbox (order_db b))\<rparr>, open_txns := txs\<rparr>)"
    if tx: "tx \<in> set (open_txns b)" and new: "\<And>x. tx_event tx = Some x \<Longrightarrow> ev_id x \<notin> set (inbox (order_db b))" for tx txs
  proof -
    have no: "(i, CONFIRMED) \<notin> set (tx_writes tx)"
    proof
      assume "(i, CONFIRMED) \<in> set (tx_writes tx)"
      then have "write_ok b (tx_event tx) i CONFIRMED" using i tx by (fastforce simp: saga_inv_def txn_inv_def)
      then obtain n t x where x: "tx_event tx = Some x" "message OrderService n b = Some (t, x)" "success_of (ev_body x) = Some i"
        by (auto simp: write_ok_def)
      then show False using success_known [OF i m x(2,3)] new by blast
    qed
    have il: "i < length (domain (order_db b))" using m by (simp add: missed_def)
    show ?thesis using write_statuses_cases [OF il, of "tx_writes tx"] no m
      by (auto simp: missed_def intro: handled_mono_inbox)
  qed
qed (use m in \<open>simp_all add: missed_def nth_append\<close>)

lemma missed_run: "saga_inv b \<Longrightarrow> missed i b \<Longrightarrow> missed i (run backend_step b es)"
proof (induction es arbitrary: b)
  case (Cons e es)
  then show ?case using missed_step [of b i e] saga.inv_step [of b e] by simp
qed simp

text \<open>C21. When the order service reads that an order was paid before it reads that its stock was reserved, the payment
  is lost on it: whatever happens afterwards the order is not confirmed, and the customer stays charged.\<close>

theorem early_payment_lost:
  fixes es es' :: "backend_event list"
  defines "b \<equiv> run backend_step initial_backend es"
  assumes m: "message OrderService n b = Some (t, e)" and s: "success_of (ev_body e) = Some i"
    and new: "ev_id e \<notin> set (inbox (order_db b))" and pending: "od_status (domain (order_db b) ! i) = PENDING"
  shows "let b' = run backend_step (backend_step b (Deliver OrderService n lock)) es'
    in od_status (domain (order_db b') ! i) \<noteq> CONFIRMED \<and> i \<in> pay_order ` set (domain (payment_db b'))"
proof -
  define b1 where "b1 = backend_step b (Deliver OrderService n lock)"
  have inv: "saga_inv b" "saga_inv b1" unfolding b_def b1_def by (intro saga.inv_step saga.inv_run)+
  then have r: "rows_inv b" "lines_inv b" by (simp_all add: saga_inv_def)
  obtain ls where x: "ev_body e = PaymentSuccessEvent i ls" using s by (cases "ev_body e") auto
  have i: "i < length (domain (order_db b))" using message_body_ok [OF r m] by (simp add: x)
  have b1: "b1 = b\<lparr>order_db := \<lparr>domain = handle_payment_success i (domain (order_db b)),
      inbox = inbox (order_db b) @ [ev_id e], outbox = outbox (order_db b)\<rparr>\<rparr>"
    using m new by (simp add: b1_def handle_event_def List.member_iff x)
  have row: "numbered PaymentService (outbox (payment_db b))" "e \<in> row_event ` set (outbox (payment_db b))"
    using message_row [OF r(1) m] by (simp_all add: x)
  have "handled success_of i PaymentService (outbox (payment_db b)) (inbox (order_db b) @ [ev_id e])"
    by (rule handledI [where f = success_of, OF row s]) simp
  then have "missed i b1"
    using i pending by (simp add: b1 missed_def handle_payment_success_def move_def List.member_iff)
  then have "missed i (run backend_step b1 es')" by (rule missed_run [OF inv(2)])
  moreover have "saga_inv (run backend_step b1 es')" by (rule saga.inv_run_from [OF inv(2)])
  ultimately show ?thesis using handled_success_paid unfolding b1_def [symmetric] missed_def Let_def by blast
qed

theorem early_payment_lost_witness:
  "let b = run backend_step (backend_step (run backend_step initial_backend early_payment) (Deliver OrderService 2 None))
     [Deliver OrderService 1 None, StartSweep 900 [0], Commit 0]
   in od_status (domain (order_db b) ! 0) = CANCELLED \<and> 0 \<in> pay_order ` set (domain (payment_db b))"
proof -
  let ?b = "run backend_step initial_backend early_payment"
  have m: "message OrderService 2 ?b = Some (PaymentEvents, \<lparr>ev_id = (PaymentService, 0),
      ev_body = PaymentSuccessEvent 0 [\<lparr>li_product = 7, li_quantity = 2, li_price = Some 10, li_fail = False\<rparr>], ev_retry = 0\<rparr>)"
    "(PaymentService, 0) \<notin> set (inbox (order_db ?b))" "od_status (domain (order_db ?b) ! 0) = PENDING"
    by code_simp+
  have "od_status (domain (order_db (run backend_step (backend_step ?b (Deliver OrderService 2 None))
     [Deliver OrderService 1 None, StartSweep 900 [0], Commit 0])) ! 0) = CANCELLED" by code_simp
  then show ?thesis
    using early_payment_lost [of 2 early_payment _ _ 0 None "[Deliver OrderService 1 None, StartSweep 900 [0], Commit 0]", OF m(1)] m(2,3)
    by (simp only: saga_event.select_convs success_of.simps Let_def) simp
qed

subsection \<open>Stock\<close>

text \<open>C19. No unit is made or destroyed: over every run, what the inventory has of a product, available and reserved
  together, is what restocking brought, and no row is ever negative.\<close>

theorem stock_conserved:
  fixes es :: "backend_event list"
  defines "st \<equiv> domain (inventory_db (run backend_step initial_backend es))"
  shows "stock_ok st \<and> on_hand st p = sum_list (map (delivery p) es)"
proof -
  have "on_hand (domain (inventory_db initial_backend)) p = 0" by (simp add: initial_backend_def new_db_def on_hand_def)
  then show ?thesis
    using on_hand_run [OF saga.inv_init, of es p] saga.inv_run [of es] unfolding st_def by (simp add: saga_inv_def)
qed

definition no_release :: "backend \<Rightarrow> bool" where
  \<comment> \<open>no compensation is written or about to be\<close>
  "no_release b \<longleftrightarrow> \<not> list_ex releases (bodies (outbox (order_db b))) \<and> (\<forall>tx \<in> set (open_txns b). tx_out tx = [])"

lemma handled_quietly:
  assumes "saga_inv b" "message OrderService n b = Some (t, x)" "order_handler (ev_body x) (domain (order_db b)) = Some (ods, out)"
  shows "out = []"
proof -
  have "body_ok (domain (order_db b)) (ev_body x)" using assms(1) message_body_ok [OF _ _ assms(2)] by (simp add: saga_inv_def)
  then show ?thesis using assms(3) by (cases "ev_body x") auto
qed

lemma no_release_step:
  assumes i: "saga_inv b" and n: "no_release b" and e: "\<And>now is. e \<noteq> StartSweep now is"
  shows "no_release (backend_step b e)"
proof (rule backend_step_preserves)
  show "no_release (publish c oks ok b)" for c oks ok
    using n by (simp add: no_release_def publish_same)
  show "no_release (b\<lparr>order_db := \<lparr>domain = ods, inbox = inbox (order_db b) @ [ev_id x],
           outbox = write_all OrderService out (outbox (order_db b))\<rparr>\<rparr>)"
    if "message OrderService m b = Some (t, x)" "order_handler (ev_body x) (domain (order_db b)) = Some (ods, out)" for m t x ods out
    using handled_quietly [OF i that] n by (simp add: no_release_def)
  show "no_release (b\<lparr>open_txns := open_txns b @ [tx]\<rparr>)"
    if o: "(\<exists>m t x. message OrderService m b = Some (t, x) \<and> begin_handling x (order_db b) = Some tx) \<or>
      (\<exists>now is. e = StartSweep now is \<and> begin_sweep now is (order_db b) = Some tx)" for tx
  proof -
    obtain m t x where x: "message OrderService m b = Some (t, x)" "begin_handling x (order_db b) = Some tx" using o e by blast
    from begin_handling_effect [OF x(2)] handled_quietly [OF i x(1)] have "tx_out tx = []" by (metis order_txn.select_convs(3))
    then show ?thesis using n by (auto simp: no_release_def)
  qed
qed (use n in \<open>auto simp: no_release_def\<close>)

lemma no_release_run:
  "list_all (\<lambda>e. \<forall>now is. e \<noteq> StartSweep now is) es \<Longrightarrow> no_release (run backend_step initial_backend es)"
proof (induction es rule: rev_induct)
  case Nil
  then show ?case by (simp add: no_release_def initial_backend_def new_db_def)
next
  case (snoc e es)
  then show ?case using no_release_step [OF saga.inv_run [of es], of e] by simp
qed

fun sweeps :: "backend_event \<Rightarrow> bool" where
  "sweeps (StartSweep now is) = True"
| "sweeps _ = False"

text \<open>C20. As long as no order is swept, the shop never sells what it does not have: what the confirmed orders ask for of a
  product is at most what was restocked, in every interleaving.\<close>

theorem never_oversold:
  assumes "\<not> list_ex sweeps es"
  shows "sold p (run backend_step initial_backend es) \<le> sum_list (map (delivery p) es)"
proof -
  let ?b = "run backend_step initial_backend es"
  have "list_all (\<lambda>e. \<forall>now is. e \<noteq> StartSweep now is) es" using assms by (auto simp: list_all_iff list_ex_iff)
  from no_release_run [OF this] have "promised p (outbox (inventory_db ?b)) \<le> held (domain (inventory_db ?b)) p"
    using covered_run [of p es] by (simp add: covered_def no_release_def)
  moreover have i: "saga_inv ?b" by (rule saga.inv_run)
  moreover have "held (domain (inventory_db ?b)) p \<le> on_hand (domain (inventory_db ?b)) p"
    using i held_on_hand by (simp add: saga_inv_def)
  moreover have "on_hand (domain (inventory_db ?b)) p = sum_list (map (delivery p) es)"
    using on_hand_run [OF saga.inv_init, of es p] by (simp add: initial_backend_def new_db_def on_hand_def)
  ultimately show ?thesis using sold_promised [OF i, of p] by linarith
qed

theorem never_oversold_witness:
  "sold 7 (run backend_step initial_backend one_order) = 2 \<and> sold 7 (run backend_step initial_backend one_order) \<le> 5"
proof -
  have "\<not> list_ex sweeps one_order" "sum_list (map (delivery 7) one_order) = 5"
    "sold 7 (run backend_step initial_backend one_order) = 2" by code_simp+
  then show ?thesis using never_oversold [of one_order 7] by simp
qed

text \<open>The sweeper breaks that promise: it cancels an order the inventory never handled, the
  compensation gives back stock that was reserved for another order, and five units are sold to two customers.\<close>

theorem stock_sold_twice:
  "let b = run backend_step initial_backend sold_twice
   in on_hand (domain (inventory_db b)) 7 = 5 \<and> sold 7 b = 10 \<and>
      map od_status (domain (order_db b)) = [CONFIRMED, CANCELLED, CONFIRMED]"
  by code_simp

subsection \<open>Messages\<close>

text \<open>While the broker is up, the outbox loses nothing and keeps the order: polls enough to take every due row publish
  exactly the messages of the due rows, in the order they were written, and leave none due.\<close>

theorem outbox_drains:
  assumes "length (filter due (rows_of s b)) \<le> k * batch_size"
  shows "log (run backend_step b (replicate k (Publish s [] True))) = log b @ map as_message (filter due (rows_of s b)) \<and>
    filter due (rows_of s (run backend_step b (replicate k (Publish s [] True)))) = []"
  using publish_times [where k = k and s = s and b = b] assms by simp

theorem outbox_drains_witness:
  "length (log (run backend_step (run backend_step initial_backend [NewOrder 1 1 [(7, 2, 10)] FreeTier 0])
     (replicate 1 (Publish OrderService [] True)))) = 1"
proof -
  let ?b = "run backend_step initial_backend [NewOrder 1 1 [(7, 2, 10)] FreeTier 0]"
  have "length (filter due (rows_of OrderService ?b)) = 1" "log ?b = []" by code_simp+
  then show ?thesis using outbox_drains [of OrderService ?b 1] by (simp add: batch_size_def)
qed

text \<open>C27. Delivery is not at least once: when at most fifty rows of an outbox are due, as many as a poll takes, and the broker is down for five polls, every
  event that waits then is lost for good. The rows have used up their tries, and no run that follows publishes any of them; nothing
  tells the services to try again. Rows beyond the fifty that a poll takes keep their tries.\<close>

theorem outage_loses_events:
  fixes es es' :: "backend_event list"
  defines "b \<equiv> run backend_step initial_backend es"
  assumes few: "length (filter due (rows_of s b)) \<le> batch_size"
    and r: "r \<in> set (rows_of s b)" and unsent: "row_event r \<notin> snd ` set (log b)"
  shows "row_event r \<notin> snd ` set (log (run backend_step b (replicate max_retries (refuse s) @ es')))"
proof -
  let ?b = "run backend_step b (replicate max_retries (refuse s))"
  have f: "log ?b = log b" "rows_of s ?b = (age ^^ max_retries) (rows_of s b)"
    using refused_times [OF few, of max_retries] by simp_all
  have "row_event r \<in> set (map row_event (rows_of s ?b))"
    unfolding f(2) age_times_events using r by simp
  then obtain k where k: "k < length (rows_of s ?b)" "row_event (rows_of s ?b ! k) = row_event r"
    by (auto simp: in_set_conv_nth)
  have "\<not> due (rows_of s ?b ! k)" using age_exhausted [of "rows_of s b"] k(1) unfolding f(2) by (simp add: list_all_length)
  then have st: "stuck s k (rows_of s ?b ! k) ?b" using k(1) by (simp add: stuck_def)
  have inv: "saga_inv ?b" unfolding b_def by (intro saga.inv_run_from saga.inv_run)
  have "row_event (rows_of s ?b ! k) \<notin> snd ` set (log ?b)" using unsent unfolding k(2) f(1) .
  from stuck_run [OF inv st this] have "row_event (rows_of s ?b ! k) \<notin> snd ` set (log (run backend_step ?b es'))" .
  then show ?thesis unfolding k(2) run_append .
qed

theorem outage_loses_events_witness:
  "let b = run backend_step initial_backend [NewOrder 1 1 [(7, 2, 10)] FreeTier 0]
   in row_event (rows_of OrderService b ! 0) \<notin>
     snd ` set (log (run backend_step b (replicate max_retries (refuse OrderService) @ [Publish OrderService [] True])))"
proof -
  let ?b = "run backend_step initial_backend [NewOrder 1 1 [(7, 2, 10)] FreeTier 0]"
  have f: "length (filter due (rows_of OrderService ?b)) = 1" "length (rows_of OrderService ?b) = 1" "log ?b = []"
    by code_simp+
  then have "rows_of OrderService ?b ! 0 \<in> set (rows_of OrderService ?b)" by (intro nth_mem) simp
  then show ?thesis
    using outage_loses_events [of OrderService "[NewOrder 1 1 [(7, 2, 10)] FreeTier 0]" _ "[Publish OrderService [] True]"] f
    by (simp add: batch_size_def Let_def)
qed

text \<open>C28. Delivery may repeat itself: once a service was given a message, giving it the same message again, at any later
  time, changes nothing in any of the services.\<close>

theorem redelivery_ignored:
  assumes "message s n b = Some (t, e)"
  shows "backend_step (run backend_step (backend_step b (Deliver s n lock)) es) (Deliver s n lock') =
    run backend_step (backend_step b (Deliver s n lock)) es"
proof -
  let ?b = "backend_step b (Deliver s n lock)"
  have "settled s e ?b" using assms consume_settles [of s e lock b] by simp
  then have "settled s e (run backend_step ?b es)" by (rule settled_runs)
  moreover have "message s n (run backend_step ?b es) = Some (t, e)"
    by (rule message_run [OF message_step [OF assms]])
  ultimately show ?thesis using settled_consume by simp
qed

theorem redelivery_ignored_witness:
  "let b = run backend_step initial_backend early_payment
   in backend_step (run backend_step (backend_step b (Deliver PaymentService 1 None)) [StartSweep 900 [0], Commit 0]) (Deliver PaymentService 1 None) =
     run backend_step (backend_step b (Deliver PaymentService 1 None)) [StartSweep 900 [0], Commit 0]"
proof -
  have "message PaymentService 1 (run backend_step initial_backend early_payment) \<noteq> None" by code_simp
  then obtain t e where "message PaymentService 1 (run backend_step initial_backend early_payment) = Some (t, e)" by force
  from redelivery_ignored [OF this, of None "[StartSweep 900 [0], Commit 0]" None] show ?thesis unfolding Let_def .
qed

subsection \<open>The order service by itself\<close>

text \<open>C29. The sweeper, which works in batches of a hundred and ends, is the same as one pass that looks at every order once: every
  stale order is cancelled, no other is touched, and each is announced to the inventory exactly once.\<close>

theorem sweep_is_one_pass:
  "sweep (\<lambda>_. now) 0 db = db\<lparr>domain := swept_orders now (domain db),
     outbox := write_all OrderService (swept_events now (domain db)) (outbox db)\<rparr>"
  by (rule sweep_spec)

text \<open>Placing an order again with its key gives the same order and changes nothing, unless the plan's limit is
  reached meanwhile, if only by that order: the limit is looked at before the key.\<close>

theorem order_placed_again:
  assumes "create_order tenant key lines plan now db = Inr (i, db')"
  shows "create_order tenant key lines' plan now' db' =
    (if plan_limit plan \<le> length (filter (\<lambda>od. od_tenant od = tenant) (domain db'))
     then Inl (QuotaExceeded (plan_limit plan)) else Inr (i, db'))"
  using created_found [OF assms] by (simp add: create_order_def Let_def)

fun orders_of_tenant :: "nat \<Rightarrow> order_row list service_db" where
  "orders_of_tenant 0 = new_db []"
| "orders_of_tenant (Suc k) =
     (case create_order 1 k [(7, 1, 10)] FreeTier 0 (orders_of_tenant k) of Inr (i, db) \<Rightarrow> db | Inl e \<Rightarrow> orders_of_tenant k)"

theorem order_placed_again_witness:
  "create_order 1 14 [(7, 1, 10)] FreeTier 0 (orders_of_tenant 15) = Inl (QuotaExceeded 15)"
proof -
  have "(case create_order 1 14 [(7, 1, 10)] FreeTier 0 (orders_of_tenant 14) of Inr (i, db') \<Rightarrow> i | Inl e \<Rightarrow> 99) = 14"
    by code_simp
  then obtain i db' where c: "create_order 1 14 [(7, 1, 10)] FreeTier 0 (orders_of_tenant 14) = Inr (i, db')"
    by (auto split: sum.splits)
  then have d: "orders_of_tenant 15 = db'" using orders_of_tenant.simps(2) [of 14] by simp
  have "length (filter (\<lambda>od. od_tenant od = 1) (domain (orders_of_tenant 15))) = 15" by code_simp
  then show ?thesis using order_placed_again [OF c, of "[(7, 1, 10)]" 0] by (simp add: d)
qed

end
