(* ===== verification/Saga_Startup.thy ===== *)
theory Saga_Startup
  imports Order_Saga
begin

text \<open>
  How a service of the saga starts: \<open>main.py\<close> imports \<open>consumers.py\<close>, which takes its own copy of the name
  \<open>db_manager\<close> from \<open>database.py\<close>, and the lifespan of the application makes the manager, starts the
  producer, the outbox worker, the consumer and the sweeper, and logs what goes wrong. An object is the
  list of its attributes, and a name that was not assigned is bound to none. The HTTP interface takes the manager
  from \<open>database.py\<close> itself at each request.
\<close>

definition manager_attributes :: "string list" where
  \<comment> \<open>what the constructor of the session manager assigns, and its methods\<close>
  "manager_attributes =
     [''service_name'', ''_write_engine'', ''_write_sessionmaker'', ''_read_url'', ''_read_engine'', ''_read_sessionmaker'',
      ''close'', ''write_session'', ''read_session'', ''session'']"

record host =
  shared_manager :: "string list option"
  own_manager :: "string list option"
  producer_started :: bool
  worker_running :: bool
  consumer_running :: bool
  sweeper_running :: bool

definition new_host :: host where
  "new_host = \<lparr>shared_manager = None, own_manager = None, producer_started = False, worker_running = False,
     consumer_running = False, sweeper_running = False\<rparr>"

definition import_consumers :: "host \<Rightarrow> host" where
  "import_consumers h = h\<lparr>own_manager := shared_manager h\<rparr>"

definition init_db :: "host \<Rightarrow> host" where
  "init_db h = h\<lparr>shared_manager := Some manager_attributes\<rparr>"

definition has_attribute :: "string list option \<Rightarrow> string \<Rightarrow> bool" where
  "has_attribute obj a = (case obj of None \<Rightarrow> False | Some as \<Rightarrow> List.member as a)"

definition init_kafka :: "bool \<Rightarrow> service \<Rightarrow> host \<Rightarrow> host" where
  \<comment> \<open>whether the broker can be reached; an exception leaves what was started so far\<close>
  "init_kafka up s h =
     (if \<not> up then h
      else
        let h = h\<lparr>producer_started := True\<rparr> in
        if \<not> has_attribute (own_manager h) ''_sessionmaker'' then h
        else h\<lparr>worker_running := True, consumer_running := True, sweeper_running := s = OrderService\<rparr>)"

definition lifespan :: "bool \<Rightarrow> service \<Rightarrow> host \<Rightarrow> host" where
  \<comment> \<open>the exception of the start is caught and logged, and the application serves\<close>
  "lifespan up s h = init_kafka up s (init_db h)"

definition start_service :: "bool \<Rightarrow> service \<Rightarrow> host" where
  "start_service up s = lifespan up s (import_consumers new_host)"

fun enabled :: "(service \<Rightarrow> host) \<Rightarrow> backend_event \<Rightarrow> bool" where
  \<comment> \<open>requests are always served; the rest needs its background task\<close>
  "enabled hs (NewOrder tenant key lines plan now) = True"
| "enabled hs (ReserveRequest conflicts its) = True"
| "enabled hs (RestockRequest p q) = True"
| "enabled hs (Publish s oks ok) = worker_running (hs s)"
| "enabled hs (Deliver s n lock) = consumer_running (hs s)"
| "enabled hs (DeliverFails s n) = consumer_running (hs s)"
| "enabled hs (StartHandling n) = consumer_running (hs OrderService)"
| "enabled hs (StartSweep now is) = sweeper_running (hs OrderService)"
| "enabled hs (Commit k) = (consumer_running (hs OrderService) \<or> sweeper_running (hs OrderService))"
| "enabled hs (Rollback k) = (consumer_running (hs OrderService) \<or> sweeper_running (hs OrderService))"

definition hosted_step :: "(service \<Rightarrow> host) \<Rightarrow> backend \<Rightarrow> backend_event \<Rightarrow> backend" where
  "hosted_step hs b e = (if enabled hs e then backend_step b e else b)"

lemma start_idle:
  "\<not> worker_running (start_service up s)" "\<not> consumer_running (start_service up s)" "\<not> sweeper_running (start_service up s)"
  by (simp_all add: start_service_def lifespan_def init_kafka_def init_db_def import_consumers_def new_host_def
      has_attribute_def Let_def)

lemma not_an_attribute: "\<not> has_attribute (Some manager_attributes) ''_sessionmaker''"
  by code_simp

definition untouched :: "backend \<Rightarrow> bool" where
  "untouched b \<longleftrightarrow> log b = [] \<and> dead b = [] \<and> domain (payment_db b) = [] \<and>
     list_all (\<lambda>od. od_status od = PENDING) (domain (order_db b))"

lemma untouched_step:
  assumes "untouched b" shows "untouched (hosted_step (\<lambda>s. start_service (up s) s) b e)"
proof (cases e)
  case (NewOrder tenant key lines plan now)
  then show ?thesis using assms
    by (auto simp: hosted_step_def untouched_def create_order_def Let_def split: sum.split option.split)
qed (use assms in \<open>auto simp: hosted_step_def start_idle untouched_def split: sum.split\<close>)

interpretation startup: state_machine initial_backend "hosted_step (\<lambda>s. start_service (up s) s)" untouched for up
proof
  show "untouched initial_backend" by (simp add: untouched_def initial_backend_def new_db_def)
  show "untouched b \<Longrightarrow> untouched (hosted_step (\<lambda>s. start_service (up s) s) b e)" for b e by (rule untouched_step)
qed

text \<open>C22. As the services start, the saga never runs: the copy of \<open>db_manager\<close> in \<open>consumers.py\<close> stays unset, and even the manager
  has no \<open>_sessionmaker\<close>. So whatever clients send and whatever the broker does, nothing is ever published or charged, and
  every order stays pending for ever.\<close>

theorem saga_never_starts:
  fixes up :: "service \<Rightarrow> bool" and es :: "backend_event list"
  defines "b \<equiv> run (hosted_step (\<lambda>s. start_service (up s) s)) initial_backend es"
  shows "log b = [] \<and> domain (payment_db b) = [] \<and> list_all (\<lambda>od. od_status od = PENDING) (domain (order_db b))"
  using startup.inv_run [of up es] unfolding b_def untouched_def by blast

text \<open>Binding the name late would not help: the attribute does not exist.\<close>

theorem late_binding_fails:
  "\<not> worker_running (init_kafka up s (import_consumers (init_db new_host)))"
  using not_an_attribute
  by (simp add: init_kafka_def import_consumers_def init_db_def new_host_def Let_def)

end
