(* ===== verification/Api_Contract.thy ===== *)
theory Api_Contract
  imports Checkout
begin

text \<open>
  The interface between the client and the services behind the gateway: the requests of the pages
  (\<open>frontend/src/pages\<close>), the routes of the gateway (\<open>deployments/docker/kong.yml\<close>) and of the services
  (\<open>services/*/app/router.py\<close>) with the bodies they demand (\<open>schemas.py\<close>) and the roles they ask for in a
  header (\<open>RoleChecker\<close> in \<open>security.py\<close>), and the exceptions with the handlers that answer them (\<open>exceptions.py\<close>).

  The web framework is not part of the sources: it is the argument \<open>answer\<close>, which gets an application, that is routes with
  their dependencies and exception handlers, and a request. \<open>documented\<close> states what the theorems use of it, for every
  application: which status a request without a route gets, that an exception of a dependency goes to the handler for it, and that a
  body without a required field goes to the handler for invalid requests. What it answers otherwise is left open. A response is
  its status and the code under \<open>error\<close> in its body.
\<close>

subsection \<open>Requests\<close>

datatype http_method = GET | POST

datatype body =
    BNumber rat
  | BText jsstring
  | BList "body list"
  | BObject "(jsstring \<times> body) list"

record http_request =
  hr_method :: http_method
  hr_path :: "jsstring list"
  hr_roles :: "jsstring option"
  hr_body :: "body option"

definition item_body :: "reserve_item \<Rightarrow> body" where
  "item_body it = BObject [(''product_id'', BText (ri_product it)), (''quantity'', BNumber (ri_quantity it))]"

fun payment_value :: "payment_method \<Rightarrow> jsstring" where
  "payment_value CreditCard = ''credit_card''"
| "payment_value BankTransfer = ''bank_transfer''"

definition order_body :: "reserve_item list \<Rightarrow> jsstring \<Rightarrow> payment_method \<Rightarrow> body" where
  "order_body its addr pay =
     BObject [(''items'', BList (map item_body its)), (''shipping_address'', BText addr),
              (''payment_method'', BText (payment_value pay))]"

datatype client_call =
    ListOrders
  | OrderAnalytics
  | ReserveBatch "reserve_item list"
  | SubmitOrder "reserve_item list" jsstring payment_method
  | SignIn jsstring jsstring
  | ListUsers
  | BulkImport "body list"
  | ListProducts
  | ListInventory
  | RestockSku jsstring rat
  | RefreshToken jsstring

definition api_get :: "jsstring list \<Rightarrow> http_request" where
  "api_get ps = \<lparr>hr_method = GET, hr_path = ''api'' # ''v1'' # ps, hr_roles = None, hr_body = None\<rparr>"

definition api_post :: "jsstring list \<Rightarrow> body \<Rightarrow> http_request" where
  "api_post ps b = \<lparr>hr_method = POST, hr_path = ''api'' # ''v1'' # ps, hr_roles = None, hr_body = Some b\<rparr>"

fun client_request :: "client_call \<Rightarrow> http_request" where
  \<comment> \<open>the interceptors add a token, a tenant and other headers, but no roles\<close>
  "client_request ListOrders = api_get [''orders'']"
| "client_request OrderAnalytics = api_get [''orders'', ''analytics'']"
| "client_request (ReserveBatch its) = api_post [''inventory'', ''reserve-batch''] (BList (map item_body its))"
| "client_request (SubmitOrder its addr pay) = api_post [''orders''] (order_body its addr pay)"
| "client_request (SignIn name pw) = api_post [''auth'', ''login''] (BObject [(''email'', BText name), (''password'', BText pw)])"
| "client_request ListUsers = api_get [''auth'', ''users'']"
| "client_request (BulkImport ps) = api_post [''products'', ''bulk''] (BList ps)"
| "client_request ListProducts = api_get [''products'']"
| "client_request ListInventory = api_get [''inventory'']"
| "client_request (RestockSku name q) = api_post [''inventory'', ''restock''] (BObject [(''sku'', BText name), (''quantity'', BNumber q)])"
| "client_request (RefreshToken t) = api_post [''auth'', ''refresh''] (BObject [(''refresh_token'', BText t)])"

subsection \<open>Routes\<close>

datatype segment = Lit jsstring | Param

datatype schema =
    Scalar
  | ListOf nat schema
  | Fields "(jsstring \<times> bool \<times> schema) list"

fun may_accept :: "schema \<Rightarrow> body \<Rightarrow> bool" where
  \<comment> \<open>nothing that is required is missing; a field is a name, whether it is required, and its schema\<close>
  "may_accept Scalar b = True"
| "may_accept (ListOf n s) (BList bs) = (n \<le> length bs \<and> list_all (may_accept s) bs)"
| "may_accept (ListOf n s) b = False"
| "may_accept (Fields fs) (BObject kvs) =
     list_all (\<lambda>(k, required, s). case map_of kvs k of None \<Rightarrow> \<not> required | Some b \<Rightarrow> may_accept s b) fs"
| "may_accept (Fields fs) b = False"

subsection \<open>Exceptions and roles\<close>

record http_response =
  rs_status :: nat
  rs_code :: "jsstring option"

record cloud_exception =
  ce_message :: jsstring
  ce_code :: jsstring
  ce_status :: nat

definition forbidden_exception :: "jsstring \<Rightarrow> cloud_exception" where
  "forbidden_exception msg = \<lparr>ce_message = msg, ce_code = ''FORBIDDEN'', ce_status = 403\<rparr>"

definition cloudscale_exception_handler :: "cloud_exception \<Rightarrow> http_response" where
  "cloudscale_exception_handler e = \<lparr>rs_status = ce_status e, rs_code = Some (ce_code e)\<rparr>"

definition validation_exception_handler :: http_response where
  "validation_exception_handler = \<lparr>rs_status = 400, rs_code = Some ''VALIDATION_ERROR''\<rparr>"

fun split_commas :: "jsstring \<Rightarrow> jsstring list" where
  "split_commas [] = [[]]"
| "split_commas (c # cs) =
     (if c = CHR '','' then [] # split_commas cs
      else case split_commas cs of [] \<Rightarrow> [[c]] | w # ws \<Rightarrow> (c # w) # ws)"

definition py_space :: "char \<Rightarrow> bool" where
  \<comment> \<open>what \<open>strip\<close> removes, of the characters up to 255\<close>
  "py_space c \<longleftrightarrow> code_unit c \<in> {9, 10, 11, 12, 13, 28, 29, 30, 31, 32, 133, 160}"

definition py_strip :: "jsstring \<Rightarrow> jsstring" where
  "py_strip s = rev (dropWhile py_space (rev (dropWhile py_space s)))"

definition role_checker :: "jsstring list \<Rightarrow> jsstring option \<Rightarrow> cloud_exception + jsstring" where
  "role_checker allowed x_user_roles =
     (case x_user_roles of
        None \<Rightarrow> Inl (forbidden_exception ''Missing role information'')
      | Some h \<Rightarrow>
          if h = [] then Inl (forbidden_exception ''Missing role information'')
          else if \<not> list_ex (List.member allowed) (map py_strip (split_commas h))
          then Inl (forbidden_exception ''Insufficient permissions'')
          else Inr h)"

subsection \<open>The routes of the services\<close>

record route =
  rt_method :: http_method
  rt_path :: "segment list"
  rt_guard :: "(jsstring option \<Rightarrow> cloud_exception + jsstring) option"
  rt_limited :: bool
  rt_body :: "schema option"

definition order_item_create :: schema where
  "order_item_create = Fields [(''product_id'', True, Scalar), (''quantity'', True, Scalar), (''unit_price'', True, Scalar)]"

definition order_create :: schema where
  "order_create = Fields [(''items'', True, ListOf 1 order_item_create), (''idempotency_key'', True, Scalar)]"

definition order_routes :: "route list" where
  "order_routes =
     [\<lparr>rt_method = POST, rt_path = [Lit ''api'', Lit ''v1'', Lit ''orders''], rt_guard = None, rt_limited = False,
       rt_body = Some order_create\<rparr>,
      \<lparr>rt_method = GET, rt_path = [Lit ''api'', Lit ''v1'', Lit ''orders'', Lit ''analytics''], rt_guard = None,
       rt_limited = False, rt_body = None\<rparr>,
      \<lparr>rt_method = GET, rt_path = [Lit ''api'', Lit ''v1'', Lit ''orders'', Param], rt_guard = None, rt_limited = False,
       rt_body = None\<rparr>]"

definition restock_request :: schema where
  "restock_request = Fields [(''quantity'', True, Scalar)]"

definition batch_reserve_request :: schema where
  "batch_reserve_request = Fields [(''items'', True, ListOf 1 (Fields [(''product_id'', True, Scalar), (''quantity'', True, Scalar)]))]"

definition inventory_routes :: "route list" where
  "inventory_routes =
     [\<lparr>rt_method = GET, rt_path = [Lit ''api'', Lit ''v1'', Lit ''inventory'', Param], rt_guard = None, rt_limited = False,
       rt_body = None\<rparr>,
      \<lparr>rt_method = POST, rt_path = [Lit ''api'', Lit ''v1'', Lit ''inventory'', Param, Lit ''restock''],
       rt_guard = Some (role_checker [''merchant'', ''admin'']), rt_limited = False, rt_body = Some restock_request\<rparr>,
      \<lparr>rt_method = POST, rt_path = [Lit ''api'', Lit ''v1'', Lit ''inventory'', Lit ''reserve-batch''],
       rt_guard = Some (role_checker [''merchant'', ''admin'']), rt_limited = False, rt_body = Some batch_reserve_request\<rparr>]"

definition product_create :: schema where
  "product_create = Fields [(''sku'', True, Scalar), (''name'', True, Scalar), (''description'', False, Scalar), (''price'', True, Scalar)]"

definition catalog_routes :: "route list" where
  "catalog_routes =
     [\<lparr>rt_method = GET, rt_path = [Lit ''api'', Lit ''v1'', Lit ''products''], rt_guard = None, rt_limited = False, rt_body = None\<rparr>,
      \<lparr>rt_method = GET, rt_path = [Lit ''api'', Lit ''v1'', Lit ''products'', Lit ''recommendations''], rt_guard = None,
       rt_limited = False, rt_body = None\<rparr>,
      \<lparr>rt_method = GET, rt_path = [Lit ''api'', Lit ''v1'', Lit ''products'', Lit ''search'', Lit ''semantic''], rt_guard = None,
       rt_limited = False, rt_body = None\<rparr>,
      \<lparr>rt_method = GET, rt_path = [Lit ''api'', Lit ''v1'', Lit ''products'', Lit ''search'', Lit ''suggestions''], rt_guard = None,
       rt_limited = False, rt_body = None\<rparr>,
      \<lparr>rt_method = GET, rt_path = [Lit ''api'', Lit ''v1'', Lit ''products'', Param], rt_guard = None, rt_limited = False,
       rt_body = None\<rparr>,
      \<lparr>rt_method = POST, rt_path = [Lit ''api'', Lit ''v1'', Lit ''products''], rt_guard = Some (role_checker [''merchant'', ''admin'']),
       rt_limited = False, rt_body = Some product_create\<rparr>,
      \<lparr>rt_method = POST, rt_path = [Lit ''api'', Lit ''v1'', Lit ''products'', Lit ''bulk''],
       rt_guard = Some (role_checker [''merchant'', ''admin'']), rt_limited = False, rt_body = Some (ListOf 0 product_create)\<rparr>]"

definition user_register :: schema where
  "user_register = Fields [(''email'', True, Scalar), (''password'', True, Scalar), (''first_name'', False, Scalar),
     (''last_name'', False, Scalar)]"

definition user_login :: schema where
  "user_login = Fields [(''email'', True, Scalar), (''password'', True, Scalar)]"

definition refresh_request :: schema where
  "refresh_request = Fields [(''refresh_token'', True, Scalar)]"

definition auth_routes :: "route list" where
  "auth_routes =
     [\<lparr>rt_method = POST, rt_path = [Lit ''api'', Lit ''v1'', Lit ''auth'', Lit ''register''], rt_guard = None, rt_limited = True,
       rt_body = Some user_register\<rparr>,
      \<lparr>rt_method = POST, rt_path = [Lit ''api'', Lit ''v1'', Lit ''auth'', Lit ''login''], rt_guard = None, rt_limited = True,
       rt_body = Some user_login\<rparr>,
      \<lparr>rt_method = POST, rt_path = [Lit ''api'', Lit ''v1'', Lit ''auth'', Lit ''refresh''], rt_guard = None, rt_limited = True,
       rt_body = Some refresh_request\<rparr>,
      \<lparr>rt_method = POST, rt_path = [Lit ''api'', Lit ''v1'', Lit ''auth'', Lit ''logout''], rt_guard = None, rt_limited = False,
       rt_body = None\<rparr>,
      \<lparr>rt_method = GET, rt_path = [Lit ''api'', Lit ''v1'', Lit ''auth'', Lit ''me''], rt_guard = None, rt_limited = False,
       rt_body = None\<rparr>,
      \<lparr>rt_method = GET, rt_path = [Lit ''api'', Lit ''v1'', Lit ''auth'', Lit ''users''], rt_guard = Some (role_checker [''admin'']),
       rt_limited = False, rt_body = None\<rparr>]"

definition gateway :: "jsstring list \<Rightarrow> route list" where
  \<comment> \<open>the service whose prefix the path has; without one there are no routes\<close>
  "gateway path =
     (if take 3 path = [''api'', ''v1'', ''auth''] then auth_routes
      else if take 3 path = [''api'', ''v1'', ''products''] then catalog_routes
      else if take 3 path = [''api'', ''v1'', ''inventory''] then inventory_routes
      else if take 3 path = [''api'', ''v1'', ''orders''] then order_routes
      else [])"

subsection \<open>What the framework answers\<close>

fun segment_matches :: "segment \<Rightarrow> jsstring \<Rightarrow> bool" where
  "segment_matches (Lit l) p = (l = p)"
| "segment_matches Param p = (p \<noteq> '''')"

definition path_matches :: "route \<Rightarrow> http_request \<Rightarrow> bool" where
  "path_matches r rq \<longleftrightarrow> list_all2 segment_matches (rt_path r) (hr_path rq)"

definition route_matches :: "http_request \<Rightarrow> route \<Rightarrow> bool" where
  "route_matches rq r \<longleftrightarrow> path_matches r rq \<and> rt_method r = hr_method rq"

definition body_missing :: "route \<Rightarrow> http_request \<Rightarrow> bool" where
  "body_missing r rq \<longleftrightarrow>
     (case rt_body r of None \<Rightarrow> False | Some s \<Rightarrow> (case hr_body rq of None \<Rightarrow> True | Some b \<Rightarrow> \<not> may_accept s b))"

record service_app =
  app_routes :: "route list"
  on_cloudscale :: "cloud_exception \<Rightarrow> http_response"
  on_validation :: http_response

definition setup_exception_handlers :: "route list \<Rightarrow> service_app" where
  "setup_exception_handlers rs =
     \<lparr>app_routes = rs, on_cloudscale = cloudscale_exception_handler, on_validation = validation_exception_handler\<rparr>"

type_synonym framework = "service_app \<Rightarrow> http_request \<Rightarrow> http_response"

definition guard_raises :: "route \<Rightarrow> http_request \<Rightarrow> cloud_exception option" where
  "guard_raises r rq =
     (case rt_guard r of None \<Rightarrow> None | Some dep \<Rightarrow> (case dep (hr_roles rq) of Inl e \<Rightarrow> Some e | Inr h \<Rightarrow> None))"

definition documented :: "framework \<Rightarrow> bool" where
  \<comment> \<open>the first route for method and path; its dependency runs before the body is looked at; a rate limiter may answer first\<close>
  "documented answer \<longleftrightarrow> (\<forall>app rq.
     (\<not> list_ex (\<lambda>r. path_matches r rq) (app_routes app) \<longrightarrow> rs_status (answer app rq) = 404) \<and>
     (list_ex (\<lambda>r. path_matches r rq) (app_routes app) \<and> \<not> list_ex (route_matches rq) (app_routes app) \<longrightarrow>
        rs_status (answer app rq) = 405) \<and>
     (\<forall>r. find (route_matches rq) (app_routes app) = Some r \<and> \<not> rt_limited r \<longrightarrow>
        (\<forall>e. guard_raises r rq = Some e \<longrightarrow> answer app rq = on_cloudscale app e) \<and>
        (guard_raises r rq = None \<and> body_missing r rq \<longrightarrow> answer app rq = on_validation app)))"

definition plain_framework :: framework where
  \<comment> \<open>answers 200 whenever nothing documented stands against it\<close>
  "plain_framework app rq =
     (if \<not> list_ex (\<lambda>r. path_matches r rq) (app_routes app) then \<lparr>rs_status = 404, rs_code = None\<rparr>
      else case find (route_matches rq) (app_routes app) of
          None \<Rightarrow> \<lparr>rs_status = 405, rs_code = None\<rparr>
        | Some r \<Rightarrow>
            (case guard_raises r rq of
               Some e \<Rightarrow> on_cloudscale app e
             | None \<Rightarrow> if body_missing r rq then on_validation app else \<lparr>rs_status = 200, rs_code = None\<rparr>))"

lemma find_list_ex: "find P xs = None \<longleftrightarrow> \<not> list_ex P xs"
  by (induction xs) auto

lemma found_route:
  "find (route_matches rq) rs = Some r \<Longrightarrow> list_ex (route_matches rq) rs \<and> list_ex (\<lambda>r. path_matches r rq) rs"
  by (induction rs) (auto simp: route_matches_def split: if_splits)

lemma plain_documented: "documented plain_framework"
  unfolding documented_def
proof (intro allI)
  fix app rq
  show "(\<not> list_ex (\<lambda>r. path_matches r rq) (app_routes app) \<longrightarrow> rs_status (plain_framework app rq) = 404) \<and>
     (list_ex (\<lambda>r. path_matches r rq) (app_routes app) \<and> \<not> list_ex (route_matches rq) (app_routes app) \<longrightarrow>
        rs_status (plain_framework app rq) = 405) \<and>
     (\<forall>r. find (route_matches rq) (app_routes app) = Some r \<and> \<not> rt_limited r \<longrightarrow>
        (\<forall>e. guard_raises r rq = Some e \<longrightarrow> plain_framework app rq = on_cloudscale app e) \<and>
        (guard_raises r rq = None \<and> body_missing r rq \<longrightarrow> plain_framework app rq = on_validation app))"
    using found_route [of rq "app_routes app"] find_list_ex [of "route_matches rq" "app_routes app"]
    by (cases "find (route_matches rq) (app_routes app)") (simp_all add: plain_framework_def)
qed

definition backend_answer :: "framework \<Rightarrow> client_call \<Rightarrow> http_response" where
  "backend_answer answer c =
     answer (setup_exception_handlers (gateway (hr_path (client_request c)))) (client_request c)"

fun refused :: "client_call \<Rightarrow> (nat \<times> jsstring option) option" where
  \<comment> \<open>the status, and the code of the error where the services themselves answer\<close>
  "refused ListOrders = Some (405, None)"
| "refused ListInventory = Some (404, None)"
| "refused (RestockSku name q) = Some (405, None)"
| "refused (ReserveBatch its) = Some (403, Some ''FORBIDDEN'')"
| "refused ListUsers = Some (403, Some ''FORBIDDEN'')"
| "refused (BulkImport ps) = Some (403, Some ''FORBIDDEN'')"
| "refused (SubmitOrder its addr pay) = Some (400, Some ''VALIDATION_ERROR'')"
| "refused _ = None"

lemmas routing =
  api_get_def api_post_def gateway_def path_matches_def route_matches_def order_routes_def inventory_routes_def
  catalog_routes_def auth_routes_def setup_exception_handlers_def

lemma answer_404:
  "documented answer \<Longrightarrow> \<not> list_ex (\<lambda>r. path_matches r rq) (app_routes app) \<Longrightarrow> rs_status (answer app rq) = 404"
  by (simp add: documented_def)

lemma answer_405:
  "documented answer \<Longrightarrow> list_ex (\<lambda>r. path_matches r rq) (app_routes app) \<Longrightarrow> \<not> list_ex (route_matches rq) (app_routes app) \<Longrightarrow>
   rs_status (answer app rq) = 405"
  by (simp add: documented_def)

lemma answer_guard:
  "documented answer \<Longrightarrow> find (route_matches rq) (app_routes app) = Some r \<Longrightarrow> \<not> rt_limited r \<Longrightarrow> guard_raises r rq = Some e \<Longrightarrow>
   answer app rq = on_cloudscale app e"
  by (simp add: documented_def)

lemma answer_invalid:
  "documented answer \<Longrightarrow> find (route_matches rq) (app_routes app) = Some r \<Longrightarrow> \<not> rt_limited r \<Longrightarrow> guard_raises r rq = None \<Longrightarrow>
   body_missing r rq \<Longrightarrow> answer app rq = on_validation app"
  by (simp add: documented_def)

lemma no_roles_sent: "hr_roles (client_request c) = None"
  by (cases c) (simp_all add: api_get_def api_post_def)

lemma no_role_refused:
  assumes "documented answer" "find (route_matches (client_request c)) (gateway (hr_path (client_request c))) = Some r"
    and "\<not> rt_limited r" "rt_guard r = Some (role_checker allowed)"
  shows "backend_answer answer c = \<lparr>rs_status = 403, rs_code = Some ''FORBIDDEN''\<rparr>"
proof -
  let ?app = "setup_exception_handlers (gateway (hr_path (client_request c)))"
  have g: "guard_raises r (client_request c) = Some (forbidden_exception ''Missing role information'')"
    by (simp add: guard_raises_def assms(4) no_roles_sent role_checker_def)
  have "find (route_matches (client_request c)) (app_routes ?app) = Some r"
    using assms(2) by (simp add: setup_exception_handlers_def)
  from answer_guard [OF assms(1) this assms(3) g] show ?thesis
    by (simp add: backend_answer_def setup_exception_handlers_def cloudscale_exception_handler_def forbidden_exception_def)
qed

lemma order_body_refused: "\<not> may_accept order_create (order_body its addr pay)"
  by (simp add: order_create_def order_body_def)

lemma order_refused:
  assumes "documented answer"
  shows "backend_answer answer (SubmitOrder its addr pay) = \<lparr>rs_status = 400, rs_code = Some ''VALIDATION_ERROR''\<rparr>"
proof -
  let ?c = "SubmitOrder its addr pay"
  let ?app = "setup_exception_handlers (gateway (hr_path (client_request ?c)))"
  have "answer ?app (client_request ?c) = on_validation ?app"
    by (rule answer_invalid [OF assms, where r = "order_routes ! 0"])
      (simp_all add: routing body_missing_def guard_raises_def order_body_refused)
  then show ?thesis by (simp add: backend_answer_def setup_exception_handlers_def validation_exception_handler_def)
qed

text \<open>C24. Seven of the client's calls can never succeed against the services of the same repository, whatever the web framework does
  beyond its documentation: there is no route for the list of orders, the list of the stock and a restocking by SKU (404 and 405); the
  reservation, the import and the list of users are forbidden (403), as the role check refuses a request without the header of roles, which no part of the client sends;
  and an order is invalid (400), as it lacks the price of each item and the key the order service demands.\<close>

theorem backend_refuses:
  assumes "documented answer" "refused c = Some (n, code)"
  shows "rs_status (backend_answer answer c) = n \<and> (code \<noteq> None \<longrightarrow> rs_code (backend_answer answer c) = code)"
proof (cases c)
  case ListOrders
  then show ?thesis using assms(2) by (simp add: backend_answer_def, intro answer_405 [OF assms(1)]) (simp_all add: routing)
next
  case ListInventory
  then show ?thesis using assms(2) by (simp add: backend_answer_def, intro answer_404 [OF assms(1)]) (simp_all add: routing)
next
  case (RestockSku name q)
  then show ?thesis using assms(2) by (simp add: backend_answer_def, intro answer_405 [OF assms(1)]) (simp_all add: routing)
next
  case (ReserveBatch its)
  have "find (route_matches (client_request c)) (gateway (hr_path (client_request c))) = Some (inventory_routes ! 2)"
    by (simp add: ReserveBatch routing)
  from no_role_refused [OF assms(1) this] show ?thesis using assms(2) ReserveBatch by (simp add: inventory_routes_def)
next
  case ListUsers
  have "find (route_matches (client_request c)) (gateway (hr_path (client_request c))) = Some (auth_routes ! 5)"
    by (simp add: ListUsers routing)
  from no_role_refused [OF assms(1) this] show ?thesis using assms(2) ListUsers by (simp add: auth_routes_def)
next
  case (BulkImport ps)
  have "find (route_matches (client_request c)) (gateway (hr_path (client_request c))) = Some (catalog_routes ! 6)"
    by (simp add: BulkImport routing)
  from no_role_refused [OF assms(1) this] show ?thesis using assms(2) BulkImport by (simp add: catalog_routes_def)
next
  case (SubmitOrder its addr pay)
  then show ?thesis using assms(2) order_refused [OF assms(1)] by simp
qed (use assms in simp_all)

theorem backend_refuses_witness:
  "rs_status (backend_answer plain_framework ListOrders) = 405 \<and>
   rs_code (backend_answer plain_framework ListUsers) = Some ''FORBIDDEN''"
  using backend_refuses [OF plain_documented, of ListOrders 405 None]
    backend_refuses [OF plain_documented, of ListUsers 403 "Some ''FORBIDDEN''"] by simp

text \<open>The check believes the header: whoever writes an allowed role into it passes.\<close>

theorem header_is_believed:
  "role_checker [''merchant'', ''admin''] (Some ''shopper, admin'') = Inr ''shopper, admin'' \<and>
   role_checker [''merchant'', ''admin''] (Some ''shopper'') = Inl (forbidden_exception ''Insufficient permissions'')"
  by code_simp

subsection \<open>The checkout page on the services\<close>

fun honest :: "framework \<Rightarrow> checkout \<Rightarrow> checkout_event \<Rightarrow> bool" where
  \<comment> \<open>the order request succeeds only if the services answer it so\<close>
  "honest answer c (OrderAnswered env res) =
     (case ck_phase c of
        Ordering its d \<Rightarrow>
          res \<noteq> None \<or> rs_status (backend_answer answer (SubmitOrder its (full_address d) (payment d))) div 100 = 2
      | _ \<Rightarrow> True)"
| "honest answer c e = True"

fun honest_run :: "framework \<Rightarrow> checkout \<Rightarrow> checkout_event list \<Rightarrow> bool" where
  "honest_run answer c [] = True"
| "honest_run answer c (e # es) = (honest answer c e \<and> honest_run answer (checkout_step c e) es)"

lemma honest_step:
  assumes "documented answer" "honest answer c e" "\<not> ck_success c"
  shows "\<not> ck_success (checkout_step c e) \<and> ck_cart (checkout_step c e) = ck_cart c"
proof (cases e)
  case (Act a)
  show ?thesis
  proof (cases a)
    case Submit
    then show ?thesis using assms(3) by (simp add: Act submit_start_def rerender_def Let_def)
  qed (use assms(3) in \<open>simp_all add: Act rerender_def\<close>)
next
  case (OrderAnswered env res)
  show ?thesis
  proof (cases "ck_phase c")
    case (Ordering its d)
    then obtain x where "res = Some x"
      using assms(2) order_refused [OF assms(1), of its "full_address d" "payment d"] by (cases res) (simp_all add: OrderAnswered)
    then show ?thesis using assms(3) Ordering by (simp add: OrderAnswered order_answered_def rerender_def)
  qed (use assms(3) in \<open>simp_all add: OrderAnswered order_answered_def\<close>)
qed (use assms(3) in \<open>simp_all add: reserve_answered_def split: phase.split\<close>)

lemma honest_runs:
  "documented answer \<Longrightarrow> honest_run answer c es \<Longrightarrow> \<not> ck_success c \<Longrightarrow>
   \<not> ck_success (run checkout_step c es) \<and> ck_cart (run checkout_step c es) = ck_cart c"
proof (induction es arbitrary: c)
  case (Cons e es)
  have h: "honest answer c e" "honest_run answer (checkout_step c e) es" using Cons.prems(2) by simp_all
  note s = honest_step [OF Cons.prems(1) h(1) Cons.prems(3)]
  show ?case using Cons.IH [OF Cons.prems(1) h(2)] s by (simp del: checkout_step.simps)
qed simp

text \<open>C23. So nobody can order: in every run of the checkout page on these services, with any typing, submitting, network
  failures and retries, success is never shown and the cart stays as it was.\<close>

theorem checkout_never_succeeds:
  assumes "documented answer" "honest_run answer (mount_checkout cart notifs draft) es"
  shows "let c = run checkout_step (mount_checkout cart notifs draft) es in \<not> ck_success c \<and> ck_cart c = cart"
proof -
  have "\<not> ck_success (mount_checkout cart notifs draft) \<and> ck_cart (mount_checkout cart notifs draft) = cart"
    by (simp add: mount_checkout_def rerender_def Let_def split: option.split)
  then show ?thesis using honest_runs [OF assms] by (simp add: Let_def)
qed

theorem checkout_never_succeeds_witness:
  "ck_cart (run checkout_step (mount_checkout (addItem sample_item initial_cart) (initial_notifications ''now'' ''ago'')
       (Some \<lparr>shipping_address = ''1 Main St'', city = ''Pune'', zip_code = ''41100'', payment = BankTransfer\<rparr>))
     [Act Submit, ReserveAnswered None, OrderAnswered sample_env (Some Nothing)]) = addItem sample_item initial_cart"
proof -
  let ?c = "mount_checkout (addItem sample_item initial_cart) (initial_notifications ''now'' ''ago'')
    (Some \<lparr>shipping_address = ''1 Main St'', city = ''Pune'', zip_code = ''41100'', payment = BankTransfer\<rparr>)"
  have "honest_run plain_framework ?c [Act Submit, ReserveAnswered None, OrderAnswered sample_env (Some Nothing)]"
    by (simp split: phase.split)
  from checkout_never_succeeds [OF plain_documented this] show ?thesis unfolding Let_def by (rule conjunct2)
qed

end
