(* ===== verification/Auth_Service.thy ===== *)
theory Auth_Service
  imports Prelude Js_String
begin

text \<open>
  The auth service, \<open>services/auth/app/service.py\<close>, with what it uses of \<open>cloudscale_shared/security.py\<close>: signing in
  with the lockout, the rotation of refresh tokens, signing out, the check of an access token, and the rate limiter.
  Times are whole seconds. A key of Redis is a value with the time it expires. A handler waits between its look at Redis
  and what it writes, so signing in and rotating are two steps each, and other requests can come between.

  Tokens are what the service signed: \<open>decode_token\<close> accepts a token that was issued, is of the expected type
  and has not expired. The check of a password against its hash belongs to the hashing library and is the argument
  \<open>verify\<close>; rehashing, audit log and tenant are left out.
\<close>

type_synonym seconds = int

datatype token_kind = AccessToken | RefreshToken

record token =
  tk_jti :: nat
  tk_sub :: nat
  tk_kind :: token_kind
  tk_exp :: seconds

record account =
  ac_email :: jsstring
  ac_hash :: jsstring

record auth_server =
  accounts :: "account list"
  issued :: "token list"
  revoked :: "nat \<Rightarrow> seconds option"
  failures :: "jsstring \<Rightarrow> (nat \<times> seconds) option"
  signing_in :: "(nat \<times> jsstring \<times> jsstring) list"
  rotating :: "(nat \<times> token) list"

definition new_auth_server :: auth_server where
  "new_auth_server =
     \<lparr>accounts = [], issued = [], revoked = Map.empty, failures = Map.empty, signing_in = [], rotating = []\<rparr>"

subsection \<open>Passwords\<close>

definition is_upper :: "char \<Rightarrow> bool" where
  "is_upper c \<longleftrightarrow> 65 \<le> code_unit c \<and> code_unit c \<le> 90"

definition is_lower :: "char \<Rightarrow> bool" where
  "is_lower c \<longleftrightarrow> 97 \<le> code_unit c \<and> code_unit c \<le> 122"

definition ascii_digit :: "char \<Rightarrow> bool" where
  "ascii_digit c \<longleftrightarrow> 48 \<le> code_unit c \<and> code_unit c \<le> 57"

definition special_chars :: jsstring where
  "special_chars = ''!@#$%^&*()-_=+[]{}|;:'' @ [CHR 0x27] @ '',.<>?/`~''"

definition validate_password_policy :: "jsstring \<Rightarrow> jsstring list" where
  \<comment> \<open>of the letters, those of ASCII\<close>
  "validate_password_policy pw =
     (if length pw < 8 then [''Password must be at least 8 characters long.''] else [])
     @ (if 128 < length pw then [''Password must not exceed 128 characters.''] else [])
     @ (if list_ex is_upper pw then [] else [''Password must contain at least one uppercase letter.''])
     @ (if list_ex is_lower pw then [] else [''Password must contain at least one lowercase letter.''])
     @ (if list_ex ascii_digit pw then [] else [''Password must contain at least one digit.''])
     @ (if list_ex (List.member special_chars) pw then [] else [''Password must contain at least one special character.''])"

definition register_user :: "(jsstring \<Rightarrow> jsstring) \<Rightarrow> jsstring \<Rightarrow> jsstring \<Rightarrow> auth_server \<Rightarrow> auth_server" where
  "register_user hash email pw a =
     (if validate_password_policy pw \<noteq> [] then a
      else if list_ex (\<lambda>ac. ac_email ac = email) (accounts a) then a
      else a\<lparr>accounts := accounts a @ [\<lparr>ac_email = email, ac_hash = hash pw\<rparr>]\<rparr>)"

subsection \<open>Redis\<close>

definition alive :: "seconds \<Rightarrow> seconds \<Rightarrow> bool" where
  \<comment> \<open>a key that expires at \<open>x\<close> is still there\<close>
  "alive now x \<longleftrightarrow> now < x"

definition lockout_threshold :: nat where
  "lockout_threshold = 5"

definition lockout_duration :: seconds where
  "lockout_duration = 900"

definition is_account_locked :: "seconds \<Rightarrow> jsstring \<Rightarrow> auth_server \<Rightarrow> bool" where
  "is_account_locked now email a =
     (case failures a email of None \<Rightarrow> False | Some (c, x) \<Rightarrow> alive now x \<and> lockout_threshold \<le> c)"

definition incr_in_window :: "seconds \<Rightarrow> seconds \<Rightarrow> (nat \<times> seconds) option \<Rightarrow> nat \<times> seconds" where
  \<comment> \<open>\<open>incr\<close>, and \<open>expire\<close> when the count is one: later counts leave the time it expires\<close>
  "incr_in_window ttl now entry =
     (case entry of
        None \<Rightarrow> (1, now + ttl)
      | Some (c, x) \<Rightarrow> if alive now x then (c + 1, x) else (1, now + ttl))"

definition record_failed_login :: "seconds \<Rightarrow> jsstring \<Rightarrow> auth_server \<Rightarrow> auth_server" where
  "record_failed_login now email a =
     a\<lparr>failures := (failures a)(email \<mapsto> incr_in_window lockout_duration now (failures a email))\<rparr>"

definition clear_failed_logins :: "jsstring \<Rightarrow> auth_server \<Rightarrow> auth_server" where
  "clear_failed_logins email a = a\<lparr>failures := (failures a)(email := None)\<rparr>"

definition is_token_revoked :: "seconds \<Rightarrow> nat \<Rightarrow> auth_server \<Rightarrow> bool" where
  "is_token_revoked now jti a = (case revoked a jti of None \<Rightarrow> False | Some x \<Rightarrow> alive now x)"

definition revoke_token :: "seconds \<Rightarrow> token \<Rightarrow> auth_server \<Rightarrow> auth_server" where
  "revoke_token now t a = a\<lparr>revoked := (revoked a)(tk_jti t \<mapsto> now + max (tk_exp t - now) 1)\<rparr>"

subsection \<open>Tokens\<close>

definition access_lifetime :: seconds where
  "access_lifetime = 15 * 60"

definition refresh_lifetime :: seconds where
  "refresh_lifetime = 7 * 24 * 60 * 60"

definition create_token_pair :: "seconds \<Rightarrow> nat \<Rightarrow> auth_server \<Rightarrow> auth_server" where
  \<comment> \<open>identifiers are fresh: here the number of tokens issued before\<close>
  "create_token_pair now sub a =
     a\<lparr>issued := issued a @
        [\<lparr>tk_jti = length (issued a), tk_sub = sub, tk_kind = AccessToken, tk_exp = now + access_lifetime\<rparr>,
         \<lparr>tk_jti = Suc (length (issued a)), tk_sub = sub, tk_kind = RefreshToken, tk_exp = now + refresh_lifetime\<rparr>]\<rparr>"

definition decode_token :: "seconds \<Rightarrow> token_kind \<Rightarrow> token \<Rightarrow> auth_server \<Rightarrow> bool" where
  "decode_token now kind t a \<longleftrightarrow> List.member (issued a) t \<and> tk_kind t = kind \<and> now < tk_exp t"

definition current_user :: "seconds \<Rightarrow> token \<Rightarrow> auth_server \<Rightarrow> nat option" where
  "current_user now t a =
     (if decode_token now AccessToken t a \<and> \<not> is_token_revoked now (tk_jti t) a \<and> tk_sub t < length (accounts a)
      then Some (tk_sub t) else None)"

subsection \<open>Requests\<close>

datatype auth_event =
    Register jsstring jsstring
  | LoginStart nat jsstring jsstring
  | LoginFinish nat
  | RotateStart nat token
  | RotateFinish nat
  | SignOut token

fun find_account :: "jsstring \<Rightarrow> account list \<Rightarrow> nat option" where
  "find_account email [] = None"
| "find_account email (ac # acs) = (if ac_email ac = email then Some 0 else map_option Suc (find_account email acs))"

definition password_matches :: "(jsstring \<Rightarrow> jsstring \<Rightarrow> bool) \<Rightarrow> jsstring \<Rightarrow> jsstring \<Rightarrow> auth_server \<Rightarrow> nat option" where
  "password_matches verify email pw a =
     (case find_account email (accounts a) of
        None \<Rightarrow> None
      | Some i \<Rightarrow> if verify pw (ac_hash (accounts a ! i)) then Some i else None)"

definition login_start :: "seconds \<Rightarrow> nat \<Rightarrow> jsstring \<Rightarrow> jsstring \<Rightarrow> auth_server \<Rightarrow> auth_server" where
  "login_start now i email pw a =
     (if is_account_locked now email a then a else a\<lparr>signing_in := (i, email, pw) # signing_in a\<rparr>)"

definition login_finish :: "(jsstring \<Rightarrow> jsstring \<Rightarrow> bool) \<Rightarrow> seconds \<Rightarrow> nat \<Rightarrow> auth_server \<Rightarrow> auth_server" where
  "login_finish verify now i a =
     (case map_of (signing_in a) i of
        None \<Rightarrow> a
      | Some (email, pw) \<Rightarrow>
          let a1 = a\<lparr>signing_in := filter (\<lambda>p. fst p \<noteq> i) (signing_in a)\<rparr> in
          (case password_matches verify email pw a1 of
             None \<Rightarrow> record_failed_login now email a1
           | Some u \<Rightarrow> create_token_pair now u (clear_failed_logins email a1)))"

definition rotate_start :: "seconds \<Rightarrow> nat \<Rightarrow> token \<Rightarrow> auth_server \<Rightarrow> auth_server" where
  "rotate_start now i t a =
     (if decode_token now RefreshToken t a \<and> \<not> is_token_revoked now (tk_jti t) a
      then a\<lparr>rotating := (i, t) # rotating a\<rparr> else a)"

definition rotate_finish :: "seconds \<Rightarrow> nat \<Rightarrow> auth_server \<Rightarrow> auth_server" where
  "rotate_finish now i a =
     (case map_of (rotating a) i of
        None \<Rightarrow> a
      | Some t \<Rightarrow> create_token_pair now (tk_sub t)
          (revoke_token now t (a\<lparr>rotating := filter (\<lambda>p. fst p \<noteq> i) (rotating a)\<rparr>)))"

definition sign_out :: "seconds \<Rightarrow> token \<Rightarrow> auth_server \<Rightarrow> auth_server" where
  "sign_out now t a = (if decode_token now AccessToken t a then revoke_token now t a else a)"

fun auth_step ::
    "(jsstring \<Rightarrow> jsstring) \<Rightarrow> (jsstring \<Rightarrow> jsstring \<Rightarrow> bool) \<Rightarrow> auth_server \<Rightarrow> seconds \<times> auth_event \<Rightarrow> auth_server" where
  "auth_step hash verify a (now, Register email pw) = register_user hash email pw a"
| "auth_step hash verify a (now, LoginStart i email pw) = login_start now i email pw a"
| "auth_step hash verify a (now, LoginFinish i) = login_finish verify now i a"
| "auth_step hash verify a (now, RotateStart i t) = rotate_start now i t a"
| "auth_step hash verify a (now, RotateFinish i) = rotate_finish now i a"
| "auth_step hash verify a (now, SignOut t) = sign_out now t a"

fun in_time :: "seconds \<Rightarrow> (seconds \<times> auth_event) list \<Rightarrow> bool" where
  \<comment> \<open>the clock does not go back\<close>
  "in_time t [] = True"
| "in_time t (e # es) = (t \<le> fst e \<and> in_time (fst e) es)"

subsection \<open>Revoked tokens\<close>

definition numbered_tokens :: "auth_server \<Rightarrow> bool" where
  "numbered_tokens a \<longleftrightarrow> map tk_jti (issued a) = [0..<length (issued a)] \<and> (\<forall>p \<in> set (rotating a). snd p \<in> set (issued a))"

definition spent :: "token \<Rightarrow> auth_server \<Rightarrow> bool" where
  \<comment> \<open>revoked until it expires at least\<close>
  "spent t a \<longleftrightarrow> t \<in> set (issued a) \<and> (\<exists>x. revoked a (tk_jti t) = Some x \<and> tk_exp t \<le> x)"

lemma token_unique:
  assumes "numbered_tokens a" "t \<in> set (issued a)" "t' \<in> set (issued a)" "tk_jti t = tk_jti t'"
  shows "t = t'"
proof -
  have "distinct (map tk_jti (issued a))" using assms(1) by (simp add: numbered_tokens_def)
  then show ?thesis using assms(2-) by (simp add: distinct_map inj_on_def)
qed

lemma numbered_pair: "numbered_tokens a \<Longrightarrow> numbered_tokens (create_token_pair now u a)"
  by (auto simp: numbered_tokens_def create_token_pair_def)

lemma numbered_same:
  "numbered_tokens a \<Longrightarrow> issued a' = issued a \<Longrightarrow> set (rotating a') \<subseteq> set (rotating a) \<Longrightarrow> numbered_tokens a'"
  by (auto simp: numbered_tokens_def)

lemma spent_same: "spent t a \<Longrightarrow> issued a' = issued a \<Longrightarrow> revoked a' = revoked a \<Longrightarrow> spent t a'"
  by (simp add: spent_def)

lemma spent_pair: "spent t a \<Longrightarrow> spent t (create_token_pair now u a)"
  by (auto simp: spent_def create_token_pair_def)

lemma revoke_spends: "t \<in> set (issued a) \<Longrightarrow> spent t (revoke_token now t a)"
  by (simp add: spent_def revoke_token_def)

lemma spent_revoke:
  assumes "numbered_tokens a" "spent t a" "t' \<in> set (issued a)" shows "spent t (revoke_token now t' a)"
proof (cases "tk_jti t' = tk_jti t")
  case True
  then have "t' = t" using token_unique [OF assms(1) assms(3)] assms(2) by (simp add: spent_def)
  then show ?thesis using revoke_spends [OF assms(3)] by simp
qed (use assms in \<open>auto simp: spent_def revoke_token_def\<close>)

lemma map_of_filter_set: "map_of xs i = Some y \<Longrightarrow> (i, y) \<in> set xs"
  by (rule map_of_SomeD)

lemma auth_step_tokens:
  assumes n: "numbered_tokens a"
  shows "numbered_tokens (auth_step hash verify a (now, e)) \<and> (spent t a \<longrightarrow> spent t (auth_step hash verify a (now, e)))"
proof (cases e)
  case (LoginFinish i)
  then show ?thesis using n
    by (auto simp: login_finish_def record_failed_login_def clear_failed_logins_def Let_def split: option.split
        intro!: numbered_pair spent_pair elim: numbered_same spent_same)
next
  case (RotateStart i t')
  then show ?thesis using n by (auto simp: rotate_start_def decode_token_def List.member_iff numbered_tokens_def spent_def)
next
  case (RotateFinish i)
  show ?thesis
  proof (cases "map_of (rotating a) i")
    case (Some t')
    let ?a = "a\<lparr>rotating := filter (\<lambda>p. fst p \<noteq> i) (rotating a)\<rparr>"
    have a: "numbered_tokens ?a" "spent t a \<longrightarrow> spent t ?a" using n by (auto simp: numbered_tokens_def spent_def)
    have t': "t' \<in> set (issued ?a)" using map_of_SomeD [OF Some] n by (force simp: numbered_tokens_def)
    have "numbered_tokens (revoke_token now t' ?a)" using a(1) by (rule numbered_same) (simp_all add: revoke_token_def)
    then show ?thesis using a(2) spent_revoke [OF a(1) _ t'] Some
      by (simp add: RotateFinish rotate_finish_def numbered_pair spent_pair)
  qed (use n in \<open>simp add: RotateFinish rotate_finish_def\<close>)
next
  case (SignOut t')
  show ?thesis
  proof (cases "decode_token now AccessToken t' a")
    case True
    then have "t' \<in> set (issued a)" by (simp add: decode_token_def List.member_iff)
    moreover have "numbered_tokens (revoke_token now t' a)" using n by (rule numbered_same) (simp_all add: revoke_token_def)
    ultimately show ?thesis using spent_revoke [OF n] True by (simp add: SignOut sign_out_def)
  qed (use n in \<open>simp add: SignOut sign_out_def\<close>)
qed (use n in \<open>auto simp: register_user_def login_start_def elim: numbered_same spent_same\<close>)

interpretation auth_tokens: state_machine new_auth_server "auth_step hash verify" numbered_tokens for hash verify
proof
  show "numbered_tokens new_auth_server" by (simp add: numbered_tokens_def new_auth_server_def)
  show "numbered_tokens a \<Longrightarrow> numbered_tokens (auth_step hash verify a e)" for a e
    using auth_step_tokens [of a hash verify "fst e" "snd e"] by simp
qed

lemma spent_run:
  "numbered_tokens a \<Longrightarrow> spent t a \<Longrightarrow> spent t (run (auth_step hash verify) a es)"
proof (induction es arbitrary: a)
  case (Cons e es)
  then show ?case using auth_step_tokens [of a hash verify "fst e" "snd e" t] by simp
qed simp

lemma spent_refused: "spent t a \<Longrightarrow> rotate_start now i t a = a \<and> current_user now t a = None"
  by (auto simp: spent_def rotate_start_def current_user_def is_token_revoked_def alive_def decode_token_def)

end
