(* ===== verification/Auth_Limits.thy ===== *)
theory Auth_Limits
  imports Auth_Service
begin

text \<open>
  What the auth service promises: a token that was rotated or signed out is never accepted again, and the lockout and
  the rate limiter (\<open>RateLimiter\<close> in \<open>security.py\<close>) bound what they count. Both count in windows that
  begin with the first event; the bounds are shown once, by how much a window and those after it still allow. And where the
  promises end: between the look at Redis and the write, and at the refresh token of a session that is signed out.
\<close>

subsection \<open>Counting in windows\<close>

definition window_budget :: "nat \<Rightarrow> seconds \<Rightarrow> seconds \<Rightarrow> seconds \<Rightarrow> (nat \<times> seconds) option \<Rightarrow> nat" where
  \<comment> \<open>how many events windows of \<open>k\<close> allow from \<open>now\<close> until the \<open>end\<close>\<close>
  "window_budget k ttl end now entry =
     (case entry of
        Some (c, x) \<Rightarrow>
          if alive now x then (k - c) + (if x \<le> end then k * Suc (nat ((end - x) div ttl)) else 0)
          else k * Suc (nat ((end - now) div ttl))
      | None \<Rightarrow> k * Suc (nat ((end - now) div ttl)))"

lemma div_mono_nat: "0 < ttl \<Longrightarrow> (a::int) \<le> b \<Longrightarrow> nat (a div ttl) \<le> nat (b div ttl)"
  by (intro nat_mono zdiv_mono1)

lemma budget_later:
  assumes "0 < ttl" "now \<le> now'" "now' \<le> end"
  shows "window_budget k ttl end now' entry \<le> window_budget k ttl end now entry"
proof (cases entry)
  case None
  then show ?thesis using div_mono_nat [OF assms(1), of "end - now'" "end - now"] assms by (simp add: window_budget_def)
next
  case (Some cx)
  obtain c x where cx: "cx = (c, x)" by (cases cx)
  consider "now' < x" | "now < x" "x \<le> now'" | "x \<le> now" by linarith
  then show ?thesis
  proof cases
    case 1
    then show ?thesis using assms by (simp add: window_budget_def Some cx alive_def)
  next
    case 2
    have "k * Suc (nat ((end - now') div ttl)) \<le> k * Suc (nat ((end - x) div ttl))"
      using div_mono_nat [OF assms(1), of "end - now'" "end - x"] 2 by (intro mult_le_mono2) simp
    moreover have "window_budget k ttl end now' entry = k * Suc (nat ((end - now') div ttl))"
      "window_budget k ttl end now entry = (k - c) + k * Suc (nat ((end - x) div ttl))"
      using 2 assms by (simp_all add: window_budget_def Some cx alive_def)
    ultimately show ?thesis by linarith
  next
    case 3
    then show ?thesis using div_mono_nat [OF assms(1), of "end - now'" "end - now"] assms
      by (simp add: window_budget_def Some cx alive_def)
  qed
qed

lemma window_unfold:
  fixes ttl :: int
  assumes "0 < ttl" "now \<le> end"
  shows "nat ((end - now) div ttl) = (if now + ttl \<le> end then Suc (nat ((end - (now + ttl)) div ttl)) else 0)"
proof (cases "now + ttl \<le> end")
  case True
  have "end - now = (end - (now + ttl)) + ttl" by simp
  then have "(end - now) div ttl = (end - (now + ttl)) div ttl + 1" using assms(1) by (metis div_add_self2 less_irrefl)
  then show ?thesis using True assms(1) by (simp add: nat_add_distrib pos_imp_zdiv_nonneg_iff)
qed (use assms in \<open>simp add: div_pos_pos_trivial\<close>)

lemma fresh_window:
  assumes "0 < ttl" "now \<le> end" "0 < k"
  shows "Suc (window_budget k ttl end now (Some (1, now + ttl))) = k * Suc (nat ((end - now) div ttl))"
  unfolding window_unfold [OF assms(1,2)] using assms by (simp add: window_budget_def alive_def)

text \<open>An event that is counted while the window has room takes one from the budget; no event adds to it.\<close>

lemma counted_event:
  assumes "0 < ttl" "now \<le> end" "0 < k"
    and room: "\<And>c x. entry = Some (c, x) \<Longrightarrow> alive now x \<Longrightarrow> c < k"
  shows "Suc (window_budget k ttl end now (Some (incr_in_window ttl now entry))) \<le> window_budget k ttl end now entry"
proof (cases "\<exists>c x. entry = Some (c, x) \<and> alive now x")
  case True
  then obtain c x where "entry = Some (c, x)" "alive now x" by blast
  then show ?thesis using room by (simp add: incr_in_window_def window_budget_def)
next
  case False
  then have "incr_in_window ttl now entry = (1, now + ttl)" "window_budget k ttl end now entry = k * Suc (nat ((end - now) div ttl))"
    by (auto simp: incr_in_window_def window_budget_def split: option.split)
  then show ?thesis using fresh_window [OF assms(1-3)] by simp
qed

lemma any_event:
  assumes "0 < ttl" "now \<le> end" "0 < k"
  shows "window_budget k ttl end now (Some (incr_in_window ttl now entry)) \<le> window_budget k ttl end now entry"
proof (cases "\<exists>c x. entry = Some (c, x) \<and> alive now x \<and> k \<le> c")
  case True
  then show ?thesis by (auto simp: incr_in_window_def window_budget_def)
next
  case False
  then show ?thesis using counted_event [OF assms, of entry] by (metis Suc_leD not_le)
qed

subsection \<open>The lockout\<close>

text \<open>An attempt whose two steps nothing comes between.\<close>

definition attempt :: "(jsstring \<Rightarrow> jsstring \<Rightarrow> bool) \<Rightarrow> auth_server \<Rightarrow> seconds \<times> jsstring \<times> jsstring \<Rightarrow> auth_server" where
  "attempt verify a e = (case e of (now, email, pw) \<Rightarrow> login_finish verify now 0 (login_start now 0 email pw a))"

fun guesses :: "(jsstring \<Rightarrow> jsstring \<Rightarrow> bool) \<Rightarrow> jsstring \<Rightarrow> auth_server \<Rightarrow> (seconds \<times> jsstring \<times> jsstring) list \<Rightarrow> nat" where
  \<comment> \<open>how often a password was compared for the account\<close>
  "guesses verify email a [] = 0"
| "guesses verify email a (e # es) =
     (if fst (snd e) = email \<and> \<not> is_account_locked (fst e) email a then 1 else 0) + guesses verify email (attempt verify a e) es"

fun within :: "seconds \<Rightarrow> seconds \<Rightarrow> (seconds \<times> 'a) list \<Rightarrow> bool" where
  \<comment> \<open>the times do not go back, and stay between the bounds\<close>
  "within t0 t1 [] = True"
| "within t0 t1 (e # es) = (t0 \<le> fst e \<and> fst e \<le> t1 \<and> within (fst e) t1 es)"

lemma password_matches_cong:
  "accounts a' = accounts a \<Longrightarrow> password_matches verify email pw a' = password_matches verify email pw a"
  by (simp add: password_matches_def cong: option.case_cong)

lemma attempt_cases:
  assumes "signing_in a = []"
  shows "attempt verify a (now, email, pw) =
    (if is_account_locked now email a then a
     else case password_matches verify email pw a of
         None \<Rightarrow> record_failed_login now email a
       | Some u \<Rightarrow> create_token_pair now u (clear_failed_logins email a))"
proof -
  have a: "a\<lparr>signing_in := []\<rparr> = a" using assms by (metis auth_server.surjective auth_server.update_convs(5))
  show ?thesis by (simp add: attempt_def login_start_def login_finish_def Let_def assms a)
qed

lemma attempt_frame:
  assumes "signing_in a = []"
  shows "signing_in (attempt verify a e) = [] \<and> accounts (attempt verify a e) = accounts a \<and>
    (fst (snd e) \<noteq> email \<longrightarrow> failures (attempt verify a e) email = failures a email)"
proof -
  obtain now em pw where e: "e = (now, em, pw)" by (cases e)
  show ?thesis using assms
    by (simp add: e attempt_cases record_failed_login_def create_token_pair_def clear_failed_logins_def split: option.split)
qed

lemma guesses_budget:
  assumes "signing_in a = []" "within t0 t1 es"
    and "\<And>pw. (email, pw) \<in> snd ` set es \<Longrightarrow> password_matches verify email pw a = None"
  shows "guesses verify email a es \<le> window_budget lockout_threshold lockout_duration t1 t0 (failures a email)"
  using assms
proof (induction es arbitrary: a t0)
  case (Cons e es)
  obtain now em pw where e: "e = (now, em, pw)" by (cases e)
  let ?a = "attempt verify a e" and ?b = "window_budget lockout_threshold lockout_duration t1"
  have t: "t0 \<le> now" "now \<le> t1" "within now t1 es" using Cons.prems(2) by (simp_all add: e)
  have f: "signing_in ?a = []" "accounts ?a = accounts a" "em \<noteq> email \<longrightarrow> failures ?a email = failures a email"
    using attempt_frame [OF Cons.prems(1), of verify e email] by (simp_all add: e)
  have m: "password_matches verify email pw' ?a = None" if "(email, pw') \<in> snd ` set es" for pw'
    using Cons.prems(3) [of pw'] that password_matches_cong [OF f(2)] by simp
  have ih: "guesses verify email ?a es \<le> ?b now (failures ?a email)" using Cons.IH [OF f(1) t(3) m] by simp
  have pos: "0 < lockout_duration" "0 < lockout_threshold" by (simp_all add: lockout_duration_def lockout_threshold_def)
  have later: "?b now (failures a email) \<le> ?b t0 (failures a email)" using budget_later [OF pos(1) t(1,2)] .
  show ?case
  proof (cases "em = email \<and> \<not> is_account_locked now email a")
    case True
    have "password_matches verify email pw a = None" using Cons.prems(3) [of pw] True by (simp add: e image_iff)
    then have fa: "failures ?a email = Some (incr_in_window lockout_duration now (failures a email))"
      using True Cons.prems(1) by (simp add: e attempt_cases record_failed_login_def)
    have "Suc (?b now (failures ?a email)) \<le> ?b now (failures a email)"
      unfolding fa by (rule counted_event [OF pos(1) t(2) pos(2)]) (use True in \<open>auto simp: is_account_locked_def\<close>)
    then show ?thesis using ih later True by (simp add: e)
  next
    case False
    have "failures ?a email = failures a email"
    proof (cases "em = email")
      case True
      then show ?thesis using False Cons.prems(1) by (simp add: e attempt_cases)
    qed (use f(3) in simp)
    moreover have "guesses verify email a (e # es) = guesses verify email ?a es" using False by (simp only: guesses.simps e fst_conv snd_conv if_False add_0)
    ultimately show ?thesis using ih later by simp
  qed
qed simp

text \<open>A count begins with one, so a window that has begun leaves room for four.\<close>

definition counts_begun :: "auth_server \<Rightarrow> bool" where
  "counts_begun a \<longleftrightarrow> (\<forall>email c x. failures a email = Some (c, x) \<longrightarrow> 1 \<le> c)"

lemma counts_begun_same: "counts_begun a \<Longrightarrow> failures a' = failures a \<Longrightarrow> counts_begun a'"
  by (simp add: counts_begun_def)

lemma counts_begun_login: "counts_begun a \<Longrightarrow> counts_begun (login_finish verify now i a)"
  by (auto simp: counts_begun_def login_finish_def record_failed_login_def incr_in_window_def clear_failed_logins_def
      create_token_pair_def Let_def split: option.split prod.split if_splits)

interpretation auth_counts: state_machine new_auth_server "auth_step hash verify" counts_begun for hash verify
proof
  show "counts_begun new_auth_server" by (simp add: counts_begun_def new_auth_server_def)
  show "counts_begun (auth_step hash verify a e)" if c: "counts_begun a" for a e
  proof (cases e)
    case (Pair now ev)
    show ?thesis
      by (cases ev)
        (auto simp: Pair register_user_def login_start_def rotate_start_def rotate_finish_def sign_out_def revoke_token_def
          create_token_pair_def counts_begun_login [OF c] split: option.split intro!: counts_begun_same [OF c])
  qed
qed

lemma window_budget_begun:
  assumes "0 < ttl" "t0 \<le> t1" "\<And>c x. entry = Some (c, x) \<Longrightarrow> 1 \<le> c"
  shows "window_budget (Suc k) ttl t1 t0 entry \<le> k + Suc k * Suc (nat ((t1 - t0) div ttl))"
proof (cases entry)
  case (Some cx)
  obtain c x where cx: "cx = (c, x)" by (cases cx)
  have "1 \<le> c" using assms(3) Some cx by simp
  moreover have "Suc k * Suc (nat ((t1 - x) div ttl)) \<le> Suc k * Suc (nat ((t1 - t0) div ttl))" if "t0 < x"
    using div_mono_nat [OF assms(1), of "t1 - x" "t1 - t0"] that by (intro mult_le_mono2) simp
  ultimately show ?thesis by (auto simp: window_budget_def Some cx alive_def)
qed (simp add: window_budget_def)

lemma within_bounds: "within t0 t1 es \<Longrightarrow> es \<noteq> [] \<Longrightarrow> t0 \<le> t1"
  by (cases es) auto

text \<open>C25. Somebody who tries passwords of an account, one request after the other and all of them wrong, has at most
  five compared for each fifteen minutes begun since the first when no failure is counted at the start, however many requests
  are sent and whatever is tried on other accounts. From any state the service can be in, while no other sign-in is under way,
  at most four more: the windows do not slide, so what is left of a window that has begun comes on top.\<close>

theorem guesses_bounded:
  fixes es0 :: "(seconds \<times> auth_event) list" and hash :: "jsstring \<Rightarrow> jsstring"
    and verify :: "jsstring \<Rightarrow> jsstring \<Rightarrow> bool"
  defines "a \<equiv> run (auth_step hash verify) new_auth_server es0"
  assumes "signing_in a = []" "within t0 t1 es"
    and "\<And>pw. (email, pw) \<in> snd ` set es \<Longrightarrow> password_matches verify email pw a = None"
  shows "guesses verify email a es \<le> 4 + 5 * Suc (nat ((t1 - t0) div 900)) \<and>
    (failures a email = None \<longrightarrow> guesses verify email a es \<le> 5 * Suc (nat ((t1 - t0) div 900)))"
proof (cases "es = []")
  case False
  let ?b = "window_budget lockout_threshold lockout_duration t1 t0 (failures a email)"
  have g: "guesses verify email a es \<le> ?b" using guesses_budget [OF assms(2,3,4)] .
  have "counts_begun a" unfolding a_def by (rule auth_counts.inv_run)
  then have begun: "1 \<le> c" if "failures a email = Some (c, x)" for c x using that unfolding counts_begun_def by blast
  have "?b \<le> 4 + 5 * Suc (nat ((t1 - t0) div 900))"
    using window_budget_begun [of lockout_duration t0 t1 "failures a email" 4] begun within_bounds [OF assms(3) False]
    by (simp add: lockout_threshold_def lockout_duration_def)
  then have "guesses verify email a es \<le> 4 + 5 * Suc (nat ((t1 - t0) div 900))" using g by (rule order_trans [rotated])
  moreover have "guesses verify email a es \<le> 5 * Suc (nat ((t1 - t0) div 900))" if "failures a email = None"
    using g by (simp add: that window_budget_def lockout_threshold_def lockout_duration_def)
  ultimately show ?thesis by blast
qed simp

theorem guesses_bounded_witness:
  "guesses (=) ''a@b.c'' new_auth_server (map (\<lambda>t. (int t, ''a@b.c'', ''guess'')) [0..<8]) = 5 \<and>
   guesses (=) ''a@b.c'' new_auth_server (map (\<lambda>t. (int t, ''a@b.c'', ''guess'')) [0..<8]) \<le> 5"
proof -
  have "within 0 7 (map (\<lambda>t. (int t, ''a@b.c'', ''guess'')) [0..<8])" by code_simp
  moreover have "guesses (=) ''a@b.c'' new_auth_server (map (\<lambda>t. (int t, ''a@b.c'', ''guess'')) [0..<8]) = 5" by code_simp
  ultimately show ?thesis
    using guesses_bounded [of id "(=)" "[]" 0 7 _ "''a@b.c''"]
    by (simp add: new_auth_server_def password_matches_def)
qed

text \<open>The bound is met: after one failure, nine guesses in two seconds at the seam of two windows.\<close>

theorem nine_guesses:
  "guesses (=) ''a@b.c'' (run (auth_step id (=)) new_auth_server [(0, LoginStart 0 ''a@b.c'' ''x''), (0, LoginFinish 0)])
     (replicate 4 (899, ''a@b.c'', ''y'') @ replicate 9 (900, ''a@b.c'', ''z'')) = 9"
  by code_simp

text \<open>Requests that are sent at once are not bounded: all of them pass the look at the count before any failure is counted.\<close>

theorem lockout_raced:
  assumes "\<not> is_account_locked now email a"
  shows "length (signing_in (run (auth_step hash verify) a (map (\<lambda>(i, pw). (now, LoginStart i email pw)) tries))) =
    length (signing_in a) + length tries"
  using assms
proof (induction tries arbitrary: a)
  case (Cons t tries)
  obtain i pw where t: "t = (i, pw)" by (cases t)
  let ?a = "a\<lparr>signing_in := (i, email, pw) # signing_in a\<rparr>"
  have "\<not> is_account_locked now email ?a" using Cons.prems by (simp add: is_account_locked_def)
  from Cons.IH [OF this] show ?case using Cons.prems by (simp add: t login_start_def)
qed simp

theorem lockout_raced_witness:
  "length (signing_in (run (auth_step id (=)) new_auth_server
     (map (\<lambda>(i, pw). (0, LoginStart i ''a@b.c'' pw)) [(0, ''a''), (1, ''b''), (2, ''c''), (3, ''d''), (4, ''e''), (5, ''f'')]))) = 6"
proof -
  have "\<not> is_account_locked 0 ''a@b.c'' new_auth_server" by (simp add: is_account_locked_def new_auth_server_def)
  from lockout_raced [OF this, of id "(=)" "[(0, ''a''), (1, ''b''), (2, ''c''), (3, ''d''), (4, ''e''), (5, ''f'')]"]
  show ?thesis by (simp add: new_auth_server_def)
qed

subsection \<open>The rate limiter\<close>

definition rate_limit :: "nat \<Rightarrow> seconds \<Rightarrow> (nat \<times> seconds) option \<Rightarrow> seconds \<Rightarrow> bool \<times> (nat \<times> seconds) option" where
  \<comment> \<open>whether a request passes, and the entry of its address and path afterwards\<close>
  "rate_limit max_requests window entry now =
     (let e = incr_in_window window now entry in (fst e \<le> max_requests, Some e))"

fun passed :: "nat \<Rightarrow> seconds \<Rightarrow> (nat \<times> seconds) option \<Rightarrow> seconds list \<Rightarrow> nat" where
  "passed max_requests window entry [] = 0"
| "passed max_requests window entry (now # ts) =
     (case rate_limit max_requests window entry now of
        (ok, entry') \<Rightarrow> (if ok then 1 else 0) + passed max_requests window entry' ts)"

fun ascending_times :: "seconds \<Rightarrow> seconds \<Rightarrow> seconds list \<Rightarrow> bool" where
  "ascending_times t0 t1 [] = True"
| "ascending_times t0 t1 (t # ts) = (t0 \<le> t \<and> t \<le> t1 \<and> ascending_times t t1 ts)"

lemma passed_budget:
  assumes "0 < max_requests" "0 < window" "ascending_times t0 t1 ts"
  shows "passed max_requests window entry ts \<le> window_budget max_requests window t1 t0 entry"
  using assms(3)
proof (induction ts arbitrary: entry t0)
  case (Cons now ts)
  let ?e = "incr_in_window window now entry" and ?b = "window_budget max_requests window t1"
  have t: "t0 \<le> now" "now \<le> t1" "ascending_times now t1 ts" using Cons.prems by simp_all
  have ih: "passed max_requests window (Some ?e) ts \<le> ?b now (Some ?e)" using Cons.IH [OF t(3)] .
  have later: "?b now entry \<le> ?b t0 entry" using budget_later [OF assms(2) t(1,2)] .
  show ?case
  proof (cases "fst ?e \<le> max_requests")
    case True
    have "Suc (?b now (Some ?e)) \<le> ?b now entry"
      by (rule counted_event [OF assms(2) t(2) assms(1)]) (use True in \<open>auto simp: incr_in_window_def\<close>)
    then show ?thesis using ih later True by (simp add: rate_limit_def Let_def)
  next
    case False
    then show ?thesis using ih later any_event [OF assms(2) t(2) assms(1), of entry] by (simp add: rate_limit_def Let_def)
  qed
qed simp

text \<open>The limiter lets at most its number of requests through in each window; but the windows are fixed, not sliding as its
  documentation says: twice the number passes within a moment at the seam of two windows.\<close>

theorem rate_limited:
  assumes "0 < max_requests" "0 < window" "ascending_times t0 t1 ts"
  shows "passed max_requests window None ts \<le> max_requests * Suc (nat ((t1 - t0) div window))"
  using passed_budget [OF assms, of None] by (simp add: window_budget_def)

theorem rate_limited_witness: "passed 10 60 None [0, 1, 2, 3, 4, 5, 6, 7, 8, 9, 10, 11] \<le> 10"
  using rate_limited [of 10 60 0 11 "[0, 1, 2, 3, 4, 5, 6, 7, 8, 9, 10, 11]"] by simp

theorem limiter_not_sliding:
  "passed 10 60 None (0 # replicate 9 59 @ replicate 10 60) = 20"
  by code_simp

subsection \<open>Tokens\<close>

text \<open>C26. A refresh token that was rotated, and an access token that was signed out, are never accepted again, at any later time and
  whatever requests come between: the entry in Redis lives as long as the token.\<close>

theorem spent_tokens_refused:
  fixes es es' :: "(seconds \<times> auth_event) list" and hash :: "jsstring \<Rightarrow> jsstring"
    and verify :: "jsstring \<Rightarrow> jsstring \<Rightarrow> bool"
  defines "a \<equiv> run (auth_step hash verify) new_auth_server es"
  assumes "e = RotateFinish i \<and> map_of (rotating a) i = Some t \<or> e = SignOut t \<and> decode_token now AccessToken t a"
  shows "let a' = run (auth_step hash verify) (auth_step hash verify a (now, e)) es'
    in rotate_start now' j t a' = a' \<and> current_user now' t a' = None"
proof -
  have n: "numbered_tokens a" unfolding a_def by (rule auth_tokens.inv_run)
  have n1: "numbered_tokens (auth_step hash verify a (now, e))" by (rule auth_tokens.inv_step [OF n])
  have "spent t (auth_step hash verify a (now, e))"
    using assms(2)
  proof (elim disjE conjE)
    assume e: "e = RotateFinish i" "map_of (rotating a) i = Some t"
    then have "t \<in> set (issued a)" using n map_of_SomeD [OF e(2)] by (force simp: numbered_tokens_def)
    then show ?thesis using e by (simp add: rotate_finish_def revoke_spends spent_pair)
  next
    assume e: "e = SignOut t" "decode_token now AccessToken t a"
    then have "t \<in> set (issued a)" by (simp add: decode_token_def List.member_iff)
    then show ?thesis using e by (simp add: sign_out_def revoke_spends)
  qed
  from spent_run [OF n1 this] show ?thesis using spent_refused unfolding Let_def by blast
qed

definition one_login :: "(seconds \<times> auth_event) list" where
  "one_login = [(0, Register ''a@b.c'' ''Passw0rd!''), (0, LoginStart 0 ''a@b.c'' ''Passw0rd!''), (0, LoginFinish 0)]"

definition its_refresh_token :: token where
  "its_refresh_token = \<lparr>tk_jti = 1, tk_sub = 0, tk_kind = RefreshToken, tk_exp = 604800\<rparr>"

theorem spent_tokens_refused_witness:
  "let a = run (auth_step id (=)) new_auth_server (one_login @ [(5, RotateStart 1 its_refresh_token), (5, RotateFinish 1)])
   in rotate_start 6 2 its_refresh_token a = a"
proof -
  have "map_of (rotating (run (auth_step id (=)) new_auth_server (one_login @ [(5, RotateStart 1 its_refresh_token)]))) 1 =
      Some its_refresh_token" by code_simp
  then show ?thesis
    using spent_tokens_refused [where e = "RotateFinish 1" and i = 1 and hash = id and verify = "(=)" and now = 5 and now' = 6 and j = 2
        and t = its_refresh_token and es = "one_login @ [(5, RotateStart 1 its_refresh_token)]" and es' = "[]"]
    by (simp add: Let_def)
qed

text \<open>Two rotations with the same token that overlap both succeed: the second looks before the first has revoked it.\<close>

theorem rotated_twice:
  "length (issued (run (auth_step id (=)) new_auth_server (one_login @
     [(5, RotateStart 1 its_refresh_token), (5, RotateStart 2 its_refresh_token), (5, RotateFinish 1), (5, RotateFinish 2)]))) = 6"
  by code_simp

text \<open>Signing out does not end the session: the refresh token that came with the access token goes on being accepted.\<close>

theorem refresh_outlives_sign_out:
  assumes "numbered_tokens a" "decode_token now RefreshToken r a" "\<not> is_token_revoked now (tk_jti r) a" "tk_kind t = AccessToken"
  shows "map_of (rotating (rotate_start now i r (sign_out now t a))) i = Some r"
proof (cases "decode_token now AccessToken t a")
  case True
  have "t \<noteq> r" using True assms(2,4) by (auto simp: decode_token_def)
  then have "tk_jti t \<noteq> tk_jti r"
    using token_unique [OF assms(1), of t r] True assms(2) by (auto simp: decode_token_def List.member_iff)
  then show ?thesis using True assms(2,3)
    by (simp add: sign_out_def revoke_token_def rotate_start_def decode_token_def is_token_revoked_def)
qed (use assms in \<open>simp add: sign_out_def rotate_start_def\<close>)

theorem refresh_outlives_sign_out_witness:
  "let a = run (auth_step id (=)) new_auth_server one_login
   in map_of (rotating (rotate_start 9 3 its_refresh_token (sign_out 9 (issued a ! 0) a))) 3 = Some its_refresh_token"
proof -
  let ?a = "run (auth_step id (=)) new_auth_server one_login"
  have "decode_token 9 RefreshToken its_refresh_token ?a" "\<not> is_token_revoked 9 (tk_jti its_refresh_token) ?a"
    "tk_kind (issued ?a ! 0) = AccessToken" by code_simp+
  from refresh_outlives_sign_out [OF auth_tokens.inv_run this] show ?thesis by (simp add: Let_def)
qed

end
