(* ===== verification/Dialog_Effects.thy ===== *)
theory Dialog_Effects
  imports Prelude
begin

text \<open>
  The effects of the two dialogs, \<open>components/ui/Modal.tsx\<close> and \<open>Drawer.tsx\<close>, on the document they share: the
  listener for the Escape key and the scroll lock of the body. An effect runs again when \<open>open\<close> or
  the handler changed, and the handler is a new one whenever \<open>onClose\<close> is; a commit
  runs all clean-ups of the effects that run again, and then these effects, both in the order of the dialogs.
  The identity of a function is a number.
\<close>

record dialog =
  dg_open :: bool
  dg_onClose :: nat

record page_document =
  key_listeners :: "(nat \<times> nat) list"
  scroll_locked :: bool

text \<open>A listener is known by its dialog and the \<open>onClose\<close> it closes over; adding it again has no effect.\<close>

definition effect_cleanup :: "nat \<Rightarrow> dialog \<Rightarrow> page_document \<Rightarrow> page_document" where
  "effect_cleanup i d doc =
     doc\<lparr>key_listeners := removeAll (i, dg_onClose d) (key_listeners doc), scroll_locked := False\<rparr>"

definition effect_setup :: "nat \<Rightarrow> dialog \<Rightarrow> page_document \<Rightarrow> page_document" where
  "effect_setup i d doc =
     (if dg_open d then
        doc\<lparr>key_listeners := (if List.member (key_listeners doc) (i, dg_onClose d) then key_listeners doc
                              else key_listeners doc @ [(i, dg_onClose d)]),
            scroll_locked := True\<rparr>
      else doc)"

record dialogs =
  mounted :: "dialog list"
  doc :: page_document

definition no_dialogs :: dialogs where
  "no_dialogs = \<lparr>mounted = [], doc = \<lparr>key_listeners = [], scroll_locked = False\<rparr>\<rparr>"

definition reruns :: "dialog list \<Rightarrow> dialog list \<Rightarrow> nat \<Rightarrow> bool" where
  \<comment> \<open>the first effect of a dialog runs too\<close>
  "reruns old new i \<longleftrightarrow> \<not> (i < length old \<and> old ! i = new ! i)"

definition commit :: "dialogs \<Rightarrow> dialog list \<Rightarrow> dialogs" where
  \<comment> \<open>a render of the page: the dialogs it has are those it had, and perhaps more\<close>
  "commit s new =
     (let old = mounted s;
          again = filter (reruns old new) [0..<length new];
          d1 = foldl (\<lambda>d i. effect_cleanup i (old ! i) d) (doc s) (filter (\<lambda>i. i < length old) again);
          d2 = foldl (\<lambda>d i. effect_setup i (new ! i) d) d1 again
      in \<lparr>mounted = new, doc = d2\<rparr>)"

definition press_escape :: "dialogs \<Rightarrow> nat list" where
  \<comment> \<open>the calls of \<open>onClose\<close>\<close>
  "press_escape s = map snd (key_listeners (doc s))"

definition open_listeners :: "dialog list \<Rightarrow> (nat \<times> nat) list" where
  "open_listeners ds = map (\<lambda>i. (i, dg_onClose (ds ! i))) (filter (\<lambda>i. dg_open (ds ! i)) [0..<length ds])"

definition in_step :: "dialogs \<Rightarrow> bool" where
  \<comment> \<open>the document says what the dialogs are\<close>
  "in_step s \<longleftrightarrow> key_listeners (doc s) = open_listeners (mounted s) \<and>
     (scroll_locked (doc s) \<longleftrightarrow> list_ex dg_open (mounted s))"

lemma cleanup_run:
  "foldl (\<lambda>d i. effect_cleanup i (old ! i) d) d is =
     \<lparr>key_listeners = filter (\<lambda>l. l \<notin> set (map (\<lambda>i. (i, dg_onClose (old ! i))) is)) (key_listeners d),
      scroll_locked = (is = [] \<and> scroll_locked d)\<rparr>"
proof (induction "is" arbitrary: d)
  case (Cons i "is")
  have "filter (\<lambda>l. l \<noteq> (i, dg_onClose (old ! i)) \<and> l \<notin> set (map (\<lambda>i. (i, dg_onClose (old ! i))) is)) (key_listeners d) =
    filter (\<lambda>l. l \<notin> set (map (\<lambda>i. (i, dg_onClose (old ! i))) is)) (removeAll (i, dg_onClose (old ! i)) (key_listeners d))"
    by (simp add: removeAll_filter_not_eq filter_filter conj_commute eq_commute)
  then show ?case unfolding foldl_Cons Cons by (simp add: effect_cleanup_def)
qed (simp add: filter_id_conv)

lemma setup_run:
  "distinct is \<Longrightarrow> (\<forall>i \<in> set is. \<forall>h. (i, h) \<notin> set (key_listeners d)) \<Longrightarrow>
   foldl (\<lambda>d i. effect_setup i (new ! i) d) d is =
     \<lparr>key_listeners = key_listeners d @ map (\<lambda>i. (i, dg_onClose (new ! i))) (filter (\<lambda>i. dg_open (new ! i)) is),
      scroll_locked = (scroll_locked d \<or> list_ex (\<lambda>i. dg_open (new ! i)) is)\<rparr>"
proof (induction "is" arbitrary: d)
  case (Cons i "is")
  let ?d = "effect_setup i (new ! i) d"
  have "\<forall>j \<in> set is. \<forall>h. (j, h) \<notin> set (key_listeners ?d)" using Cons.prems by (auto simp: effect_setup_def)
  then show ?case using Cons.IH [of ?d] Cons.prems by (simp add: effect_setup_def List.member_iff)
qed simp

definition all_fresh :: "dialog list \<Rightarrow> dialog list \<Rightarrow> bool" where
  \<comment> \<open>the page passes new functions at every render, as an arrow function in the markup does\<close>
  "all_fresh old new \<longleftrightarrow> length old \<le> length new \<and>
     list_all (\<lambda>i. dg_onClose (old ! i) \<noteq> dg_onClose (new ! i)) [0..<length old]"

lemma commit_in_step:
  assumes i: "in_step s" and f: "all_fresh (mounted s) new"
  shows "in_step (commit s new)"
proof -
  let ?old = "mounted s"
  have again: "filter (reruns ?old new) [0..<length new] = [0..<length new]"
    unfolding filter_id_conv
  proof
    show "reruns ?old new j" if "j \<in> set [0..<length new]" for j
      using f by (cases "j < length ?old") (force simp: reruns_def all_fresh_def list_all_iff)+
  qed
  have olds: "filter (\<lambda>i. i < length ?old) [0..<length new] = [0..<length ?old]"
  proof -
    have "[0..<length new] = [0..<length ?old] @ [length ?old..<length new]"
      using f upt_add_eq_append [of 0 "length ?old" "length new - length ?old"] by (simp add: all_fresh_def)
    moreover have "filter (\<lambda>i. i < length ?old) [length ?old..<length new] = []" by (simp add: filter_empty_conv)
    moreover have "filter (\<lambda>i. i < length ?old) [0..<length ?old] = [0..<length ?old]" by (simp add: filter_id_conv)
    ultimately show ?thesis by simp
  qed
  let ?d1 = "foldl (\<lambda>d i. effect_cleanup i (?old ! i) d) (doc s) [0..<length ?old]"
  have d1: "key_listeners ?d1 = []" "\<not> scroll_locked ?d1"
    using i by (auto simp: cleanup_run in_step_def open_listeners_def filter_empty_conv)
  have c: "commit s new = \<lparr>mounted = new, doc = foldl (\<lambda>d i. effect_setup i (new ! i) d) ?d1 [0..<length new]\<rparr>"
    by (simp only: commit_def Let_def again olds)
  have "list_ex (\<lambda>i. dg_open (new ! i)) [0..<length new] = list_ex dg_open new"
    by (force simp: list_ex_iff in_set_conv_nth)
  then show ?thesis unfolding c using d1 setup_run [of "[0..<length new]" ?d1 new]
    by (simp add: in_step_def open_listeners_def)
qed

text \<open>With new functions at every render, as every page of the program passes them, the document is in step with the
  dialogs after any sequence of renders: the body is locked exactly while a dialog is open, and Escape
  calls the current \<open>onClose\<close> of every open dialog, once.\<close>

fun fresh_run :: "dialog list \<Rightarrow> dialog list list \<Rightarrow> bool" where
  "fresh_run old [] = True"
| "fresh_run old (new # renders) = (all_fresh old new \<and> fresh_run new renders)"

lemma mounted_commit [simp]: "mounted (commit s new) = new"
  by (simp add: commit_def Let_def)

lemma commits_in_step: "in_step s \<Longrightarrow> fresh_run (mounted s) renders \<Longrightarrow> in_step (run commit s renders)"
proof (induction renders arbitrary: s)
  case (Cons new renders)
  then show ?case using commit_in_step [of s new] by simp
qed simp

theorem dialogs_share_document:
  assumes "fresh_run [] renders"
  shows "in_step (run commit no_dialogs renders)"
proof -
  have "in_step no_dialogs" by (simp add: in_step_def no_dialogs_def open_listeners_def)
  then show ?thesis using commits_in_step [of no_dialogs renders] assms by (simp add: no_dialogs_def)
qed

theorem dialogs_share_document_witness:
  "press_escape (run commit no_dialogs
     [[\<lparr>dg_open = False, dg_onClose = 1\<rparr>, \<lparr>dg_open = False, dg_onClose = 2\<rparr>],
      [\<lparr>dg_open = True, dg_onClose = 3\<rparr>, \<lparr>dg_open = True, dg_onClose = 4\<rparr>]]) = [3, 4]"
proof -
  let ?r = "[[\<lparr>dg_open = False, dg_onClose = 1\<rparr>, \<lparr>dg_open = False, dg_onClose = 2\<rparr>],
      [\<lparr>dg_open = True, dg_onClose = 3\<rparr>, \<lparr>dg_open = True, dg_onClose = 4\<rparr>]]"
  have "fresh_run [] ?r" by (simp add: all_fresh_def upt_rec)
  from dialogs_share_document [OF this] show ?thesis
    by (simp add: in_step_def press_escape_def open_listeners_def upt_rec)
qed

text \<open>The components themselves do not keep the lock: with functions that stay the same, as \<open>useCallback\<close> makes them, the
  clean-up of the dialog that closes takes the lock of the one that stays open.\<close>

theorem stable_handlers_unlock:
  "let s = run commit no_dialogs
     [[\<lparr>dg_open = True, dg_onClose = 1\<rparr>, \<lparr>dg_open = True, dg_onClose = 2\<rparr>],
      [\<lparr>dg_open = True, dg_onClose = 1\<rparr>, \<lparr>dg_open = False, dg_onClose = 2\<rparr>]]
   in list_ex dg_open (mounted s) \<and> \<not> scroll_locked (doc s) \<and> press_escape s = [1]"
  by code_simp

end
