(* ===== verification/Build_Config.thy ===== *)
theory Build_Config
  imports Js_String
begin

text \<open>
  The parts of the build configuration that compute or have to agree with something: the assignment of
  modules to chunks in \<open>vite.config.ts\<close>, and the colours of \<open>tailwind.config.js\<close> with the variables that
  \<open>src/index.css\<close> defines for the light and the dark mode.
\<close>

subsection \<open>Chunks\<close>

definition manualChunks :: "jsstring \<Rightarrow> jsstring option" where
  "manualChunks path =
     (if str_includes path ''node_modules'' then
        if str_includes path ''react'' \<or> str_includes path ''react-dom'' \<or> str_includes path ''react-router'' then Some ''vendor-react''
        else if str_includes path ''recharts'' then Some ''vendor-recharts''
        else if str_includes path ''framer-motion'' then Some ''vendor-motion''
        else if str_includes path ''@radix-ui'' then Some ''vendor-radix''
        else if str_includes path ''@tanstack'' then Some ''vendor-tanstack''
        else if str_includes path ''lucide-react'' then Some ''vendor-icons''
        else Some ''vendor-common''
      else None)"

lemma starts_with_drop: "starts_with s (a @ b) \<Longrightarrow> starts_with (drop (length a) s) b"
proof (induction a arbitrary: s)
  case (Cons c a)
  then show ?case by (cases s) auto
qed simp

lemma str_includes_drop: "str_includes (drop n s) q \<Longrightarrow> str_includes s q"
proof (induction s arbitrary: n)
  case (Cons c s)
  then show ?case by (cases n) auto
qed simp

lemma starts_with_includes: "starts_with s q \<Longrightarrow> str_includes s q"
  by (cases s) (auto elim: starts_with.elims)

lemma str_includes_suffix: "str_includes s (a @ b) \<Longrightarrow> str_includes s b"
proof (induction s)
  case (Cons c s)
  show ?case
  proof (cases "starts_with (c # s) (a @ b)")
    case True
    then show ?thesis using starts_with_drop str_includes_drop starts_with_includes by blast
  qed (use Cons in simp)
next
  case Nil
  then show ?case by simp
qed

text \<open>The icons never get the chunk that is meant for them: their package has \<open>react\<close> in its name, and that is
  asked first, so \<open>vendor-icons\<close> is never built.\<close>

theorem icons_never_split: "manualChunks path \<noteq> Some ''vendor-icons''"
  using str_includes_suffix [of path "''lucide-''" "''react''"] by (auto simp: manualChunks_def)

definition dependencies :: "jsstring list" where
  \<comment> \<open>the packages the client is built from\<close>
  "dependencies =
     [''@hookform/resolvers'', ''@radix-ui/react-avatar'', ''@radix-ui/react-dialog'', ''@radix-ui/react-dropdown-menu'',
      ''@radix-ui/react-label'', ''@radix-ui/react-slot'', ''@tanstack/react-query'', ''axios'', ''clsx'', ''date-fns'',
      ''framer-motion'', ''lucide-react'', ''react'', ''react-dom'', ''react-error-boundary'', ''react-hook-form'',
      ''react-hot-toast'', ''react-is'', ''react-router'', ''recharts'', ''tailwind-merge'', ''zod'', ''zustand'']"

definition package_chunk :: "jsstring \<Rightarrow> jsstring option" where
  "package_chunk p = manualChunks (''/app/node_modules/'' @ p @ ''/dist/index.js'')"

text \<open>Of the packages the client depends on, all of \<open>@radix-ui\<close> and \<open>@tanstack\<close> and the icons are in the chunk of the framework,
  so that three of the seven chunks the configuration names stay empty.\<close>

theorem chunks_of_dependencies:
  "filter (\<lambda>p. package_chunk p = Some ''vendor-react'') dependencies =
     filter (\<lambda>p. str_includes p ''react'') dependencies \<and>
   remdups (map package_chunk dependencies) =
     [Some ''vendor-motion'', Some ''vendor-react'', Some ''vendor-recharts'', Some ''vendor-common'']"
  by code_simp

subsection \<open>Design tokens\<close>

definition theme_colors :: "(jsstring \<times> (jsstring \<times> jsstring) list) list" where
  \<comment> \<open>a colour with its shades and the variable of each\<close>
  "theme_colors =
     [(''border'', [(''DEFAULT'', ''--border'')]), (''input'', [(''DEFAULT'', ''--input'')]), (''ring'', [(''DEFAULT'', ''--ring'')]),
      (''background'', [(''DEFAULT'', ''--background'')]), (''foreground'', [(''DEFAULT'', ''--foreground'')]),
      (''primary'', [(''DEFAULT'', ''--primary''), (''foreground'', ''--primary-foreground'')]),
      (''secondary'', [(''DEFAULT'', ''--secondary''), (''foreground'', ''--secondary-foreground'')]),
      (''destructive'', [(''DEFAULT'', ''--destructive''), (''foreground'', ''--destructive-foreground'')]),
      (''muted'', [(''DEFAULT'', ''--muted''), (''foreground'', ''--muted-foreground'')]),
      (''accent'', [(''DEFAULT'', ''--accent''), (''foreground'', ''--accent-foreground'')]),
      (''popover'', [(''DEFAULT'', ''--popover''), (''foreground'', ''--popover-foreground'')]),
      (''card'', [(''DEFAULT'', ''--card''), (''foreground'', ''--card-foreground'')])]"

definition radius_variables :: "jsstring list" where
  \<comment> \<open>the variable of the three corner radii\<close>
  "radius_variables = [''--radius'', ''--radius'', ''--radius'']"

definition mode_colors :: "jsstring list" where
  "mode_colors =
     [''--background'', ''--foreground'', ''--card'', ''--card-foreground'', ''--popover'', ''--popover-foreground'', ''--primary'',
      ''--primary-foreground'', ''--secondary'', ''--secondary-foreground'', ''--muted'', ''--muted-foreground'', ''--accent'',
      ''--accent-foreground'', ''--destructive'', ''--destructive-foreground'', ''--border'', ''--input'', ''--ring'']"

definition root_variables :: "jsstring list" where
  "root_variables = mode_colors @ [''--radius'']"

definition dark_variables :: "jsstring list" where
  "dark_variables = mode_colors"

definition variable_of :: "jsstring \<Rightarrow> jsstring \<Rightarrow> jsstring" where
  \<comment> \<open>the name a colour and shade should have\<close>
  "variable_of color shade = ''--'' @ color @ (if shade = ''DEFAULT'' then [] else ''-'' @ shade)"

text \<open>The theme and the style sheet agree: every shade uses the variable of its own name, every variable a
  colour uses is defined in both modes, every variable defined is used, and the radius, which
  the dark mode does not define, is inherited.\<close>

theorem design_tokens_complete:
  "list_all (\<lambda>(c, shades). list_all (\<lambda>(s, v). v = variable_of c s \<and> List.member root_variables v \<and> List.member dark_variables v) shades)
     theme_colors \<and>
   list_all (List.member root_variables) radius_variables \<and>
   list_all (\<lambda>v. list_ex (\<lambda>(c, shades). list_ex (\<lambda>(s, w). w = v) shades) theme_colors) mode_colors \<and>
   distinct root_variables"
  by code_simp

end
