(* ===== verification/E2e_Tests.thy ===== *)
theory E2e_Tests
  imports App_Routes Login_Page Landing_Page
begin

text \<open>
  The end-to-end tests, \<open>e2e/app.spec.ts\<close>, as statements about the model, for a visitor who is not signed in. Each
  definition is one test; \<open>page.goto\<close> is the route the router settles on, a locator selects elements of the
  rendered tree by name and type, and filling a field calls its handler with the text.
\<close>

fun elements :: "jsstring \<Rightarrow> 'a node \<Rightarrow> 'a node list" where
  "elements t (El n as cs) = (if n = t then [El n as cs] else []) @ concat (map (elements t) cs)"
| "elements t (Txt s) = []"
| "elements t (Num n) = []"
| "elements t (Icon i) = []"

fun type_of :: "'a attr list \<Rightarrow> jsstring option" where
  "type_of [] = None"
| "type_of (Attr n v # as) = (if n = ''type'' then Some v else type_of as)"
| "type_of (_ # as) = type_of as"

definition field_handlers :: "jsstring \<Rightarrow> 'a node \<Rightarrow> (jsstring \<Rightarrow> 'a) list" where
  \<comment> \<open>the handlers of the input elements of a type\<close>
  "field_handlers typ tree =
     concat (map (\<lambda>n. case n of El t as cs \<Rightarrow> if type_of as = Some typ then attr_inputs as else [] | _ \<Rightarrow> []) (elements ''input'' tree))"

definition visitor_view :: "login_page \<Rightarrow> frame \<times> app_page \<Rightarrow> login_action layout_action node option" where
  \<comment> \<open>the two pages a visitor can come to by these tests\<close>
  "visitor_view s fp =
     (if fp = (Bare, LandingPage) then Some landing_view
      else if fp = (GuestFrame, LoginScreen) then Some (guest_layout (login_view s))
      else None)"

definition goto :: "auth_state \<Rightarrow> login_page \<Rightarrow> jsstring \<Rightarrow> jsstring \<times> login_action layout_action node option" where
  "goto a s loc = (let r = follow a loc in (fst r, visitor_view s (snd r)))"

definition h1_contains :: "jsstring list \<Rightarrow> 'a node option \<Rightarrow> bool" where
  \<comment> \<open>\<open>toContainText\<close> of a pattern that is a choice of words, without regard to case\<close>
  "h1_contains alternatives tree =
     (case tree of None \<Rightarrow> False
      | Some n \<Rightarrow> list_ex (\<lambda>h. list_ex (str_includes (toLowerCase (concat (texts h)))) alternatives) (elements ''h1'' n))"

definition test_redirects_to_login :: "auth_state \<Rightarrow> login_page \<Rightarrow> bool" where
  "test_redirects_to_login a s =
     (let (loc, tree) = goto a s ''/'' in str_includes loc ''/login'' \<and> h1_contains [''sign in'', ''welcome''] tree)"

definition fill :: "jsstring \<Rightarrow> jsstring \<Rightarrow> login_page \<Rightarrow> login_page" where
  "fill typ t s = foldl (\<lambda>s h. login_act (\<lambda>_. True) s (h t)) s (field_handlers typ (login_view s))"

definition test_fills_credentials :: "auth_state \<Rightarrow> login_page \<Rightarrow> bool" where
  "test_fills_credentials a s =
     (fst (goto a s ''/login'') = ''/login'' \<and>
      (let s' = fill ''password'' ''Password123!'' (fill ''email'' ''customer@cloudscale.io'' s)
       in lf_email (lp_form s') = ''customer@cloudscale.io'' \<and> lf_password (lp_form s') = ''Password123!''))"

definition test_unauthorized :: "auth_state \<Rightarrow> login_page \<Rightarrow> bool" where
  "test_unauthorized a s = h1_contains [''sign in'', ''unauthorized'', ''403'', ''welcome''] (snd (goto a s ''/unauthorized''))"

text \<open>Two of the three tests fail: the first page is the landing page, which is public, and the login page, where the third
  test ends, has no heading of the first level. The credentials can be filled in.\<close>

lemma follow_landing: "follow a ''/'' = (''/'', Bare, LandingPage)"
  by (subst follow.simps) (simp add: match_route_def routes_def)

lemma follow_login: "follow a ''/login'' = (''/login'', GuestFrame, LoginScreen)"
  by (subst follow.simps) (simp add: match_route_def routes_def)

lemma follow_unauthorized: "\<not> isAuthenticated a \<Longrightarrow> follow a ''/unauthorized'' = (''/login'', GuestFrame, LoginScreen)"
  by (subst follow.simps) (simp add: match_route_def routes_def protected_route_def follow_login)

lemma login_has_no_h1: "elements ''h1'' (guest_layout (login_view s)) = []"
proof -
  have m: "elements t (map_node f n) = map (map_node f) (elements t n)" for t f and n :: "login_action node"
    by (induction n) (simp_all add: map_concat o_def cong: map_cong)
  show ?thesis
    by (simp add: guest_layout_def m) (auto simp: login_view_def login_field_def show_if_def show_some_def split: option.split)
qed

theorem end_to_end_tests:
  assumes "\<not> isAuthenticated a"
  shows "\<not> test_redirects_to_login a s \<and> test_fills_credentials a (mount_login c) \<and> \<not> test_unauthorized a s"
proof -
  have "\<not> test_redirects_to_login a s" by (simp add: test_redirects_to_login_def goto_def follow_landing)
  moreover have "test_fills_credentials a (mount_login c)"
    by (simp add: test_fills_credentials_def goto_def follow_login fill_def field_handlers_def mount_login_def login_view_def
        login_field_def show_if_def show_some_def truthy_def)
  moreover have "\<not> test_unauthorized a s"
    by (simp add: test_unauthorized_def goto_def follow_unauthorized [OF assms] visitor_view_def h1_contains_def login_has_no_h1)
  ultimately show ?thesis by blast
qed

end
