(* ===== verification/Spec2Isabelle.thy ===== *)
theory Spec2Isabelle
  imports Cart_Page Web_Socket Fuzzy_Search Text_Security Pagination Virtualizer App_Config I18n Ui_Widgets Ui_Overlays
    Checkout Data_Table Command_Palette Login_Page App_Routes App_Shell Virtual_Table Catalog_Page Data_Pages Tenant_Page
    Dashboard_Page Showcase Shopping Secure_Storage Service_Worker Telemetry Document_Head Landing_Page
    Page_Loading Money Dates Site Live_Feed Call_Protocol Crash_Reports Unit_Tests Stories
    Saga_Runs Saga_Startup Api_Contract Auth_Limits Dialog_Effects Build_Config E2e_Tests
begin

text \<open>
  A model of the CloudScale Commerce client, the TypeScript program under \<open>src/frontend/src\<close>: a React
  application with zustand stores, an HTTP client with token rotation, a WebSocket client, translated
  texts, a kit of user interface components and the pages built from them; and of the part of the Python services behind it
  that has a protocol of its own, the order saga and the auth service (\<open>src/services\<close>, \<open>src/shared/python\<close>). This theory imports
  the others and holds nothing but this overview; each theory opens with what it models.

  \<^bold>\<open>How the program is modelled.\<close> A store or the state of a component is a record; a handler or an
  operation is a function from the old state to the new one, named as in the source; a component reacts
  to a list of events, one at a time, as the browser's event loop runs its handlers (\<open>run\<close> in
  \<open>Prelude\<close>). What happens outside the program (answers of the server, timers, clicks, sockets) are
  events, so that a theorem about all lists of events is one about all their orders and interleavings; an
  asynchronous handler is split at the points where it waits, and the state records what it waits for.
  What a component renders is a tree (\<open>Jsx\<close>) whose event handlers are named by the component's own
  actions. Numbers are doubles: rationals with every operation rounded (\<open>Js_Number\<close>), without
  infinities and, except where a text is read as a number, without NaN. Strings are lists of Latin-1
  characters (\<open>Js_String\<close>), in \<open>Secure_Storage\<close> of 16 bit code units. Sorting is the stable sort the language demands (\<open>Js_Sort\<close>).

  \<^bold>\<open>The theories and the sources.\<close>

  \<^item> Foundations: \<open>Prelude\<close> (runs, the interfaces \<open>state_machine\<close> and \<open>membership_toggle\<close>), \<open>Js_String\<close>, \<open>Js_Number\<close>
    (rounding is monotone and exact on doubles; the interface \<open>rounding\<close>), \<open>Js_Sort\<close> (the interface
    \<open>consistent_comparator\<close>: sorted, a permutation, stable, unique), \<open>Jsx\<close>.
  \<^item> Stores (\<open>stores/\<close>): \<open>Cart_Store\<close> (\<open>cartStore.ts\<close>: invariant, refinement of a map, bounds of the totals),
    \<open>Small_Stores\<close> (wishlist, recent searches, tenant, sidebar, theme), \<open>Notifications\<close>
    (\<open>notificationStore.ts\<close> and the toasts of \<open>components/ui/Toast.tsx\<close>, with their timers).
  \<^item> Library (\<open>lib/\<close>): \<open>Error_Mapper\<close> (\<open>errorMapper.ts\<close>), \<open>Api_Client\<close> (\<open>api-client.ts\<close> and \<open>authStore.ts\<close>: calls,
    interceptors, the queue of the token rotation), \<open>Web_Socket\<close> (\<open>websocket.ts\<close>), \<open>App_Config\<close>
    (\<open>config.ts\<close>), \<open>Fuzzy_Search\<close> (\<open>fuzzySearch.ts\<close>), \<open>Text_Security\<close> and \<open>Secure_Storage\<close>
    (\<open>security.ts\<close>; the checksum on 32 bit words, UTF-8 of 16 bit code units), \<open>Service_Worker\<close> (\<open>registerSW.ts\<close> and
    \<open>public/sw.js\<close>), \<open>Telemetry\<close> (\<open>observability.ts\<close>), \<open>Money\<close> and \<open>Dates\<close> (\<open>formatCurrency\<close> and \<open>formatDate\<close> of \<open>utils.ts\<close>), and \<open>I18n\<close> (\<open>i18n/\<close>, with both tables of texts).
  \<^item> Components (\<open>components/\<close>): \<open>Ui_Fields\<close>, \<open>Ui_Widgets\<close>, \<open>Ui_Overlays\<close> (the kit \<open>ui/\<close>), \<open>Pagination\<close>, \<open>Virtualizer\<close>
    (\<open>hooks/useVirtualizer.ts\<close>), \<open>Data_Table\<close> and \<open>Virtual_Table\<close> (\<open>data/\<close>), \<open>Command_Palette\<close>, \<open>Showcase\<close>
    (\<open>ShowcasePanel.tsx\<close>), \<open>Document_Head\<close> (\<open>SEO.tsx\<close>), \<open>App_Shell\<close> (error boundaries, offline banner, tour, skeletons, root component).
  \<^item> Pages (\<open>pages/\<close>): \<open>Cart_Page\<close>, \<open>Checkout\<close>, \<open>Login_Page\<close>, \<open>Catalog_Page\<close>, \<open>Data_Pages\<close> (orders, users, inventory),
    \<open>Tenant_Page\<close>, \<open>Dashboard_Page\<close> (both dashboards), \<open>Landing_Page\<close> (with \<open>truncate\<close> of \<open>lib/utils.ts\<close>), and \<open>App_Routes\<close> (\<open>App.tsx\<close>, the guard, the
    layouts, the keyboard shortcuts, the pages for missing and forbidden locations).
  \<^item> Compositions: \<open>Service_Worker\<close> puts the worker between the configuration and the network; \<open>App_Routes\<close> runs router, guard, palette and auth store together; \<open>Login_Page\<close> runs the page on
    the HTTP client; \<open>Shopping\<close> runs the catalog, the cart and the checkout page on their shared stores;
    \<open>Site\<close> runs the session of \<open>App_Routes\<close> and the pages of \<open>Shopping\<close> as one system, with reloads and a change of
    user; \<open>Live_Feed\<close> puts the notification store behind the socket; \<open>Page_Loading\<close> puts lazily loaded pages and
    the retry boundary around the route table and gives the tree of the whole application; \<open>Crash_Reports\<close> joins the error
    boundary and the log of \<open>Telemetry\<close>; \<open>Dialog_Effects\<close> runs the effects of several dialogs on one document; \<open>Api_Contract\<close>
    puts the requests of the pages before the routes and bodies of the services, and the checkout page on their answers.
  \<^item> Specification: \<open>Call_Protocol\<close> states what the HTTP client promises its pages as an inductive step relation on
    promises and shows that every run of \<open>Api_Client\<close> is a run of it.
  \<^item> The order saga: \<open>Broker\<close> (\<open>cloudscale_shared\<close>: events, outbox, inbox, retries; the interface \<open>inbox_consumer\<close>, under
    which repeated deliveries are as good as one), \<open>Inventory_Service\<close>, \<open>Payment_Service\<close>, \<open>Order_Service\<close> (the handlers, the
    requests and the sweeper of \<open>services/*/app\<close>), \<open>Order_Transactions\<close> (its handlers and batches as transactions that read,
    wait and commit what they changed), \<open>Order_Saga\<close> (the three services with workers, consumers and sweeper in any
    interleaving, in which transactions of the order service overlap), \<open>Saga_Facts\<close> (the lifecycle of an order as a relation between statuses, rows and messages),
    \<open>Saga_Invariant\<close> (a rule for steps; the chain of causes), \<open>Saga_Orders\<close> (lines and statuses), \<open>Saga_Stock\<close> (the invariant of
    the whole and the stock), \<open>Saga_Delivery\<close> (outbox, redelivery, the sweeper as one pass), \<open>Saga_Runs\<close> (the promises and where
    they break), \<open>Saga_Startup\<close> (\<open>main.py\<close>: as the services start, none of it runs).
  \<^item> The auth service (\<open>services/auth/app\<close>, \<open>security.py\<close>): \<open>Auth_Service\<close> (signing in, rotation, signing out, tokens and
    their revocation, with the points where a handler waits for Redis), \<open>Auth_Limits\<close> (the bounds of the lockout and of the rate
    limiter; revoked tokens stay refused; where requests overtake each other).
  \<^item> Checks of the model: \<open>Unit_Tests\<close> states the unit tests of the repository about the model, \<open>E2e_Tests\<close> the end-to-end tests, \<open>Stories\<close> the
    component catalogue; \<open>Build_Config\<close> checks the chunks and the design tokens of the build configuration.

  \<^bold>\<open>What the lemmas show.\<close> For each store and page, an invariant of all its runs, mostly by an interpretation
  of \<open>state_machine\<close>; for each operation with a result, what it returns on every branch; and the
  contracts between components: the item list refines a map, the six escaping passes equal one, a table
  shows the sorted matching rows page by page without loss, the windows of the virtualizer cover the
  viewport, exports and stored values can be read back, every location settles on a page, an
  unauthenticated visitor sees no page of the application, no call of the HTTP client is lost or
  settled twice except in the state the client cannot leave, every order sent names each product once
  with a positive quantity, an order is charged at most once and confirmed only when it is paid and its stock was reserved, its status moves along
  the arrows of the saga while the transactions of the order service do not overlap,
  no unit of stock is made or lost, guesses of a password are bounded, a revoked token stays refused, the notifications shown are those received, once and in order, the text of an
  amount reads back as the amount, and the text of a date names the local day. Where the program does not do what it means to, the theorem says what it
  does: the wedged token rotation and the login page that hangs on it, the
  reconnection after \<open>disconnect\<close>, the cart emptied by a late answer, messages of the catalog, tables that
  search and export the text of an object, stock that is sold twice, confirmations and cancellations overwritten by
  transactions that overlap, nine guesses of a password at the seam of two windows, payments that come early and are lost, an outbox that gives up,
  a saga that does not start, an interface under which no order can succeed, refresh tokens rotated twice or left after signing out, raw keys for order states, kill switches frozen in the cache of the
  service worker, pages that no retry brings back, the cart and the draft left to the next user, and others.

  \<^bold>\<open>Parameters.\<close> Code outside the sources is an argument of the definitions that use it: the collation of
  \<open>localeCompare\<close> (used through \<open>consistent_comparator\<close>, which the language demands of it), the texts of
  \<open>Intl\<close> formats on the pages (\<open>Money\<close> and \<open>Dates\<close> give them for amounts and days, amounts as the specification rounds them, from which engines differ on decimal ties), how a string is read as a time, the time zone, the text of a number, the email test of the form library, what \<open>JSON.parse\<close> gives,
  identifiers and clock readings; in \<open>Api_Contract\<close> the web framework, of which \<open>documented\<close> states how it
  routes, in which order it looks at the body and calls the guard, and that it hands an exception to the handler the service has
  registered for it; the guard and the handlers are the repository's and modelled. No other hypotheses are made about them.

  \<^bold>\<open>Termination and bounds.\<close> No definition uses fuel. Loops are recursive functions with a measure (the rounding's
  exponent, the toasts left to remove, the open orders left to sweep, the years up to the day, the redirect that leads to a page without one); the bounds in
  theorems are those of the code (eight recent searches, five reconnections, the limits of an upload, the
  page sizes) or of the doubles (\<open>2 ^ 53\<close> rows, exact multiples of the row height).

  \<^bold>\<open>Not modelled.\<close> Class names, styles, animations and React keys; dates before the first year; the code of the persistence middleware
  (what it keeps over a reload is in \<open>Site\<close>) and of the query client, which no page uses; the services for products and
  notifications, subscriptions and invoices, transactions of the inventory and payment services and of placing an order that overlap
  (each is one step; only those of the order service that read a status and write it back are split), and circuit breakers, caches and tracing of the backend, so that for the client the
  answers of every service are events; deployment. A component is followed while it is mounted; what outlives its page is modelled where
  it changes a store (\<open>Shopping\<close>, \<open>Tenant_Page\<close>).
\<close>

end
